(* ===== verification/JsPrelude.thy ===== *)
theory JsPrelude
  imports Complex_Main "HOL-Library.Multiset" "HOL-Library.Char_ord" "HOL-Library.List_Lexorder"
begin

text \<open>
  The part of the ECMAScript standard library the modelled modules rest on: stable sorting with a
  comparator, \<open>new Set\<close>, insertion-ordered \<open>Map\<close>, string operations, code-unit and locale
  comparison, and the \<open>throw\<close>-or-return result type. Strings are lists of 8-bit code units and
  the case mappings are those of the ASCII letters. Every theory of the development imports this one.
\<close>

named_theorems js_simps \<open>evaluation of the library operations on closed arguments\<close>
named_theorems js_set \<open>the elements of the lists the library operations return\<close>

section \<open>Results\<close>

text \<open>A function that may throw returns \<open>Inl\<close> the error or \<open>Inr\<close> the value.\<close>

type_synonym ('e, 'a) result = "'e + 'a"

definition or_else :: "'a option \<Rightarrow> 'a \<Rightarrow> 'a" where
  \<comment> \<open>\<open>x ?? y\<close>\<close>
  "or_else x y = (case x of None \<Rightarrow> y | Some v \<Rightarrow> v)"

definition opt_else :: "'a option \<Rightarrow> 'a option \<Rightarrow> 'a option" where
  \<comment> \<open>\<open>x ?? y\<close> where \<open>y\<close> may be null as well\<close>
  "opt_else x y = (case x of None \<Rightarrow> y | Some v \<Rightarrow> Some v)"

lemma or_else_simps [simp, js_simps]: "or_else None y = y" "or_else (Some v) y = v"
  by (simp_all add: or_else_def)

lemma opt_else_simps [simp, js_simps]: "opt_else None y = y" "opt_else (Some v) y = Some v"
  by (simp_all add: opt_else_def)

lemma opt_else_eq_None [simp]: "opt_else x y = None \<longleftrightarrow> x = None \<and> y = None"
  by (cases x) auto

fun map_result :: "('a \<Rightarrow> ('e, 'b) result) \<Rightarrow> 'a list \<Rightarrow> ('e, 'b list) result" where
  \<comment> \<open>\<open>xs.map(f)\<close> where \<open>f\<close> may throw\<close>
  "map_result f [] = Inr []"
| "map_result f (x # xs) =
     (case f x of Inl e \<Rightarrow> Inl e
      | Inr y \<Rightarrow> (case map_result f xs of Inl e \<Rightarrow> Inl e | Inr ys \<Rightarrow> Inr (y # ys)))"

definition then_do :: "('e, 'a) result \<Rightarrow> ('a \<Rightarrow> ('e, 'b) result) \<Rightarrow> ('e, 'b) result" where
  \<comment> \<open>what follows a call that may throw\<close>
  "then_do r f = (case r of Inl e \<Rightarrow> Inl e | Inr x \<Rightarrow> f x)"

lemma then_do_Inr: "then_do r f = Inr y \<longleftrightarrow> (\<exists>x. r = Inr x \<and> f x = Inr y)"
  by (cases r) (auto simp: then_do_def)

lemma map_result_Inr:
  "(\<And>x. x \<in> set xs \<Longrightarrow> f x = Inr (g x)) \<Longrightarrow> map_result f xs = Inr (map g xs)"
  by (induction xs) auto

lemma map_result_dest:
  assumes "map_result f xs = Inr ys"
  shows "list_all2 (\<lambda>x y. f x = Inr y) xs ys"
  using assms by (induction xs arbitrary: ys) (auto split: sum.splits)

lemma map_result_total:
  "(\<And>x. x \<in> set xs \<Longrightarrow> \<exists>y. f x = Inr y) \<Longrightarrow> \<exists>ys. map_result f xs = Inr ys"
  by (induction xs) (auto, force)

definition or_compare :: "int \<Rightarrow> int \<Rightarrow> int" where
  \<comment> \<open>\<open>a || b\<close>\<close>
  "or_compare a b = (if a = 0 then b else a)"

fun fold_result :: "('s \<Rightarrow> 'a \<Rightarrow> ('e, 's) result) \<Rightarrow> 's \<Rightarrow> 'a list \<Rightarrow> ('e, 's) result" where
  \<comment> \<open>\<open>for (const x of xs) s = f(s, x)\<close> where \<open>f\<close> may throw\<close>
  "fold_result f s [] = Inr s"
| "fold_result f s (x # xs) = (case f s x of Inl e \<Rightarrow> Inl e | Inr s' \<Rightarrow> fold_result f s' xs)"

lemma fold_result_inv:
  assumes "fold_result f s xs = Inr t" and "P s" and "\<And>x s s'. x \<in> set xs \<Longrightarrow> P s \<Longrightarrow> f s x = Inr s' \<Longrightarrow> P s'"
  shows "P t"
  using assms
proof (induction xs arbitrary: s)
  case (Cons x xs)
  then obtain s' where s': "f s x = Inr s'" "fold_result f s' xs = Inr t" by (auto split: sum.splits)
  have "P s'" by (rule Cons.prems(3) [OF _ Cons.prems(2) s'(1)]) simp
  then show ?case by (rule Cons.IH [OF s'(2)]) (use Cons.prems(3) in auto)
qed simp

section \<open>\<open>Array.prototype.sort\<close>\<close>

text \<open>
  \<open>sort\<close> is stable; a comparator is a function into the integers, of which only the sign counts.
  For a consistent comparator the sorted list is unique, and insertion sort computes it.
\<close>

fun insert_by :: "('a \<Rightarrow> 'a \<Rightarrow> int) \<Rightarrow> 'a \<Rightarrow> 'a list \<Rightarrow> 'a list" where
  "insert_by cmp x [] = [x]"
| "insert_by cmp x (y # ys) = (if cmp x y \<le> 0 then x # y # ys else y # insert_by cmp x ys)"

fun js_sort :: "('a \<Rightarrow> 'a \<Rightarrow> int) \<Rightarrow> 'a list \<Rightarrow> 'a list" where
  "js_sort cmp [] = []"
| "js_sort cmp (x # xs) = insert_by cmp x (js_sort cmp xs)"

lemma mset_insert_by [simp]: "mset (insert_by cmp x xs) = add_mset x (mset xs)"
  by (induction xs) auto

lemma mset_js_sort [simp]: "mset (js_sort cmp xs) = mset xs"
  by (induction xs) auto

lemma set_js_sort [simp, js_set]: "set (js_sort cmp xs) = set xs"
  by (metis mset_js_sort set_mset_mset)

lemma length_js_sort [simp]: "length (js_sort cmp xs) = length xs"
  by (metis mset_js_sort size_mset)

lemma distinct_js_sort [simp]: "distinct (js_sort cmp xs) = distinct xs"
  by (metis mset_js_sort mset_eq_imp_distinct_iff)

lemma js_sort_eq_Nil [simp]: "js_sort cmp xs = [] \<longleftrightarrow> xs = []"
  by (metis length_0_conv length_js_sort)

text \<open>What ECMAScript asks of a comparator for \<open>sort\<close> to be specified.\<close>

locale comparator =
  fixes cmp :: "'a \<Rightarrow> 'a \<Rightarrow> int"
  assumes cmp_refl: "cmp x x = 0"
    and cmp_flip: "0 < cmp x y \<longleftrightarrow> cmp y x < 0"
    and cmp_trans: "cmp x y \<le> 0 \<Longrightarrow> cmp y z \<le> 0 \<Longrightarrow> cmp x z \<le> 0"
begin

lemma cmp_total: "cmp x y \<le> 0 \<or> cmp y x \<le> 0"
  using cmp_flip by (meson less_imp_le linorder_not_le)

lemma cmp_not_le: "\<not> cmp x y \<le> 0 \<Longrightarrow> cmp y x \<le> 0"
  using cmp_total by blast

lemma sorted_insert_by:
  "sorted_wrt (\<lambda>x y. cmp x y \<le> 0) xs \<Longrightarrow> sorted_wrt (\<lambda>x y. cmp x y \<le> 0) (insert_by cmp x xs)"
proof (induction xs)
  case Nil
  then show ?case by simp
next
  case (Cons y ys)
  have set_ins: "set (insert_by cmp x ys) = insert x (set ys)"
    by (metis mset_insert_by set_mset_add_mset_insert set_mset_mset)
  show ?case
    using Cons by (auto simp: set_ins dest: cmp_not_le intro: cmp_trans)
qed

lemma sorted_js_sort: "sorted_wrt (\<lambda>x y. cmp x y \<le> 0) (js_sort cmp xs)"
  by (induction xs) (auto intro: sorted_insert_by)

lemma js_sort_head_le:
  assumes "js_sort cmp xs = y # ys" and "z \<in> set xs"
  shows "cmp y z \<le> 0"
proof -
  from assms(2) have "z \<in> set (y # ys)"
    by (metis assms(1) set_js_sort)
  then show ?thesis
    using sorted_js_sort [of xs] cmp_refl [of y] by (auto simp: assms(1))
qed

text \<open>Two sorted permutations agree when the comparator separates their elements.\<close>

lemma sorted_unique:
  assumes "sorted_wrt (\<lambda>x y. cmp x y \<le> 0) xs" and "sorted_wrt (\<lambda>x y. cmp x y \<le> 0) ys"
    and "mset xs = mset ys"
    and "\<And>x y. x \<in> set xs \<Longrightarrow> y \<in> set xs \<Longrightarrow> cmp x y = 0 \<Longrightarrow> x = y"
  shows "xs = ys"
  using assms
proof (induction xs arbitrary: ys)
  case Nil
  then show ?case by simp
next
  case (Cons x xs)
  then obtain y ys' where ys: "ys = y # ys'" by (cases ys) auto
  have sets: "set (x # xs) = set (y # ys')"
    using Cons.prems(3) ys by (metis set_mset_mset)
  have "x = y \<or> x \<in> set ys'" and "y = x \<or> y \<in> set xs"
    using sets by auto
  then have "cmp x y \<le> 0" and "cmp y x \<le> 0"
    using Cons.prems(1,2) cmp_refl by (auto simp: ys)
  then have "cmp x y = 0"
    using cmp_flip [of x y] cmp_flip [of y x] by linarith
  moreover have "y \<in> set (x # xs)" using sets by simp
  ultimately have xy: "x = y"
    using Cons.prems(4) [of x y] by auto
  have "xs = ys'"
    by (rule Cons.IH) (use Cons.prems xy ys in auto)
  with xy ys show ?case by simp
qed

lemma js_sort_perm:
  assumes "mset xs = mset ys"
    and "\<And>x y. x \<in> set xs \<Longrightarrow> y \<in> set xs \<Longrightarrow> cmp x y = 0 \<Longrightarrow> x = y"
  shows "js_sort cmp xs = js_sort cmp ys"
  by (rule sorted_unique) (use assms sorted_js_sort in auto)

lemma js_sort_idem: "sorted_wrt (\<lambda>x y. cmp x y \<le> 0) xs \<Longrightarrow> js_sort cmp xs = xs"
proof (induction xs)
  case Nil
  then show ?case by simp
next
  case (Cons x xs)
  then show ?case by (cases xs) auto
qed

end

lemma comparator_on: "comparator cmp \<Longrightarrow> comparator (\<lambda>a b. cmp (f a) (f b))"
  by (auto simp: comparator_def)

text \<open>Comparators combine lexicographically, and a rank is one.\<close>

lemma comparator_lex:
  assumes "comparator c1" and "comparator c2"
  shows "comparator (\<lambda>a b. if c1 a b \<noteq> 0 then c1 a b else c2 a b)"
proof
  fix x y z
  note flip1 = comparator.cmp_flip [OF assms(1)] and flip2 = comparator.cmp_flip [OF assms(2)]
  note tr1 = comparator.cmp_trans [OF assms(1), of x y z] and tr2 = comparator.cmp_trans [OF assms(2), of x y z]
  note tr1' = comparator.cmp_trans [OF assms(1)]
  show "(if c1 x x \<noteq> 0 then c1 x x else c2 x x) = 0"
    by (simp add: comparator.cmp_refl [OF assms(1)] comparator.cmp_refl [OF assms(2)])
  show "(0 < (if c1 x y \<noteq> 0 then c1 x y else c2 x y)) = ((if c1 y x \<noteq> 0 then c1 y x else c2 y x) < 0)"
    using flip1 [of x y] flip1 [of y x] flip2 [of x y] by (simp split: if_splits) linarith?
  have zero: "c1 a b = 0 \<longleftrightarrow> c1 b a = 0" for a b
    using flip1 [of a b] flip1 [of b a] by linarith
  assume le: "(if c1 x y \<noteq> 0 then c1 x y else c2 x y) \<le> 0" "(if c1 y z \<noteq> 0 then c1 y z else c2 y z) \<le> 0"
  then have le1: "c1 x y \<le> 0" "c1 y z \<le> 0"
    by (auto split: if_splits)
  have "c2 x z \<le> 0" if eq: "c1 x z = 0"
  proof -
    have zx: "c1 z x = 0" using eq zero by blast
    have "c1 y x \<le> 0" using tr1' [OF le1(2)] zx by simp
    then have "c1 x y = 0" using le1(1) flip1 [of x y] flip1 [of y x] by linarith
    moreover have "c1 z y \<le> 0" using tr1' [of z x y] zx le1(1) by simp
    then have "c1 y z = 0" using le1(2) flip1 [of y z] flip1 [of z y] by linarith
    ultimately show ?thesis using le tr2 by simp
  qed
  then show "(if c1 x z \<noteq> 0 then c1 x z else c2 x z) \<le> 0"
    using tr1 [OF le1] by simp
qed

lemma comparator_key: "comparator (\<lambda>a b. k a - k b :: int)"
  by unfold_locales auto

lemma insert_by_map:
  "(\<And>x y. cmp (g x) (g y) = cmp x y) \<Longrightarrow> insert_by cmp (g x) (map g xs) = map g (insert_by cmp x xs)"
  by (induction xs) auto

lemma js_sort_map:
  "(\<And>x y. cmp (g x) (g y) = cmp x y) \<Longrightarrow> js_sort cmp (map g xs) = map g (js_sort cmp xs)"
  by (induction xs) (simp_all add: insert_by_map)

section \<open>\<open>new Set\<close>\<close>

text \<open>\<open>[...new Set(xs)]\<close>: the elements in the order of their first occurrence.\<close>

fun uniq_acc :: "'a list \<Rightarrow> 'a list \<Rightarrow> 'a list" where
  "uniq_acc acc [] = acc"
| "uniq_acc acc (x # xs) = uniq_acc (if x \<in> set acc then acc else acc @ [x]) xs"

definition js_uniq :: "'a list \<Rightarrow> 'a list" where
  "js_uniq xs = uniq_acc [] xs"

lemma set_uniq_acc: "set (uniq_acc acc xs) = set acc \<union> set xs"
  by (induction acc xs rule: uniq_acc.induct) auto

lemma distinct_uniq_acc: "distinct acc \<Longrightarrow> distinct (uniq_acc acc xs)"
  by (induction acc xs rule: uniq_acc.induct) auto

lemma set_js_uniq [simp, js_set]: "set (js_uniq xs) = set xs"
  by (simp add: js_uniq_def set_uniq_acc)

lemma distinct_js_uniq [simp]: "distinct (js_uniq xs)"
  by (simp add: js_uniq_def distinct_uniq_acc)

lemma uniq_acc_distinct: "distinct (acc @ xs) \<Longrightarrow> uniq_acc acc xs = acc @ xs"
  by (induction acc xs rule: uniq_acc.induct) auto

lemma js_uniq_distinct [simp]: "distinct xs \<Longrightarrow> js_uniq xs = xs"
  by (simp add: js_uniq_def uniq_acc_distinct)

lemma js_uniq_eq_Nil [simp]: "js_uniq xs = [] \<longleftrightarrow> xs = []"
  by (metis set_empty set_js_uniq)

lemma mset_js_uniq: "mset (js_uniq xs) = mset_set (set xs)"
  by (metis distinct_js_uniq mset_set_set set_js_uniq)

section \<open>\<open>Map\<close>\<close>

text \<open>
  A JavaScript \<open>Map\<close> iterates in the order in which its keys were first set: an association list
  in which \<open>set\<close> overwrites in place or appends.
\<close>

type_synonym ('k, 'v) jsmap = "('k \<times> 'v) list"

fun jm_set :: "'k \<Rightarrow> 'v \<Rightarrow> ('k, 'v) jsmap \<Rightarrow> ('k, 'v) jsmap" where
  "jm_set k v [] = [(k, v)]"
| "jm_set k v ((k', v') # m) = (if k = k' then (k, v) # m else (k', v') # jm_set k v m)"

definition jm_get :: "('k, 'v) jsmap \<Rightarrow> 'k \<Rightarrow> 'v option" where
  "jm_get m k = map_of m k"

definition jm_keys :: "('k, 'v) jsmap \<Rightarrow> 'k list" where
  "jm_keys m = map fst m"

definition jm_has :: "('k, 'v) jsmap \<Rightarrow> 'k \<Rightarrow> bool" where
  "jm_has m k = (k \<in> set (jm_keys m))"

definition jm_delete :: "'k \<Rightarrow> ('k, 'v) jsmap \<Rightarrow> ('k, 'v) jsmap" where
  "jm_delete k m = filter (\<lambda>e. fst e \<noteq> k) m"

definition jm_values :: "('k, 'v) jsmap \<Rightarrow> 'v list" where
  "jm_values m = map snd m"

definition jm_size :: "('k, 'v) jsmap \<Rightarrow> nat" where
  "jm_size m = length m"

definition jm_inv :: "('k, 'v) jsmap \<Rightarrow> bool" where
  "jm_inv m = distinct (jm_keys m)"

definition jm_of_list :: "('k \<times> 'v) list \<Rightarrow> ('k, 'v) jsmap" where
  \<comment> \<open>\<open>new Map(entries)\<close>\<close>
  "jm_of_list es = fold (\<lambda>(k, v) m. jm_set k v m) es []"

lemma jm_get_set [simp]: "jm_get (jm_set k v m) k' = (if k' = k then Some v else jm_get m k')"
  by (induction m) (auto simp: jm_get_def)

lemma jm_get_Nil [simp]: "jm_get [] k = None"
  by (simp add: jm_get_def)

lemma jm_keys_simps [simp]: "jm_keys [] = []" "jm_keys (e # m) = fst e # jm_keys m"
  by (simp_all add: jm_keys_def)

lemma jm_keys_set:
  "jm_keys (jm_set k v m) = (if k \<in> set (jm_keys m) then jm_keys m else jm_keys m @ [k])"
  by (induction m) auto

lemma jm_inv_set [simp]: "jm_inv m \<Longrightarrow> jm_inv (jm_set k v m)"
  by (simp add: jm_inv_def jm_keys_set)

lemma jm_inv_Nil [simp]: "jm_inv []"
  by (simp add: jm_inv_def)

lemma jm_has_get: "jm_has m k \<longleftrightarrow> jm_get m k \<noteq> None"
  by (simp add: jm_has_def jm_get_def jm_keys_def map_of_eq_None_iff)

lemma jm_get_delete [simp]: "jm_get (jm_delete k m) k' = (if k' = k then None else jm_get m k')"
  by (induction m) (auto simp: jm_get_def jm_delete_def)

lemma jm_inv_delete [simp]: "jm_inv m \<Longrightarrow> jm_inv (jm_delete k m)"
  by (auto simp: jm_inv_def jm_delete_def jm_keys_def distinct_map inj_on_def)

lemma jm_get_values: "jm_get m k = Some v \<Longrightarrow> v \<in> set (jm_values m)"
  by (force simp: jm_get_def jm_values_def dest: map_of_SomeD)

lemma jm_get_in: "jm_get m k = Some v \<Longrightarrow> (k, v) \<in> set m"
  by (simp add: jm_get_def map_of_SomeD)

lemma jm_values_get: "jm_inv m \<Longrightarrow> v \<in> set (jm_values m) \<Longrightarrow> \<exists>k. jm_get m k = Some v"
  by (force simp: jm_inv_def jm_get_def jm_values_def jm_keys_def)

lemma jm_get_iff: "jm_inv m \<Longrightarrow> jm_get m k = Some v \<longleftrightarrow> (k, v) \<in> set m"
  by (simp add: jm_get_def jm_inv_def jm_keys_def)

lemma jm_size_keys: "jm_size m = length (jm_keys m)"
  by (simp add: jm_size_def jm_keys_def)

lemma jm_size_set: "jm_size (jm_set k v m) = (if jm_has m k then jm_size m else Suc (jm_size m))"
  by (simp add: jm_size_keys jm_keys_set jm_has_def)

text \<open>What the clients of a \<open>Map\<close> rely on.\<close>

locale keyed_store =
  fixes empty :: "'m"
    and put :: "'k \<Rightarrow> 'v \<Rightarrow> 'm \<Rightarrow> 'm"
    and del :: "'k \<Rightarrow> 'm \<Rightarrow> 'm"
    and look :: "'m \<Rightarrow> 'k \<Rightarrow> 'v option"
    and ok :: "'m \<Rightarrow> bool"
  assumes look_empty: "look empty k = None"
    and look_put: "ok m \<Longrightarrow> look (put k v m) k' = (if k' = k then Some v else look m k')"
    and look_del: "ok m \<Longrightarrow> look (del k m) k' = (if k' = k then None else look m k')"
    and ok_empty: "ok empty"
    and ok_put: "ok m \<Longrightarrow> ok (put k v m)"
    and ok_del: "ok m \<Longrightarrow> ok (del k m)"
begin

definition put_all :: "('k \<times> 'v) list \<Rightarrow> 'm \<Rightarrow> 'm" where
  "put_all es m = fold (\<lambda>(k, v) m. put k v m) es m"

lemma ok_put_all: "ok m \<Longrightarrow> ok (put_all es m)"
  by (induction es arbitrary: m) (auto simp: put_all_def ok_put)

text \<open>The last entry of a key wins.\<close>

lemma look_put_all:
  "ok m \<Longrightarrow> look (put_all es m) k = (case map_of (rev es) k of None \<Rightarrow> look m k | Some v \<Rightarrow> Some v)"
proof (induction es arbitrary: m)
  case Nil
  then show ?case by (simp add: put_all_def)
next
  case (Cons e es)
  have "look (put_all (e # es) m) k = look (put_all es (put (fst e) (snd e) m)) k"
    by (simp add: put_all_def case_prod_beta)
  also have "\<dots> = (case map_of (rev es) k of None \<Rightarrow> look (put (fst e) (snd e) m) k | Some v \<Rightarrow> Some v)"
    by (rule Cons.IH) (simp add: ok_put Cons.prems)
  also have "\<dots> = (case map_of (rev (e # es)) k of None \<Rightarrow> look m k | Some v \<Rightarrow> Some v)"
    by (cases e) (simp add: look_put Cons.prems map_add_def split: option.splits)
  finally show ?case .
qed

lemma look_put_all_distinct:
  assumes "ok m" and "distinct (map fst es)" and "(k, v) \<in> set es"
  shows "look (put_all es m) k = Some v"
proof -
  have "distinct (map fst (rev es))"
    using assms(2) by (metis distinct_rev rev_map)
  then have "map_of (rev es) k = Some v"
    using assms(3) by simp
  then show ?thesis by (simp add: look_put_all assms(1))
qed

lemma look_put_all_in:
  assumes "ok m" and "look m k = None" and "look (put_all es m) k = Some v"
  shows "(k, v) \<in> set es"
proof -
  have "map_of (rev es) k = Some v"
    using assms by (simp add: look_put_all split: option.splits)
  then have "(k, v) \<in> set (rev es)"
    by (rule map_of_SomeD)
  then show ?thesis by simp
qed

end

interpretation jm: keyed_store "[]" jm_set jm_delete jm_get jm_inv
  by unfold_locales auto

lemma jm_of_list_put_all: "jm_of_list es = jm.put_all es []"
  by (simp add: jm_of_list_def jm.put_all_def)

lemma jm_inv_of_list [simp]: "jm_inv (jm_of_list es)"
  by (simp add: jm_of_list_put_all jm.ok_put_all)

lemma jm_get_of_list: "jm_get (jm_of_list es) k = map_of (rev es) k"
  by (simp add: jm_of_list_put_all jm.look_put_all split: option.splits)

lemma jm_get_of_list_in: "jm_get (jm_of_list es) k = Some v \<Longrightarrow> (k, v) \<in> set es"
  using jm.look_put_all_in [of "[]" k es v] by (simp add: jm_of_list_put_all)

lemma jm_get_of_list_distinct:
  "distinct (map fst es) \<Longrightarrow> (k, v) \<in> set es \<Longrightarrow> jm_get (jm_of_list es) k = Some v"
  by (simp add: jm_of_list_put_all jm.look_put_all_distinct)

lemma jm_get_of_list_None: "jm_get (jm_of_list es) k = None \<longleftrightarrow> k \<notin> fst ` set es"
  by (simp add: jm_get_of_list map_of_eq_None_iff)

lemma jm_set_fresh: "k \<notin> set (jm_keys m) \<Longrightarrow> jm_set k v m = m @ [(k, v)]"
  by (induction m) auto

lemma jm_of_list_fresh: "distinct (map fst es) \<Longrightarrow> jm_of_list es = es"
proof (induction es rule: rev_induct)
  case Nil
  then show ?case by (simp add: jm_of_list_def)
next
  case (snoc e es)
  then have "jm_of_list es = es" "fst e \<notin> set (jm_keys es)" by (auto simp: jm_keys_def)
  then show ?case by (cases e) (simp add: jm_of_list_def jm_set_fresh)
qed

end
