(* ===== verification/JsText.thy ===== *)
theory JsText
  imports JsPrelude
begin

text \<open>
  Strings and their comparison. \<open>localeCompare\<close> depends on the collation data of the host, so the
  models that use it take the comparison as a parameter; the default order of \<open>sort()\<close> is the order
  of the code units. \<open>'a jsval\<close> values and their canonical JSON text are in the theory JsValue.
\<close>

section \<open>Code units\<close>

definition code_of :: "char \<Rightarrow> nat" where
  "code_of c = of_char c"

definition is_space :: "char \<Rightarrow> bool" where
  \<comment> \<open>TAB, LF, VT, FF, CR, SPACE and NBSP\<close>
  "is_space c = (code_of c \<in> {9, 10, 11, 12, 13, 32, 160})"

definition is_digit :: "char \<Rightarrow> bool" where
  "is_digit c = (48 \<le> code_of c \<and> code_of c \<le> 57)"

definition is_lower :: "char \<Rightarrow> bool" where
  "is_lower c = (97 \<le> code_of c \<and> code_of c \<le> 122)"

definition is_upper :: "char \<Rightarrow> bool" where
  "is_upper c = (65 \<le> code_of c \<and> code_of c \<le> 90)"

definition lower_char :: "char \<Rightarrow> char" where
  "lower_char c = (if is_upper c then char_of (code_of c + 32) else c)"

definition upper_char :: "char \<Rightarrow> char" where
  "upper_char c = (if is_lower c then char_of (code_of c - 32) else c)"

definition digit_value :: "char \<Rightarrow> nat" where
  "digit_value c = code_of c - 48"

lemmas char_defs [js_simps] = code_of_def is_space_def is_digit_def is_lower_def is_upper_def
  lower_char_def upper_char_def digit_value_def

lemma lower_char_idem [simp]: "lower_char (lower_char c) = lower_char c"
  by (auto simp: char_defs)

section \<open>Strings\<close>

definition js_trim :: "string \<Rightarrow> string" where
  "js_trim s = rev (dropWhile is_space (rev (dropWhile is_space s)))"

definition js_lower :: "string \<Rightarrow> string" where
  "js_lower s = map lower_char s"

definition js_upper :: "string \<Rightarrow> string" where
  "js_upper s = map upper_char s"

fun starts_with :: "string \<Rightarrow> string \<Rightarrow> bool" where
  "starts_with s [] = True"
| "starts_with [] (p # ps) = False"
| "starts_with (c # cs) (p # ps) = (c = p \<and> starts_with cs ps)"

definition ends_with :: "string \<Rightarrow> string \<Rightarrow> bool" where
  "ends_with s p = starts_with (rev s) (rev p)"

fun contains_text :: "string \<Rightarrow> string \<Rightarrow> bool" where
  "contains_text [] p = (p = [])"
| "contains_text (c # cs) p = (starts_with (c # cs) p \<or> contains_text cs p)"

definition replace_char :: "char \<Rightarrow> char \<Rightarrow> string \<Rightarrow> string" where
  "replace_char a b s = map (\<lambda>c. if c = a then b else c) s"

fun squeeze :: "char \<Rightarrow> string \<Rightarrow> string" where
  \<comment> \<open>\<open>replace(/a+/g, "a")\<close>\<close>
  "squeeze a [] = []"
| "squeeze a [c] = [c]"
| "squeeze a (c # d # cs) = (if c = a \<and> d = a then squeeze a (d # cs) else c # squeeze a (d # cs))"

fun join_with :: "string \<Rightarrow> string list \<Rightarrow> string" where
  "join_with sep [] = []"
| "join_with sep [x] = x"
| "join_with sep (x # y # ys) = x @ sep @ join_with sep (y # ys)"

fun split_at :: "char \<Rightarrow> string \<Rightarrow> string list" where
  \<comment> \<open>\<open>split("a")\<close>\<close>
  "split_at a [] = [[]]"
| "split_at a (c # cs) =
     (if c = a then [] # split_at a cs
      else (case split_at a cs of [] \<Rightarrow> [[c]] | w # ws \<Rightarrow> (c # w) # ws))"

lemmas text_defs [js_simps] = js_trim_def js_lower_def js_upper_def ends_with_def replace_char_def

lemma starts_with_append [simp]: "starts_with (p @ s) p"
  by (induction p) auto

lemma starts_with_iff: "starts_with s p \<longleftrightarrow> (\<exists>t. s = p @ t)"
  by (induction s p rule: starts_with.induct) auto

lemma starts_with_trans: "starts_with s p \<Longrightarrow> starts_with p q \<Longrightarrow> starts_with s q"
  by (auto simp: starts_with_iff)

lemma dropWhile_dropWhile_same [simp]: "dropWhile P (dropWhile P xs) = dropWhile P xs"
  by (induction xs) auto

lemma js_trim_Nil_iff: "js_trim s = [] \<longleftrightarrow> (\<forall>c \<in> set s. is_space c)"
proof
  assume "js_trim s = []"
  then have "\<forall>c \<in> set (dropWhile is_space s). is_space c"
    by (auto simp: js_trim_def dropWhile_eq_Nil_conv)
  then have "dropWhile is_space s = []"
    by (metis dropWhile_dropWhile_same dropWhile_eq_Nil_conv)
  then show "\<forall>c \<in> set s. is_space c"
    by (simp add: dropWhile_eq_Nil_conv)
next
  assume "\<forall>c \<in> set s. is_space c"
  then have "dropWhile is_space s = []"
    by (simp add: dropWhile_eq_Nil_conv)
  then show "js_trim s = []"
    by (auto simp: js_trim_def dest: set_dropWhileD)
qed

lemma js_lower_idem [simp]: "js_lower (js_lower s) = js_lower s"
  by (simp add: js_lower_def)

lemma split_at_nonempty [simp]: "split_at a s \<noteq> []"
  by (cases s) (auto split: list.splits)

text \<open>A separator that occurs in neither part makes a compound key injective.\<close>

lemma key_pair_inject:
  assumes "z \<notin> set a" and "z \<notin> set a'" and "a @ z # b = a' @ z # b'"
  shows "a = a' \<and> b = b'"
  using assms
proof (induction a arbitrary: a')
  case Nil
  then show ?case by (cases a') auto
next
  case (Cons c cs)
  then show ?case by (cases a') auto
qed

section \<open>Decimal numerals\<close>

fun nat_str :: "nat \<Rightarrow> string" where
  "nat_str n = (if n < 10 then [char_of (48 + n)] else nat_str (n div 10) @ [char_of (48 + n mod 10)])"

declare nat_str.simps [simp del]
declare nat_str.simps [js_simps]

definition digits_value :: "string \<Rightarrow> nat" where
  "digits_value s = foldl (\<lambda>acc c. acc * 10 + digit_value c) 0 s"

lemma code_of_char_of [simp]: "n < 256 \<Longrightarrow> code_of (char_of n) = n"
  by (simp add: code_of_def)

lemma nat_str_digits: "\<forall>c \<in> set (nat_str n). is_digit c"
proof (induction n rule: nat_str.induct)
  case (1 n)
  show ?case
  proof (cases "n < 10")
    case True
    then show ?thesis by (subst nat_str.simps) (simp add: is_digit_def)
  next
    case False
    then show ?thesis using 1
      by (subst nat_str.simps) (simp add: is_digit_def)
  qed
qed

lemma nat_str_value: "digits_value (nat_str n) = n"
proof (induction n rule: nat_str.induct)
  case (1 n)
  show ?case
  proof (cases "n < 10")
    case True
    then show ?thesis by (subst nat_str.simps) (simp add: digits_value_def digit_value_def)
  next
    case False
    then have "digits_value (nat_str n) = digits_value (nat_str (n div 10)) * 10 + n mod 10"
      by (subst nat_str.simps) (simp add: digits_value_def digit_value_def)
    with False 1 show ?thesis by simp
  qed
qed

lemma nat_str_inject: "nat_str m = nat_str n \<Longrightarrow> m = n"
  by (metis nat_str_value)

lemma nat_str_nonempty [simp]: "nat_str n \<noteq> []"
  by (subst nat_str.simps) simp

section \<open>Comparison\<close>

text \<open>The order of \<open>sort()\<close> without a comparator, as the sign of a comparison.\<close>

definition code_unit_compare :: "string \<Rightarrow> string \<Rightarrow> int" where
  "code_unit_compare s t = (if s = t then 0 else if s < t then - 1 else 1)"

type_synonym collation = "string \<Rightarrow> string \<Rightarrow> int"

interpretation code_unit: comparator code_unit_compare
  by unfold_locales (auto simp: code_unit_compare_def split: if_splits)

lemma code_unit_compare_zero [simp]: "code_unit_compare s t = 0 \<longleftrightarrow> s = t"
  by (simp add: code_unit_compare_def)

definition sort_strings :: "string list \<Rightarrow> string list" where
  \<comment> \<open>\<open>xs.sort()\<close>\<close>
  "sort_strings xs = js_sort code_unit_compare xs"

definition sorted_set :: "string list \<Rightarrow> string list" where
  \<comment> \<open>\<open>[...new Set(xs)].sort()\<close>\<close>
  "sorted_set xs = sort_strings (js_uniq xs)"

lemma set_sort_strings [simp, js_set]: "set (sort_strings xs) = set xs"
  by (simp add: sort_strings_def)

lemma length_sort_strings [simp]: "length (sort_strings xs) = length xs"
  by (simp add: sort_strings_def)

lemma distinct_sort_strings [simp]: "distinct (sort_strings xs) = distinct xs"
  by (simp add: sort_strings_def)

lemma set_sorted_set [simp, js_set]: "set (sorted_set xs) = set xs"
  by (simp add: sorted_set_def)

lemma distinct_sorted_set [simp]: "distinct (sorted_set xs)"
  by (simp add: sorted_set_def)

lemma sorted_set_eq_Nil [simp]: "sorted_set xs = [] \<longleftrightarrow> xs = []"
  by (metis set_empty set_sorted_set)

text \<open>A sorted set is determined by its elements.\<close>

lemma sorted_set_cong: "set xs = set ys \<Longrightarrow> sorted_set xs = sorted_set ys"
  unfolding sorted_set_def sort_strings_def
  by (rule code_unit.js_sort_perm) (simp_all add: mset_js_uniq)

definition collated :: "collation \<Rightarrow> string list \<Rightarrow> string list" where
  \<comment> \<open>\<open>[...new Set(xs)].sort((a, b) => a.localeCompare(b))\<close>\<close>
  "collated lc xs = js_sort lc (js_uniq xs)"

lemma set_collated [simp, js_set]: "set (collated lc xs) = set xs"
  by (simp add: collated_def)

lemma distinct_collated [simp]: "distinct (collated lc xs)"
  by (simp add: collated_def)

lemma collated_eq_Nil [simp]: "collated lc xs = [] \<longleftrightarrow> xs = []"
  by (simp add: collated_def)

end
