(* ===== verification/JsValue.thy ===== *)
theory JsValue
  imports JsText
begin

text \<open>
  The values of type \<open>unknown\<close> the code reads out of stored JSON records, the conversion
  \<open>Number(value)\<close>, and the canonical JSON text that is hashed
  (\<open>api/modules/scans/findings/finding-dedupe-identity.ts\<close> and the function of the same name in
  \<open>coverage/coverage-ledger.ts\<close>; the one of \<open>execution/diff/diff-scan-plan.ts\<close> is in the theory StableJson). A number is the rational
  number its text names; rounding to 64-bit floats is not modelled.
\<close>

section \<open>Values\<close>

datatype jsval =
    JUndef
  | JNull
  | JBool bool
  | JNum rat
  | JStr string
  | JArr "jsval list"
  | JObj "(string \<times> jsval) list"

type_synonym js_record = "(string, jsval) jsmap"

definition js_prop :: "js_record \<Rightarrow> string \<Rightarrow> jsval" where
  \<comment> \<open>\<open>record[key]\<close>\<close>
  "js_prop r k = (case jm_get r k of None \<Rightarrow> JUndef | Some v \<Rightarrow> v)"

definition js_prop_opt :: "js_record option \<Rightarrow> string \<Rightarrow> jsval" where
  \<comment> \<open>\<open>record?.[key]\<close>\<close>
  "js_prop_opt r k = (case r of None \<Rightarrow> JUndef | Some m \<Rightarrow> js_prop m k)"

definition js_nullish :: "jsval \<Rightarrow> jsval \<Rightarrow> jsval" where
  \<comment> \<open>\<open>x ?? y\<close> on values\<close>
  "js_nullish x y = (case x of JUndef \<Rightarrow> y | JNull \<Rightarrow> y | _ \<Rightarrow> x)"

definition js_as_text :: "jsval \<Rightarrow> string option" where
  \<comment> \<open>\<open>typeof value === "string"\<close>\<close>
  "js_as_text v = (case v of JStr s \<Rightarrow> Some s | _ \<Rightarrow> None)"

definition js_as_array :: "jsval \<Rightarrow> jsval list option" where
  \<comment> \<open>\<open>Array.isArray(value)\<close>\<close>
  "js_as_array v = (case v of JArr vs \<Rightarrow> Some vs | _ \<Rightarrow> None)"

definition js_as_record :: "jsval \<Rightarrow> js_record option" where
  \<comment> \<open>\<open>value && typeof value === "object" && !Array.isArray(value)\<close>\<close>
  "js_as_record v = (case v of JObj r \<Rightarrow> Some r | _ \<Rightarrow> None)"

definition js_strings :: "jsval list \<Rightarrow> string list" where
  \<comment> \<open>\<open>values.filter((item): item is string => typeof item === "string")\<close>\<close>
  "js_strings vs = List.map_filter js_as_text vs"

lemmas value_defs [js_simps] = js_prop_def js_prop_opt_def js_nullish_def js_as_text_def
  js_as_array_def js_as_record_def js_strings_def

section \<open>\<open>Number(value)\<close>\<close>

definition split_sign :: "string \<Rightarrow> bool \<times> string" where
  "split_sign s = (case s of
     [] \<Rightarrow> (False, [])
   | c # cs \<Rightarrow> (if c = CHR ''-'' then (True, cs) else if c = CHR ''+'' then (False, cs) else (False, s)))"

definition pow10 :: "bool \<Rightarrow> nat \<Rightarrow> rat" where
  "pow10 neg n = (if neg then 1 / 10 ^ n else 10 ^ n)"

definition parse_exponent :: "string \<Rightarrow> rat option" where
  "parse_exponent s = (case s of
     [] \<Rightarrow> Some 1
   | c # cs \<Rightarrow>
       (if c = CHR ''e'' \<or> c = CHR ''E'' then
          (let (neg, ds) = split_sign cs in
           if ds \<noteq> [] \<and> list_all is_digit ds then Some (pow10 neg (digits_value ds)) else None)
        else None))"

definition parse_unsigned :: "string \<Rightarrow> rat option" where
  "parse_unsigned s =
     (let ip = takeWhile is_digit s; r = dropWhile is_digit s;
          frac = (case r of c # cs \<Rightarrow> (if c = CHR ''.'' then Some cs else None) | [] \<Rightarrow> None);
          fp = (case frac of Some cs \<Rightarrow> takeWhile is_digit cs | None \<Rightarrow> []);
          rest = (case frac of Some cs \<Rightarrow> dropWhile is_digit cs | None \<Rightarrow> r)
      in if ip = [] \<and> fp = [] then None
         else map_option (\<lambda>e. (of_nat (digits_value (ip @ fp)) / 10 ^ length fp) * e)
                (parse_exponent rest))"

definition radix_digit :: "nat \<Rightarrow> char \<Rightarrow> nat option" where
  "radix_digit base c =
     (let v = (if is_digit c then Some (digit_value c)
               else if is_lower c then Some (code_of c - 87)
               else if is_upper c then Some (code_of c - 55) else None)
      in case v of None \<Rightarrow> None | Some d \<Rightarrow> (if d < base then Some d else None))"

fun radix_value :: "nat \<Rightarrow> nat \<Rightarrow> string \<Rightarrow> nat option" where
  "radix_value base acc [] = Some acc"
| "radix_value base acc (c # cs) =
     (case radix_digit base c of None \<Rightarrow> None | Some d \<Rightarrow> radix_value base (acc * base + d) cs)"

definition radix_of :: "char \<Rightarrow> nat option" where
  "radix_of c = (if c = CHR ''x'' \<or> c = CHR ''X'' then Some 16
     else if c = CHR ''o'' \<or> c = CHR ''O'' then Some 8
     else if c = CHR ''b'' \<or> c = CHR ''B'' then Some 2 else None)"

definition string_to_number :: "string \<Rightarrow> rat option" where
  \<comment> \<open>None is NaN or an infinity; neither is an integer\<close>
  "string_to_number s =
     (let t = js_trim s in
      if t = [] then Some 0
      else (case t of
          c # p # ds \<Rightarrow>
            (if c = CHR ''0'' \<and> radix_of p \<noteq> None then
               (if ds = [] then None
                else map_option of_nat (radix_value (the (radix_of p)) 0 ds))
             else (let (neg, u) = split_sign t in
                   map_option (\<lambda>v. if neg then - v else v) (parse_unsigned u)))
        | _ \<Rightarrow> (let (neg, u) = split_sign t in
                map_option (\<lambda>v. if neg then - v else v) (parse_unsigned u))))"

fun to_number :: "jsval \<Rightarrow> rat option" where
  "to_number JUndef = None"
| "to_number JNull = Some 0"
| "to_number (JBool b) = Some (if b then 1 else 0)"
| "to_number (JNum r) = Some r"
| "to_number (JStr s) = string_to_number s"
| "to_number (JArr []) = Some 0"
| "to_number (JArr [v]) =
     (case v of JUndef \<Rightarrow> Some 0 | JBool _ \<Rightarrow> None | _ \<Rightarrow> to_number v)"
| "to_number (JArr (v # w # vs)) = None"
| "to_number (JObj _) = None"

definition is_integer :: "rat \<Rightarrow> bool" where
  "is_integer r = (of_int \<lfloor>r\<rfloor> = r)"

section \<open>Canonical JSON\<close>

definition hex_digit :: "nat \<Rightarrow> char" where
  "hex_digit n = (if n < 10 then char_of (48 + n) else char_of (87 + n))"

definition escape_char :: "char \<Rightarrow> string" where
  "escape_char c =
     (if c = char_of (34 :: nat) then [char_of (92 :: nat), c]
      else if c = char_of (92 :: nat) then [c, c]
      else if code_of c = 8 then char_of (92 :: nat) # ''b''
      else if code_of c = 9 then char_of (92 :: nat) # ''t''
      else if code_of c = 10 then char_of (92 :: nat) # ''n''
      else if code_of c = 12 then char_of (92 :: nat) # ''f''
      else if code_of c = 13 then char_of (92 :: nat) # ''r''
      else if code_of c < 32 then
        char_of (92 :: nat) # ''u00'' @ [hex_digit (code_of c div 16), hex_digit (code_of c mod 16)]
      else [c])"

definition json_string :: "string \<Rightarrow> string" where
  \<comment> \<open>\<open>JSON.stringify\<close> of a string\<close>
  "json_string s = [char_of (34 :: nat)] @ concat (map escape_char s) @ [char_of (34 :: nat)]"

fun frac_digits :: "nat \<Rightarrow> rat \<Rightarrow> string" where
  \<comment> \<open>the decimals of a fraction below 1, at most \<open>fuel\<close> of them\<close>
  "frac_digits 0 r = []"
| "frac_digits (Suc fuel) r =
     (if r = 0 then [] else char_of (48 + nat \<lfloor>r * 10\<rfloor>) # frac_digits fuel (r * 10 - of_int \<lfloor>r * 10\<rfloor>))"

definition number_text :: "rat \<Rightarrow> string" where
  "number_text r =
     (let a = \<bar>r\<bar>; i = nat \<lfloor>a\<rfloor>; f = a - of_nat i
      in (if r < 0 then ''-'' else []) @ nat_str i @ (if f = 0 then [] else ''.'' @ frac_digits 20 f))"

text \<open>
  \<open>Object.keys(record).sort(localeCompare)\<close> orders the entries; an undefined value prints as the word
  \<open>undefined\<close>, as the template literal of the source does.
\<close>

function canonical_json :: "collation \<Rightarrow> jsval \<Rightarrow> string" where
  "canonical_json lc JUndef = ''undefined''"
| "canonical_json lc JNull = ''null''"
| "canonical_json lc (JBool b) = (if b then ''true'' else ''false'')"
| "canonical_json lc (JNum r) = number_text r"
| "canonical_json lc (JStr s) = json_string s"
| "canonical_json lc (JArr vs) = ''['' @ join_with '','' (map (canonical_json lc) vs) @ '']''"
| "canonical_json lc (JObj es) =
     ''{'' @ join_with '',''
        (map (\<lambda>e. json_string (fst e) @ '':'' @ canonical_json lc (snd e))
          (js_sort (\<lambda>a b. lc (fst a) (fst b)) es)) @ ''}''"
  by pat_completeness auto
termination
proof (relation "measure (\<lambda>(lc, v). size v)", goal_cases)
  case 1
  then show ?case by simp
next
  case (2 lc vs v)
  then show ?case by (induction vs) auto
next
  case (3 lc es e)
  then have "e \<in> set es" by simp
  then show ?case by (induction es) (auto simp: size_prod_simp)
qed

text \<open>\<open>sha256:\<close> and the hexadecimal digest of the canonical text; the digest is the host's.\<close>

definition canonical_hash :: "collation \<Rightarrow> (string \<Rightarrow> string) \<Rightarrow> jsval \<Rightarrow> string" where
  "canonical_hash lc digest v = ''sha256:'' @ digest (canonical_json lc v)"

text \<open>
  Two objects with the same entries in another order have one canonical text, when the collation
  tells their keys apart.
\<close>

lemma canonical_json_perm:
  assumes "comparator lc" and "mset es = mset es'" and "distinct (map fst es)"
    and "\<And>k k'. k \<in> fst ` set es \<Longrightarrow> k' \<in> fst ` set es \<Longrightarrow> lc k k' = 0 \<Longrightarrow> k = k'"
  shows "canonical_json lc (JObj es) = canonical_json lc (JObj es')"
proof -
  have keys: "e = e'" if "e \<in> set es" "e' \<in> set es" "lc (fst e) (fst e') = 0" for e e'
    using assms(4) [of "fst e" "fst e'"] that assms(3)
    by (metis eq_key_imp_eq_value image_eqI prod.collapse)
  have "js_sort (\<lambda>a b. lc (fst a) (fst b)) es = js_sort (\<lambda>a b. lc (fst a) (fst b)) es'"
    by (rule comparator.js_sort_perm [OF comparator_on [OF assms(1)] assms(2)]) (rule keys)
  then show ?thesis by simp
qed

end
