(* ===== verification/FindingIdentity.thy ===== *)
theory FindingIdentity
  imports JsValue
begin

text \<open>
  The read-time identity of a finding (\<open>api/modules/scans/findings/finding-dedupe-families.ts\<close>,
  \<open>finding-dedupe-identity.ts\<close>, \<open>shared/schemas/finding-group.schema.ts\<close>): the issue kind, the
  family keys, the location and the asset key that decide which findings may be grouped.
\<close>

section \<open>What the host provides\<close>

text \<open>
  The collation of \<open>localeCompare\<close>, the hexadecimal SHA-256 digest of \<open>node:crypto\<close> and the URL
  parser, which returns the origin and the path of a URL, or nothing where \<open>new URL\<close> throws; and the
  check \<open>z.string().datetime()\<close> of the schema library.
\<close>

record host =
  locale_compare :: collation
  sha256_hex :: "string \<Rightarrow> string"
  parse_url :: "string \<Rightarrow> (string \<times> string) option"
  is_datetime :: "string \<Rightarrow> bool"

section \<open>Data\<close>

datatype issue_kind = Dependency | Secret | Source | Iac | Web | Api | BusinessLogic | UnknownKind

datatype location_kind = LocSource | LocUrl | LocPackage | LocResource | LocUnknown

record dedupe_location =
  loc_kind :: location_kind
  loc_path :: "string option"
  loc_startLine :: "nat option"
  loc_endLine :: "nat option"
  loc_startCol :: "nat option"
  loc_endCol :: "nat option"
  loc_method :: "string option"
  loc_parameter :: "string option"
  loc_resource :: "string option"

record dedupe_identity =
  id_version :: nat
  id_issueKind :: issue_kind
  id_assetKey :: "string option"
  id_location :: dedupe_location
  id_familyKeys :: "string list"
  id_advisoryIds :: "string list"
  id_packageKey :: "string option"
  id_anchor :: "string option"
  id_limitations :: "string list"

record identity_input =
  in_sourceTool :: string
  in_ruleId :: string
  in_primaryLocation :: "js_record option"
  in_metadata :: "js_record option"

section \<open>Families\<close>

definition string_items :: "jsval \<Rightarrow> string list" where
  "string_items v = (case v of JStr s \<Rightarrow> [s] | JArr vs \<Rightarrow> js_strings vs | _ \<Rightarrow> [])"

definition normalized :: "host \<Rightarrow> string list \<Rightarrow> string list" where
  "normalized h values = collated (locale_compare h) (filter (\<lambda>v. v \<noteq> []) (map js_trim values))"

definition match_cwe :: "string \<Rightarrow> string option" where
  "match_cwe s =
     (if starts_with (js_lower s) ''cwe'' then
        (let r = drop 3 s;
             r' = (case r of c # cs \<Rightarrow> (if c \<in> {CHR ''-'', CHR ''_'', CHR '' ''} then cs else r) | [] \<Rightarrow> []);
             ds = takeWhile is_digit r'
         in if ds = [] then None else Some ds)
      else None)"

fun find_cwe :: "string \<Rightarrow> string option" where
  "find_cwe [] = None"
| "find_cwe (c # cs) = (case match_cwe (c # cs) of Some ds \<Rightarrow> Some ds | None \<Rightarrow> find_cwe cs)"

definition normalizeCwe :: "string \<Rightarrow> string option" where
  "normalizeCwe value = map_option (\<lambda>ds. ''cwe:'' @ ds) (find_cwe value)"

definition slug_char :: "char \<Rightarrow> bool" where
  "slug_char c = (is_lower c \<or> is_digit c)"

fun slug :: "bool \<Rightarrow> string \<Rightarrow> string" where
  \<comment> \<open>every run of other characters becomes one hyphen\<close>
  "slug in_run [] = []"
| "slug in_run (c # cs) =
     (if slug_char c then c # slug False cs
      else if in_run then slug True cs else CHR ''-'' # slug True cs)"

definition normalizeRule :: "string \<Rightarrow> string" where
  "normalizeRule ruleId = slug False (js_lower (js_trim ruleId))"

definition metadata_of :: "identity_input \<Rightarrow> js_record" where
  "metadata_of i = or_else (in_metadata i) []"

definition advisory_rule :: "string \<Rightarrow> bool" where
  \<comment> \<open>\<open>/^(CVE|GHSA)-/i\<close>\<close>
  "advisory_rule ruleId =
     (starts_with (js_lower ruleId) ''cve-'' \<or> starts_with (js_lower ruleId) ''ghsa-'')"

definition cwe_values :: "identity_input \<Rightarrow> string list" where
  "cwe_values i =
     (let metadata = metadata_of i; risk = js_as_record (js_prop metadata ''risk'') in
      string_items (js_prop metadata ''cwe'') @ string_items (js_prop metadata ''cweId'')
      @ string_items (js_prop metadata ''cweIds'')
      @ string_items (js_prop_opt risk ''cwe'') @ string_items (js_prop_opt risk ''cweIds''))"

definition explicit_families :: "identity_input \<Rightarrow> string list" where
  "explicit_families i =
     (let metadata = metadata_of i in
      string_items (js_prop metadata ''family'') @ string_items (js_prop metadata ''familyKey'')
      @ string_items (js_prop metadata ''detectorFamily'') @ string_items (js_prop metadata ''policyFamily'')
      @ string_items (js_prop metadata ''templateId'') @ string_items (js_prop metadata ''pluginId''))"

definition tool_rule_key :: "string \<Rightarrow> string \<Rightarrow> string" where
  "tool_rule_key tool rule = ''rule:'' @ js_lower (js_trim tool) @ '':'' @ rule"

definition findingFamilyKeys :: "host \<Rightarrow> identity_input \<Rightarrow> string list" where
  "findingFamilyKeys h i =
     (let cwes = List.map_filter normalizeCwe (normalized h (cwe_values i)) in
      if cwes \<noteq> [] then cwes
      else
        (let explicitFamily = normalized h (explicit_families i) in
         if explicitFamily \<noteq> [] then map (\<lambda>value. ''family:'' @ normalizeRule value) explicitFamily
         else if js_lower (in_sourceTool i) = ''osv'' then [''family:dependency-advisory'']
         else if advisory_rule (in_ruleId i) then [''family:dependency-advisory'']
         else
           (let rule = normalizeRule (in_ruleId i) in
            if rule \<noteq> [] then [tool_rule_key (in_sourceTool i) rule] else [''family:unknown''])))"

definition hasConcreteFamily :: "dedupe_identity \<Rightarrow> bool" where
  "hasConcreteFamily identity = list_ex (\<lambda>key. key \<noteq> ''family:unknown'') (id_familyKeys identity)"

definition iac_rule :: "string \<Rightarrow> bool" where
  \<comment> \<open>\<open>/(terraform|kubernetes|dockerfile|\.iac\.|iac[-_:])/\<close>\<close>
  "iac_rule rule = list_ex (contains_text rule)
     [''terraform'', ''kubernetes'', ''dockerfile'', ''.iac.'', ''iac-'', ''iac_'', ''iac:'']"

definition inferIssueKind :: "identity_input \<Rightarrow> issue_kind" where
  "inferIssueKind i =
     (let tool = js_lower (js_trim (in_sourceTool i));
          rule = js_lower (js_trim (in_ruleId i));
          metadata = metadata_of i;
          findingClass = or_else (js_as_text (js_prop metadata ''class'')) []
      in if tool = ''osv''
            \<or> starts_with (in_ruleId i) ''cve-'' \<or> starts_with (in_ruleId i) ''ghsa-''
            \<or> js_as_text (js_prop metadata ''vulnerabilityId'') \<noteq> None
            \<or> js_as_text (js_prop metadata ''advisoryId'') \<noteq> None
         then Dependency
         else if tool = ''gitleaks'' \<or> findingClass = ''secret''
            \<or> js_as_text (js_prop metadata ''detectorFamily'') \<noteq> None
         then Secret
         else if findingClass = ''config'' \<or> iac_rule rule then Iac
         else if tool = ''zap'' \<or> tool = ''nuclei'' then Web
         else if tool = ''schemathesis'' \<or> tool = ''dredd'' then Api
         else if tool = ''semgrep'' \<or> tool = ''codeql'' then Source
         else UnknownKind)"

section \<open>Identity\<close>

definition asString :: "jsval \<Rightarrow> string option" where
  "asString v = (case v of JStr s \<Rightarrow> (if js_trim s \<noteq> [] then Some (js_trim s) else None) | _ \<Rightarrow> None)"

definition asPositiveInteger :: "jsval \<Rightarrow> nat option" where
  "asPositiveInteger v =
     (case to_number v of
        None \<Rightarrow> None
      | Some r \<Rightarrow> (if is_integer r \<and> 0 < r then Some (nat \<lfloor>r\<rfloor>) else None))"

definition normalizeProjectPath :: "string option \<Rightarrow> string option" where
  "normalizeProjectPath value =
     (case value of
        None \<Rightarrow> None
      | Some v \<Rightarrow>
          (if v = [] then None
           else
             (let slashed = replace_char (char_of (92 :: nat)) (CHR ''/'') (js_trim v);
                  path = squeeze (CHR ''/'') (if starts_with slashed ''./'' then drop 2 slashed else slashed)
              in if path = [] \<or> path = ''.'' \<or> starts_with path ''../'' \<or> path = ''..'' then None
                 else Some path)))"

definition normalizeUrl :: "host \<Rightarrow> string option \<Rightarrow> string option" where
  \<comment> \<open>the asset key, which is also the path\<close>
  "normalizeUrl h value =
     (case value of
        None \<Rightarrow> None
      | Some v \<Rightarrow>
          (if v = [] then None
           else (case parse_url h v of
               None \<Rightarrow> None
             | Some (origin, pathname) \<Rightarrow>
                 (let squeezed = squeeze (CHR ''/'') pathname;
                      path = (if squeezed = [] then ''/'' else squeezed)
                  in Some (js_lower origin @ path)))))"

definition advisoryIds :: "host \<Rightarrow> js_record \<Rightarrow> string \<Rightarrow> string list" where
  "advisoryIds h metadata ruleId =
     (let aliases = js_strings (or_else (js_as_array (js_prop metadata ''aliases'')) []);
          primary = List.map_filter id
            ([asString (js_prop metadata ''advisoryId''), asString (js_prop metadata ''vulnerabilityId''),
              asString (js_prop metadata ''id'')]
             @ map Some aliases @ [if advisory_rule ruleId then Some ruleId else None])
      in normalized h (map js_upper primary))"

definition first_text :: "jsval list \<Rightarrow> string option" where
  \<comment> \<open>\<open>asString(a) ?? asString(b) ?? ...\<close>\<close>
  "first_text vs = foldr (\<lambda>v acc. opt_else (asString v) acc) vs None"

definition projectLocation :: "host \<Rightarrow> identity_input \<Rightarrow> dedupe_location" where
  "projectLocation h i =
     (let location = or_else (in_primaryLocation i) [];
          metadata = metadata_of i;
          url = normalizeUrl h (first_text [js_prop location ''url'', js_prop metadata ''url'']);
          path = normalizeProjectPath (first_text [js_prop location ''path'', js_prop location ''file'',
            js_prop metadata ''path'', js_prop metadata ''target'']);
          resource = first_text [js_prop location ''resource'', js_prop metadata ''resource'',
            js_prop metadata ''resourceName''];
          hasPackage = (asString (js_prop metadata ''packageName'') \<noteq> None
            \<or> asString (js_prop metadata ''package'') \<noteq> None)
      in \<lparr>loc_kind =
            (if url \<noteq> None then LocUrl else if hasPackage then LocPackage
             else if resource \<noteq> None then LocResource
             else if path \<noteq> None then LocSource else LocUnknown),
          loc_path = opt_else url path,
          loc_startLine = asPositiveInteger
            (js_nullish (js_prop location ''startLine'') (js_prop metadata ''startLine'')),
          loc_endLine = asPositiveInteger
            (js_nullish (js_prop location ''endLine'') (js_prop metadata ''endLine'')),
          loc_startCol = asPositiveInteger
            (js_nullish (js_prop location ''startCol'') (js_nullish (js_prop location ''column'')
              (js_nullish (js_prop metadata ''startCol'') (js_prop metadata ''column'')))),
          loc_endCol = asPositiveInteger
            (js_nullish (js_prop location ''endCol'') (js_prop metadata ''endCol'')),
          loc_method = map_option js_upper (first_text [js_prop location ''method'', js_prop metadata ''method'']),
          loc_parameter = first_text [js_prop location ''parameter'', js_prop metadata ''parameter''],
          loc_resource = resource\<rparr>)"

definition packageKey :: "js_record \<Rightarrow> string option" where
  "packageKey metadata =
     (case (first_text [js_prop metadata ''ecosystem'', js_prop metadata ''type''],
            first_text [js_prop metadata ''packageName'', js_prop metadata ''package''],
            first_text [js_prop metadata ''installedVersion'', js_prop metadata ''packageVersion'']) of
        (Some ecosystem, Some name, Some version) \<Rightarrow>
          Some (js_lower ecosystem @ '':'' @ js_lower name @ ''@'' @ version)
      | _ \<Rightarrow> None)"

definition sourceAnchor :: "host \<Rightarrow> js_record \<Rightarrow> bool \<Rightarrow> string option" where
  "sourceAnchor h metadata isSecret =
     (if isSecret then None
      else map_option (\<lambda>value. take 24 (sha256_hex h value))
        (first_text [js_prop metadata ''anchor'', js_prop metadata ''symbol'', js_prop metadata ''resource'']))"

definition max_safe_integer :: int where
  "max_safe_integer = 9007199254740991"

definition safe_positive :: "nat option \<Rightarrow> bool" where
  "safe_positive x = (case x of None \<Rightarrow> True | Some n \<Rightarrow> 0 < n \<and> int n \<le> max_safe_integer)"

definition location_ok :: "dedupe_location \<Rightarrow> bool" where
  "location_ok l = (safe_positive (loc_startLine l) \<and> safe_positive (loc_endLine l)
     \<and> safe_positive (loc_startCol l) \<and> safe_positive (loc_endCol l))"

definition identity_ok :: "dedupe_identity \<Rightarrow> bool" where
  \<comment> \<open>\<open>findingDedupeIdentitySchema\<close>\<close>
  "identity_ok d = (id_version d = 1 \<and> location_ok (id_location d) \<and> length (id_familyKeys d) \<le> 50
     \<and> length (id_advisoryIds d) \<le> 50 \<and> length (id_limitations d) \<le> 20)"

definition unknown_identity :: dedupe_identity where
  "unknown_identity =
     \<lparr>id_version = 1, id_issueKind = UnknownKind, id_assetKey = None,
      id_location = \<lparr>loc_kind = LocUnknown, loc_path = None, loc_startLine = None, loc_endLine = None,
        loc_startCol = None, loc_endCol = None, loc_method = None, loc_parameter = None, loc_resource = None\<rparr>,
      id_familyKeys = [''family:unknown''], id_advisoryIds = [], id_packageKey = None, id_anchor = None,
      id_limitations = [''identity_projection_failed'']\<rparr>"

definition dependency_asset :: "js_record \<Rightarrow> string option" where
  "dependency_asset metadata =
     (let parts = filter (\<lambda>s. s \<noteq> []) (List.map_filter id
            [packageKey metadata,
             normalizeProjectPath (first_text [js_prop metadata ''manifestPath'', js_prop metadata ''target''])]);
          key = join_with '':'' parts
      in if key = [] then None else Some key)"

definition raw_identity :: "host \<Rightarrow> identity_input \<Rightarrow> dedupe_identity" where
  \<comment> \<open>the object before it is parsed\<close>
  "raw_identity h i =
     (let metadata = metadata_of i;
          issueKind = inferIssueKind i;
          location = projectLocation h i;
          url = normalizeUrl h (opt_else (asString (js_prop_opt (in_primaryLocation i) ''url''))
                  (asString (js_prop metadata ''url'')));
          assetKey = (if issueKind = Dependency then dependency_asset metadata
                      else if issueKind = Web \<or> issueKind = Api then url
                      else loc_path location)
      in \<lparr>id_version = 1, id_issueKind = issueKind, id_assetKey = assetKey, id_location = location,
          id_familyKeys = findingFamilyKeys h i,
          id_advisoryIds = advisoryIds h metadata (in_ruleId i),
          id_packageKey = packageKey metadata,
          id_anchor = sourceAnchor h metadata (issueKind = Secret),
          id_limitations =
            (if assetKey = None \<or> assetKey = Some [] then [''asset_key_missing''] else [])\<rparr>)"

definition projectFindingDedupeIdentity :: "host \<Rightarrow> identity_input \<Rightarrow> dedupe_identity" where
  "projectFindingDedupeIdentity h i =
     (let identity = raw_identity h i in if identity_ok identity then identity else unknown_identity)"

section \<open>Facts about identities\<close>

lemma unknown_identity_ok: "identity_ok unknown_identity"
  by (simp add: identity_ok_def unknown_identity_def location_ok_def safe_positive_def)

lemma project_identity_cases:
  "projectFindingDedupeIdentity h i = raw_identity h i \<or> projectFindingDedupeIdentity h i = unknown_identity"
  by (simp add: projectFindingDedupeIdentity_def Let_def)

lemma identity_schema: "identity_ok (projectFindingDedupeIdentity h i)"
  by (simp add: projectFindingDedupeIdentity_def Let_def unknown_identity_ok)

lemma raw_identity_simps:
  "id_issueKind (raw_identity h i) = inferIssueKind i"
  "id_familyKeys (raw_identity h i) = findingFamilyKeys h i"
  "id_anchor (raw_identity h i) = sourceAnchor h (metadata_of i) (inferIssueKind i = Secret)"
  by (simp_all add: raw_identity_def Let_def)

lemma unknown_identity_simps:
  "id_issueKind unknown_identity = UnknownKind"
  "id_familyKeys unknown_identity = [''family:unknown'']"
  "id_assetKey unknown_identity = None"
  by (simp_all add: unknown_identity_def)

lemma secret_has_no_anchor:
  assumes "id_issueKind (projectFindingDedupeIdentity h i) = Secret"
  shows "id_anchor (projectFindingDedupeIdentity h i) = None"
  using project_identity_cases [of h i] assms
  by (auto simp: raw_identity_simps unknown_identity_simps sourceAnchor_def)

lemma slug_chars: "set (slug b s) \<subseteq> {c. slug_char c} \<union> {CHR ''-''}"
  by (induction b s rule: slug.induct) auto

lemma colon_not_in_slug: "CHR '':'' \<notin> set (slug b s)"
  using slug_chars [of b s] by (auto simp: slug_char_def char_defs)

lemma tool_rule_key_inject:
  assumes "tool_rule_key t (slug b s) = tool_rule_key t' (slug b' s')"
  shows "js_lower (js_trim t) = js_lower (js_trim t')"
proof -
  have "rev (slug b s) @ CHR '':'' # rev (js_lower (js_trim t))
      = rev (slug b' s') @ CHR '':'' # rev (js_lower (js_trim t'))"
    using arg_cong [OF assms, of rev] by (simp add: tool_rule_key_def)
  from key_pair_inject [OF _ _ this]
  have "rev (js_lower (js_trim t)) = rev (js_lower (js_trim t'))"
    by (simp add: colon_not_in_slug)
  then show ?thesis by simp
qed

text \<open>No family but the rule of the tool itself.\<close>

definition tool_scoped :: "host \<Rightarrow> identity_input \<Rightarrow> bool" where
  "tool_scoped h i = (List.map_filter normalizeCwe (normalized h (cwe_values i)) = []
     \<and> normalized h (explicit_families i) = [] \<and> js_lower (in_sourceTool i) \<noteq> ''osv''
     \<and> \<not> advisory_rule (in_ruleId i))"

lemma tool_scoped_families:
  "tool_scoped h i \<Longrightarrow> findingFamilyKeys h i =
     (if normalizeRule (in_ruleId i) = [] then [''family:unknown'']
      else [tool_rule_key (in_sourceTool i) (normalizeRule (in_ruleId i))])"
  by (simp add: tool_scoped_def findingFamilyKeys_def Let_def)

lemma tool_scoped_rules_never_shared:
  assumes "tool_scoped h i" and "tool_scoped h j"
    and "js_lower (js_trim (in_sourceTool i)) \<noteq> js_lower (js_trim (in_sourceTool j))"
    and "k \<in> set (findingFamilyKeys h i)" and "k \<in> set (findingFamilyKeys h j)"
  shows "k = ''family:unknown''"
proof (rule ccontr)
  assume k: "k \<noteq> ''family:unknown''"
  have "k = tool_rule_key (in_sourceTool i) (slug False (js_lower (js_trim (in_ruleId i))))"
    using assms(1,4) k by (simp add: tool_scoped_families normalizeRule_def split: if_splits)
  moreover have "k = tool_rule_key (in_sourceTool j) (slug False (js_lower (js_trim (in_ruleId j))))"
    using assms(2,5) k by (simp add: tool_scoped_families normalizeRule_def split: if_splits)
  ultimately show False
    using tool_rule_key_inject assms(3) by metis
qed

lemma lower_cve_prefix: "js_lower (''CVE-'' @ rest) = ''cve-'' @ js_lower rest"
proof -
  have "js_lower ''CVE-'' = ''cve-''" by code_simp
  then show ?thesis by (simp add: js_lower_def)
qed

lemma upper_case_advisory_rule:
  assumes rule: "in_ruleId i = ''CVE-'' @ rest" and meta: "in_metadata i = None"
    and tool: "js_lower (js_trim (in_sourceTool i)) \<noteq> ''osv''"
  shows "findingFamilyKeys h i = [''family:dependency-advisory'']" and "inferIssueKind i \<noteq> Dependency"
proof -
  have none: "js_prop (metadata_of i) k = JUndef" for k
    by (simp add: metadata_of_def meta js_prop_def)
  have "advisory_rule (in_ruleId i)"
    unfolding advisory_rule_def rule lower_cve_prefix by simp
  then show "findingFamilyKeys h i = [''family:dependency-advisory'']"
    by (auto simp: findingFamilyKeys_def cwe_values_def explicit_families_def none string_items_def
        js_prop_opt_def js_as_record_def normalized_def collated_def js_uniq_def List.map_filter_def)
  show "inferIssueKind i \<noteq> Dependency"
    using tool by (auto simp: inferIssueKind_def Let_def none rule js_as_text_def)
qed

section \<open>A concrete host\<close>

text \<open>The host the witnesses of the properties use: code-unit collation and a constant digest.\<close>

definition sample_host :: host where
  "sample_host = \<lparr>locale_compare = code_unit_compare, sha256_hex = (\<lambda>s. replicate 64 (CHR ''0'')),
     parse_url = (\<lambda>s. if starts_with s ''https:'' then Some (s, ''/'') else None),
     is_datetime = (\<lambda>s. s \<noteq> [])\<rparr>"

end
