(* ===== verification/FindingGrouping.thy ===== *)
theory FindingGrouping
  imports FindingIdentity
begin

text \<open>
  Deterministic, complete-link grouping of raw findings
  (\<open>api/modules/scans/findings/finding-grouping-engine.ts\<close>): the pair decision, the budgeted
  comparison of the blocks, the merging of clusters, and the groups with their members.
\<close>

section \<open>Data\<close>

datatype severity = Info | Low | Medium | High | Critical | UnknownSeverity

datatype confidence = Static | Runtime

record finding =
  f_id :: string
  f_sourceTool :: string
  f_ruleId :: string
  f_title :: string
  f_description :: string
  f_severity :: severity
  f_confidence :: confidence
  f_primaryLocation :: "js_record option"
  f_metadata :: "js_record option"

record grouping_finding = finding +
  f_identity :: dedupe_identity

datatype verdict = Same | Different | Ambiguous

datatype pair_confidence = PairExact | PairHigh | PairSemanticHigh | PairNone

datatype pair_method = Deterministic | Semantic

record pair_decision =
  pd_left :: string
  pd_right :: string
  pd_verdict :: verdict
  pd_confidence :: pair_confidence
  pd_method :: pair_method
  pd_reasonCodes :: "string list"
  pd_comparisonHash :: string

datatype group_confidence = GroupExact | GroupHigh | GroupSemanticHigh | GroupSingleton

record finding_group =
  g_stableKey :: string
  g_representative :: string
  g_members :: "string list"
  g_issueKind :: issue_kind
  g_title :: string
  g_description :: string
  g_severity :: severity
  g_primaryLocation :: dedupe_location
  g_sourceTools :: "string list"
  g_matchConfidence :: group_confidence
  g_reasonCodes :: "string list"

record grouping_result =
  gr_groups :: "finding_group list"
  gr_pairDecisions :: "pair_decision list"
  gr_ambiguousCount :: nat
  gr_limitations :: "string list"

definition GROUPING_ALGORITHM_VERSION :: string where
  "GROUPING_ALGORITHM_VERSION = ''finding-dedupe-v1''"

definition DETERMINISTIC_MAX_PAIR_COMPARISONS :: nat where
  "DETERMINISTIC_MAX_PAIR_COMPARISONS = 50000"

fun severityRank :: "severity \<Rightarrow> int" where
  "severityRank Critical = 0"
| "severityRank High = 1"
| "severityRank Medium = 2"
| "severityRank Low = 3"
| "severityRank Info = 4"
| "severityRank UnknownSeverity = 5"

section \<open>Hashed values\<close>

fun issue_kind_text :: "issue_kind \<Rightarrow> string" where
  "issue_kind_text Dependency = ''dependency''"
| "issue_kind_text Secret = ''secret''"
| "issue_kind_text Source = ''source''"
| "issue_kind_text Iac = ''iac''"
| "issue_kind_text Web = ''web''"
| "issue_kind_text Api = ''api''"
| "issue_kind_text BusinessLogic = ''business_logic''"
| "issue_kind_text UnknownKind = ''unknown''"

fun location_kind_text :: "location_kind \<Rightarrow> string" where
  "location_kind_text LocSource = ''source''"
| "location_kind_text LocUrl = ''url''"
| "location_kind_text LocPackage = ''package''"
| "location_kind_text LocResource = ''resource''"
| "location_kind_text LocUnknown = ''unknown''"

definition json_text :: "string option \<Rightarrow> jsval" where
  "json_text x = (case x of None \<Rightarrow> JNull | Some s \<Rightarrow> JStr s)"

definition json_nat :: "nat option \<Rightarrow> jsval" where
  "json_nat x = (case x of None \<Rightarrow> JNull | Some n \<Rightarrow> JNum (of_nat n))"

definition json_texts :: "string list \<Rightarrow> jsval" where
  "json_texts xs = JArr (map JStr xs)"

definition location_json :: "dedupe_location \<Rightarrow> jsval" where
  "location_json l = JObj
     [(''kind'', JStr (location_kind_text (loc_kind l))), (''path'', json_text (loc_path l)),
      (''startLine'', json_nat (loc_startLine l)), (''endLine'', json_nat (loc_endLine l)),
      (''startCol'', json_nat (loc_startCol l)), (''endCol'', json_nat (loc_endCol l)),
      (''method'', json_text (loc_method l)), (''parameter'', json_text (loc_parameter l)),
      (''resource'', json_text (loc_resource l))]"

definition identity_json :: "dedupe_identity \<Rightarrow> jsval" where
  "identity_json d = JObj
     [(''version'', JNum (of_nat (id_version d))), (''issueKind'', JStr (issue_kind_text (id_issueKind d))),
      (''assetKey'', json_text (id_assetKey d)), (''location'', location_json (id_location d)),
      (''familyKeys'', json_texts (id_familyKeys d)), (''advisoryIds'', json_texts (id_advisoryIds d)),
      (''packageKey'', json_text (id_packageKey d)), (''anchor'', json_text (id_anchor d)),
      (''limitations'', json_texts (id_limitations d))]"

definition value_hash :: "host \<Rightarrow> jsval \<Rightarrow> string" where
  "value_hash h v = canonical_hash (locale_compare h) (sha256_hex h) v"

section \<open>Pair decisions\<close>

definition intersection :: "string list \<Rightarrow> string list \<Rightarrow> string list" where
  "intersection left right = filter (\<lambda>v. v \<in> set right) left"

definition ordered_pair :: "host \<Rightarrow> grouping_finding \<Rightarrow> grouping_finding \<Rightarrow> grouping_finding \<times> grouping_finding" where
  "ordered_pair h left right =
     (if locale_compare h (f_id left) (f_id right) < 0 then (left, right) else (right, left))"

definition descriptionHash :: "host \<Rightarrow> grouping_finding \<Rightarrow> string" where
  "descriptionHash h finding = value_hash h
     (if id_issueKind (f_identity finding) = Secret
      then JObj [(''title'', JStr (f_ruleId finding)), (''description'', JStr [])]
      else JObj [(''title'', JStr (f_title finding)), (''description'', JStr (f_description finding))])"

definition comparisonHash :: "host \<Rightarrow> grouping_finding \<Rightarrow> grouping_finding \<Rightarrow> string" where
  "comparisonHash h left right =
     (let (first, second) = ordered_pair h left right in
      value_hash h (JObj
        [(''algorithmVersion'', JStr GROUPING_ALGORITHM_VERSION),
         (''findingIds'', json_texts [f_id first, f_id second]),
         (''identities'', JArr [identity_json (f_identity first), identity_json (f_identity second)]),
         (''contentHashes'', json_texts [descriptionHash h first, descriptionHash h second])]))"

definition decision ::
  "host \<Rightarrow> grouping_finding \<Rightarrow> grouping_finding \<Rightarrow> verdict \<Rightarrow> pair_confidence \<Rightarrow> string list \<Rightarrow> pair_decision" where
  "decision h left right verd conf reasonCodes =
     (let (first, second) = ordered_pair h left right in
      \<lparr>pd_left = f_id first, pd_right = f_id second, pd_verdict = verd, pd_confidence = conf,
       pd_method = Deterministic, pd_reasonCodes = collated (locale_compare h) reasonCodes,
       pd_comparisonHash = comparisonHash h first second\<rparr>)"

definition spans_overlap :: "nat \<Rightarrow> nat \<Rightarrow> nat \<Rightarrow> nat \<Rightarrow> bool" where
  "spans_overlap start1 end1 start2 end2 = (start1 \<le> end2 \<and> start2 \<le> end1)"

definition rangesOverlap :: "dedupe_location \<Rightarrow> dedupe_location \<Rightarrow> bool option" where
  "rangesOverlap left right =
     (case (loc_startLine left, loc_endLine left, loc_startLine right, loc_endLine right) of
        (Some a, Some b, Some c, Some d) \<Rightarrow> Some (spans_overlap a b c d)
      | _ \<Rightarrow> None)"

definition columnsOverlap :: "dedupe_location \<Rightarrow> dedupe_location \<Rightarrow> bool option" where
  "columnsOverlap left right =
     (case (loc_startCol left, loc_endCol left, loc_startCol right, loc_endCol right) of
        (Some a, Some b, Some c, Some d) \<Rightarrow> Some (spans_overlap a b c d)
      | _ \<Rightarrow> None)"

definition exactSecretRange :: "dedupe_location \<Rightarrow> dedupe_location \<Rightarrow> bool option" where
  "exactSecretRange left right =
     (case (rangesOverlap left right, columnsOverlap left right) of
        (Some sameLineRange, Some sameColumnRange) \<Rightarrow> Some (sameLineRange \<and> sameColumnRange)
      | _ \<Rightarrow> None)"

definition sameFamily :: "grouping_finding \<Rightarrow> grouping_finding \<Rightarrow> bool" where
  "sameFamily left right =
     (hasConcreteFamily (f_identity left) \<and> hasConcreteFamily (f_identity right)
      \<and> intersection (id_familyKeys (f_identity left)) (id_familyKeys (f_identity right)) \<noteq> [])"

definition decide_dependency :: "host \<Rightarrow> grouping_finding \<Rightarrow> grouping_finding \<Rightarrow> pair_decision" where
  "decide_dependency h left right =
     (let l = id_advisoryIds (f_identity left); r = id_advisoryIds (f_identity right) in
      if intersection l r \<noteq> [] then decision h left right Same PairExact [''same_asset'', ''same_advisory'']
      else if l \<noteq> [] \<and> r \<noteq> [] then decision h left right Different PairNone [''different_advisory'']
      else decision h left right Ambiguous PairNone [''advisory_missing''])"

definition decide_secret :: "host \<Rightarrow> grouping_finding \<Rightarrow> grouping_finding \<Rightarrow> pair_decision" where
  "decide_secret h left right =
     (case exactSecretRange (id_location (f_identity left)) (id_location (f_identity right)) of
        Some True \<Rightarrow> decision h left right Same PairExact
          [''same_asset'', ''same_detector_family'', ''overlapping_exact_range'']
      | Some False \<Rightarrow> decision h left right Different PairNone [''non_overlapping_range'']
      | None \<Rightarrow> decision h left right Ambiguous PairNone [''column_range_missing''])"

definition decide_http :: "host \<Rightarrow> grouping_finding \<Rightarrow> grouping_finding \<Rightarrow> pair_decision" where
  "decide_http h left right =
     (let l = id_location (f_identity left); r = id_location (f_identity right) in
      if loc_method l \<noteq> loc_method r then decision h left right Different PairNone [''different_method'']
      else if loc_parameter l \<noteq> loc_parameter r
      then decision h left right Different PairNone [''different_parameter'']
      else decision h left right Same PairHigh
        [''same_asset'', ''same_method'', ''same_parameter'', ''same_family''])"

definition anchor_match :: "grouping_finding \<Rightarrow> grouping_finding \<Rightarrow> bool" where
  "anchor_match left right =
     (id_anchor (f_identity left) \<noteq> None \<and> id_anchor (f_identity left) = id_anchor (f_identity right))"

definition decide_source :: "host \<Rightarrow> grouping_finding \<Rightarrow> grouping_finding \<Rightarrow> pair_decision" where
  "decide_source h left right =
     (let overlap = rangesOverlap (id_location (f_identity left)) (id_location (f_identity right)) in
      if overlap = Some True \<or> anchor_match left right
      then decision h left right Same PairHigh
        [''same_asset'', ''same_family'',
         if overlap = Some True then ''overlapping_range'' else ''same_anchor'']
      else if overlap = Some False
      then decision h left right Different PairNone [''non_overlapping_range'']
      else decision h left right Ambiguous PairNone [''location_missing''])"

definition auto_merge_unsupported :: "dedupe_identity \<Rightarrow> bool" where
  "auto_merge_unsupported d =
     (id_issueKind d = UnknownKind \<or> id_issueKind d = BusinessLogic \<or> id_assetKey d = None)"

definition decideFindingPair ::
  "host \<Rightarrow> grouping_finding \<Rightarrow> grouping_finding \<Rightarrow> (string, pair_decision) result" where
  "decideFindingPair h left right =
     (let l = f_identity left; r = f_identity right; kind = id_issueKind l in
      if f_id left = f_id right then Inl ''Cannot compare a finding with itself''
      else Inr
       (if id_issueKind l \<noteq> id_issueKind r
        then decision h left right Different PairNone [''different_issue_kind'']
        else if auto_merge_unsupported l \<or> auto_merge_unsupported r
        then decision h left right Ambiguous PairNone [''auto_merge_not_supported'']
        else if id_assetKey l \<noteq> id_assetKey r
        then decision h left right Different PairNone [''different_asset'']
        else if kind = Dependency then decide_dependency h left right
        else if \<not> sameFamily left right
        then decision h left right Different PairNone [''different_family'']
        else if kind = Secret then decide_secret h left right
        else if kind = Web \<or> kind = Api then decide_http h left right
        else if kind = Iac \<and> loc_resource (id_location l) \<noteq> loc_resource (id_location r)
        then decision h left right Different PairNone [''different_resource'']
        else decide_source h left right))"

section \<open>Comparing the blocks under a budget\<close>

definition project_finding :: "host \<Rightarrow> finding \<Rightarrow> grouping_finding" where
  "project_finding h f = finding.extend f
     (grouping_finding.fields (projectFindingDedupeIdentity h
        \<lparr>in_sourceTool = f_sourceTool f, in_ruleId = f_ruleId f,
         in_primaryLocation = f_primaryLocation f, in_metadata = f_metadata f\<rparr>))"

definition id_compare :: "host \<Rightarrow> grouping_finding \<Rightarrow> grouping_finding \<Rightarrow> int" where
  "id_compare h left right = locale_compare h (f_id left) (f_id right)"

definition pairKey :: "host \<Rightarrow> string \<Rightarrow> string \<Rightarrow> string" where
  "pairKey h leftId rightId =
     (if locale_compare h leftId rightId < 0 then leftId @ CHR 0x00 # rightId
      else rightId @ CHR 0x00 # leftId)"

definition block_key :: "issue_kind \<Rightarrow> string \<Rightarrow> string" where
  "block_key kind asset = issue_kind_text kind @ CHR 0x00 # asset"

type_synonym blocks = "(string, grouping_finding list) jsmap"

definition add_to_block :: "grouping_finding \<Rightarrow> blocks \<Rightarrow> blocks" where
  "add_to_block f blocks =
     (let d = f_identity f in
      if auto_merge_unsupported d then blocks
      else
        (let key = block_key (id_issueKind d) (the (id_assetKey d)) in
         jm_set key (or_else (jm_get blocks key) [] @ [f]) blocks))"

definition build_blocks :: "grouping_finding list \<Rightarrow> blocks" where
  "build_blocks projected = fold add_to_block projected []"

fun block_pairs :: "'a list \<Rightarrow> ('a \<times> 'a) list" where
  \<comment> \<open>the two nested index loops over a block\<close>
  "block_pairs [] = []"
| "block_pairs (x # xs) = map (Pair x) xs @ block_pairs xs"

type_synonym decisions = "(string, pair_decision) jsmap"

record pair_state =
  ps_decisions :: decisions
  ps_comparisons :: nat
  ps_ambiguous :: nat
  ps_exceeded :: bool

definition pair_start :: pair_state where
  "pair_start = \<lparr>ps_decisions = [], ps_comparisons = 0, ps_ambiguous = 0, ps_exceeded = False\<rparr>"

definition record_decision :: "host \<Rightarrow> pair_decision \<Rightarrow> pair_state \<Rightarrow> pair_state" where
  "record_decision h pair st = st
     \<lparr>ps_comparisons := Suc (ps_comparisons st),
      ps_ambiguous := ps_ambiguous st + (if pd_verdict pair = Ambiguous then 1 else 0),
      ps_decisions := jm_set (pairKey h (pd_left pair) (pd_right pair)) pair (ps_decisions st)\<rparr>"

definition skip_pair :: "pair_state \<Rightarrow> pair_state" where
  "skip_pair st = st\<lparr>ps_exceeded := True, ps_ambiguous := Suc (ps_ambiguous st)\<rparr>"

fun compare_pairs ::
  "host \<Rightarrow> nat \<Rightarrow> (grouping_finding \<times> grouping_finding) list \<Rightarrow> pair_state \<Rightarrow> (string, pair_state) result" where
  "compare_pairs h budget [] st = Inr st"
| "compare_pairs h budget ((left, right) # ps) st =
     (if budget \<le> ps_comparisons st then compare_pairs h budget ps (skip_pair st)
      else (case decideFindingPair h left right of
          Inl e \<Rightarrow> Inl e
        | Inr pair \<Rightarrow> compare_pairs h budget ps (record_decision h pair st)))"

section \<open>Complete-link clusters\<close>

fun find_index :: "('a \<Rightarrow> bool) \<Rightarrow> 'a list \<Rightarrow> nat option" where
  "find_index P [] = None"
| "find_index P (x # xs) = (if P x then Some 0 else map_option Suc (find_index P xs))"

definition linked :: "host \<Rightarrow> decisions \<Rightarrow> grouping_finding \<Rightarrow> grouping_finding \<Rightarrow> bool" where
  "linked h ds left right =
     (map_option pd_verdict (jm_get ds (pairKey h (f_id left) (f_id right))) = Some Same)"

definition canMergeCompleteLink :: "('f \<Rightarrow> 'f \<Rightarrow> bool) \<Rightarrow> 'f list \<Rightarrow> 'f list \<Rightarrow> bool" where
  "canMergeCompleteLink link left right =
     list_all (\<lambda>leftMember. list_all (\<lambda>rightMember. link leftMember rightMember) right) left"

definition drop_two :: "nat \<Rightarrow> nat \<Rightarrow> 'a list \<Rightarrow> 'a list" where
  "drop_two i j xs = map fst (filter (\<lambda>e. snd e \<noteq> i \<and> snd e \<noteq> j) (zip xs [0..<length xs]))"

definition has_member :: "string \<Rightarrow> grouping_finding list \<Rightarrow> bool" where
  "has_member fid cluster = list_ex (\<lambda>f. f_id f = fid) cluster"

definition merge_step ::
  "host \<Rightarrow> decisions \<Rightarrow> pair_decision \<Rightarrow> grouping_finding list list \<Rightarrow> grouping_finding list list" where
  "merge_step h ds pair clusters =
     (if pd_verdict pair \<noteq> Same then clusters
      else (case (find_index (has_member (pd_left pair)) clusters,
                  find_index (has_member (pd_right pair)) clusters) of
          (Some i, Some j) \<Rightarrow>
            (if i = j then clusters
             else if canMergeCompleteLink (linked h ds) (clusters ! i) (clusters ! j)
             then drop_two i j clusters @ [js_sort (id_compare h) (clusters ! i @ clusters ! j)]
             else clusters)
        | _ \<Rightarrow> clusters))"

definition merge_clusters :: "host \<Rightarrow> decisions \<Rightarrow> grouping_finding list \<Rightarrow> grouping_finding list list" where
  "merge_clusters h ds projected =
     fold (merge_step h ds) (jm_values ds) (map (\<lambda>f. [f]) projected)"

section \<open>Groups\<close>

definition completeness :: "dedupe_identity \<Rightarrow> int" where
  "completeness d =
     int (length (filter (\<lambda>x. x \<noteq> None \<and> x \<noteq> Some [])
        [id_assetKey d, id_packageKey d, id_anchor d, loc_path (id_location d), loc_resource (id_location d)]))
     + int (length (filter (\<lambda>key. key \<noteq> ''family:unknown'') (id_familyKeys d)))"

definition representative_compare :: "host \<Rightarrow> grouping_finding \<Rightarrow> grouping_finding \<Rightarrow> int" where
  "representative_compare h left right =
     (let lc = locale_compare h;
          sev = severityRank (f_severity left) - severityRank (f_severity right);
          comp = completeness (f_identity right) - completeness (f_identity left);
          tool = lc (f_sourceTool left) (f_sourceTool right);
          rule = lc (f_ruleId left) (f_ruleId right)
      in if f_confidence left \<noteq> f_confidence right
         then (if f_confidence left = Runtime then - 1 else 1)
         else if sev \<noteq> 0 then sev
         else if comp \<noteq> 0 then comp
         else if tool \<noteq> 0 then tool
         else if rule \<noteq> 0 then rule
         else lc (f_id left) (f_id right))"

definition representative :: "host \<Rightarrow> grouping_finding list \<Rightarrow> grouping_finding" where
  "representative h findings = hd (js_sort (representative_compare h) findings)"

definition utf8 :: "nat list \<Rightarrow> string" where
  "utf8 bytes = map char_of bytes"

definition secret_title :: string where
  \<comment> \<open>the UTF-8 bytes of the Japanese title of a secret group\<close>
  "secret_title = utf8
     [232, 170, 141, 232, 168, 188, 230, 131, 133, 229, 160, 177, 227, 130, 137, 227, 129, 151, 227,
     129, 141, 229, 128, 164, 227, 129, 174, 230, 164, 156, 229, 135, 186]"

definition secret_description :: string where
  "secret_description = utf8
     [228, 191, 157, 229, 173, 152, 230, 184, 136, 227, 129, 191, 227, 129, 174, 230, 164, 156, 229,
     135, 186, 231, 181, 144, 230, 158, 156, 227, 129, 167, 232, 170, 141, 232, 168, 188, 230, 131,
     133, 229, 160, 177, 227, 130, 137, 227, 129, 151, 227, 129, 141, 229, 128, 164, 227, 129, 140,
     231, 164, 186, 227, 129, 149, 227, 130, 140, 227, 129, 190, 227, 129, 151, 227, 129, 159, 227,
     128, 130, 229, 174, 159, 229, 128, 164, 227, 129, 175, 32, 103, 114, 111, 117, 112, 32, 115,
     110, 97, 112, 115, 104, 111, 116, 32, 227, 129, 171, 229, 144, 171, 227, 130, 129, 227, 129,
     190, 227, 129, 155, 227, 130, 147, 227, 128, 130]"

definition top_severity :: "severity \<Rightarrow> grouping_finding list \<Rightarrow> severity" where
  "top_severity start members =
     foldl (\<lambda>current item. if severityRank (f_severity item) < severityRank current
                           then f_severity item else current) start members"

definition second_part :: "string option \<Rightarrow> string option" where
  \<comment> \<open>\<open>key?.split(":")[1] ?? null\<close>\<close>
  "second_part key =
     (case key of None \<Rightarrow> None
      | Some k \<Rightarrow> (case split_at (CHR '':'') k of _ # name # _ \<Rightarrow> Some name | _ \<Rightarrow> None))"

definition evidence_decisions :: "host \<Rightarrow> decisions \<Rightarrow> grouping_finding \<Rightarrow> grouping_finding list \<Rightarrow> pair_decision list" where
  "evidence_decisions h ds leader members =
     List.map_filter (\<lambda>m. jm_get ds (pairKey h (f_id leader) (f_id m)))
       (filter (\<lambda>m. f_id m \<noteq> f_id leader) members)"

definition group_title :: "grouping_finding \<Rightarrow> string" where
  "group_title leader =
     (let packageName = second_part (id_packageKey (f_identity leader));
          advisories = id_advisoryIds (f_identity leader);
          kind = id_issueKind (f_identity leader)
      in if kind = Dependency \<and> packageName \<noteq> None \<and> packageName \<noteq> Some []
            \<and> advisories \<noteq> [] \<and> hd advisories \<noteq> []
         then the packageName @ '': '' @ hd advisories
         else if kind = Secret then secret_title else f_title leader)"

definition buildGroup :: "host \<Rightarrow> decisions \<Rightarrow> grouping_finding list \<Rightarrow> finding_group" where
  "buildGroup h ds members =
     (let orderedMembers = js_sort (id_compare h) members;
          leader = representative h orderedMembers;
          memberFindingIds = map f_id orderedMembers;
          evidence = evidence_decisions h ds leader orderedMembers;
          allExact = (evidence \<noteq> [] \<and> list_all (\<lambda>d. pd_confidence d = PairExact) evidence);
          isSecret = (id_issueKind (f_identity leader) = Secret)
      in \<lparr>g_stableKey = value_hash h (JObj
             [(''algorithmVersion'', JStr GROUPING_ALGORITHM_VERSION),
              (''memberFindingIds'', json_texts memberFindingIds)]),
          g_representative = f_id leader,
          g_members = memberFindingIds,
          g_issueKind = id_issueKind (f_identity leader),
          g_title = group_title leader,
          g_description = (if isSecret then secret_description else f_description leader),
          g_severity = top_severity (f_severity leader) orderedMembers,
          g_primaryLocation = id_location (f_identity leader),
          g_sourceTools = collated (locale_compare h) (map f_sourceTool orderedMembers),
          g_matchConfidence = (if length memberFindingIds = 1 then GroupSingleton
            else if allExact then GroupExact else GroupHigh),
          g_reasonCodes = (if length memberFindingIds = 1 then [''singleton'']
            else collated (locale_compare h) (concat (map pd_reasonCodes evidence)))\<rparr>)"

definition group_compare :: "host \<Rightarrow> finding_group \<Rightarrow> finding_group \<Rightarrow> int" where
  "group_compare h left right =
     (let sev = severityRank (g_severity left) - severityRank (g_severity right) in
      if sev \<noteq> 0 then sev else locale_compare h (g_stableKey left) (g_stableKey right))"

definition decision_compare :: "host \<Rightarrow> pair_decision \<Rightarrow> pair_decision \<Rightarrow> int" where
  "decision_compare h left right =
     locale_compare h (pairKey h (pd_left left) (pd_right left)) (pairKey h (pd_left right) (pd_right right))"

definition all_pairs :: "grouping_finding list \<Rightarrow> (grouping_finding \<times> grouping_finding) list" where
  "all_pairs projected = concat (map block_pairs (jm_values (build_blocks projected)))"

definition sorted_projection :: "host \<Rightarrow> finding list \<Rightarrow> grouping_finding list" where
  "sorted_projection h findings = js_sort (id_compare h) (map (project_finding h) findings)"

definition buildFindingGroups :: "host \<Rightarrow> nat option \<Rightarrow> finding list \<Rightarrow> (string, grouping_result) result" where
  "buildFindingGroups h maxPairComparisons findings =
     (let projected = sorted_projection h findings;
          budget = or_else maxPairComparisons DETERMINISTIC_MAX_PAIR_COMPARISONS
      in case compare_pairs h budget (all_pairs projected) pair_start of
           Inl e \<Rightarrow> Inl e
         | Inr st \<Rightarrow>
             (let ds = ps_decisions st;
                  clusters = merge_clusters h ds projected
              in Inr \<lparr>gr_groups = js_sort (group_compare h) (map (buildGroup h ds) clusters),
                      gr_pairDecisions = js_sort (decision_compare h) (jm_values ds),
                      gr_ambiguousCount = ps_ambiguous st,
                      gr_limitations = (if ps_exceeded st then [''deterministic_pair_budget_exceeded''] else [])\<rparr>))"

section \<open>The persisted snapshot\<close>

datatype member_role = Representative | Supporting

record grouping_member =
  m_finding :: grouping_finding
  m_identity :: dedupe_identity
  m_role :: member_role
  m_matchConfidence :: group_confidence
  m_reasonCodes :: "string list"
  m_comparisonHash :: "string option"

record built_finding_group = finding_group +
  bg_members :: "grouping_member list"

record grouping_snapshot =
  gs_groups :: "built_finding_group list"
  gs_ambiguousCount :: nat
  gs_limitations :: "string list"

text \<open>A stored row: the severity and the confidence are still text.\<close>

record finding_row =
  r_id :: string
  r_sourceTool :: string
  r_ruleId :: string
  r_title :: string
  r_description :: string
  r_severity :: string
  r_confidence :: string
  r_primaryLocation :: "js_record option"
  r_metadata :: "js_record option"

definition normalizeSeverity :: "string \<Rightarrow> severity" where
  "normalizeSeverity v =
     (if v = ''info'' then Info else if v = ''low'' then Low else if v = ''medium'' then Medium
      else if v = ''high'' then High else if v = ''critical'' then Critical else UnknownSeverity)"

definition normalize_row :: "finding_row \<Rightarrow> finding" where
  "normalize_row r =
     \<lparr>f_id = r_id r, f_sourceTool = r_sourceTool r, f_ruleId = r_ruleId r, f_title = r_title r,
      f_description = r_description r, f_severity = normalizeSeverity (r_severity r),
      f_confidence = (if r_confidence r = ''runtime'' then Runtime else Static),
      f_primaryLocation = r_primaryLocation r, f_metadata = r_metadata r\<rparr>"

definition build_member ::
  "host \<Rightarrow> decisions \<Rightarrow> (string, grouping_finding) jsmap \<Rightarrow> finding_group \<Rightarrow> string
    \<Rightarrow> (string, grouping_member) result" where
  "build_member h ds byId grp findingId =
     (case jm_get byId findingId of
        None \<Rightarrow> Inl ''grouping_member_not_found''
      | Some finding \<Rightarrow>
          (let leader = (findingId = g_representative grp);
               pair = (if leader then None else jm_get ds (pairKey h (g_representative grp) findingId))
           in Inr \<lparr>m_finding = finding, m_identity = f_identity finding,
                   m_role = (if leader then Representative else Supporting),
                   m_matchConfidence = (if g_matchConfidence grp = GroupExact then GroupExact
                     else if g_matchConfidence grp = GroupHigh then GroupHigh else GroupSingleton),
                   m_reasonCodes = (if leader then [''representative'']
                     else or_else (map_option pd_reasonCodes pair) (g_reasonCodes grp)),
                   m_comparisonHash = map_option pd_comparisonHash pair\<rparr>))"

definition build_members ::
  "host \<Rightarrow> decisions \<Rightarrow> (string, grouping_finding) jsmap \<Rightarrow> finding_group \<Rightarrow> (string, built_finding_group) result" where
  "build_members h ds byId grp =
     (case map_result (build_member h ds byId grp) (g_members grp) of
        Inl e \<Rightarrow> Inl e
      | Inr ms \<Rightarrow> Inr (finding_group.extend grp (built_finding_group.fields ms)))"

definition buildDeterministicFindingGroups :: "host \<Rightarrow> finding_row list \<Rightarrow> (string, grouping_snapshot) result" where
  "buildDeterministicFindingGroups h findings =
     (let normalized_rows = map normalize_row findings in
      case buildFindingGroups h None normalized_rows of
        Inl e \<Rightarrow> Inl e
      | Inr result \<Rightarrow>
          (let ds = jm_of_list (map (\<lambda>pair. (pairKey h (pd_left pair) (pd_right pair), pair))
                      (gr_pairDecisions result));
               byId = jm_of_list (map (\<lambda>f. (f_id f, project_finding h f)) normalized_rows)
           in case map_result (build_members h ds byId) (gr_groups result) of
                Inl e \<Rightarrow> Inl e
              | Inr groups \<Rightarrow> Inr \<lparr>gs_groups = groups, gs_ambiguousCount = gr_ambiguousCount result,
                                  gs_limitations = gr_limitations result\<rparr>))"

end
