(* ===== verification/FindingPairs.thy ===== *)
theory FindingPairs
  imports FindingGrouping
begin

text \<open>
  Facts about the pair decision of the grouping engine: it does not depend on the order of the two
  findings, and the key of a pair determines the pair.
\<close>

section \<open>Symmetry of the pair decision\<close>

definition separates :: "host \<Rightarrow> string set \<Rightarrow> bool" where
  \<comment> \<open>the collation tells these identifiers apart\<close>
  "separates h ids = (\<forall>a \<in> ids. \<forall>b \<in> ids. locale_compare h a b = 0 \<longrightarrow> a = b)"

lemma separatesD: "separates h ids \<Longrightarrow> a \<in> ids \<Longrightarrow> b \<in> ids \<Longrightarrow> locale_compare h a b = 0 \<Longrightarrow> a = b"
  by (simp add: separates_def)

lemma separates_mono: "separates h ids \<Longrightarrow> ids' \<subseteq> ids \<Longrightarrow> separates h ids'"
  by (auto simp: separates_def)

lemma compare_flip:
  assumes "comparator lc" and "lc a b \<noteq> 0"
  shows "lc a b < 0 \<longleftrightarrow> \<not> lc b a < 0"
  using comparator.cmp_flip [OF assms(1), of a b] comparator.cmp_flip [OF assms(1), of b a] assms(2)
  by linarith

lemma ordered_pair_sym:
  assumes "comparator (locale_compare h)" and "locale_compare h (f_id l) (f_id r) \<noteq> 0"
  shows "ordered_pair h l r = ordered_pair h r l"
  using compare_flip [OF assms] by (auto simp: ordered_pair_def)

lemma pairKey_sym:
  assumes "comparator (locale_compare h)" and "locale_compare h a b \<noteq> 0 \<or> a = b"
  shows "pairKey h a b = pairKey h b a"
  using assms(2) compare_flip [OF assms(1), of a b] by (auto simp: pairKey_def)

lemma decision_sym:
  assumes "comparator (locale_compare h)" and "locale_compare h (f_id l) (f_id r) \<noteq> 0"
  shows "decision h l r v c rs = decision h r l v c rs"
  by (simp add: decision_def ordered_pair_sym [OF assms])

lemma intersection_empty: "intersection xs ys = [] \<longleftrightarrow> set xs \<inter> set ys = {}"
  by (auto simp: intersection_def filter_empty_conv)

lemma spans_overlap_sym: "spans_overlap a b c d = spans_overlap c d a b"
  by (auto simp: spans_overlap_def)

lemma overlap_sym:
  "rangesOverlap l r = rangesOverlap r l" "columnsOverlap l r = columnsOverlap r l"
  "exactSecretRange l r = exactSecretRange r l"
proof -
  show 1: "rangesOverlap l r = rangesOverlap r l" and 2: "columnsOverlap l r = columnsOverlap r l"
    by (auto simp: rangesOverlap_def columnsOverlap_def spans_overlap_sym split: option.splits)
  show "exactSecretRange l r = exactSecretRange r l"
    by (simp add: exactSecretRange_def 1 2)
qed

lemma sameFamily_sym: "sameFamily l r = sameFamily r l"
  by (auto simp: sameFamily_def intersection_empty)

lemma anchor_match_sym: "anchor_match l r = anchor_match r l"
  unfolding anchor_match_def by metis

lemma decide_parts_sym:
  assumes "comparator (locale_compare h)" and "locale_compare h (f_id l) (f_id r) \<noteq> 0"
  shows "decide_dependency h l r = decide_dependency h r l"
    and "decide_secret h l r = decide_secret h r l"
    and "decide_http h l r = decide_http h r l"
    and "decide_source h l r = decide_source h r l"
proof -
  note sym = decision_sym [OF assms]
  show "decide_dependency h l r = decide_dependency h r l"
    by (auto simp: decide_dependency_def Let_def sym intersection_empty)
  show "decide_secret h l r = decide_secret h r l"
    unfolding decide_secret_def sym
    unfolding overlap_sym(3) [of "id_location (f_identity l)" "id_location (f_identity r)"]
    by (rule refl)
  show "decide_http h l r = decide_http h r l"
    by (auto simp: decide_http_def Let_def sym)
  show "decide_source h l r = decide_source h r l"
    unfolding decide_source_def Let_def sym anchor_match_sym [of l r]
      overlap_sym(1) [of "id_location (f_identity l)" "id_location (f_identity r)"]
    by (rule refl)
qed

lemma decideFindingPair_sym:
  assumes "comparator (locale_compare h)"
    and "f_id l \<noteq> f_id r \<Longrightarrow> locale_compare h (f_id l) (f_id r) \<noteq> 0"
  shows "decideFindingPair h l r = decideFindingPair h r l"
proof (cases "f_id l = f_id r")
  case True
  then show ?thesis by (simp add: decideFindingPair_def)
next
  case False
  note ne = assms(2) [OF False]
  show ?thesis
    using False
    by (auto simp: decideFindingPair_def Let_def decision_sym [OF assms(1) ne] decide_parts_sym [OF assms(1) ne]
        sameFamily_sym [of l])
qed

section \<open>Keys of pairs\<close>

definition plain_ids :: "string set \<Rightarrow> bool" where
  \<comment> \<open>no identifier holds the separator of the pair keys\<close>
  "plain_ids ids = (\<forall>a \<in> ids. CHR 0x00 \<notin> set a)"

lemma pairKey_ends:
  assumes "pairKey h a b = pairKey h c d"
    and "CHR 0x00 \<notin> set a" "CHR 0x00 \<notin> set b" "CHR 0x00 \<notin> set c" "CHR 0x00 \<notin> set d"
  shows "{a, b} = {c, d}"
  using assms key_pair_inject [of "CHR 0x00" a c b d] key_pair_inject [of "CHR 0x00" a d b c]
    key_pair_inject [of "CHR 0x00" b c a d] key_pair_inject [of "CHR 0x00" b d a c]
  by (auto simp: pairKey_def split: if_splits)

lemma decision_simps [simp]:
  "pd_verdict (decision h l r v c rs) = v" "pd_confidence (decision h l r v c rs) = c"
  "{pd_left (decision h l r v c rs), pd_right (decision h l r v c rs)} = {f_id l, f_id r}"
  by (auto simp: decision_def ordered_pair_def)

lemma decision_parts:
  "\<exists>v c rs. decide_dependency h l r = decision h l r v c rs"
  "\<exists>v c rs. decide_secret h l r = decision h l r v c rs"
  "\<exists>v c rs. decide_http h l r = decision h l r v c rs"
  "\<exists>v c rs. decide_source h l r = decision h l r v c rs"
  by (auto simp: decide_dependency_def decide_secret_def decide_http_def decide_source_def Let_def
      split: option.splits bool.splits)

lemma decideFindingPair_decision:
  assumes "decideFindingPair h l r = Inr d"
  shows "\<exists>v c rs. d = decision h l r v c rs" and "f_id l \<noteq> f_id r"
proof -
  show "f_id l \<noteq> f_id r"
    using assms by (auto simp: decideFindingPair_def)
  show "\<exists>v c rs. d = decision h l r v c rs"
    using assms decision_parts [of h l r]
    by (auto simp: decideFindingPair_def Let_def split: if_splits)
qed

lemma decideFindingPair_ends:
  "decideFindingPair h l r = Inr d \<Longrightarrow> {pd_left d, pd_right d} = {f_id l, f_id r}"
  using decideFindingPair_decision(1) decision_simps(3) by metis

lemma decideFindingPair_total: "f_id l \<noteq> f_id r \<Longrightarrow> \<exists>d. decideFindingPair h l r = Inr d"
  by (simp add: decideFindingPair_def Let_def)

section \<open>Pairs of a block\<close>

lemma block_pairs_set: "(x, y) \<in> set (block_pairs xs) \<Longrightarrow> x \<in> set xs \<and> y \<in> set xs"
  by (induction xs) auto

lemma block_pairs_distinct: "distinct (map f xs) \<Longrightarrow> (x, y) \<in> set (block_pairs xs) \<Longrightarrow> f x \<noteq> f y"
  by (induction xs) auto

lemma length_block_pairs: "length (block_pairs xs) = length xs * (length xs - 1) div 2"
proof (induction xs)
  case Nil
  then show ?case by simp
next
  case (Cons x xs)
  have "even (length xs * (length xs - 1))" by (cases "length xs") auto
  then obtain k where k: "length xs * (length xs - 1) = 2 * k" by (metis evenE)
  have "length (x # xs) * (length (x # xs) - 1) = 2 * (length xs + k)"
    using k by (cases "length xs") (auto simp: algebra_simps)
  then show ?case using Cons k by simp
qed

definition block_of :: "grouping_finding \<Rightarrow> string option" where
  "block_of f = (if auto_merge_unsupported (f_identity f) then None
     else Some (block_key (id_issueKind (f_identity f)) (the (id_assetKey (f_identity f)))))"

lemma add_to_block_get:
  "jm_get (add_to_block f bs) k =
     (if block_of f = Some k then Some (or_else (jm_get bs k) [] @ [f]) else jm_get bs k)"
  by (simp add: add_to_block_def block_of_def Let_def)

lemma build_blocks_inv: "jm_inv (build_blocks fs)"
proof -
  have "jm_inv (fold add_to_block fs bs)" if "jm_inv bs" for bs
    using that by (induction fs arbitrary: bs) (auto simp: add_to_block_def Let_def)
  then show ?thesis by (simp add: build_blocks_def)
qed

lemma build_blocks_get:
  "jm_get (build_blocks fs) k =
     (let b = filter (\<lambda>f. block_of f = Some k) fs in if b = [] then None else Some b)"
proof -
  have "jm_get (fold add_to_block fs bs) k =
     (let b = or_else (jm_get bs k) [] @ filter (\<lambda>f. block_of f = Some k) fs
      in if jm_get bs k = None \<and> b = [] then None else Some b)" for bs
    by (induction fs arbitrary: bs) (auto simp: add_to_block_get Let_def or_else_def split: option.splits)
  then show ?thesis by (simp add: build_blocks_def Let_def)
qed

lemma build_blocks_values:
  assumes "b \<in> set (jm_values (build_blocks fs))"
  obtains k where "b = filter (\<lambda>f. block_of f = Some k) fs"
  using jm_values_get [OF build_blocks_inv assms] by (auto simp: build_blocks_get Let_def split: if_splits)

lemma all_pairs_member:
  assumes "(l, r) \<in> set (all_pairs fs)"
  shows "l \<in> set fs" "r \<in> set fs" "distinct (map f_id fs) \<Longrightarrow> f_id l \<noteq> f_id r"
proof -
  obtain b where b: "b \<in> set (jm_values (build_blocks fs))" "(l, r) \<in> set (block_pairs b)"
    using assms by (auto simp: all_pairs_def)
  obtain k where k: "b = filter (\<lambda>f. block_of f = Some k) fs"
    using build_blocks_values [OF b(1)] .
  show "l \<in> set fs" "r \<in> set fs"
    using block_pairs_set [OF b(2)] by (auto simp: k)
  show "distinct (map f_id fs) \<Longrightarrow> f_id l \<noteq> f_id r"
    by (rule block_pairs_distinct [OF _ b(2)]) (simp add: k distinct_map_filter)
qed

section \<open>The budgeted comparison\<close>

definition decided :: "host \<Rightarrow> (grouping_finding \<times> grouping_finding) list \<Rightarrow> decisions \<Rightarrow> bool" where
  "decided h ps ds = (jm_inv ds \<and> (\<forall>k d. jm_get ds k = Some d \<longrightarrow>
     (\<exists>l r. (l, r) \<in> set ps \<and> decideFindingPair h l r = Inr d \<and> k = pairKey h (pd_left d) (pd_right d))))"

lemma decided_mono: "decided h ps ds \<Longrightarrow> set ps \<subseteq> set qs \<Longrightarrow> decided h qs ds"
  unfolding decided_def by blast

lemma decided_record:
  assumes "decided h ps (ps_decisions st)" and "decideFindingPair h l r = Inr d"
  shows "decided h ((l, r) # ps) (ps_decisions (record_decision h d st))"
  unfolding decided_def
proof (intro conjI allI impI)
  show "jm_inv (ps_decisions (record_decision h d st))"
    using assms(1) by (simp add: decided_def record_decision_def)
  fix k e
  assume e: "jm_get (ps_decisions (record_decision h d st)) k = Some e"
  show "\<exists>l' r'. (l', r') \<in> set ((l, r) # ps) \<and> decideFindingPair h l' r' = Inr e
      \<and> k = pairKey h (pd_left e) (pd_right e)"
  proof (cases "k = pairKey h (pd_left d) (pd_right d)")
    case True
    then show ?thesis using e assms(2) by (auto simp: record_decision_def)
  next
    case False
    then show ?thesis using e assms(1) by (simp add: decided_def record_decision_def) metis
  qed
qed

lemma compare_pairs_decided:
  assumes "compare_pairs h budget ps st = Inr st'" and "decided h qs (ps_decisions st)"
  shows "decided h (qs @ ps) (ps_decisions st')"
  using assms
proof (induction h budget ps st arbitrary: qs rule: compare_pairs.induct)
  case (1 h budget st)
  then show ?case by simp
next
  case (2 h budget l r ps st)
  show ?case
  proof (cases "budget \<le> ps_comparisons st")
    case True
    then have "decided h (qs @ ps) (ps_decisions st')"
      using 2 by (simp add: skip_pair_def)
    then show ?thesis by (rule decided_mono) auto
  next
    case False
    then obtain d where d: "decideFindingPair h l r = Inr d"
      using "2.prems"(1) by (auto split: sum.splits)
    have "decided h (((l, r) # qs) @ ps) (ps_decisions st')"
      by (rule "2.IH"(2) [OF False d _ decided_record [OF "2.prems"(2) d]])
        (use "2.prems"(1) False d in simp)
    then show ?thesis by (rule decided_mono) auto
  qed
qed

lemma compare_pairs_total:
  "(\<And>l r. (l, r) \<in> set ps \<Longrightarrow> f_id l \<noteq> f_id r) \<Longrightarrow> \<exists>st'. compare_pairs h budget ps st = Inr st'"
proof (induction h budget ps st rule: compare_pairs.induct)
  case (1 h budget st)
  then show ?case by simp
next
  case (2 h budget l r ps st)
  obtain d where d: "decideFindingPair h l r = Inr d"
    using decideFindingPair_total "2.prems" by (metis list.set_intros(1))
  then show ?case using 2 by simp
qed

text \<open>What the counters of the loop say.\<close>

definition is_ambiguous :: "host \<Rightarrow> grouping_finding \<times> grouping_finding \<Rightarrow> bool" where
  "is_ambiguous h p =
     (case decideFindingPair h (fst p) (snd p) of Inl _ \<Rightarrow> False | Inr d \<Rightarrow> pd_verdict d = Ambiguous)"

lemma compare_pairs_counts:
  assumes "compare_pairs h budget ps st = Inr st'"
  shows "ps_comparisons st' = ps_comparisons st + min (budget - ps_comparisons st) (length ps)"
    and "ps_exceeded st' = (ps_exceeded st \<or> budget - ps_comparisons st < length ps)"
    and "ps_ambiguous st' = ps_ambiguous st
      + length (filter (is_ambiguous h) (take (budget - ps_comparisons st) ps))
      + (length ps - (budget - ps_comparisons st))"
proof -
  have "ps_comparisons st' = ps_comparisons st + min (budget - ps_comparisons st) (length ps)
    \<and> ps_exceeded st' = (ps_exceeded st \<or> budget - ps_comparisons st < length ps)
    \<and> ps_ambiguous st' = ps_ambiguous st
      + length (filter (is_ambiguous h) (take (budget - ps_comparisons st) ps))
      + (length ps - (budget - ps_comparisons st))"
    using assms
  proof (induction h budget ps st rule: compare_pairs.induct)
    case (1 h budget st)
    then show ?case by simp
  next
    case (2 h budget l r ps st)
    show ?case
    proof (cases "budget \<le> ps_comparisons st")
      case True
      then show ?thesis using 2 by (simp add: skip_pair_def)
    next
      case False
      then obtain d where d: "decideFindingPair h l r = Inr d"
        using "2.prems"(1) by (auto split: sum.splits)
      obtain n where n: "budget - ps_comparisons st = Suc n"
        using False by (metis Suc_diff_Suc not_le)
      have n': "budget - Suc (ps_comparisons st) = n"
        using n by simp
      show ?thesis
        using "2.IH"(2) [OF False d] "2.prems" False
        by (auto simp: d n n' record_decision_def is_ambiguous_def)
    qed
  qed
  then show "ps_comparisons st' = ps_comparisons st + min (budget - ps_comparisons st) (length ps)"
    and "ps_exceeded st' = (ps_exceeded st \<or> budget - ps_comparisons st < length ps)"
    and "ps_ambiguous st' = ps_ambiguous st
      + length (filter (is_ambiguous h) (take (budget - ps_comparisons st) ps))
      + (length ps - (budget - ps_comparisons st))"
    by blast+
qed

end
