(* ===== verification/FindingClusters.thy ===== *)
theory FindingClusters
  imports FindingPairs
begin

text \<open>
  The clusters of the grouping engine: the links recorded by the comparison are symmetric, every step
  keeps the clusters a partition of the findings into cliques, and no two clusters of the result could
  still be merged.
\<close>


section \<open>Complete links\<close>

text \<open>
  The relation the clusters are built over: symmetric on the findings of one run. A clique is a list
  whose distinct elements are pairwise linked; merging two cliques under the check of the code keeps
  the clique.
\<close>

locale complete_link =
  fixes U :: "'f set" and link :: "'f \<Rightarrow> 'f \<Rightarrow> bool"
  assumes link_sym: "a \<in> U \<Longrightarrow> b \<in> U \<Longrightarrow> link a b \<Longrightarrow> link b a"
begin

definition clique :: "'f list \<Rightarrow> bool" where
  "clique xs = (set xs \<subseteq> U \<and> (\<forall>a \<in> set xs. \<forall>b \<in> set xs. a \<noteq> b \<longrightarrow> link a b))"

lemma clique_single: "a \<in> U \<Longrightarrow> clique [a]"
  by (simp add: clique_def)

lemma clique_merge:
  assumes "clique xs" and "clique ys" and "canMergeCompleteLink link xs ys"
    and "set zs = set xs \<union> set ys"
  shows "clique zs"
  using assms link_sym by (auto simp: clique_def canMergeCompleteLink_def list_all_iff) blast+

lemma clique_linked: "clique xs \<Longrightarrow> a \<in> set xs \<Longrightarrow> b \<in> set xs \<Longrightarrow> a \<noteq> b \<Longrightarrow> link a b"
  by (simp add: clique_def)

end

lemma linked_sym:
  assumes "comparator (locale_compare h)" and "separates h ids" and "f_id a \<in> ids" and "f_id b \<in> ids"
    and "linked h ds a b"
  shows "linked h ds b a"
  using assms(5) pairKey_sym [OF assms(1), of "f_id a" "f_id b"] separatesD [OF assms(2,3,4)]
  by (auto simp: linked_def)

lemma complete_link_linked:
  "comparator (locale_compare h) \<Longrightarrow> separates h ids \<Longrightarrow> complete_link {f. f_id f \<in> ids} (linked h ds)"
  by unfold_locales (auto intro: linked_sym)

text \<open>A host that collates by code units separates all identifiers.\<close>

definition code_unit_host :: "host \<Rightarrow> host" where
  "code_unit_host h = h\<lparr>locale_compare := code_unit_compare\<rparr>"

lemma code_unit_host_ok:
  "comparator (locale_compare (code_unit_host h))" "separates (code_unit_host h) ids"
  by (simp_all add: code_unit_host_def separates_def code_unit.comparator_axioms)

interpretation code_unit_links: complete_link UNIV "linked (code_unit_host h) ds" for h ds
  using complete_link_linked [OF code_unit_host_ok(1) code_unit_host_ok(2) [of h UNIV], of ds] by simp

section \<open>Merging clusters\<close>

lemma find_index_Some:
  "find_index P xs = Some i \<Longrightarrow> i < length xs \<and> P (xs ! i)"
  by (induction xs arbitrary: i) (auto split: if_splits)

lemma drop_two_nth: "drop_two i j xs = map (\<lambda>k. xs ! k) (filter (\<lambda>k. k \<noteq> i \<and> k \<noteq> j) [0..<length xs])"
proof -
  have "zip xs [0..<length xs] = map (\<lambda>k. (xs ! k, k)) [0..<length xs]"
    by (rule nth_equalityI) auto
  then show ?thesis
    by (simp add: drop_two_def filter_map comp_def)
qed

lemma mset_drop_two:
  assumes "i < length xs" and "j < length xs" and "i \<noteq> j"
  shows "mset xs = mset (drop_two i j xs) + {#xs ! i, xs ! j#}"
proof -
  have "mset (filter (\<lambda>k. \<not> (k \<noteq> i \<and> k \<noteq> j)) [0..<length xs]) = mset_set {k \<in> {0..<length xs}. \<not> (k \<noteq> i \<and> k \<noteq> j)}"
    using mset_set_set [of "filter (\<lambda>k. \<not> (k \<noteq> i \<and> k \<noteq> j)) [0..<length xs]"] by simp
  also have "{k \<in> {0..<length xs}. \<not> (k \<noteq> i \<and> k \<noteq> j)} = {i, j}"
    using assms by auto
  also have "mset_set {i, j} = {#i, j#}"
    using assms(3) by simp
  finally have two: "mset (filter (\<lambda>k. \<not> (k \<noteq> i \<and> k \<noteq> j)) [0..<length xs]) = {#i, j#}" .
  have "mset xs = image_mset (\<lambda>k. xs ! k) (mset [0..<length xs])"
    by (metis map_nth mset_map)
  also have "mset [0..<length xs] = mset (filter (\<lambda>k. k \<noteq> i \<and> k \<noteq> j) [0..<length xs]) + {#i, j#}"
    using two multiset_partition [of "mset [0..<length xs]" "\<lambda>k. k \<noteq> i \<and> k \<noteq> j"] by simp
  finally show ?thesis
    by (simp add: drop_two_nth)
qed

lemma merge_step_cases:
  obtains "merge_step h ds pair clusters = clusters"
  | i j where "i < length clusters" "j < length clusters" "i \<noteq> j"
      "canMergeCompleteLink (linked h ds) (clusters ! i) (clusters ! j)"
      "merge_step h ds pair clusters
        = drop_two i j clusters @ [js_sort (id_compare h) (clusters ! i @ clusters ! j)]"
proof (cases "merge_step h ds pair clusters = clusters")
  case True
  then show ?thesis by (rule that(1))
next
  case False
  then obtain i j where ij: "find_index (has_member (pd_left pair)) clusters = Some i"
      "find_index (has_member (pd_right pair)) clusters = Some j" "i \<noteq> j"
      "canMergeCompleteLink (linked h ds) (clusters ! i) (clusters ! j)"
    by (auto simp: merge_step_def split: if_splits option.splits)
  show ?thesis
  proof (rule that(2) [of i j])
    show "i < length clusters" "j < length clusters"
      using find_index_Some ij(1,2) by blast+
    show "merge_step h ds pair clusters
        = drop_two i j clusters @ [js_sort (id_compare h) (clusters ! i @ clusters ! j)]"
      using False ij by (auto simp: merge_step_def split: if_splits)
  qed (use ij in auto)
qed

lemma merge_step_mset:
  "mset (concat (merge_step h ds pair clusters)) = mset (concat clusters)"
proof (cases rule: merge_step_cases [of h ds pair clusters])
  case 1
  then show ?thesis by simp
next
  case (2 i j)
  have "sum_mset (image_mset mset (mset clusters))
      = sum_mset (image_mset mset (mset (drop_two i j clusters) + {#clusters ! i, clusters ! j#}))"
    using mset_drop_two [OF 2(1-3)] by simp
  then show ?thesis
    by (simp add: 2(5) mset_concat flip: sum_mset_sum_list)
qed

lemma merge_step_nonempty:
  assumes "[] \<notin> set clusters"
  shows "[] \<notin> set (merge_step h ds pair clusters)"
proof (cases rule: merge_step_cases [of h ds pair clusters])
  case 1
  then show ?thesis using assms by simp
next
  case (2 i j)
  have "clusters ! i \<noteq> []" using 2 assms by (metis nth_mem)
  moreover have "set (drop_two i j clusters) \<subseteq> set clusters"
    by (auto simp: drop_two_nth)
  moreover have "js_sort (id_compare h) (clusters ! i @ clusters ! j) \<noteq> []"
    using calculation(1) by simp
  ultimately show ?thesis
    using assms unfolding 2(5) set_append list.set by (metis UnE in_mono singletonD)
qed

lemma merge_step_cliques:
  assumes "complete_link U (linked h ds)" and "\<forall>c \<in> set clusters. complete_link.clique U (linked h ds) c"
  shows "\<forall>c \<in> set (merge_step h ds pair clusters). complete_link.clique U (linked h ds) c"
proof (cases rule: merge_step_cases [of h ds pair clusters])
  case 1
  then show ?thesis using assms by simp
next
  case (2 i j)
  have "complete_link.clique U (linked h ds) (js_sort (id_compare h) (clusters ! i @ clusters ! j))"
    by (rule complete_link.clique_merge [OF assms(1) _ _ 2(4)]) (use assms 2 in auto)
  moreover have "set (drop_two i j clusters) \<subseteq> set clusters"
    by (auto simp: drop_two_nth)
  ultimately show ?thesis using assms by (auto simp: 2(5))
qed

lemma merge_clusters_facts:
  shows "mset (concat (merge_clusters h ds fs)) = mset fs"
    and "[] \<notin> set (merge_clusters h ds fs)"
    and "complete_link U (linked h ds) \<Longrightarrow> set fs \<subseteq> U
      \<Longrightarrow> \<forall>c \<in> set (merge_clusters h ds fs). complete_link.clique U (linked h ds) c"
proof -
  have mset: "mset (concat (fold (merge_step h ds) ps cs)) = mset (concat cs)" for ps cs
    by (induction ps arbitrary: cs) (simp_all add: merge_step_mset)
  have ne: "[] \<notin> set cs \<Longrightarrow> [] \<notin> set (fold (merge_step h ds) ps cs)" for ps cs
    by (induction ps arbitrary: cs) (simp_all add: merge_step_nonempty)
  show "mset (concat (merge_clusters h ds fs)) = mset fs"
    by (simp only: merge_clusters_def mset) (induction fs, simp_all)
  show "[] \<notin> set (merge_clusters h ds fs)"
    unfolding merge_clusters_def by (rule ne) auto
  assume cl: "complete_link U (linked h ds)" and sub: "set fs \<subseteq> U"
  have cliques: "\<forall>c \<in> set (fold (merge_step h ds) ps cs). complete_link.clique U (linked h ds) c"
    if "\<forall>c \<in> set cs. complete_link.clique U (linked h ds) c" for ps cs
    using that
  proof (induction ps arbitrary: cs)
    case Nil
    then show ?case by simp
  next
    case (Cons p ps)
    show ?case
      using Cons.IH [OF merge_step_cliques [OF cl Cons.prems]] by simp
  qed
  have "\<forall>c \<in> set (map (\<lambda>f. [f]) fs). complete_link.clique U (linked h ds) c"
    using sub complete_link.clique_single [OF cl] by auto
  from cliques [OF this] show "\<forall>c \<in> set (merge_clusters h ds fs). complete_link.clique U (linked h ds) c"
    unfolding merge_clusters_def .
qed

section \<open>No two clusters of the result can be merged\<close>

definition refined_by :: "'f list list \<Rightarrow> 'f list list \<Rightarrow> bool" where
  "refined_by cs cs' = (\<forall>c \<in> set cs. \<exists>c' \<in> set cs'. set c \<subseteq> set c')"

lemma refined_by_refl: "refined_by cs cs"
  by (auto simp: refined_by_def)

lemma refined_by_trans: "refined_by cs cs' \<Longrightarrow> refined_by cs' cs'' \<Longrightarrow> refined_by cs cs''"
  unfolding refined_by_def by (meson order_trans)

lemma drop_two_rest: "k < length xs \<Longrightarrow> k \<noteq> i \<Longrightarrow> k \<noteq> j \<Longrightarrow> xs ! k \<in> set (drop_two i j xs)"
  by (auto simp: drop_two_nth)

lemma merge_step_refines: "refined_by clusters (merge_step h ds pair clusters)"
proof (cases rule: merge_step_cases [of h ds pair clusters])
  case 1
  then show ?thesis by (simp add: refined_by_refl)
next
  case (2 i j)
  show ?thesis
    unfolding refined_by_def
  proof
    fix c assume "c \<in> set clusters"
    then obtain k where k: "k < length clusters" "c = clusters ! k"
      by (metis in_set_conv_nth)
    show "\<exists>c' \<in> set (merge_step h ds pair clusters). set c \<subseteq> set c'"
      using drop_two_rest [OF k(1)] k(2) by (cases "k = i"; cases "k = j") (auto simp: 2(5))
  qed
qed

lemma merge_fold_refines: "refined_by clusters (fold (merge_step h ds) ps clusters)"
proof (induction ps arbitrary: clusters)
  case Nil
  then show ?case by (simp add: refined_by_refl)
next
  case (Cons p ps)
  show ?case
    using refined_by_trans [OF merge_step_refines Cons.IH] by simp
qed

text \<open>A pair is settled when its ends share a cluster, or the clusters of its ends are not fully linked.\<close>

definition settled :: "host \<Rightarrow> decisions \<Rightarrow> pair_decision \<Rightarrow> grouping_finding list list \<Rightarrow> bool" where
  "settled h ds pair clusters =
     ((\<exists>c \<in> set clusters. has_member (pd_left pair) c \<and> has_member (pd_right pair) c)
      \<or> (\<exists>c \<in> set clusters. \<exists>c' \<in> set clusters. has_member (pd_left pair) c \<and> has_member (pd_right pair) c'
           \<and> \<not> canMergeCompleteLink (linked h ds) c c'))"

lemma has_member_mono: "has_member i c \<Longrightarrow> set c \<subseteq> set c' \<Longrightarrow> has_member i c'"
  by (auto simp: has_member_def list_ex_iff)

lemma canMerge_mono:
  "canMergeCompleteLink link c c' \<Longrightarrow> set b \<subseteq> set c \<Longrightarrow> set b' \<subseteq> set c' \<Longrightarrow> canMergeCompleteLink link b b'"
  by (auto simp: canMergeCompleteLink_def list_all_iff)

lemma settled_refined: "settled h ds p cs \<Longrightarrow> refined_by cs cs' \<Longrightarrow> settled h ds p cs'"
  unfolding settled_def refined_by_def by (meson has_member_mono canMerge_mono)

lemma find_index_ex: "list_ex P xs \<Longrightarrow> \<exists>i. find_index P xs = Some i"
  by (induction xs) auto

lemma merge_step_settles:
  assumes "pd_verdict p = Same" and "list_ex (has_member (pd_left p)) cs" and "list_ex (has_member (pd_right p)) cs"
  shows "settled h ds p (merge_step h ds p cs)"
proof -
  obtain i j where ij: "find_index (has_member (pd_left p)) cs = Some i" "find_index (has_member (pd_right p)) cs = Some j"
    using find_index_ex assms(2,3) by metis
  have ends: "cs ! i \<in> set cs" "has_member (pd_left p) (cs ! i)" "cs ! j \<in> set cs" "has_member (pd_right p) (cs ! j)"
    using find_index_Some [OF ij(1)] find_index_Some [OF ij(2)] by auto
  show ?thesis
  proof (cases "i \<noteq> j \<and> canMergeCompleteLink (linked h ds) (cs ! i) (cs ! j)")
    case True
    let ?c = "js_sort (id_compare h) (cs ! i @ cs ! j)"
    have "has_member (pd_left p) ?c" "has_member (pd_right p) ?c"
      using ends(2,4) by (auto simp: has_member_def list_ex_iff)
    then show ?thesis using True ij assms(1) by (auto simp: settled_def merge_step_def)
  next
    case False
    then have "merge_step h ds p cs = cs"
      using ij by (cases "i = j") (simp_all add: merge_step_def)
    then show ?thesis using False ends by (auto simp: settled_def)
  qed
qed

lemma list_ex_refined: "list_ex (has_member i) cs \<Longrightarrow> refined_by cs cs' \<Longrightarrow> list_ex (has_member i) cs'"
  unfolding refined_by_def list_ex_iff by (meson has_member_mono)

lemma merge_fold_settles:
  assumes "p \<in> set ps" and "pd_verdict p = Same"
    and "list_ex (has_member (pd_left p)) cs" and "list_ex (has_member (pd_right p)) cs"
  shows "settled h ds p (fold (merge_step h ds) ps cs)"
  using assms(1,3,4)
proof (induction ps arbitrary: cs)
  case Nil
  then show ?case by simp
next
  case (Cons q ps)
  show ?case
  proof (cases "p = q")
    case True
    then show ?thesis
      using settled_refined [OF merge_step_settles [OF assms(2) Cons.prems(2,3)] merge_fold_refines] by simp
  next
    case False
    then show ?thesis
      using Cons.IH [of "merge_step h ds q cs"] Cons.prems list_ex_refined [OF _ merge_step_refines] by simp
  qed
qed

lemma cluster_of_id:
  assumes "distinct (map f_id (concat cs))" and "c \<in> set cs" and "c' \<in> set cs"
    and "has_member i c" and "has_member i c'"
  shows "c = c'"
proof -
  obtain x y where xy: "x \<in> set c" "f_id x = i" "y \<in> set c'" "f_id y = i"
    using assms(4,5) by (auto simp: has_member_def list_ex_iff)
  have "inj_on f_id (set (concat cs))" and dist: "distinct (concat cs)"
    using assms(1) by (simp_all add: distinct_map)
  moreover have "x \<in> set (concat cs)" "y \<in> set (concat cs)"
    using xy assms(2,3) by auto
  ultimately have "x = y"
    using xy by (auto dest: inj_onD)
  show ?thesis
  proof (rule ccontr)
    assume "c \<noteq> c'"
    then have "set c \<inter> set c' = {}"
      using dist assms(2,3) by (simp add: distinct_concat_iff)
    then show False using xy \<open>x = y\<close> by blast
  qed
qed

lemma merge_clusters_maximal:
  assumes cmp: "comparator (locale_compare h)" and sep: "separates h (f_id ` set fs)"
    and dist: "distinct (map f_id fs)"
    and ends: "\<And>k d. jm_get ds k = Some d \<Longrightarrow>
      \<exists>l r. l \<in> set fs \<and> r \<in> set fs \<and> k = pairKey h (f_id l) (f_id r) \<and> {pd_left d, pd_right d} = {f_id l, f_id r}"
    and keys: "\<And>a b c d. \<lbrakk>a \<in> f_id ` set fs; b \<in> f_id ` set fs; c \<in> f_id ` set fs; d \<in> f_id ` set fs;
      pairKey h a b = pairKey h c d\<rbrakk> \<Longrightarrow> {a, b} = {c, d}"
    and cs: "A \<in> set (merge_clusters h ds fs)" "B \<in> set (merge_clusters h ds fs)" "A \<noteq> B"
  shows "\<not> canMergeCompleteLink (linked h ds) A B"
proof
  assume merge: "canMergeCompleteLink (linked h ds) A B"
  let ?cs = "merge_clusters h ds fs"
  have mset: "mset (concat ?cs) = mset fs" by (rule merge_clusters_facts(1))
  then have sets: "set (concat ?cs) = set fs" by (metis set_mset_mset)
  have dcs: "distinct (map f_id (concat ?cs))"
    using dist mset by (metis mset_eq_imp_distinct_iff mset_map)
  obtain a b where ab: "a \<in> set A" "b \<in> set B"
    using cs merge_clusters_facts(2) [of h ds fs] by (metis last_in_set)
  then have abfs: "a \<in> set fs" "b \<in> set fs"
    using sets cs by auto
  have "linked h ds a b"
    using merge ab by (simp add: canMergeCompleteLink_def list_all_iff)
  then obtain d where d: "jm_get ds (pairKey h (f_id a) (f_id b)) = Some d" "pd_verdict d = Same"
    by (auto simp: linked_def)
  have dends: "{pd_left d, pd_right d} = {f_id a, f_id b}"
  proof -
    obtain l r where lr: "l \<in> set fs" "r \<in> set fs"
        "pairKey h (f_id a) (f_id b) = pairKey h (f_id l) (f_id r)"
        "{pd_left d, pd_right d} = {f_id l, f_id r}"
      using ends [OF d(1)] by auto
    show ?thesis
      using keys [OF _ _ _ _ lr(3)] lr abfs by auto
  qed
  have start: "list_ex (has_member (f_id x)) (map (\<lambda>f. [f]) fs)" if "x \<in> set fs" for x
    using that by (auto simp: has_member_def list_ex_iff)
  have "pd_left d \<in> {f_id a, f_id b}" "pd_right d \<in> {f_id a, f_id b}"
    using dends by auto
  then have "settled h ds d ?cs"
    unfolding merge_clusters_def
    by (intro merge_fold_settles) (use jm_get_values [OF d(1)] d(2) start [OF abfs(1)] start [OF abfs(2)] in auto)
  moreover have mem: "has_member (f_id a) A" "has_member (f_id b) B"
    using ab by (auto simp: has_member_def list_ex_iff)
  moreover have uniq: "c = c'" if "c \<in> set ?cs" "c' \<in> set ?cs" "has_member i c" "has_member i c'" for c c' i
    using cluster_of_id [OF dcs that] .
  moreover have "canMergeCompleteLink (linked h ds) B A"
    unfolding canMergeCompleteLink_def list_all_iff
  proof (intro ballI)
    fix y x assume yx: "y \<in> set B" "x \<in> set A"
    then have "x \<in> set fs" "y \<in> set fs" using sets cs by auto
    moreover have "linked h ds x y"
      using merge yx by (simp add: canMergeCompleteLink_def list_all_iff)
    ultimately show "linked h ds y x" using linked_sym [OF cmp sep] by simp
  qed
  ultimately show False
    using dends cs merge unfolding settled_def by (metis doubleton_eq_iff)
qed

end
