(* ===== verification/FindingGroupResult.thy ===== *)
theory FindingGroupResult
  imports FindingClusters
begin

text \<open>
  What the result of \<open>buildFindingGroups\<close> is made of, and the maps on findings that leave it unchanged:
  the lemmas the properties of the grouping engine rest on.
\<close>


section \<open>The result, piece by piece\<close>

definition ids_ok :: "host \<Rightarrow> finding list \<Rightarrow> bool" where
  \<comment> \<open>distinct identifiers without NUL that a consistent collation tells apart\<close>
  "ids_ok h fs = (comparator (locale_compare h) \<and> distinct (map f_id fs)
     \<and> separates h (f_id ` set fs) \<and> plain_ids (f_id ` set fs))"

lemma project_id [simp]: "f_id (project_finding h f) = f_id f"
  by (simp add: project_finding_def finding.extend_def)

lemma project_fields [simp]:
  "f_title (project_finding h f) = f_title f" "f_description (project_finding h f) = f_description f"
  "f_severity (project_finding h f) = f_severity f" "f_confidence (project_finding h f) = f_confidence f"
  by (simp_all add: project_finding_def finding.extend_def)

lemma sorted_projection_facts:
  "mset (map f_id (sorted_projection h fs)) = mset (map f_id fs)"
  "set (sorted_projection h fs) = project_finding h ` set fs"
  "f_id ` set (sorted_projection h fs) = f_id ` set fs"
  "distinct (map f_id (sorted_projection h fs)) = distinct (map f_id fs)"
proof -
  show 1: "mset (map f_id (sorted_projection h fs)) = mset (map f_id fs)"
    by (simp add: sorted_projection_def comp_def flip: mset_map) (simp add: mset_map multiset.map_comp comp_def)
  show "set (sorted_projection h fs) = project_finding h ` set fs"
    by (simp add: sorted_projection_def)
  then show "f_id ` set (sorted_projection h fs) = f_id ` set fs"
    by (simp add: image_image)
  show "distinct (map f_id (sorted_projection h fs)) = distinct (map f_id fs)"
    using 1 mset_eq_imp_distinct_iff by blast
qed

definition final_state :: "host \<Rightarrow> nat option \<Rightarrow> finding list \<Rightarrow> pair_state" where
  \<comment> \<open>the state after the comparison\<close>
  "final_state h m fs =
     (case compare_pairs h (or_else m DETERMINISTIC_MAX_PAIR_COMPARISONS)
        (all_pairs (sorted_projection h fs)) pair_start of Inl _ \<Rightarrow> pair_start | Inr st \<Rightarrow> st)"

abbreviation clusters_of :: "host \<Rightarrow> nat option \<Rightarrow> finding list \<Rightarrow> grouping_finding list list" where
  "clusters_of h m fs \<equiv> merge_clusters h (ps_decisions (final_state h m fs)) (sorted_projection h fs)"

lemma build_result:
  assumes "buildFindingGroups h m fs = Inr R"
  shows "compare_pairs h (or_else m DETERMINISTIC_MAX_PAIR_COMPARISONS) (all_pairs (sorted_projection h fs))
      pair_start = Inr (final_state h m fs)"
    and "gr_groups R = js_sort (group_compare h) (map (buildGroup h (ps_decisions (final_state h m fs))) (clusters_of h m fs))"
    and "gr_pairDecisions R = js_sort (decision_compare h) (jm_values (ps_decisions (final_state h m fs)))"
    and "gr_ambiguousCount R = ps_ambiguous (final_state h m fs)"
    and "gr_limitations R = (if ps_exceeded (final_state h m fs) then [''deterministic_pair_budget_exceeded''] else [])"
  using assms by (auto simp: buildFindingGroups_def final_state_def Let_def split: sum.splits)

lemma decided_result:
  assumes "compare_pairs h b (all_pairs P) pair_start = Inr st"
  shows "decided h (all_pairs P) (ps_decisions st)"
  using compare_pairs_decided [OF assms, of "[]"] by (simp add: decided_def pair_start_def)

lemma decided_ends:
  assumes "decided h (all_pairs P) ds" and "jm_get ds k = Some d"
  obtains l r where "l \<in> set P" "r \<in> set P" "decideFindingPair h l r = Inr d"
    "k = pairKey h (pd_left d) (pd_right d)" "{pd_left d, pd_right d} = {f_id l, f_id r}"
  using assms all_pairs_member(1,2) decideFindingPair_ends unfolding decided_def by metis

lemma ids_ok_keys:
  assumes "ids_ok h fs" and "a \<in> f_id ` set fs" "b \<in> f_id ` set fs" "c \<in> f_id ` set fs" "d \<in> f_id ` set fs"
    and "pairKey h a b = pairKey h c d"
  shows "{a, b} = {c, d}"
  using pairKey_ends [OF assms(6)] assms(1-5) by (auto simp: ids_ok_def plain_ids_def)

lemma ids_ok_pairKey_sym:
  assumes "ids_ok h fs" and "a \<in> f_id ` set fs" "b \<in> f_id ` set fs"
  shows "pairKey h a b = pairKey h b a"
  using pairKey_sym [of h a b] assms by (auto simp: ids_ok_def dest: separatesD)

text \<open>A recorded link is the decision about the two findings it names.\<close>

lemma linked_decides:
  assumes ok: "ids_ok h fs" and ds: "decided h (all_pairs (sorted_projection h fs)) ds"
    and ab: "a \<in> set (sorted_projection h fs)" "b \<in> set (sorted_projection h fs)" and "linked h ds a b"
  shows "\<exists>d. jm_get ds (pairKey h (f_id a) (f_id b)) = Some d \<and> decideFindingPair h a b = Inr d
    \<and> pd_verdict d = Same"
proof -
  let ?P = "sorted_projection h fs"
  note P = sorted_projection_facts [of h fs]
  obtain d where d: "jm_get ds (pairKey h (f_id a) (f_id b)) = Some d" "pd_verdict d = Same"
    using assms(5) by (auto simp: linked_def)
  obtain l r where lr: "l \<in> set ?P" "r \<in> set ?P" "decideFindingPair h l r = Inr d"
      "pairKey h (f_id a) (f_id b) = pairKey h (pd_left d) (pd_right d)"
      "{pd_left d, pd_right d} = {f_id l, f_id r}"
    using decided_ends [OF ds d(1)] by metis
  have in_ids: "f_id x \<in> f_id ` set fs" if "x \<in> set ?P" for x
    using that P(3) by blast
  have "pd_left d \<in> {f_id l, f_id r}" "pd_right d \<in> {f_id l, f_id r}"
    using lr(5) by auto
  then have "pd_left d \<in> f_id ` set fs" "pd_right d \<in> f_id ` set fs"
    using in_ids lr(1,2) by auto
  then have same: "{f_id a, f_id b} = {f_id l, f_id r}"
    using ids_ok_keys [OF ok in_ids [OF ab(1)] in_ids [OF ab(2)] _ _ lr(4)] lr(5) by simp
  have inj: "x = y" if "x \<in> set ?P" "y \<in> set ?P" "f_id x = f_id y" for x y
    using P(4) ok that by (auto simp: ids_ok_def distinct_map dest: inj_onD)
  have "f_id a = f_id l \<and> f_id b = f_id r \<or> f_id a = f_id r \<and> f_id b = f_id l"
    using same by (simp add: doubleton_eq_iff)
  then have "l = a \<and> r = b \<or> l = b \<and> r = a"
    by (elim disjE conjE) (simp_all add: inj lr(1,2) ab)
  moreover have "decideFindingPair h l r = decideFindingPair h r l"
  proof (rule decideFindingPair_sym)
    show "comparator (locale_compare h)" using ok by (simp add: ids_ok_def)
    show "f_id l \<noteq> f_id r \<Longrightarrow> locale_compare h (f_id l) (f_id r) \<noteq> 0"
      using ok separatesD in_ids lr(1,2) unfolding ids_ok_def by metis
  qed
  ultimately show ?thesis using d lr(3) by auto
qed

section \<open>Groups\<close>

lemma buildGroup_simps:
  "g_members (buildGroup h ds c) = map f_id (js_sort (id_compare h) c)"
  "g_representative (buildGroup h ds c) = f_id (representative h (js_sort (id_compare h) c))"
  "g_severity (buildGroup h ds c)
     = top_severity (f_severity (representative h (js_sort (id_compare h) c))) (js_sort (id_compare h) c)"
  by (simp_all add: buildGroup_def Let_def)

lemma group_of_cluster:
  assumes "buildFindingGroups h m fs = Inr R" and "g \<in> set (gr_groups R)"
  obtains c where "c \<in> set (clusters_of h m fs)"
    "g = buildGroup h (ps_decisions (final_state h m fs)) c" "c \<noteq> []" "set c \<subseteq> project_finding h ` set fs"
proof -
  obtain c where c: "c \<in> set (clusters_of h m fs)" "g = buildGroup h (ps_decisions (final_state h m fs)) c"
    using assms(2) by (auto simp: build_result(2) [OF assms(1)])
  have "set (concat (clusters_of h m fs)) = set (sorted_projection h fs)"
    using merge_clusters_facts(1) by (metis set_mset_mset)
  then have "set c \<subseteq> project_finding h ` set fs"
    using c(1) sorted_projection_facts(2) [of h fs] by auto
  moreover have "c \<noteq> []"
    using c(1) merge_clusters_facts(2) by metis
  ultimately show ?thesis using that [OF c] by blast
qed

section \<open>Order\<close>

lemma project_inj:
  assumes "distinct (map f_id fs)" and "x \<in> set (map (project_finding h) fs)" and "y \<in> set (map (project_finding h) fs)"
    and "f_id x = f_id y"
  shows "x = y"
proof -
  have proj: "f_id (project_finding h f) = f_id f" for f
    by (simp add: project_finding_def finding.extend_def)
  obtain a b where ab: "a \<in> set fs" "x = project_finding h a" "b \<in> set fs" "y = project_finding h b"
    using assms(2,3) by auto
  then have "a = b"
    using assms(1,4) proj by (auto simp: distinct_map dest: inj_onD)
  then show ?thesis using ab by simp
qed

lemma sorted_projection_perm:
  assumes "comparator (locale_compare h)" and "separates h (f_id ` set fs)" and "distinct (map f_id fs)"
    and "mset fs = mset gs"
  shows "sorted_projection h fs = sorted_projection h gs"
  unfolding sorted_projection_def
proof (rule comparator.js_sort_perm)
  show "comparator (id_compare h)"
    using comparator_on [OF assms(1), of f_id] by (simp add: id_compare_def [abs_def])
  show "mset (map (project_finding h) fs) = mset (map (project_finding h) gs)"
    using assms(4) by simp
  show "x = y" if x: "x \<in> set (map (project_finding h) fs)" and y: "y \<in> set (map (project_finding h) fs)"
    and "id_compare h x y = 0" for x y
  proof (rule project_inj [OF assms(3) x y])
    have "f_id x \<in> f_id ` set fs" "f_id y \<in> f_id ` set fs"
      using x y by (auto simp: project_finding_def finding.extend_def)
    then show "f_id x = f_id y"
      using separatesD [OF assms(2)] that(3) by (simp add: id_compare_def)
  qed
qed

section \<open>Relabelling findings\<close>

text \<open>A map on findings that changes nothing the decisions read commutes with the whole pipeline.\<close>

definition invisible :: "host \<Rightarrow> (grouping_finding \<Rightarrow> grouping_finding) \<Rightarrow> bool" where
  "invisible h g = (\<forall>x. f_id (g x) = f_id x \<and> f_identity (g x) = f_identity x \<and> f_sourceTool (g x) = f_sourceTool x
     \<and> f_ruleId (g x) = f_ruleId x \<and> f_severity (g x) = f_severity x \<and> f_confidence (g x) = f_confidence x
     \<and> descriptionHash h (g x) = descriptionHash h x)"

lemma invisible_simps:
  assumes "invisible h g"
  shows "f_id (g x) = f_id x" "f_identity (g x) = f_identity x" "f_sourceTool (g x) = f_sourceTool x"
    "f_ruleId (g x) = f_ruleId x" "f_severity (g x) = f_severity x" "f_confidence (g x) = f_confidence x"
    "descriptionHash h (g x) = descriptionHash h x"
  using assms by (simp_all add: invisible_def)

lemma invisible_comparison: "invisible h g \<Longrightarrow> comparisonHash h (g l) (g r) = comparisonHash h l r"
  by (cases "locale_compare h (f_id l) (f_id r) < 0") (simp_all add: comparisonHash_def ordered_pair_def invisible_simps)

lemma invisible_decision: "invisible h g \<Longrightarrow> decision h (g l) (g r) v c rs = decision h l r v c rs"
  by (cases "locale_compare h (f_id l) (f_id r) < 0")
    (simp_all add: decision_def ordered_pair_def invisible_simps invisible_comparison)

lemma invisible_decide:
  assumes "invisible h g"
  shows "decideFindingPair h (g l) (g r) = decideFindingPair h l r"
  unfolding decideFindingPair_def decide_dependency_def decide_secret_def decide_http_def decide_source_def
    sameFamily_def anchor_match_def Let_def invisible_simps [OF assms] invisible_decision [OF assms]
  by (rule refl)

lemma map_add_to_block:
  assumes "invisible h g"
  shows "add_to_block (g f) (map (map_prod id (map g)) bs) = map (map_prod id (map g)) (add_to_block f bs)"
proof -
  have get: "jm_get (map (map_prod id (map g)) bs) k = map_option (map g) (jm_get bs k)" for k
    by (induction bs) (auto simp: jm_get_def)
  have put: "jm_set k (map g v) (map (map_prod id (map g)) bs) = map (map_prod id (map g)) (jm_set k v bs)" for k v
    by (induction bs) auto
  have else_map: "or_else (map_option (map g) x) [] @ [g f] = map g (or_else x [] @ [f])" for x
    by (cases x) auto
  show ?thesis
    by (simp only: add_to_block_def Let_def invisible_simps [OF assms] get else_map put split: if_splits) simp
qed

lemma map_all_pairs:
  assumes "invisible h g"
  shows "all_pairs (map g fs) = map (map_prod g g) (all_pairs fs)"
proof -
  have "fold add_to_block (map g fs) (map (map_prod id (map g)) bs)
      = map (map_prod id (map g)) (fold add_to_block fs bs)" for bs
    by (induction fs arbitrary: bs) (simp_all add: map_add_to_block [OF assms])
  from this [of "[]"] have "build_blocks (map g fs) = map (map_prod id (map g)) (build_blocks fs)"
    by (simp add: build_blocks_def)
  moreover have "block_pairs (map g xs) = map (map_prod g g) (block_pairs xs)" for xs
    by (induction xs) auto
  ultimately show ?thesis
    by (simp add: all_pairs_def jm_values_def map_concat comp_def)
qed

lemma map_compare_pairs:
  assumes "invisible h g"
  shows "compare_pairs h b (map (map_prod g g) ps) st = compare_pairs h b ps st"
proof (induction ps arbitrary: st)
  case Nil
  then show ?case by simp
next
  case (Cons p ps)
  then show ?case
    by (cases p) (simp add: invisible_decide [OF assms] split: sum.split)
qed

lemma map_find_index: "(\<And>x. P (g x) = Q x) \<Longrightarrow> find_index P (map g xs) = find_index Q xs"
  by (induction xs) auto

lemma map_merge_step:
  assumes "invisible h g"
  shows "merge_step h ds p (map (map g) cs) = map (map g) (merge_step h ds p cs)"
proof -
  have member: "has_member i (map g c) = has_member i c" for i c
    by (simp add: has_member_def list_ex_iff invisible_simps [OF assms])
  have link: "canMergeCompleteLink (linked h ds) (map g c) (map g c') = canMergeCompleteLink (linked h ds) c c'" for c c'
    by (simp add: canMergeCompleteLink_def list_all_iff linked_def invisible_simps [OF assms])
  have sort: "js_sort (id_compare h) (map g c @ map g c') = map g (js_sort (id_compare h) (c @ c'))" for c c'
    using js_sort_map [of "id_compare h" g "c @ c'"] by (simp add: id_compare_def invisible_simps [OF assms])
  have drop: "drop_two i j (map (map g) cs) = map (map g) (drop_two i j cs)" for i j
    by (simp add: drop_two_nth)
  have index: "find_index (has_member i) (map (map g) cs) = find_index (has_member i) cs" for i
    by (rule map_find_index) (rule member)
  show ?thesis
    by (auto simp: merge_step_def index drop sort link dest!: find_index_Some split: option.split)
qed

lemma map_merge_clusters:
  assumes "invisible h g"
  shows "merge_clusters h ds (map g fs) = map (map g) (merge_clusters h ds fs)"
proof -
  have "fold (merge_step h ds) ps (map (map g) cs) = map (map g) (fold (merge_step h ds) ps cs)" for ps cs
    by (induction ps arbitrary: cs) (simp_all add: map_merge_step [OF assms])
  from this [of _ "map (\<lambda>f. [f]) fs"] show ?thesis
    by (simp add: merge_clusters_def comp_def)
qed

text \<open>New titles and descriptions for the secrets.\<close>

definition reword :: "(string \<Rightarrow> string) \<Rightarrow> (string \<Rightarrow> string) \<Rightarrow> grouping_finding \<Rightarrow> grouping_finding" where
  "reword t d x = (if id_issueKind (f_identity x) = Secret
     then x\<lparr>f_title := t (f_id x), f_description := d (f_id x)\<rparr> else x)"

lemma reword_invisible: "invisible h (reword t d)"
  by (simp add: invisible_def reword_def descriptionHash_def)

lemma reword_other: "id_issueKind (f_identity x) \<noteq> Secret \<Longrightarrow> reword t d x = x"
  by (simp add: reword_def)

lemma map_buildGroup:
  assumes "c \<noteq> []"
  shows "buildGroup h ds (map (reword t d) c) = buildGroup h ds c"
proof -
  let ?g = "reword t d"
  note inv = invisible_simps [OF reword_invisible [of h t d]]
  have sort: "js_sort (id_compare h) (map ?g c) = map ?g (js_sort (id_compare h) c)"
    by (rule js_sort_map) (simp add: id_compare_def inv)
  have comp: "completeness (f_identity (?g x)) = completeness (f_identity x)" for x
    by (simp add: inv)
  have rep: "representative h (map ?g (js_sort (id_compare h) c)) = ?g (representative h (js_sort (id_compare h) c))"
  proof -
    have "js_sort (representative_compare h) (map ?g xs) = map ?g (js_sort (representative_compare h) xs)" for xs
      by (rule js_sort_map) (simp add: representative_compare_def comp inv Let_def)
    then show ?thesis
      using assms by (simp add: representative_def hd_map)
  qed
  have title: "group_title (?g x) = group_title x" for x
    by (cases "id_issueKind (f_identity x) = Secret") (simp_all add: reword_other, simp add: group_title_def inv Let_def)
  have desc: "(if id_issueKind (f_identity (?g x)) = Secret then secret_description else f_description (?g x))
      = (if id_issueKind (f_identity x) = Secret then secret_description else f_description x)" for x
    by (cases "id_issueKind (f_identity x) = Secret") (simp_all add: reword_other inv)
  have sev: "top_severity s (map ?g xs) = top_severity s xs" for s xs
    by (simp add: top_severity_def foldl_map inv cong: if_cong)
  have ev: "evidence_decisions h ds (?g x) (map ?g xs) = evidence_decisions h ds x xs" for x xs
    by (simp add: evidence_decisions_def filter_map comp_def inv List.map_filter_def)
  show ?thesis
    unfolding buildGroup_def sort rep Let_def title desc sev ev
    by (simp add: inv comp_def)
qed

definition reword_finding :: "host \<Rightarrow> (string \<Rightarrow> string) \<Rightarrow> (string \<Rightarrow> string) \<Rightarrow> finding \<Rightarrow> finding" where
  "reword_finding h t d f = (if id_issueKind (f_identity (project_finding h f)) = Secret
     then f\<lparr>f_title := t (f_id f), f_description := d (f_id f)\<rparr> else f)"

lemma project_reword: "project_finding h (reword_finding h t d f) = reword t d (project_finding h f)"
  by (simp add: reword_finding_def reword_def project_finding_def finding.defs grouping_finding.defs)

lemma sorted_projection_reword:
  "sorted_projection h (map (reword_finding h t d) fs) = map (reword t d) (sorted_projection h fs)"
proof -
  have "js_sort (id_compare h) (map (reword t d) xs) = map (reword t d) (js_sort (id_compare h) xs)" for xs
    by (rule js_sort_map) (simp add: id_compare_def invisible_simps [OF reword_invisible [of h t d]])
  moreover have "map (project_finding h) (map (reword_finding h t d) fs) = map (reword t d) (map (project_finding h) fs)"
    by (simp add: project_reword)
  ultimately show ?thesis
    by (simp only: sorted_projection_def)
qed

section \<open>The representative\<close>

lemma representative_compare_comparator:
  assumes "comparator (locale_compare h)"
  shows "comparator (representative_compare h)"
proof -
  have runtime: "comparator (\<lambda>a b. (if f_confidence a = Runtime then 0 else 1) - (if f_confidence b = Runtime then 0 else 1 :: int))"
    by (rule comparator_key)
  have eq: "representative_compare h = (\<lambda>a b.
      if (if f_confidence a = Runtime then 0 else 1) - (if f_confidence b = Runtime then 0 else 1 :: int) \<noteq> 0
      then (if f_confidence a = Runtime then 0 else 1) - (if f_confidence b = Runtime then 0 else 1)
      else if severityRank (f_severity a) - severityRank (f_severity b) \<noteq> 0
      then severityRank (f_severity a) - severityRank (f_severity b)
      else if - completeness (f_identity a) - - completeness (f_identity b) \<noteq> 0
      then - completeness (f_identity a) - - completeness (f_identity b)
      else if locale_compare h (f_sourceTool a) (f_sourceTool b) \<noteq> 0
      then locale_compare h (f_sourceTool a) (f_sourceTool b)
      else if locale_compare h (f_ruleId a) (f_ruleId b) \<noteq> 0
      then locale_compare h (f_ruleId a) (f_ruleId b)
      else locale_compare h (f_id a) (f_id b))"
    (is "_ = ?c")
  proof (intro ext)
    fix a b :: grouping_finding
    have conf: "c = Static \<or> c = Runtime" for c by (cases c) auto
    show "representative_compare h a b = ?c a b"
      using conf [of "f_confidence a"] conf [of "f_confidence b"]
      by (auto simp: representative_compare_def Let_def)
  qed
  show ?thesis
    unfolding eq
    by (intro comparator_lex runtime comparator_key comparator_on [OF assms])
qed

lemma build_total:
  assumes "distinct (map f_id fs)"
  shows "\<exists>R. buildFindingGroups h m fs = Inr R"
proof -
  have "\<exists>st. compare_pairs h b (all_pairs (sorted_projection h fs)) pair_start = Inr st" for b
    by (rule compare_pairs_total) (rule all_pairs_member(3), auto simp: sorted_projection_facts(4) assms)
  then obtain st where "compare_pairs h (or_else m DETERMINISTIC_MAX_PAIR_COMPARISONS)
      (all_pairs (sorted_projection h fs)) pair_start = Inr st" by blast
  then show ?thesis
    by (simp add: buildFindingGroups_def Let_def)
qed

lemma top_severity_le:
  "severityRank (top_severity s ms) \<le> severityRank s"
  "x \<in> set ms \<Longrightarrow> severityRank (top_severity s ms) \<le> severityRank (f_severity x)"
proof -
  have both: "severityRank (top_severity s ms) \<le> severityRank s
    \<and> (\<forall>x \<in> set ms. severityRank (top_severity s ms) \<le> severityRank (f_severity x))"
  proof (induction ms arbitrary: s)
    case Nil
    then show ?case by (simp add: top_severity_def)
  next
    case (Cons y ms)
    let ?s = "if severityRank (f_severity y) < severityRank s then f_severity y else s"
    have "top_severity s (y # ms) = top_severity ?s ms" by (simp add: top_severity_def)
    then show ?case using Cons.IH [of ?s] by (auto split: if_splits)
  qed
  show "severityRank (top_severity s ms) \<le> severityRank s" using both by blast
  show "x \<in> set ms \<Longrightarrow> severityRank (top_severity s ms) \<le> severityRank (f_severity x)" using both by blast
qed

lemma representative_le:
  assumes "comparator (locale_compare h)" and "x \<in> set c"
  shows "representative h c \<in> set c" and "representative_compare h (representative h c) x \<le> 0"
proof -
  obtain y ys where y: "js_sort (representative_compare h) c = y # ys"
    using assms(2) by (cases "js_sort (representative_compare h) c") auto
  then show "representative h c \<in> set c"
    by (metis list.sel(1) list.set_intros(1) representative_def set_js_sort)
  show "representative_compare h (representative h c) x \<le> 0"
    using comparator.js_sort_head_le [OF representative_compare_comparator [OF assms(1)] y assms(2)] y
    by (simp add: representative_def)
qed

lemma representative_compare_le:
  assumes "representative_compare h l x \<le> 0"
  shows "f_confidence x = Runtime \<Longrightarrow> f_confidence l = Runtime"
    and "f_confidence x = f_confidence l \<Longrightarrow> severityRank (f_severity l) \<le> severityRank (f_severity x)"
  using assms by (auto simp: representative_compare_def Let_def split: if_splits)

lemma cluster_id:
  assumes "distinct (map f_id fs)" and "f \<in> set fs" and "set c \<subseteq> project_finding h ` set fs"
    and "f_id f \<in> f_id ` set c"
  shows "project_finding h f \<in> set c"
proof -
  obtain x where x: "x \<in> set c" "f_id x = f_id f" using assms(4) by auto
  then obtain f' where f': "f' \<in> set fs" "x = project_finding h f'" using assms(3) by blast
  then have "f' = f" using x(2) assms(1,2) by (auto simp: distinct_map dest: inj_onD)
  then show ?thesis using x f' by simp
qed

lemma partition_facts:
  assumes "buildFindingGroups h m fs = Inr R"
  shows "mset (concat (map g_members (gr_groups R))) = mset (map f_id fs)"
    and "g \<in> set (gr_groups R) \<Longrightarrow> g_representative g \<in> set (g_members g)"
proof -
  have "mset (concat (map g_members (gr_groups R)))
      = sum_mset (image_mset (\<lambda>g. mset (g_members g)) (mset (gr_groups R)))"
    by (simp add: mset_concat comp_def flip: sum_mset_sum_list)
  also have "\<dots> = sum_mset (image_mset (\<lambda>c. mset (map f_id c)) (mset (clusters_of h m fs)))"
    by (simp add: build_result(2) [OF assms] multiset.map_comp comp_def buildGroup_simps)
  also have "\<dots> = mset (concat (map (map f_id) (clusters_of h m fs)))"
    by (simp add: mset_concat comp_def flip: sum_mset_sum_list)
  also have "\<dots> = image_mset f_id (mset (concat (clusters_of h m fs)))"
    by (simp flip: map_concat)
  also have "\<dots> = mset (map f_id fs)"
    using sorted_projection_facts(1) [of h fs] by (simp add: merge_clusters_facts(1))
  finally show "mset (concat (map g_members (gr_groups R))) = mset (map f_id fs)" .
  assume "g \<in> set (gr_groups R)"
  then obtain c where c: "g = buildGroup h (ps_decisions (final_state h m fs)) c" "c \<noteq> []"
    using group_of_cluster [OF assms] by blast
  have "representative h (js_sort (id_compare h) c) \<in> set c"
    using c(2) by (metis hd_in_set js_sort_eq_Nil representative_def set_js_sort)
  then show "g_representative g \<in> set (g_members g)"
    by (simp add: c(1) buildGroup_simps)
qed

lemma cluster_linked:
  assumes "ids_ok h fs" and "buildFindingGroups h m fs = Inr R" and "c \<in> set (clusters_of h m fs)"
    and "x \<in> set c" and "y \<in> set c" and "x \<noteq> y"
  shows "linked h (ps_decisions (final_state h m fs)) x y"
proof -
  let ?ds = "ps_decisions (final_state h m fs)" and ?U = "{f. f_id f \<in> f_id ` set fs}"
  have link: "complete_link ?U (linked h ?ds)"
    using assms(1) by (intro complete_link_linked) (auto simp: ids_ok_def)
  have sub: "set (sorted_projection h fs) \<subseteq> ?U"
    using sorted_projection_facts(3) by blast
  show ?thesis
    using complete_link.clique_linked [OF link] merge_clusters_facts(3) [OF link sub] assms(3-6) by blast
qed

section \<open>The snapshot\<close>

lemma filter_single: "distinct xs \<Longrightarrow> x \<in> set xs \<Longrightarrow> filter (\<lambda>y. y = x) xs = [x]"
  by (induction xs) (auto simp: filter_empty_conv)

lemma build_member_simps:
  assumes "build_member h ds byId grp i = Inr m"
  shows "jm_get byId i = Some (m_finding m)" "m_role m = Representative \<longleftrightarrow> i = g_representative grp"
  using assms by (auto simp: build_member_def Let_def split: option.splits if_splits)

lemma build_member_total: "jm_get byId i \<noteq> None \<Longrightarrow> \<exists>m. build_member h ds byId grp i = Inr m"
  by (auto simp: build_member_def Let_def)

lemma build_members_total:
  assumes "\<And>i. i \<in> set (g_members grp) \<Longrightarrow> \<exists>m. build_member h ds byId grp i = Inr m"
  shows "\<exists>G. build_members h ds byId grp = Inr G"
proof -
  obtain ms where "map_result (build_member h ds byId grp) (g_members grp) = Inr ms"
    using map_result_total [of "g_members grp" "build_member h ds byId grp"] assms by blast
  then show ?thesis by (simp add: build_members_def)
qed

lemma build_members_simps:
  assumes "build_members h ds byId grp = Inr G" and "distinct (g_members grp)" and "g_representative grp \<in> set (g_members grp)"
    and byId: "\<And>i f. jm_get byId i = Some f \<Longrightarrow> f_id f = i"
  shows "g_members G = g_members grp" "g_representative G = g_representative grp"
    and "map (\<lambda>m. f_id (m_finding m)) (bg_members G) = g_members G"
    and "map (\<lambda>m. f_id (m_finding m)) (filter (\<lambda>m. m_role m = Representative) (bg_members G)) = [g_representative G]"
proof -
  obtain ms where ms: "map_result (build_member h ds byId grp) (g_members grp) = Inr ms"
      "G = finding_group.extend grp (built_finding_group.fields ms)"
    using assms(1) by (auto simp: build_members_def split: sum.splits)
  show g: "g_members G = g_members grp" and r: "g_representative G = g_representative grp"
    by (simp_all add: ms(2) finding_group.defs)
  have bg: "bg_members G = ms"
    by (simp add: ms(2) finding_group.defs built_finding_group.defs)
  have all2: "list_all2 (\<lambda>i m. f_id (m_finding m) = i \<and> (m_role m = Representative \<longleftrightarrow> i = g_representative grp))
      (g_members grp) ms"
    using map_result_dest [OF ms(1)]
    by (rule list_all2_mono) (use build_member_simps byId in blast)
  then have "map (\<lambda>m. f_id (m_finding m)) ms = g_members grp"
    by (induction rule: list_all2_induct) auto
  then show "map (\<lambda>m. f_id (m_finding m)) (bg_members G) = g_members G"
    by (simp add: bg g)
  have "map (\<lambda>m. f_id (m_finding m)) (filter (\<lambda>m. m_role m = Representative) ms)
      = filter (\<lambda>i. i = g_representative grp) (g_members grp)"
    using all2 by (induction rule: list_all2_induct) auto
  also have "\<dots> = [g_representative grp]"
    by (rule filter_single [OF assms(2,3)])
  finally show "map (\<lambda>m. f_id (m_finding m)) (filter (\<lambda>m. m_role m = Representative) (bg_members G)) = [g_representative G]"
    by (simp add: bg r)
qed

end
