(* ===== verification/FindingGroupSamples.thy ===== *)
theory FindingGroupSamples
  imports FindingGroupResult
begin

text \<open>
  Concrete findings the properties of the grouping engine are instantiated on: two overlapping
  findings of different tools in one file and a third finding in another file.
\<close>


definition sample_finding :: "string \<Rightarrow> string \<Rightarrow> string \<Rightarrow> rat \<Rightarrow> rat \<Rightarrow> finding" where
  "sample_finding i tool path first last_line =
     \<lparr>f_id = i, f_sourceTool = tool, f_ruleId = ''xss'', f_title = ''title'', f_description = ''text'',
      f_severity = High, f_confidence = Static,
      f_primaryLocation = Some [(''path'', JStr path), (''startLine'', JNum first), (''endLine'', JNum last_line)],
      f_metadata = Some [(''cwe'', JStr ''CWE-79'')]\<rparr>"

definition sample_identity :: "string \<Rightarrow> nat \<Rightarrow> nat \<Rightarrow> dedupe_identity" where
  "sample_identity path first last_line = \<lparr>id_version = 1, id_issueKind = Source, id_assetKey = Some path,
      id_location = \<lparr>loc_kind = LocSource, loc_path = Some path, loc_startLine = Some first, loc_endLine = Some last_line,
        loc_startCol = None, loc_endCol = None, loc_method = None, loc_parameter = None, loc_resource = None\<rparr>,
      id_familyKeys = [''cwe:79''], id_advisoryIds = [], id_packageKey = None, id_anchor = None,
      id_limitations = []\<rparr>"

definition sample_projection :: "string \<Rightarrow> string \<Rightarrow> string \<Rightarrow> rat \<Rightarrow> rat \<Rightarrow> grouping_finding" where
  "sample_projection i tool path first last_line =
     finding.extend (sample_finding i tool path first last_line)
       (grouping_finding.fields (sample_identity path (nat \<lfloor>first\<rfloor>) (nat \<lfloor>last_line\<rfloor>)))"

lemma sample_projected:
  "project_finding sample_host (sample_finding ''b'' ''semgrep'' ''a.ts'' 12 14)
     = sample_projection ''b'' ''semgrep'' ''a.ts'' 12 14"
  "project_finding sample_host (sample_finding ''a'' ''codeql'' ''a.ts'' 10 13)
     = sample_projection ''a'' ''codeql'' ''a.ts'' 10 13"
  "project_finding sample_host (sample_finding ''c'' ''codeql'' ''b.ts'' 1 2)
     = sample_projection ''c'' ''codeql'' ''b.ts'' 1 2"
proof -
  have "raw_identity sample_host \<lparr>in_sourceTool = ''semgrep'', in_ruleId = ''xss'',
      in_primaryLocation = Some [(''path'', JStr ''a.ts''), (''startLine'', JNum 12), (''endLine'', JNum 14)],
      in_metadata = Some [(''cwe'', JStr ''CWE-79'')]\<rparr> = sample_identity ''a.ts'' 12 14" by code_simp
  moreover have "raw_identity sample_host \<lparr>in_sourceTool = ''codeql'', in_ruleId = ''xss'',
      in_primaryLocation = Some [(''path'', JStr ''a.ts''), (''startLine'', JNum 10), (''endLine'', JNum 13)],
      in_metadata = Some [(''cwe'', JStr ''CWE-79'')]\<rparr> = sample_identity ''a.ts'' 10 13" by code_simp
  moreover have "raw_identity sample_host \<lparr>in_sourceTool = ''codeql'', in_ruleId = ''xss'',
      in_primaryLocation = Some [(''path'', JStr ''b.ts''), (''startLine'', JNum 1), (''endLine'', JNum 2)],
      in_metadata = Some [(''cwe'', JStr ''CWE-79'')]\<rparr> = sample_identity ''b.ts'' 1 2" by code_simp
  moreover have "identity_ok (sample_identity ''a.ts'' 12 14)" "identity_ok (sample_identity ''a.ts'' 10 13)"
    "identity_ok (sample_identity ''b.ts'' 1 2)" by code_simp+
  ultimately show "project_finding sample_host (sample_finding ''b'' ''semgrep'' ''a.ts'' 12 14)
     = sample_projection ''b'' ''semgrep'' ''a.ts'' 12 14"
  "project_finding sample_host (sample_finding ''a'' ''codeql'' ''a.ts'' 10 13)
     = sample_projection ''a'' ''codeql'' ''a.ts'' 10 13"
  "project_finding sample_host (sample_finding ''c'' ''codeql'' ''b.ts'' 1 2)
     = sample_projection ''c'' ''codeql'' ''b.ts'' 1 2"
    by (simp_all add: project_finding_def projectFindingDedupeIdentity_def sample_projection_def sample_finding_def)
qed

definition sample_findings :: "finding list" where
  "sample_findings = [sample_finding ''b'' ''semgrep'' ''a.ts'' 12 14, sample_finding ''c'' ''codeql'' ''b.ts'' 1 2,
     sample_finding ''a'' ''codeql'' ''a.ts'' 10 13]"

lemma sample_sorted: "sorted_projection sample_host sample_findings =
   [sample_projection ''a'' ''codeql'' ''a.ts'' 10 13, sample_projection ''b'' ''semgrep'' ''a.ts'' 12 14,
    sample_projection ''c'' ''codeql'' ''b.ts'' 1 2]"
  unfolding sorted_projection_def sample_findings_def list.map sample_projected
  by code_simp

lemma sample_pairs: "all_pairs (sorted_projection sample_host sample_findings) =
  [(sample_projection ''a'' ''codeql'' ''a.ts'' 10 13, sample_projection ''b'' ''semgrep'' ''a.ts'' 12 14)]"
  unfolding sample_sorted by code_simp

abbreviation "sample_a \<equiv> sample_projection ''a'' ''codeql'' ''a.ts'' 10 13"
abbreviation "sample_b \<equiv> sample_projection ''b'' ''semgrep'' ''a.ts'' 12 14"
abbreviation "sample_c \<equiv> sample_projection ''c'' ''codeql'' ''b.ts'' 1 2"

definition sample_link :: pair_decision where
  "sample_link = decision sample_host sample_a sample_b Same PairHigh [''same_asset'', ''same_family'', ''overlapping_range'']"

lemma sample_projection_simps [simp]:
  "f_id (sample_projection i tool path l r) = i"
  "f_sourceTool (sample_projection i tool path l r) = tool"
  "f_identity (sample_projection i tool path l r) = sample_identity path (nat \<lfloor>l\<rfloor>) (nat \<lfloor>r\<rfloor>)"
  by (simp_all add: sample_projection_def sample_finding_def finding.defs grouping_finding.defs)

lemma sample_decision: "decideFindingPair sample_host sample_a sample_b = Inr sample_link"
  by (simp add: decideFindingPair_def sample_identity_def auto_merge_unsupported_def sameFamily_def
      hasConcreteFamily_def intersection_def decide_source_def rangesOverlap_def spans_overlap_def sample_link_def)

lemma sample_final: "final_state sample_host (Some 9) sample_findings = record_decision sample_host sample_link pair_start"
  by (simp add: final_state_def sample_pairs sample_decision pair_start_def)

lemma sample_collation [simp]: "locale_compare sample_host = code_unit_compare"
  by (simp add: sample_host_def)

lemma sample_link_simps: "pd_verdict sample_link = Same" "pd_left sample_link = ''a''" "pd_right sample_link = ''b''"
  by (simp_all add: sample_link_def decision_def ordered_pair_def code_unit_compare_def)

lemma sample_clusters: "clusters_of sample_host (Some 9) sample_findings = [[sample_c], [sample_a, sample_b]]"
  by (simp add: sample_final sample_sorted record_decision_def pair_start_def merge_clusters_def jm_values_def
      merge_step_def sample_link_simps has_member_def canMergeCompleteLink_def linked_def jm_get_def pairKey_def
      code_unit_compare_def drop_two_nth id_compare_def)

lemma sample_ids_ok: "ids_ok sample_host sample_findings"
  by (simp add: ids_ok_def sample_findings_def sample_finding_def plain_ids_def separates_def
      code_unit.comparator_axioms)

lemma sample_result:
  obtains R g where "buildFindingGroups sample_host (Some 9) sample_findings = Inr R" "g \<in> set (gr_groups R)"
    "g_members g = [''a'', ''b'']"
proof -
  have ids: "distinct (map f_id sample_findings)"
    using sample_ids_ok by (simp add: ids_ok_def)
  obtain R where R: "buildFindingGroups sample_host (Some 9) sample_findings = Inr R"
    using build_total [OF ids] by blast
  let ?g = "buildGroup sample_host (ps_decisions (final_state sample_host (Some 9) sample_findings)) [sample_a, sample_b]"
  have "?g \<in> set (gr_groups R)"
    by (simp add: build_result(2) [OF R] sample_clusters)
  moreover have "g_members ?g = [''a'', ''b'']"
    by (simp add: buildGroup_simps id_compare_def code_unit_compare_def)
  ultimately show ?thesis using that [OF R] by blast
qed

end
