(* ===== verification/FindingGroupProps.thy ===== *)
theory FindingGroupProps
  imports FindingGroupSamples
begin

text \<open>
  The properties of the grouping engine: it returns a result, its groups are a partition of the findings
  into cliques of the pair decision that cannot be merged further, the result does not depend on the order
  of the findings or on the text of a secret, the budget is accounted for, and the stored snapshot holds
  every finding once with one representative per group.
\<close>

text \<open>C1. Complete link: two distinct findings of one group have been compared with each other, and the
  decision about exactly these two findings, which the result reports, is that they are the same issue. No chain
  of pairwise links puts two findings that were decided differently, or not compared, into one group.\<close>

theorem grouping_complete_link:
  assumes "ids_ok h fs" and "buildFindingGroups h m fs = Inr R" and "g \<in> set (gr_groups R)"
    and "a \<in> set (g_members g)" and "b \<in> set (g_members g)" and "a \<noteq> b"
  shows "\<exists>x \<in> set fs. \<exists>y \<in> set fs. f_id x = a \<and> f_id y = b \<and>
    (\<exists>d \<in> set (gr_pairDecisions R). pd_verdict d = Same
       \<and> decideFindingPair h (project_finding h x) (project_finding h y) = Inr d)"
proof -
  obtain c where st: "c \<in> set (clusters_of h m fs)"
    "g = buildGroup h (ps_decisions (final_state h m fs)) c" "c \<noteq> []" "set c \<subseteq> project_finding h ` set fs"
    by (rule group_of_cluster [OF assms(2,3)])
  let ?ds = "ps_decisions (final_state h m fs)"
  obtain x y where xy: "x \<in> set c" "f_id x = a" "y \<in> set c" "f_id y = b"
    using assms(4,5) by (auto simp: st(2) buildGroup_simps)
  have "linked h ?ds x y"
    by (rule cluster_linked [OF assms(1,2) st(1) xy(1,3)]) (use xy assms(6) in blast)
  moreover have "x \<in> set (sorted_projection h fs)" "y \<in> set (sorted_projection h fs)"
    using xy st(4) sorted_projection_facts(2) [of h fs] by auto
  ultimately obtain d where d: "jm_get ?ds (pairKey h (f_id x) (f_id y)) = Some d"
      "decideFindingPair h x y = Inr d" "pd_verdict d = Same"
    using linked_decides [OF assms(1) decided_result [OF build_result(1) [OF assms(2)]]] by blast
  have "d \<in> set (gr_pairDecisions R)"
    using jm_get_values [OF d(1)] by (simp add: build_result(3) [OF assms(2)])
  moreover obtain x' y' where "x' \<in> set fs" "y' \<in> set fs" "x = project_finding h x'" "y = project_finding h y'"
    using xy st(4) by blast
  ultimately show ?thesis
    using d xy by auto
qed

lemma grouping_complete_link_witness:
  "\<exists>x \<in> set sample_findings. \<exists>y \<in> set sample_findings. f_id x = ''a'' \<and> f_id y = ''b''
     \<and> (\<exists>d. decideFindingPair sample_host (project_finding sample_host x) (project_finding sample_host y) = Inr d
          \<and> pd_verdict d = Same)"
proof -
  obtain R g where R: "buildFindingGroups sample_host (Some 9) sample_findings = Inr R"
      "g \<in> set (gr_groups R)" "g_members g = [''a'', ''b'']"
    by (rule sample_result)
  have "''a'' \<in> set (g_members g)" "''b'' \<in> set (g_members g)" by (simp_all add: R(3))
  from grouping_complete_link [OF sample_ids_ok R(1,2) this] show ?thesis by blast
qed

text \<open>C2. Partition: every finding is a member of exactly one group (as often as it was given), no group holds
  anything else, and the representative of a group is one of its members.\<close>

theorem grouping_partition:
  assumes "buildFindingGroups h m fs = Inr R"
  shows "mset (concat (map g_members (gr_groups R))) = mset (map f_id fs)
    \<and> (\<forall>g \<in> set (gr_groups R). g_representative g \<in> set (g_members g))"
  using partition_facts [OF assms] by blast

lemma grouping_partition_witness:
  "\<exists>R. buildFindingGroups sample_host (Some 9) sample_findings = Inr R
     \<and> mset (concat (map g_members (gr_groups R))) = {#''a'', ''b'', ''c''#}"
proof -
  obtain R g where R: "buildFindingGroups sample_host (Some 9) sample_findings = Inr R"
    by (rule sample_result)
  from grouping_partition [OF R] R show ?thesis
    by (auto simp: sample_findings_def sample_finding_def add_mset_commute)
qed

text \<open>C35. Maximality: two different groups of the result can not be merged, because some finding of the one and
  some finding of the other have no reported decision that they are the same issue.\<close>

theorem grouping_maximal:
  assumes "ids_ok h fs" and "buildFindingGroups h m fs = Inr R"
    and "g \<in> set (gr_groups R)" and "g' \<in> set (gr_groups R)" and "g \<noteq> g'"
  shows "\<exists>a \<in> set (g_members g). \<exists>b \<in> set (g_members g'). \<forall>d \<in> set (gr_pairDecisions R).
    {pd_left d, pd_right d} = {a, b} \<longrightarrow> pd_verdict d \<noteq> Same"
proof -
  let ?ds = "ps_decisions (final_state h m fs)" and ?P = "sorted_projection h fs"
  note ds = decided_result [OF build_result(1) [OF assms(2)]]
  note P = sorted_projection_facts [of h fs]
  obtain A where A: "A \<in> set (clusters_of h m fs)" "g = buildGroup h ?ds A" "A \<noteq> []"
      "set A \<subseteq> project_finding h ` set fs"
    by (rule group_of_cluster [OF assms(2,3)])
  obtain B where B: "B \<in> set (clusters_of h m fs)" "g' = buildGroup h ?ds B" "B \<noteq> []"
      "set B \<subseteq> project_finding h ` set fs"
    by (rule group_of_cluster [OF assms(2,4)])
  have "\<not> canMergeCompleteLink (linked h ?ds) A B"
  proof (rule merge_clusters_maximal [OF _ _ _ _ _ A(1) B(1)])
    show "comparator (locale_compare h)" "separates h (f_id ` set ?P)" "distinct (map f_id ?P)"
      using assms(1) by (simp_all add: ids_ok_def P(3,4))
    show "A \<noteq> B" using assms(5) A(2) B(2) by blast
    show "{a, b} = {c, d}" if "a \<in> f_id ` set ?P" "b \<in> f_id ` set ?P" "c \<in> f_id ` set ?P" "d \<in> f_id ` set ?P"
      "pairKey h a b = pairKey h c d" for a b c d
      by (rule ids_ok_keys [OF assms(1)]) (use that in \<open>simp_all only: P(3)\<close>)
    show "\<exists>l r. l \<in> set ?P \<and> r \<in> set ?P \<and> k = pairKey h (f_id l) (f_id r) \<and> {pd_left d, pd_right d} = {f_id l, f_id r}"
      if kd: "jm_get ?ds k = Some d" for k d
    proof -
      obtain l r where lr: "l \<in> set ?P" "r \<in> set ?P" "k = pairKey h (pd_left d) (pd_right d)"
          "{pd_left d, pd_right d} = {f_id l, f_id r}"
        using decided_ends [OF ds kd] by metis
      have "pairKey h (f_id r) (f_id l) = pairKey h (f_id l) (f_id r)"
        by (rule ids_ok_pairKey_sym [OF assms(1)]) (use imageI [OF lr(1), of f_id] imageI [OF lr(2), of f_id] P(3) in simp_all)
      then have "k = pairKey h (f_id l) (f_id r)"
        using lr(3,4) by (auto simp: doubleton_eq_iff)
      then show ?thesis using lr by blast
    qed
  qed
  then obtain x y where xy: "x \<in> set A" "y \<in> set B" "\<not> linked h ?ds x y"
    by (auto simp: canMergeCompleteLink_def list_all_iff)
  have ids: "f_id x \<in> f_id ` set fs" "f_id y \<in> f_id ` set fs"
    using xy(1,2) A(4) B(4) by force+
  have "pd_verdict d \<noteq> Same" if d: "d \<in> set (gr_pairDecisions R)" "{pd_left d, pd_right d} = {f_id x, f_id y}" for d
  proof -
    obtain k where k: "jm_get ?ds k = Some d"
      using d(1) jm_values_get [of ?ds d] ds by (auto simp: build_result(3) [OF assms(2)] decided_def)
    have "k = pairKey h (pd_left d) (pd_right d)"
      using decided_ends [OF ds k] by metis
    then have "k = pairKey h (f_id x) (f_id y)"
      using d(2) ids_ok_pairKey_sym [OF assms(1) ids] by (auto simp: doubleton_eq_iff)
    then show ?thesis using k xy(3) by (simp add: linked_def)
  qed
  then show ?thesis
    using xy(1,2) by (auto simp: A(2) B(2) buildGroup_simps)
qed

lemma grouping_maximal_witness:
  "\<exists>R g g'. buildFindingGroups sample_host (Some 9) sample_findings = Inr R
     \<and> g \<in> set (gr_groups R) \<and> g' \<in> set (gr_groups R) \<and> g_members g = [''a'', ''b''] \<and> g_members g' = [''c'']
     \<and> (\<exists>a \<in> set (g_members g). \<forall>d. d \<in> set (gr_pairDecisions R) \<and> {pd_left d, pd_right d} = {a, ''c''}
           \<longrightarrow> pd_verdict d \<noteq> Same)"
proof -
  obtain R g where R: "buildFindingGroups sample_host (Some 9) sample_findings = Inr R"
      "g \<in> set (gr_groups R)" "g_members g = [''a'', ''b'']"
    by (rule sample_result)
  let ?g' = "buildGroup sample_host (ps_decisions (final_state sample_host (Some 9) sample_findings)) [sample_c]"
  have g': "?g' \<in> set (gr_groups R)" "g_members ?g' = [''c'']"
    by (simp_all add: build_result(2) [OF R(1)] sample_clusters buildGroup_simps)
  have "g \<noteq> ?g'" using R(3) g'(2) by auto
  from grouping_maximal [OF sample_ids_ok R(1,2) g'(1) this]
  have "\<exists>a \<in> set (g_members g). \<forall>d. d \<in> set (gr_pairDecisions R) \<and> {pd_left d, pd_right d} = {a, ''c''}
           \<longrightarrow> pd_verdict d \<noteq> Same"
    unfolding g'(2) by auto
  then show ?thesis using R g' by blast
qed

text \<open>C3. Order independence: the whole result (groups, keys, hashes, decisions, limitations) is a function of
  the set of findings; the order in which they are read from the store does not matter.\<close>

theorem grouping_order_independent:
  assumes "ids_ok h fs" and "mset fs = mset gs"
  shows "buildFindingGroups h m fs = buildFindingGroups h m gs"
proof -
  have "sorted_projection h fs = sorted_projection h gs"
    by (rule sorted_projection_perm) (use assms in \<open>simp_all add: ids_ok_def\<close>)
  then show ?thesis by (simp add: buildFindingGroups_def)
qed

lemma grouping_order_independent_witness:
  "buildFindingGroups sample_host None sample_findings = buildFindingGroups sample_host None (rev sample_findings)"
  by (rule grouping_order_independent [OF sample_ids_ok]) simp

text \<open>C34. Non-interference: the title and the description of a secret, which may quote it, influence no group,
  no key, no hash and no decision of the result: any other text gives the same result.\<close>

theorem secret_text_invisible:
  "buildFindingGroups h m (map (reword_finding h t d) fs) = buildFindingGroups h m fs"
proof -
  have groups: "map (buildGroup h ds) (merge_clusters h ds (map (reword t d) ps))
      = map (buildGroup h ds) (merge_clusters h ds ps)" for ds ps
    using merge_clusters_facts(2) [of h ds ps]
    by (auto simp: map_merge_clusters [OF reword_invisible] intro!: map_buildGroup)
  show ?thesis
    unfolding buildFindingGroups_def Let_def sorted_projection_reword map_all_pairs [OF reword_invisible]
      map_compare_pairs [OF reword_invisible] groups by (rule refl)
qed

text \<open>Budget: with a budget of pair comparisons the result reports as ambiguous exactly the compared pairs
  decided so and every pair beyond the budget, and the limitation is reported exactly when a pair was left out.\<close>

theorem grouping_budget:
  assumes "buildFindingGroups h (Some budget) fs = Inr R"
  shows "gr_ambiguousCount R
      = length (filter (is_ambiguous h) (take budget (all_pairs (sorted_projection h fs))))
        + (length (all_pairs (sorted_projection h fs)) - budget)
    \<and> gr_limitations R = (if budget < length (all_pairs (sorted_projection h fs))
        then [''deterministic_pair_budget_exceeded''] else [])"
  using compare_pairs_counts [OF build_result(1) [OF assms(1)]] build_result(4,5) [OF assms(1)]
  by (simp add: pair_start_def)

lemma grouping_budget_witness:
  "\<exists>R. buildFindingGroups sample_host (Some 0) sample_findings = Inr R \<and> gr_ambiguousCount R = 1
     \<and> gr_limitations R = [''deterministic_pair_budget_exceeded'']"
proof -
  have "distinct (map f_id sample_findings)" using sample_ids_ok by (simp add: ids_ok_def)
  then obtain R where R: "buildFindingGroups sample_host (Some 0) sample_findings = Inr R"
    using build_total by blast
  from grouping_budget [OF R] R show ?thesis by (simp add: sample_pairs)
qed

text \<open>Representative: the representative of a group is a finding of the run; if any member was observed at
  run time it was, among members of its confidence it has the highest severity, and the severity of the group is
  at least that of every member.\<close>

theorem grouping_representative:
  assumes "comparator (locale_compare h)" and "distinct (map f_id fs)"
    and "buildFindingGroups h m fs = Inr R" and "g \<in> set (gr_groups R)"
    and "f \<in> set fs" and "f_id f \<in> set (g_members g)"
  shows "\<exists>l \<in> set fs. f_id l = g_representative g
    \<and> (f_confidence f = Runtime \<longrightarrow> f_confidence l = Runtime)
    \<and> (f_confidence f = f_confidence l \<longrightarrow> severityRank (f_severity l) \<le> severityRank (f_severity f))
    \<and> severityRank (g_severity g) \<le> severityRank (f_severity f)"
proof -
  obtain c where c: "c \<in> set (clusters_of h m fs)"
    "g = buildGroup h (ps_decisions (final_state h m fs)) c" "c \<noteq> []" "set c \<subseteq> project_finding h ` set fs"
    by (rule group_of_cluster [OF assms(3,4)])
  let ?c = "js_sort (id_compare h) c"
  have f: "project_finding h f \<in> set ?c"
    using cluster_id [OF assms(2,5) c(4)] assms(6) by (simp add: c(2) buildGroup_simps)
  note rep = representative_le [OF assms(1) f]
  obtain l where l: "l \<in> set fs" "representative h ?c = project_finding h l"
    using rep(1) c(4) by auto
  have "f_id l = g_representative g"
    using l(2) by (simp add: c(2) buildGroup_simps)
  moreover have "severityRank (g_severity g) \<le> severityRank (f_severity f)"
    using top_severity_le(2) [OF f] by (simp add: c(2) buildGroup_simps)
  ultimately show ?thesis
    using representative_compare_le [OF rep(2)] l by auto
qed

lemma grouping_representative_witness:
  "\<exists>R g l. buildFindingGroups sample_host (Some 9) sample_findings = Inr R \<and> g \<in> set (gr_groups R)
     \<and> l \<in> set sample_findings \<and> f_id l = g_representative g \<and> severityRank (g_severity g) \<le> 1"
proof -
  let ?f = "sample_finding ''b'' ''semgrep'' ''a.ts'' 12 14"
  obtain R g where R: "buildFindingGroups sample_host (Some 9) sample_findings = Inr R"
      "g \<in> set (gr_groups R)" "g_members g = [''a'', ''b'']"
    by (rule sample_result)
  have f: "?f \<in> set sample_findings" "f_id ?f \<in> set (g_members g)" "severityRank (f_severity ?f) = 1"
    by (simp_all add: sample_findings_def R(3)) (simp_all add: sample_finding_def)
  have ok: "comparator (locale_compare sample_host)" "distinct (map f_id sample_findings)"
    using sample_ids_ok by (simp_all add: ids_ok_def)
  from grouping_representative [OF ok R(1,2) f(1,2)] R f(3) show ?thesis by auto
qed

text \<open>Snapshot: for rows with distinct identifiers the snapshot is built (no member is missing), it holds
  every finding once, the members of each group are the findings the group names, and exactly one of them, the
  group's representative, has that role.\<close>

theorem snapshot_complete:
  assumes "distinct (map r_id rows)"
  shows "\<exists>S. buildDeterministicFindingGroups h rows = Inr S
    \<and> mset (concat (map g_members (gs_groups S))) = mset (map r_id rows)
    \<and> (\<forall>G \<in> set (gs_groups S). map (\<lambda>m. f_id (m_finding m)) (bg_members G) = g_members G
        \<and> map (\<lambda>m. f_id (m_finding m)) (filter (\<lambda>m. m_role m = Representative) (bg_members G)) = [g_representative G])"
proof -
  let ?fs = "map normalize_row rows"
  have ids: "map f_id ?fs = map r_id rows"
    by (simp add: normalize_row_def comp_def)
  have dist: "distinct (map f_id ?fs)" unfolding ids by (rule assms)
  obtain R where R: "buildFindingGroups h None ?fs = Inr R"
    using build_total [OF dist] by blast
  note part = partition_facts [OF R]
  let ?byId = "jm_of_list (map (\<lambda>f. (f_id f, project_finding h f)) ?fs)"
  let ?ds = "jm_of_list (map (\<lambda>pair. (pairKey h (pd_left pair) (pd_right pair), pair)) (gr_pairDecisions R))"
  have byId: "f_id f = i" if "jm_get ?byId i = Some f" for i f
    using jm_get_of_list_in [OF that] by auto
  have found: "jm_get ?byId i \<noteq> None" if "i \<in> set (map f_id ?fs)" for i
  proof -
    have "i \<in> fst ` set (map (\<lambda>f. (f_id f, project_finding h f)) ?fs)"
      using that unfolding set_map image_image by simp
    then show ?thesis unfolding jm_get_of_list_None by blast
  qed
  have mem: "set (g_members g) \<subseteq> set (map f_id ?fs)" "distinct (g_members g)" if "g \<in> set (gr_groups R)" for g
  proof -
    show "set (g_members g) \<subseteq> set (map f_id ?fs)"
      using that by (simp only: set_mset_mset [symmetric] part(1) [symmetric]) auto
    have "distinct (concat (map g_members (gr_groups R)))"
      using dist part(1) mset_eq_imp_distinct_iff by blast
    then show "distinct (g_members g)"
      using that by (auto simp: distinct_concat_iff)
  qed
  have member: "\<exists>m. build_member h ?ds ?byId g i = Inr m" if "g \<in> set (gr_groups R)" "i \<in> set (g_members g)" for g i
    by (rule build_member_total, rule found) (use mem(1) [OF that(1)] that(2) in blast)
  have "\<exists>G. build_members h ?ds ?byId g = Inr G" if "g \<in> set (gr_groups R)" for g
    by (rule build_members_total) (rule member [OF that])
  then obtain Gs where Gs: "map_result (build_members h ?ds ?byId) (gr_groups R) = Inr Gs"
    using map_result_total by blast
  have all2: "list_all2 (\<lambda>g G. g \<in> set (gr_groups R) \<and> build_members h ?ds ?byId g = Inr G) (gr_groups R) Gs"
    using map_result_dest [OF Gs] by (simp add: list_all2_conv_all_nth)
  note simps = build_members_simps [OF _ mem(2) part(2) byId]
  have "list_all2 (\<lambda>g G. g_members G = g_members g
      \<and> map (\<lambda>m. f_id (m_finding m)) (bg_members G) = g_members G
      \<and> map (\<lambda>m. f_id (m_finding m)) (filter (\<lambda>m. m_role m = Representative) (bg_members G)) = [g_representative G])
    (gr_groups R) Gs"
    using all2 by (rule list_all2_mono) (use simps in blast)
  then have "map g_members Gs = map g_members (gr_groups R)"
    and "\<forall>G \<in> set Gs. map (\<lambda>m. f_id (m_finding m)) (bg_members G) = g_members G
        \<and> map (\<lambda>m. f_id (m_finding m)) (filter (\<lambda>m. m_role m = Representative) (bg_members G)) = [g_representative G]"
    by (induction rule: list_all2_induct) auto
  moreover have "mset (concat (map g_members (gr_groups R))) = mset (map r_id rows)"
    using part(1) ids by argo
  moreover have "buildDeterministicFindingGroups h rows
      = Inr \<lparr>gs_groups = Gs, gs_ambiguousCount = gr_ambiguousCount R, gs_limitations = gr_limitations R\<rparr>"
    by (simp only: buildDeterministicFindingGroups_def Let_def R Gs sum.case)
  ultimately show ?thesis
    by (metis (no_types, lifting) grouping_snapshot.select_convs(1))
qed

lemma snapshot_complete_witness:
  "\<exists>S. buildDeterministicFindingGroups sample_host
      [\<lparr>r_id = ''x'', r_sourceTool = ''osv'', r_ruleId = ''r'', r_title = [], r_description = [], r_severity = ''high'',
        r_confidence = ''static'', r_primaryLocation = None, r_metadata = None\<rparr>] = Inr S
    \<and> mset (concat (map g_members (gs_groups S))) = {#''x''#}"
  using snapshot_complete [of "[\<lparr>r_id = ''x'', r_sourceTool = ''osv'', r_ruleId = ''r'', r_title = [], r_description = [],
      r_severity = ''high'', r_confidence = ''static'', r_primaryLocation = None, r_metadata = None\<rparr>]" sample_host]
  by auto

end
