(* ===== verification/ScanContracts.thy ===== *)
theory ScanContracts
  imports FindingIdentity
begin

text \<open>
  The shared contracts of a scan: capabilities and their requirements
  (\<open>shared/schemas/scan-capability.schema.ts\<close>), the registry of reason codes
  (\<open>scan-reason-code.schema.ts\<close>), the steps of an execution plan
  (\<open>scan-execution-plan.schema.ts\<close>) and the results of the steps
  (\<open>api/modules/scans/execution/profile-runner.ts\<close>). A \<open>z.enum\<close> is a datatype with the options of the
  source; the reason codes, which the code also receives as unchecked text, are the list of their options.
\<close>

section \<open>Capabilities\<close>

datatype capability =
    SecretDetection
  | SourceSast
  | CicdWorkflowIntegrity
  | Sca
  | IacConfig
  | Sbom
  | ProvenanceIntegrity
  | ArtifactContainer
  | DynamicTests
  | SanitizerFuzz
  | PassiveDast
  | BrowserClient
  | AuthenticationSession
  | ApiSchemaContract
  | AuthorizationMatrix
  | ActiveDast
  | BusinessLogic
  | RemediationRetest

fun capability_text :: "capability \<Rightarrow> string" where
  "capability_text SecretDetection = ''secret_detection''"
| "capability_text SourceSast = ''source_sast''"
| "capability_text CicdWorkflowIntegrity = ''cicd_workflow_integrity''"
| "capability_text Sca = ''sca''"
| "capability_text IacConfig = ''iac_config''"
| "capability_text Sbom = ''sbom''"
| "capability_text ProvenanceIntegrity = ''provenance_integrity''"
| "capability_text ArtifactContainer = ''artifact_container''"
| "capability_text DynamicTests = ''dynamic_tests''"
| "capability_text SanitizerFuzz = ''sanitizer_fuzz''"
| "capability_text PassiveDast = ''passive_dast''"
| "capability_text BrowserClient = ''browser_client''"
| "capability_text AuthenticationSession = ''authentication_session''"
| "capability_text ApiSchemaContract = ''api_schema_contract''"
| "capability_text AuthorizationMatrix = ''authorization_matrix''"
| "capability_text ActiveDast = ''active_dast''"
| "capability_text BusinessLogic = ''business_logic''"
| "capability_text RemediationRetest = ''remediation_retest''"

definition capability_options :: "capability list" where
  \<comment> \<open>\<open>scanCapabilityIdSchema.options\<close>\<close>
  "capability_options =
     [SecretDetection, SourceSast, CicdWorkflowIntegrity, Sca,
      IacConfig, Sbom, ProvenanceIntegrity, ArtifactContainer,
      DynamicTests, SanitizerFuzz, PassiveDast, BrowserClient,
      AuthenticationSession, ApiSchemaContract, AuthorizationMatrix, ActiveDast,
      BusinessLogic, RemediationRetest]"

datatype capability_requirement = Required | RequiredIfApplicable | Advisory

datatype applicability = Applicable | NotApplicable | UnknownApplicability

datatype execution = ExecCompleted | ExecFailed | ExecBlocked | NotExecuted | ExecCancelled

datatype coverage_effect = Covered | Partial | Gap

record capability_entry =
  cr_capabilityId :: capability
  cr_requirement :: capability_requirement

definition requirements_ok :: "capability_entry list \<Rightarrow> bool" where
  \<comment> \<open>\<open>scanCapabilityRequirementsSchema\<close>\<close>
  "requirements_ok entries = (length entries \<le> 18 \<and> distinct (map cr_capabilityId entries))"

section \<open>Reason codes\<close>

datatype reason_category =
  CatApplicability | CatReadiness | CatPolicy | CatExecution | CatCleanup | CatCoverage

record reason_definition =
  rd_category :: reason_category
  rd_coverageEffect :: coverage_effect
  rd_action :: string
  rd_messageKey :: string

definition scan_reason_codes :: "string list" where
  \<comment> \<open>the options of \<open>scanReasonCodeSchema\<close>\<close>
  "scan_reason_codes =
     [''schema_not_found'', ''authentication_required'', ''auth_context_missing'',
      ''image_input_not_provided'', ''image_source_unreachable'', ''attestation_input_missing'',
      ''attestation_verification_failed'', ''slsa_trust_root_network_required'',
      ''target_start_not_supported'', ''target_unreachable_from_container'', ''preflight_failed'',
      ''tool_unavailable'', ''policy_rejected'', ''roe_not_approved'', ''invalid_structured_output'',
      ''timed_out'', ''execution_failed'', ''cleanup_failed'', ''resource_quarantined'',
      ''crawl_budget_exhausted'', ''role_matrix_partial'', ''source_sast_not_executed'',
      ''source_sast_no_supported_files'', ''source_sast_ruleset_unavailable'',
      ''source_sast_adapter_unavailable'', ''capability_not_integrated'', ''capability_not_executed'',
      ''no_changed_files'', ''no_relevant_files'', ''no_dependency_manifest_changed'',
      ''diff_target_not_supported'', ''profile_platform_not_qualified'', ''required_capability_missing'',
      ''openapi_schema_required'', ''openapi_yaml_not_qualified'', ''openapi_version_not_qualified'',
      ''openapi_external_ref_rejected'', ''openapi_callback_not_qualified'',
      ''no_unauthenticated_readonly_operations'', ''original_execution_identity_missing'',
      ''comparison_identity_mismatch'', ''legacy_custom_reproduction_not_supported'',
      ''custom_dynamic_config_not_stable'', ''no_tests_collected'', ''authentication_assertion_required'',
      ''target_authorization_required'', ''target_lease_required'', ''target_reset_failed'',
      ''unknown_reason_code'']"

definition known_code :: "string \<Rightarrow> bool" where
  \<comment> \<open>\<open>scanReasonCodeSchema.safeParse(code).success\<close>\<close>
  "known_code code = (code \<in> set scan_reason_codes)"

definition reason_def :: "string \<Rightarrow> reason_category \<Rightarrow> coverage_effect \<Rightarrow> string \<Rightarrow> string \<times> reason_definition" where
  "reason_def code category effect act =
     (code, \<lparr>rd_category = category, rd_coverageEffect = effect, rd_action = act, rd_messageKey = code\<rparr>)"

definition reason_registry_first :: "(string, reason_definition) jsmap" where
  "reason_registry_first =
     [reason_def ''schema_not_found'' CatApplicability Gap ''configure_api_schema'',
      reason_def ''authentication_required'' CatReadiness Gap ''provide_auth_context'',
      reason_def ''auth_context_missing'' CatReadiness Gap ''provide_auth_context'',
      reason_def ''image_input_not_provided'' CatReadiness Gap ''provide_image_input'',
      reason_def ''image_source_unreachable'' CatReadiness Gap ''make_image_source_reachable'',
      reason_def ''attestation_input_missing'' CatReadiness Gap ''provide_attestation_inputs'',
      reason_def ''attestation_verification_failed'' CatExecution Gap ''inspect_attestation_and_trust_policy'',
      reason_def ''slsa_trust_root_network_required'' CatReadiness Gap ''allow_slsa_trust_root_network'',
      reason_def ''target_start_not_supported'' CatApplicability Gap ''configure_target_start_plan'',
      reason_def ''target_unreachable_from_container'' CatReadiness Gap ''configure_container_target_gateway'',
      reason_def ''preflight_failed'' CatReadiness Gap ''resolve_preflight_blockers'',
      reason_def ''tool_unavailable'' CatReadiness Gap ''install_or_pin_tool'',
      reason_def ''policy_rejected'' CatPolicy Gap ''review_scan_policy'',
      reason_def ''roe_not_approved'' CatPolicy Gap ''approve_rules_of_engagement'',
      reason_def ''invalid_structured_output'' CatExecution Gap ''inspect_tool_output'',
      reason_def ''timed_out'' CatExecution Gap ''review_timeout_and_budget'',
      reason_def ''execution_failed'' CatExecution Gap ''inspect_execution_failure'',
      reason_def ''cleanup_failed'' CatCleanup Gap ''run_manual_cleanup'',
      reason_def ''resource_quarantined'' CatCleanup Gap ''recover_quarantined_resource'',
      reason_def ''crawl_budget_exhausted'' CatCoverage Partial ''review_crawl_budget'',
      reason_def ''role_matrix_partial'' CatCoverage Partial ''provide_missing_roles'',
      reason_def ''source_sast_not_executed'' CatCoverage Gap ''run_source_sast'',
      reason_def ''source_sast_no_supported_files'' CatApplicability Covered ''provide_supported_source_files'',
      reason_def ''source_sast_ruleset_unavailable'' CatReadiness Gap ''install_or_pin_ruleset'',
      reason_def ''source_sast_adapter_unavailable'' CatReadiness Gap ''install_or_pin_tool'']"

definition reason_registry_second :: "(string, reason_definition) jsmap" where
  "reason_registry_second =
     [reason_def ''capability_not_integrated'' CatCoverage Gap ''integrate_capability'',
      reason_def ''capability_not_executed'' CatExecution Gap ''rerun_scan'',
      reason_def ''no_changed_files'' CatApplicability Covered ''select_changed_files'',
      reason_def ''no_relevant_files'' CatApplicability Covered ''select_relevant_files'',
      reason_def ''no_dependency_manifest_changed'' CatApplicability Covered ''select_dependency_manifest'',
      reason_def ''diff_target_not_supported'' CatApplicability Gap ''select_supported_target'',
      reason_def ''profile_platform_not_qualified'' CatReadiness Gap ''qualify_platform'',
      reason_def ''required_capability_missing'' CatReadiness Gap ''provide_required_capability'',
      reason_def ''openapi_schema_required'' CatApplicability Gap ''configure_api_schema'',
      reason_def ''openapi_yaml_not_qualified'' CatReadiness Gap ''provide_openapi_json'',
      reason_def ''openapi_version_not_qualified'' CatReadiness Gap ''use_supported_openapi_version'',
      reason_def ''openapi_external_ref_rejected'' CatPolicy Gap ''bundle_openapi_refs'',
      reason_def ''openapi_callback_not_qualified'' CatPolicy Gap ''remove_callbacks_or_use_experimental'',
      reason_def ''no_unauthenticated_readonly_operations'' CatApplicability Gap ''use_authenticated_web_profile'',
      reason_def ''original_execution_identity_missing'' CatApplicability Gap ''run_new_source_scan'',
      reason_def ''comparison_identity_mismatch'' CatExecution Gap ''restore_original_scanner_binding'',
      reason_def ''legacy_custom_reproduction_not_supported'' CatPolicy Gap ''use_stable_verification_preview'',
      reason_def ''custom_dynamic_config_not_stable'' CatPolicy Gap ''use_experimental_dynamic_lab'',
      reason_def ''no_tests_collected'' CatCoverage Gap ''add_test_cases'',
      reason_def ''authentication_assertion_required'' CatReadiness Gap ''configure_auth_readiness'',
      reason_def ''target_authorization_required'' CatPolicy Gap ''approve_target_authorization'',
      reason_def ''target_lease_required'' CatReadiness Gap ''provision_runtime_bundle'',
      reason_def ''target_reset_failed'' CatCleanup Gap ''inspect_quarantined_resource'',
      reason_def ''unknown_reason_code'' CatExecution Gap ''update_client_and_registry'']"

definition scanReasonCodeRegistry :: "(string, reason_definition) jsmap" where
  "scanReasonCodeRegistry = reason_registry_first @ reason_registry_second"

definition getScanReasonCodeDefinition :: "string \<Rightarrow> reason_definition option" where
  "getScanReasonCodeDefinition code = jm_get scanReasonCodeRegistry code"

section \<open>Planned steps\<close>

datatype step_kind =
    StaticTool
  | Dast
  | RuntimeScanner
  | SbomExport
  | ApiSchemaScan
  | ContainerImageScan
  | AttestationVerify

fun step_kind_text :: "step_kind \<Rightarrow> string" where
  "step_kind_text StaticTool = ''static_tool''"
| "step_kind_text Dast = ''dast''"
| "step_kind_text RuntimeScanner = ''runtime_scanner''"
| "step_kind_text SbomExport = ''sbom_export''"
| "step_kind_text ApiSchemaScan = ''api_schema_scan''"
| "step_kind_text ContainerImageScan = ''container_image_scan''"
| "step_kind_text AttestationVerify = ''attestation_verify''"

datatype readiness = Ready | ReadinessBlocked | Unchecked

datatype step_requirement = StepRequiredIfApplicable | StepAdvisory | StepInventory

record planned_step =
  pl_stepId :: string
  pl_kind :: step_kind
  pl_adapter :: string
  pl_required :: bool
  pl_applicability :: applicability
  pl_readiness :: readiness
  pl_requirement :: step_requirement
  pl_reasonCodes :: "string list"
  pl_evidenceRefs :: "string list"

section \<open>Step results\<close>

datatype step_status = Completed | Failed | Skipped | Blocked

record tool_result =
  tr_toolId :: string
  tr_toolRunId :: "string option"
  tr_required :: bool
  tr_status :: step_status \<comment> \<open>never \<open>Blocked\<close>\<close>
  tr_findingCount :: nat
  tr_exitCode :: "int option"
  tr_error :: "string option"
  tr_applicability :: "applicability option"
  tr_reasonCode :: "string option"
  tr_coverageEffect :: "coverage_effect option"
  tr_artifactIds :: "string list option"
  tr_metadata :: "js_record option"

record dast_coverage_summary =
  cs_knownRouteCount :: nat
  cs_actionableKnownRouteCount :: nat
  cs_plannedRouteCount :: nat
  cs_attemptedRouteCount :: nat
  cs_successfulRouteCount :: nat
  cs_failedRouteCount :: nat
  cs_blockedRouteCount :: nat
  cs_notTestedRouteCount :: nat
  cs_requiredSeedCoverage :: rat
  cs_actionableRouteCoverage :: rat
  cs_requestCount :: nat
  cs_responseBytesRead :: nat
  cs_maxDepthReached :: nat
  cs_transportErrorCount :: nat
  cs_timeoutCount :: nat
  cs_authFailureCount :: nat
  cs_budgetExhausted :: bool
  cs_limitationCodes :: "string list"

record auto_target =
  at_scriptName :: string
  at_command :: "string list"
  at_port :: nat
  at_origin :: string
  at_warnings :: "string list"

record dast_result =
  dr_profileId :: string
  dr_required :: bool
  dr_status :: step_status
  dr_outcome :: "string option"
  dr_verdict :: "string option"
  dr_coverageStatus :: "coverage_effect option"
  dr_coverageSummary :: "dast_coverage_summary option"
  dr_limitationCodes :: "string list option"
  dr_findingCount :: nat
  dr_dastRunId :: "string option"
  dr_targetOrigin :: "string option"
  dr_error :: "string option"
  dr_reasonCode :: "string option" \<comment> \<open>None is an absent key; no producer sets null\<close>
  dr_artifactIds :: "string list option"
  dr_autoTarget :: "auto_target option"

record coverage_result =
  co_kind :: step_kind
  co_stepId :: string
  co_adapter :: string
  co_required :: bool
  co_status :: step_status
  co_applicability :: applicability
  co_reasonCode :: "string option"
  co_coverageEffect :: coverage_effect
  co_findingCount :: nat
  co_error :: "string option"
  co_artifactIds :: "string list option"
  co_metadata :: "js_record option"

datatype step_result =
    StaticResult tool_result
  | DastResult dast_result
  | CoverageResult coverage_result

fun result_kind :: "step_result \<Rightarrow> step_kind" where
  "result_kind (StaticResult r) = StaticTool"
| "result_kind (DastResult r) = Dast"
| "result_kind (CoverageResult r) = co_kind r"

fun result_status :: "step_result \<Rightarrow> step_status" where
  "result_status (StaticResult r) = tr_status r"
| "result_status (DastResult r) = dr_status r"
| "result_status (CoverageResult r) = co_status r"

fun result_required :: "step_result \<Rightarrow> bool" where
  "result_required (StaticResult r) = tr_required r"
| "result_required (DastResult r) = dr_required r"
| "result_required (CoverageResult r) = co_required r"

fun result_findingCount :: "step_result \<Rightarrow> nat" where
  "result_findingCount (StaticResult r) = tr_findingCount r"
| "result_findingCount (DastResult r) = dr_findingCount r"
| "result_findingCount (CoverageResult r) = co_findingCount r"

definition truthy :: "string option \<Rightarrow> bool" where
  \<comment> \<open>null, undefined and the empty string are falsy\<close>
  "truthy x = (x \<noteq> None \<and> x \<noteq> Some [])"

definition truthy_list :: "string option \<Rightarrow> string list" where
  \<comment> \<open>\<open>x ? [x] : []\<close>\<close>
  "truthy_list x = (if truthy x then [the x] else [])"

section \<open>Schema fragments\<close>

definition hex_lower :: "char \<Rightarrow> bool" where
  "hex_lower c = (is_digit c \<or> 97 \<le> code_of c \<and> code_of c \<le> 102)"

definition sha256_digest :: "string \<Rightarrow> bool" where
  \<comment> \<open>\<open>/^sha256:[a-f0-9]{64}$/\<close>\<close>
  "sha256_digest s =
     (starts_with s ''sha256:'' \<and> length s = 71 \<and> list_all hex_lower (drop 7 s))"

definition text_within :: "nat \<Rightarrow> string \<Rightarrow> bool" where
  \<comment> \<open>\<open>z.string().min(1).max(n)\<close>\<close>
  "text_within n s = (s \<noteq> [] \<and> length s \<le> n)"

section \<open>Facts\<close>

lemma capability_text_inject: "capability_text a = capability_text b \<Longrightarrow> a = b"
  by (cases a; cases b; simp)

lemma capability_options_complete: "set capability_options = UNIV" "distinct capability_options"
proof -
  have "c \<in> set capability_options" for c by (cases c) (simp_all add: capability_options_def)
  then show "set capability_options = UNIV" by auto
  show "distinct capability_options" by (simp add: capability_options_def)
qed

lemma truthy_list_simps [simp]:
  "truthy_list None = []" "truthy_list (Some []) = []" "s \<noteq> [] \<Longrightarrow> truthy_list (Some s) = [s]"
  by (simp_all add: truthy_list_def truthy_def)

lemma registry_keys: "jm_keys scanReasonCodeRegistry = scan_reason_codes"
  by (simp add: scanReasonCodeRegistry_def reason_registry_first_def reason_registry_second_def scan_reason_codes_def
      reason_def_def jm_keys_def)

lemma registry_total: "known_code code \<longleftrightarrow> getScanReasonCodeDefinition code \<noteq> None"
proof -
  have "known_code code \<longleftrightarrow> jm_has scanReasonCodeRegistry code"
    by (simp only: known_code_def jm_has_def registry_keys)
  then show ?thesis by (simp only: jm_has_get getScanReasonCodeDefinition_def)
qed

lemma registry_message_keys:
  assumes "getScanReasonCodeDefinition code = Some d"
  shows "rd_messageKey d = code"
proof -
  have "(code, d) \<in> set scanReasonCodeRegistry"
    using assms jm_get_in by (auto simp: getScanReasonCodeDefinition_def)
  then show ?thesis
    by (auto simp: scanReasonCodeRegistry_def reason_registry_first_def reason_registry_second_def reason_def_def)
qed

end
