(* ===== verification/StepResults.thy ===== *)
theory StepResults
  imports ScanContracts
begin

text \<open>
  The steps of a profile (\<open>shared/schemas/scan-profile.schema.ts\<close>), the results of planned steps that do not
  run (\<open>api/modules/scans/execution/profile-step-results.ts\<close>) and the normalised form in which every result is
  stored (\<open>normalized-step-result.ts\<close>, \<open>shared/schemas/scan-profile-step-result.schema.ts\<close>).
\<close>

section \<open>Profile steps\<close>

datatype failure_policy = FailProfile | WarnAndContinue

datatype strictness = Strict | BestEffort

text \<open>What discriminates the union: the tool, the DAST profile, or the kind and its adapter.\<close>

datatype step_ref = ToolStep string | DastStep string | AdapterStep step_kind string

record profile_step =
  st_ref :: step_ref
  st_displayName :: string
  st_required :: bool
  st_requirement :: "step_requirement option"
  st_timeoutSec :: "nat option"
  st_failurePolicy :: failure_policy
  st_maxRequests :: "nat option"

record scan_profile =
  pr_id :: string
  pr_defaultTimeoutSec :: nat
  pr_steps :: "profile_step list option"
  pr_capabilityRequirements :: "capability_entry list option"
  pr_coverageGaps :: "string list option"
  pr_strictness :: "strictness option"

fun step_kind_of :: "step_ref \<Rightarrow> step_kind" where
  "step_kind_of (ToolStep toolId) = StaticTool"
| "step_kind_of (DastStep profileId) = Dast"
| "step_kind_of (AdapterStep kind adapter) = kind"

section \<open>Steps that do not run\<close>

record planned_step_result =
  ps_toolResult :: "tool_result option"
  ps_stepResult :: step_result

definition notApplicablePlannedStepResult ::
  "profile_step \<Rightarrow> string \<Rightarrow> string \<Rightarrow> string \<Rightarrow> planned_step_result" where
  "notApplicablePlannedStepResult step stepId reasonCode executionPlanHash =
     (case st_ref step of
        ToolStep toolId \<Rightarrow>
          (let toolResult = \<lparr>tr_toolId = toolId, tr_toolRunId = None, tr_required = False, tr_status = Skipped,
                 tr_findingCount = 0, tr_exitCode = None, tr_error = None, tr_applicability = Some NotApplicable,
                 tr_reasonCode = Some reasonCode, tr_coverageEffect = Some Gap, tr_artifactIds = Some [],
                 tr_metadata = Some [(''executionPlanHash'', JStr executionPlanHash)]\<rparr>
           in \<lparr>ps_toolResult = Some toolResult, ps_stepResult = StaticResult toolResult\<rparr>)
      | DastStep profileId \<Rightarrow>
          \<lparr>ps_toolResult = None, ps_stepResult = DastResult
             \<lparr>dr_profileId = profileId, dr_required = False, dr_status = Skipped, dr_outcome = None,
              dr_verdict = None, dr_coverageStatus = Some Gap, dr_coverageSummary = None,
              dr_limitationCodes = Some [reasonCode], dr_findingCount = 0, dr_dastRunId = None,
              dr_targetOrigin = None, dr_error = None, dr_reasonCode = None, dr_artifactIds = None,
              dr_autoTarget = None\<rparr>\<rparr>
      | AdapterStep kind adapter \<Rightarrow>
          \<lparr>ps_toolResult = None, ps_stepResult = CoverageResult
             \<lparr>co_kind = kind, co_stepId = stepId, co_adapter = adapter, co_required = False, co_status = Skipped,
              co_applicability = NotApplicable, co_reasonCode = Some reasonCode, co_coverageEffect = Gap,
              co_findingCount = 0, co_error = None, co_artifactIds = None,
              co_metadata = Some [(''executionPlanHash'', JStr executionPlanHash)]\<rparr>\<rparr>)"

definition preflightBlockedStepResult ::
  "profile_step \<Rightarrow> string \<Rightarrow> string list \<Rightarrow> planned_step_result" where
  "preflightBlockedStepResult step stepId preflightReasonCodes =
     (let error = Some (''Blocked by scan preflight: '' @ join_with '', '' preflightReasonCodes);
          metadata = Some [(''preflightReasonCodes'', JArr (map JStr preflightReasonCodes))]
      in case st_ref step of
        ToolStep toolId \<Rightarrow>
          (let toolResult = \<lparr>tr_toolId = toolId, tr_toolRunId = None, tr_required = st_required step,
                 tr_status = Skipped, tr_findingCount = 0, tr_exitCode = None, tr_error = error,
                 tr_applicability = Some Applicable, tr_reasonCode = Some ''preflight_failed'',
                 tr_coverageEffect = Some Gap, tr_artifactIds = Some [], tr_metadata = metadata\<rparr>
           in \<lparr>ps_toolResult = Some toolResult, ps_stepResult = StaticResult toolResult\<rparr>)
      | DastStep profileId \<Rightarrow>
          \<lparr>ps_toolResult = None, ps_stepResult = DastResult
             \<lparr>dr_profileId = profileId, dr_required = st_required step, dr_status = Skipped, dr_outcome = None,
              dr_verdict = None, dr_coverageStatus = Some Gap, dr_coverageSummary = None,
              dr_limitationCodes = Some (''preflight_failed'' # preflightReasonCodes), dr_findingCount = 0,
              dr_dastRunId = None, dr_targetOrigin = None, dr_error = error, dr_reasonCode = None,
              dr_artifactIds = None, dr_autoTarget = None\<rparr>\<rparr>
      | AdapterStep kind adapter \<Rightarrow>
          \<lparr>ps_toolResult = None, ps_stepResult = CoverageResult
             \<lparr>co_kind = kind, co_stepId = stepId, co_adapter = adapter, co_required = st_required step,
              co_status = Skipped, co_applicability = Applicable, co_reasonCode = Some ''preflight_failed'',
              co_coverageEffect = Gap, co_findingCount = 0, co_error = error, co_artifactIds = None,
              co_metadata = metadata\<rparr>\<rparr>)"

section \<open>Normalised results\<close>

datatype cleanup_state = CleanupNotRequired | CleanupCompleted | CleanupFailed | CleanupQuarantined

record normalized_result =
  nr_stepId :: string
  nr_kind :: step_kind
  nr_adapter :: string
  nr_required :: bool
  nr_execution :: execution
  nr_applicability :: applicability
  nr_coverageEffect :: coverage_effect
  nr_reasonCodes :: "string list"
  nr_findingCount :: nat
  nr_evidenceRefs :: "string list"
  nr_artifactIds :: "string list"
  nr_childRunRefs :: "string list"
  nr_cleanupState :: cleanup_state

definition normalized_ok :: "normalized_result \<Rightarrow> bool" where
  \<comment> \<open>\<open>normalizedProfileStepResultSchema\<close>\<close>
  "normalized_ok r =
     (text_within 160 (nr_stepId r) \<and> text_within 100 (nr_adapter r)
      \<and> list_all known_code (nr_reasonCodes r) \<and> length (nr_reasonCodes r) \<le> 32
      \<and> list_all (text_within 200) (nr_evidenceRefs r) \<and> length (nr_evidenceRefs r) \<le> 64
      \<and> list_all (text_within 200) (nr_artifactIds r) \<and> length (nr_artifactIds r) \<le> 64
      \<and> list_all (text_within 200) (nr_childRunRefs r) \<and> length (nr_childRunRefs r) \<le> 32)"

fun stepIdFor :: "step_result \<Rightarrow> string" where
  "stepIdFor (StaticResult r) = tr_toolId r"
| "stepIdFor (DastResult r) = ''dast:'' @ dr_profileId r"
| "stepIdFor (CoverageResult r) = co_stepId r"

fun adapterFor :: "step_result \<Rightarrow> string" where
  "adapterFor (StaticResult r) = tr_toolId r"
| "adapterFor (DastResult r) = dr_profileId r"
| "adapterFor (CoverageResult r) = co_adapter r"

fun raw_reason_codes :: "step_result \<Rightarrow> string list" where
  "raw_reason_codes (StaticResult r) = truthy_list (tr_reasonCode r)"
| "raw_reason_codes (DastResult r) = or_else (dr_limitationCodes r) []"
| "raw_reason_codes (CoverageResult r) = truthy_list (co_reasonCode r)"

fun result_artifactIds :: "step_result \<Rightarrow> string list" where
  "result_artifactIds (StaticResult r) = or_else (tr_artifactIds r) []"
| "result_artifactIds (DastResult r) = or_else (dr_artifactIds r) []"
| "result_artifactIds (CoverageResult r) = or_else (co_artifactIds r) []"

fun result_not_applicable :: "step_result \<Rightarrow> bool" where
  "result_not_applicable (StaticResult r) = (tr_applicability r = Some NotApplicable)"
| "result_not_applicable (DastResult r) = False"
| "result_not_applicable (CoverageResult r) = (co_applicability r = NotApplicable)"

fun declared_effect :: "step_result \<Rightarrow> coverage_effect option" where
  "declared_effect (StaticResult r) = tr_coverageEffect r"
| "declared_effect (DastResult r) = dr_coverageStatus r"
| "declared_effect (CoverageResult r) = Some (co_coverageEffect r)"

fun child_run_refs :: "step_result \<Rightarrow> string list" where
  "child_run_refs (DastResult r) = map (\<lambda>i. ''dast-run:'' @ i) (truthy_list (dr_dastRunId r))"
| "child_run_refs _ = []"

fun result_cleanup :: "step_result \<Rightarrow> cleanup_state" where
  "result_cleanup (DastResult r) = (if dr_autoTarget r \<noteq> None then CleanupCompleted else CleanupNotRequired)"
| "result_cleanup _ = CleanupNotRequired"

definition normalized_form :: "step_result \<Rightarrow> normalized_result" where
  \<comment> \<open>the object before it is parsed\<close>
  "normalized_form result =
     (let reasonCodes = filter known_code (raw_reason_codes result);
          failed = (result_status result = Failed);
          skipped = (result_status result = Skipped);
          blocked = (''preflight_failed'' \<in> set reasonCodes);
          artifactIds = result_artifactIds result
      in \<lparr>nr_stepId = stepIdFor result,
          nr_kind = result_kind result,
          nr_adapter = adapterFor result,
          nr_required = result_required result,
          nr_execution = (if failed then ExecFailed else if blocked then ExecBlocked
            else if skipped then NotExecuted else ExecCompleted),
          nr_applicability = (if result_not_applicable result then NotApplicable else Applicable),
          nr_coverageEffect = or_else (declared_effect result) (if failed \<or> skipped then Gap else Covered),
          nr_reasonCodes = (if reasonCodes \<noteq> [] then reasonCodes
            else if failed then [''execution_failed''] else []),
          nr_findingCount = result_findingCount result,
          nr_evidenceRefs = map (\<lambda>i. ''artifact:'' @ i) artifactIds,
          nr_artifactIds = artifactIds,
          nr_childRunRefs = child_run_refs result,
          nr_cleanupState = result_cleanup result\<rparr>)"

definition normalizeProfileStepResult :: "step_result \<Rightarrow> (string, normalized_result) result" where
  "normalizeProfileStepResult result =
     (let form = normalized_form result in
      if normalized_ok form then Inr form else Inl ''normalized_step_result_invalid'')"

section \<open>Facts\<close>

lemma normalize_cases:
  assumes "normalizeProfileStepResult r = Inr n"
  shows "n = normalized_form r" "normalized_ok n"
  using assms by (auto simp: normalizeProfileStepResult_def Let_def split: if_splits)

lemma normalized_form_simps:
  "nr_stepId (normalized_form r) = stepIdFor r"
  "nr_required (normalized_form r) = result_required r"
  "nr_childRunRefs (normalized_form r) = child_run_refs r"
  "nr_coverageEffect (normalized_form r)
     = or_else (declared_effect r) (if result_status r = Failed \<or> result_status r = Skipped then Gap else Covered)"
  by (simp_all add: normalized_form_def Let_def)

lemma preflight_failed_known: "known_code ''preflight_failed''"
  by (simp add: known_code_def scan_reason_codes_def)

lemma blocked_result_reason: "''preflight_failed'' \<in> set (raw_reason_codes (ps_stepResult (preflightBlockedStepResult step sid codes)))"
  by (auto simp: preflightBlockedStepResult_def Let_def split: step_ref.splits)

lemma blocked_result_status: "result_status (ps_stepResult (preflightBlockedStepResult step sid codes)) = Skipped"
  by (auto simp: preflightBlockedStepResult_def Let_def split: step_ref.splits)

lemma blocked_result_effect: "declared_effect (ps_stepResult (preflightBlockedStepResult step sid codes)) = Some Gap"
  by (auto simp: preflightBlockedStepResult_def Let_def split: step_ref.splits)

text \<open>A step blocked by the preflight keeps its requirement and is normalised as blocked with a coverage gap,
  whatever its kind; a step that is not applicable is never required and is normalised as not executed or blocked.\<close>

theorem blocked_step_normalized:
  "nr_execution (normalized_form (ps_stepResult (preflightBlockedStepResult step sid codes))) = ExecBlocked
   \<and> nr_coverageEffect (normalized_form (ps_stepResult (preflightBlockedStepResult step sid codes))) = Gap
   \<and> nr_required (normalized_form (ps_stepResult (preflightBlockedStepResult step sid codes))) = st_required step
   \<and> nr_required (normalized_form (ps_stepResult (notApplicablePlannedStepResult step sid code h))) = False
   \<and> nr_execution (normalized_form (ps_stepResult (notApplicablePlannedStepResult step sid code h)))
       \<in> {NotExecuted, ExecBlocked}"
proof -
  have "result_required (ps_stepResult (preflightBlockedStepResult step sid codes)) = st_required step"
    "result_required (ps_stepResult (notApplicablePlannedStepResult step sid code h)) = False"
    "result_status (ps_stepResult (notApplicablePlannedStepResult step sid code h)) = Skipped"
    by (auto simp: preflightBlockedStepResult_def notApplicablePlannedStepResult_def Let_def split: step_ref.splits)
  then show ?thesis
    using blocked_result_reason [of step sid codes] preflight_failed_known
    by (simp add: normalized_form_def Let_def blocked_result_status blocked_result_effect)
qed

end
