(* ===== verification/CoverageLedger.thy ===== *)
theory CoverageLedger
  imports StepResults
begin

text \<open>
  The coverage ledger (\<open>api/modules/scans/coverage/coverage-ledger.ts\<close>,
  \<open>shared/schemas/scan-coverage-ledger.schema.ts\<close>): for every capability a profile asks for, what the planned
  steps bound to it and their persisted results say about its coverage.
\<close>

section \<open>Bindings\<close>

text \<open>The registered static adapters (\<open>builtin-static-scanner-adapters.ts\<close>, \<open>api/plugins/scanners/semgrep.ts\<close>).\<close>

definition static_adapters :: "(string \<times> capability list) list" where
  "static_adapters =
     [(''gitleaks'', [SecretDetection]), (''osv'', [Sca]), (''trivy'', [IacConfig]),
      (''zizmor'', [CicdWorkflowIntegrity]), (''semgrep'', [SourceSast])]"

fun bound_step_ids :: "capability \<Rightarrow> string list" where
  "bound_step_ids Sbom = [''sbom_export:trivy'']"
| "bound_step_ids ProvenanceIntegrity = [''attestation_verify:cosign'', ''attestation_verify:slsa-verifier'']"
| "bound_step_ids ArtifactContainer = [''container_image_scan:trivy'']"
| "bound_step_ids PassiveDast =
     [''dast:web-passive-standard'', ''runtime_scanner:nuclei-safe'', ''runtime_scanner:zap-baseline'']"
| "bound_step_ids ApiSchemaContract = [''api_schema_scan:schemathesis'']"
| "bound_step_ids _ = []"

fun missing_reason_code :: "capability \<Rightarrow> string" where
  "missing_reason_code SourceSast = ''source_sast_not_executed''"
| "missing_reason_code ArtifactContainer = ''image_input_not_provided''"
| "missing_reason_code AuthenticationSession = ''auth_context_missing''"
| "missing_reason_code ApiSchemaContract = ''schema_not_found''"
| "missing_reason_code _ = ''capability_not_integrated''"

definition capabilityStepIds :: "capability \<Rightarrow> string list" where
  "capabilityStepIds capabilityId = js_uniq
     (map fst (filter (\<lambda>(adapterId, capabilities). capabilityId \<in> set capabilities) static_adapters)
      @ bound_step_ids capabilityId)"

section \<open>Entries\<close>

record ledger_entry =
  le_capabilityId :: capability
  le_requirement :: capability_requirement
  le_applicability :: applicability
  le_execution :: execution
  le_coverageEffect :: coverage_effect
  le_reasonCodes :: "string list"
  le_evidenceRefs :: "string list"
  le_limitations :: "string list"

record observation =
  ob_applicability :: applicability
  ob_execution :: execution
  ob_coverageEffect :: coverage_effect
  ob_reasonCodes :: "string list"
  ob_evidenceRefs :: "string list"
  ob_limitations :: "string list"

fun observed_execution :: "step_status \<Rightarrow> execution" where
  "observed_execution Completed = ExecCompleted"
| "observed_execution Failed = ExecFailed"
| "observed_execution _ = NotExecuted"

definition knownReasonCodes :: "string list \<Rightarrow> step_status \<Rightarrow> string list" where
  "knownReasonCodes codes status =
     (let known = filter known_code codes in
      if known \<noteq> [] \<or> status = Completed then sorted_set known else [''execution_failed''])"

definition observe_result ::
  "string \<Rightarrow> bool \<Rightarrow> step_status \<Rightarrow> coverage_effect option \<Rightarrow> string list \<Rightarrow> string list \<Rightarrow> observation" where
  \<comment> \<open>the object both branches of \<open>observeStep\<close> return\<close>
  "observe_result stepId notApplicable status effect codes artifactIds =
     \<lparr>ob_applicability = (if notApplicable then NotApplicable else Applicable),
      ob_execution = observed_execution status,
      ob_coverageEffect = or_else effect (if status = Completed then Covered else Gap),
      ob_reasonCodes = knownReasonCodes codes status,
      ob_evidenceRefs = (''step-result:'' @ stepId) # map (\<lambda>i. ''artifact:'' @ i) artifactIds,
      ob_limitations = codes\<rparr>"

fun observeStep :: "string \<Rightarrow> step_result \<Rightarrow> observation" where
  "observeStep stepId (DastResult r) =
     observe_result stepId (dr_status r = Skipped) (dr_status r) (dr_coverageStatus r)
       (or_else (dr_limitationCodes r) []) []"
| "observeStep stepId (StaticResult r) =
     observe_result stepId (tr_applicability r = Some NotApplicable) (tr_status r) (tr_coverageEffect r)
       (truthy_list (tr_reasonCode r)) (or_else (tr_artifactIds r) [])"
| "observeStep stepId (CoverageResult r) =
     observe_result stepId (co_applicability r = NotApplicable) (co_status r) (Some (co_coverageEffect r))
       (truthy_list (co_reasonCode r)) (or_else (co_artifactIds r) [])"

definition worstCoverageEffect :: "coverage_effect list \<Rightarrow> coverage_effect" where
  "worstCoverageEffect effects =
     (if Gap \<in> set effects then Gap else if Partial \<in> set effects then Partial else Covered)"

definition knownPlanReasonCodes :: "planned_step list \<Rightarrow> string list" where
  "knownPlanReasonCodes steps = sorted_set (filter known_code (concat (map pl_reasonCodes steps)))"

definition entry_for ::
  "capability_entry \<Rightarrow> applicability \<Rightarrow> execution \<Rightarrow> coverage_effect \<Rightarrow> string list \<Rightarrow> string list \<Rightarrow> string list
    \<Rightarrow> ledger_entry" where
  "entry_for requirement app exec effect reasonCodes evidenceRefs limitations =
     \<lparr>le_capabilityId = cr_capabilityId requirement, le_requirement = cr_requirement requirement,
      le_applicability = app, le_execution = exec, le_coverageEffect = effect,
      le_reasonCodes = reasonCodes, le_evidenceRefs = evidenceRefs, le_limitations = limitations\<rparr>"

definition matching_steps :: "capability \<Rightarrow> (string, planned_step) jsmap \<Rightarrow> planned_step list" where
  "matching_steps capabilityId plannedStepsById =
     List.map_filter (jm_get plannedStepsById) (capabilityStepIds capabilityId)"

definition matching_results ::
  "planned_step list \<Rightarrow> (string, step_result) jsmap \<Rightarrow> (string \<times> step_result) list" where
  "matching_results steps resultsByStepId =
     List.map_filter (\<lambda>s. map_option (Pair (pl_stepId s)) (jm_get resultsByStepId (pl_stepId s))) steps"

definition unbound_entry :: "capability_entry \<Rightarrow> ledger_entry" where
  "unbound_entry requirement =
     entry_for requirement UnknownApplicability NotExecuted Gap
       [missing_reason_code (cr_capabilityId requirement)] []
       [''No profile step is bound to this capability.'']"

definition not_applicable_entry :: "capability_entry \<Rightarrow> planned_step list \<Rightarrow> ledger_entry" where
  "not_applicable_entry requirement steps =
     entry_for requirement NotApplicable NotExecuted Covered (knownPlanReasonCodes steps)
       (sorted_set (concat (map (\<lambda>s. (''plan-step:'' @ pl_stepId s) # pl_evidenceRefs s) steps)))
       (sorted_set (concat (map pl_reasonCodes steps)))"

definition missing_result_entry :: "capability_entry \<Rightarrow> planned_step list \<Rightarrow> ledger_entry" where
  "missing_result_entry requirement steps =
     entry_for requirement Applicable NotExecuted Gap
       [if cr_capabilityId requirement = SourceSast then ''source_sast_not_executed'' else ''capability_not_executed'']
       (map (\<lambda>s. ''plan-step:'' @ pl_stepId s) steps)
       [''At least one planned step has no persisted result.'']"

definition observed_entry :: "capability_entry \<Rightarrow> observation list \<Rightarrow> ledger_entry" where
  "observed_entry requirement observations =
     (let allNotApplicable = list_all (\<lambda>ob. ob_applicability ob = NotApplicable) observations;
          anyFailed = list_ex (\<lambda>ob. ob_execution ob = ExecFailed) observations;
          anyNotExecuted = list_ex (\<lambda>ob. ob_execution ob = NotExecuted) observations
      in entry_for requirement
           (if allNotApplicable then NotApplicable else Applicable)
           (if anyFailed then ExecFailed else if anyNotExecuted then NotExecuted else ExecCompleted)
           (if allNotApplicable then Covered
            else if anyFailed \<or> anyNotExecuted then Gap
            else worstCoverageEffect (map ob_coverageEffect observations))
           (sorted_set (concat (map ob_reasonCodes observations)))
           (sorted_set (concat (map ob_evidenceRefs observations)))
           (sorted_set (concat (map ob_limitations observations))))"

definition buildEntry ::
  "capability_entry \<Rightarrow> (string, planned_step) jsmap \<Rightarrow> (string, step_result) jsmap \<Rightarrow> ledger_entry" where
  "buildEntry requirement plannedStepsById resultsByStepId =
     (let steps = matching_steps (cr_capabilityId requirement) plannedStepsById in
      if steps = [] then unbound_entry requirement
      else
        (let results = matching_results steps resultsByStepId in
         if length results \<noteq> length steps
         then (if list_all (\<lambda>s. pl_applicability s = NotApplicable) steps
               then not_applicable_entry requirement steps
               else missing_result_entry requirement steps)
         else observed_entry requirement (map (\<lambda>(stepId, result). observeStep stepId result) results)))"

section \<open>The ledger\<close>

record coverage_summary =
  su_covered :: nat
  su_partial :: nat
  su_gap :: nat

record coverage_ledger =
  lg_planHash :: string
  lg_derivedAt :: string
  lg_entries :: "ledger_entry list"
  lg_summary :: coverage_summary
  lg_ledgerHash :: string

definition count_entry :: "ledger_entry \<Rightarrow> coverage_summary \<Rightarrow> coverage_summary" where
  "count_entry entry s =
     (case le_coverageEffect entry of
        Covered \<Rightarrow> s\<lparr>su_covered := Suc (su_covered s)\<rparr>
      | Partial \<Rightarrow> s\<lparr>su_partial := Suc (su_partial s)\<rparr>
      | Gap \<Rightarrow> s\<lparr>su_gap := Suc (su_gap s)\<rparr>)"

definition summarize :: "ledger_entry list \<Rightarrow> coverage_summary" where
  "summarize entries = fold count_entry entries \<lparr>su_covered = 0, su_partial = 0, su_gap = 0\<rparr>"

fun requirement_text :: "capability_requirement \<Rightarrow> string" where
  "requirement_text Required = ''required''"
| "requirement_text RequiredIfApplicable = ''required_if_applicable''"
| "requirement_text Advisory = ''advisory''"

fun applicability_text :: "applicability \<Rightarrow> string" where
  "applicability_text Applicable = ''applicable''"
| "applicability_text NotApplicable = ''not_applicable''"
| "applicability_text UnknownApplicability = ''unknown''"

fun execution_text :: "execution \<Rightarrow> string" where
  "execution_text ExecCompleted = ''completed''"
| "execution_text ExecFailed = ''failed''"
| "execution_text ExecBlocked = ''blocked''"
| "execution_text NotExecuted = ''not_executed''"
| "execution_text ExecCancelled = ''cancelled''"

fun effect_text :: "coverage_effect \<Rightarrow> string" where
  "effect_text Covered = ''covered''"
| "effect_text Partial = ''partial''"
| "effect_text Gap = ''gap''"

definition entry_json :: "ledger_entry \<Rightarrow> jsval" where
  "entry_json e = JObj
     [(''capabilityId'', JStr (capability_text (le_capabilityId e))),
      (''requirement'', JStr (requirement_text (le_requirement e))),
      (''applicability'', JStr (applicability_text (le_applicability e))),
      (''execution'', JStr (execution_text (le_execution e))),
      (''coverageEffect'', JStr (effect_text (le_coverageEffect e))),
      (''reasonCodes'', JArr (map JStr (le_reasonCodes e))),
      (''evidenceRefs'', JArr (map JStr (le_evidenceRefs e))),
      (''limitations'', JArr (map JStr (le_limitations e)))]"

definition ledger_json :: "string \<Rightarrow> string \<Rightarrow> ledger_entry list \<Rightarrow> coverage_summary \<Rightarrow> jsval" where
  "ledger_json planHash derivedAt entries summary = JObj
     [(''schemaVersion'', JNum 1), (''planHash'', JStr planHash), (''derivedAt'', JStr derivedAt),
      (''entries'', JArr (map entry_json entries)),
      (''summary'', JObj [(''covered'', JNum (of_nat (su_covered summary))),
         (''partial'', JNum (of_nat (su_partial summary))), (''gap'', JNum (of_nat (su_gap summary)))])]"

definition entry_ok :: "ledger_entry \<Rightarrow> bool" where
  \<comment> \<open>\<open>coverageLedgerEntrySchema\<close>\<close>
  "entry_ok e =
     (list_all known_code (le_reasonCodes e) \<and> length (le_reasonCodes e) \<le> 32
      \<and> list_all (text_within 200) (le_evidenceRefs e) \<and> length (le_evidenceRefs e) \<le> 32
      \<and> list_all (text_within 200) (le_limitations e) \<and> length (le_limitations e) \<le> 32
      \<and> \<not> (le_applicability e = NotApplicable \<and> le_evidenceRefs e = []))"

definition ledger_ok :: "host \<Rightarrow> coverage_ledger \<Rightarrow> bool" where
  \<comment> \<open>\<open>coverageLedgerSchema\<close>\<close>
  "ledger_ok h l =
     (sha256_digest (lg_planHash l) \<and> is_datetime h (lg_derivedAt l) \<and> list_all entry_ok (lg_entries l)
      \<and> length (lg_entries l) \<le> 18 \<and> sha256_digest (lg_ledgerHash l)
      \<and> distinct (map le_capabilityId (lg_entries l)) \<and> summarize (lg_entries l) = lg_summary l)"

definition planned_by_id :: "planned_step list \<Rightarrow> (string, planned_step) jsmap" where
  "planned_by_id steps = jm_of_list (map (\<lambda>s. (pl_stepId s, s)) steps)"

definition results_by_id :: "step_result list \<Rightarrow> (string, step_result) jsmap" where
  "results_by_id results = jm_of_list (map (\<lambda>r. (stepIdFor r, r)) results)"

definition buildCoverageLedger ::
  "host \<Rightarrow> scan_profile \<Rightarrow> string \<Rightarrow> planned_step list \<Rightarrow> string \<Rightarrow> step_result list option
    \<Rightarrow> (string, coverage_ledger option) result" where
  "buildCoverageLedger h profile planHash plannedSteps derivedAt stepResults =
     (case or_else (pr_capabilityRequirements profile) [] of
        [] \<Rightarrow> Inr None
      | requirements \<Rightarrow>
          (let entries = map (\<lambda>req. buildEntry req (planned_by_id plannedSteps)
                 (results_by_id (or_else stepResults []))) requirements;
               summary = summarize entries;
               ledger = \<lparr>lg_planHash = planHash, lg_derivedAt = derivedAt, lg_entries = entries,
                 lg_summary = summary, lg_ledgerHash = canonical_hash (locale_compare h) (sha256_hex h)
                   (ledger_json planHash derivedAt entries summary)\<rparr>
           in if ledger_ok h ledger then Inr (Some ledger) else Inl ''coverage_ledger_invalid''))"

section \<open>Facts about entries\<close>

lemma map_filter_full:
  assumes "length (List.map_filter f xs) = length xs"
  shows "\<forall>x \<in> set xs. f x \<noteq> None" and "List.map_filter f xs = map (\<lambda>x. the (f x)) xs"
proof -
  have len: "length (filter (\<lambda>x. f x \<noteq> None) xs) = length xs"
    using assms by (simp add: List.map_filter_def)
  show all: "\<forall>x \<in> set xs. f x \<noteq> None"
  proof (rule ccontr)
    assume "\<not> ?thesis"
    then obtain x where "x \<in> set xs" "\<not> f x \<noteq> None" by blast
    then show False using length_filter_less [of x xs "\<lambda>x. f x \<noteq> None"] len by simp
  qed
  then have "filter (\<lambda>x. f x \<noteq> None) xs = xs"
    by (simp add: filter_id_conv)
  then show "List.map_filter f xs = map (\<lambda>x. the (f x)) xs"
    by (simp add: List.map_filter_def comp_def)
qed

lemma worst_covered: "worstCoverageEffect effects = Covered \<longleftrightarrow> list_all (\<lambda>e. e = Covered) effects"
proof -
  have "e = Covered \<or> e = Partial \<or> e = Gap" for e by (cases e) auto
  then show ?thesis
    by (auto simp: worstCoverageEffect_def list_all_iff)
qed

lemma entry_for_simps [simp]:
  "le_capabilityId (entry_for q a x f rc ev li) = cr_capabilityId q" "le_requirement (entry_for q a x f rc ev li) = cr_requirement q"
  "le_applicability (entry_for q a x f rc ev li) = a" "le_execution (entry_for q a x f rc ev li) = x"
  "le_coverageEffect (entry_for q a x f rc ev li) = f" "le_evidenceRefs (entry_for q a x f rc ev li) = ev"
  "le_reasonCodes (entry_for q a x f rc ev li) = rc" "le_limitations (entry_for q a x f rc ev li) = li"
  by (simp_all add: entry_for_def)

lemmas entry_defs = unbound_entry_def not_applicable_entry_def missing_result_entry_def observed_entry_def

text \<open>Concrete steps, results and profiles for the witnesses.\<close>

definition sample_planned :: "string \<Rightarrow> planned_step" where
  "sample_planned sid = \<lparr>pl_stepId = sid, pl_kind = StaticTool, pl_adapter = sid, pl_required = True,
     pl_applicability = Applicable, pl_readiness = Ready, pl_requirement = StepRequiredIfApplicable,
     pl_reasonCodes = [], pl_evidenceRefs = []\<rparr>"

definition sample_tool_result :: "string \<Rightarrow> step_status \<Rightarrow> tool_result" where
  "sample_tool_result sid status = \<lparr>tr_toolId = sid, tr_toolRunId = None, tr_required = True, tr_status = status,
     tr_findingCount = 0, tr_exitCode = None, tr_error = None, tr_applicability = Some Applicable,
     tr_reasonCode = None, tr_coverageEffect = Some Covered, tr_artifactIds = None, tr_metadata = None\<rparr>"

definition sample_profile :: scan_profile where
  "sample_profile = \<lparr>pr_id = ''p'', pr_defaultTimeoutSec = 60, pr_steps = None,
     pr_capabilityRequirements = Some [\<lparr>cr_capabilityId = Sbom, cr_requirement = Advisory\<rparr>],
     pr_coverageGaps = None, pr_strictness = None\<rparr>"

lemma buildEntry_ids:
  "le_capabilityId (buildEntry q P R) = cr_capabilityId q" "le_requirement (buildEntry q P R) = cr_requirement q"
  by (simp_all add: buildEntry_def entry_defs Let_def)

lemma observe_refs: "ob_evidenceRefs (observeStep i r) \<noteq> []"
  by (cases r) (simp_all add: observe_result_def)

lemma observe_execution: "ob_execution (observeStep i r) = observed_execution (result_status r)"
  by (cases r) (simp_all add: observe_result_def)

lemma observed_execution_Completed: "observed_execution s = ExecCompleted \<longleftrightarrow> s = Completed"
  "observed_execution s \<noteq> ExecFailed \<and> observed_execution s \<noteq> NotExecuted \<longleftrightarrow> s = Completed"
  by (cases s; simp)+

text \<open>The four outcomes of an entry.\<close>

lemma buildEntry_cases:
  fixes q P R
  defines "steps \<equiv> matching_steps (cr_capabilityId q) P"
  obtains (unbound) "steps = []" "buildEntry q P R = unbound_entry q"
  | (planned_out) "steps \<noteq> []" "list_all (\<lambda>s. pl_applicability s = NotApplicable) steps"
      "buildEntry q P R = not_applicable_entry q steps"
  | (missing) "steps \<noteq> []" "buildEntry q P R = missing_result_entry q steps"
  | (observed) obs where "steps \<noteq> []" "\<forall>s \<in> set steps. \<exists>r. jm_get R (pl_stepId s) = Some r"
      "obs = map (\<lambda>s. observeStep (pl_stepId s) (the (jm_get R (pl_stepId s)))) steps"
      "buildEntry q P R = observed_entry q obs"
proof (cases "steps = []")
  case True
  then show ?thesis using unbound by (simp add: buildEntry_def steps_def)
next
  case False
  show ?thesis
  proof (cases "length (matching_results steps R) = length steps")
    case True
    let ?f = "\<lambda>s. map_option (Pair (pl_stepId s)) (jm_get R (pl_stepId s))"
    note full = map_filter_full [of ?f steps, folded matching_results_def, OF True]
    have all: "\<forall>s \<in> set steps. \<exists>r. jm_get R (pl_stepId s) = Some r"
      using full(1) by auto
    have "map (\<lambda>(i, r). observeStep i r) (matching_results steps R)
        = map (\<lambda>s. observeStep (pl_stepId s) (the (jm_get R (pl_stepId s)))) steps"
      unfolding full(2) using all by auto
    then show ?thesis
      using observed [OF False all refl] True False by (simp add: buildEntry_def steps_def Let_def)
  next
    case len: False
    show ?thesis
    proof (cases "list_all (\<lambda>s. pl_applicability s = NotApplicable) steps")
      case True
      then show ?thesis using planned_out len False by (simp add: buildEntry_def steps_def Let_def)
    next
      case out: False
      then show ?thesis using missing len False by (simp add: buildEntry_def steps_def Let_def)
    qed
  qed
qed

lemma covered_entry_steps:
  assumes "le_coverageEffect (buildEntry q P R) = Covered" and "le_applicability (buildEntry q P R) = Applicable"
  shows "matching_steps (cr_capabilityId q) P \<noteq> [] \<and>
    (\<forall>s \<in> set (matching_steps (cr_capabilityId q) P). \<exists>r. jm_get R (pl_stepId s) = Some r
       \<and> result_status r = Completed \<and> ob_coverageEffect (observeStep (pl_stepId s) r) = Covered)"
proof (cases rule: buildEntry_cases [of q P R])
  case (observed obs)
  then have "list_all (\<lambda>ob. ob_coverageEffect ob = Covered) obs"
    "\<not> list_ex (\<lambda>ob. ob_execution ob = ExecFailed) obs" "\<not> list_ex (\<lambda>ob. ob_execution ob = NotExecuted) obs"
    using assms by (auto simp: observed_entry_def Let_def worst_covered list.pred_map comp_def split: if_splits)
  then show ?thesis
    using observed(1-3) observe_execution observed_execution_Completed(2)
    by (fastforce simp: list_all_iff list_ex_iff)
qed (use assms in \<open>simp_all add: entry_defs\<close>)

text \<open>C5. No false coverage: an entry that says an applicable capability is covered has at least one planned step, and every
  planned step bound to the capability has a persisted result that completed and covered its part.\<close>

theorem covered_entry_executed:
  assumes "le_coverageEffect (buildEntry q P R) = Covered" and "le_applicability (buildEntry q P R) = Applicable"
  shows "matching_steps (cr_capabilityId q) P \<noteq> [] \<and>
    (\<forall>s \<in> set (matching_steps (cr_capabilityId q) P). \<exists>r. jm_get R (pl_stepId s) = Some r
       \<and> result_status r = Completed \<and> ob_coverageEffect (observeStep (pl_stepId s) r) = Covered)"
  by (rule covered_entry_steps [OF assms])

lemma covered_entry_executed_witness:
  "\<exists>r. jm_get (results_by_id [StaticResult (sample_tool_result ''gitleaks'' Completed)]) ''gitleaks'' = Some r
     \<and> result_status r = Completed \<and> ob_coverageEffect (observeStep ''gitleaks'' r) = Covered"
proof -
  let ?q = "\<lparr>cr_capabilityId = SecretDetection, cr_requirement = Required\<rparr>"
  let ?P = "planned_by_id [sample_planned ''gitleaks'']" and ?R = "results_by_id [StaticResult (sample_tool_result ''gitleaks'' Completed)]"
  have steps: "matching_steps SecretDetection ?P = [sample_planned ''gitleaks'']"
    by (simp add: sample_planned_def matching_steps_def capabilityStepIds_def static_adapters_def js_uniq_def
        planned_by_id_def jm_of_list_def jm_get_def List.map_filter_def)
  have "le_coverageEffect (buildEntry ?q ?P ?R) = Covered" "le_applicability (buildEntry ?q ?P ?R) = Applicable"
    by (simp_all add: buildEntry_def steps)
      (simp_all add: matching_results_def results_by_id_def jm_of_list_def jm_get_def List.map_filter_def
        sample_planned_def sample_tool_result_def observed_entry_def observe_result_def worst_covered)
  from covered_entry_executed [OF this] show ?thesis
    by (simp add: steps) (simp add: sample_planned_def)
qed

text \<open>A capability is reported as not applicable only with evidence, and only if each of its planned steps was planned as
  not applicable or has a result that was observed as not applicable; in particular the ledger schema never rejects such
  an entry for missing evidence.\<close>

theorem not_applicable_entry_grounded:
  assumes "le_applicability (buildEntry q P R) = NotApplicable"
  shows "le_evidenceRefs (buildEntry q P R) \<noteq> [] \<and> matching_steps (cr_capabilityId q) P \<noteq> [] \<and>
    (\<forall>s \<in> set (matching_steps (cr_capabilityId q) P). pl_applicability s = NotApplicable
       \<or> (\<exists>r. jm_get R (pl_stepId s) = Some r \<and> ob_applicability (observeStep (pl_stepId s) r) = NotApplicable))"
proof (cases rule: buildEntry_cases [of q P R])
  case planned_out
  then show ?thesis by (auto simp: not_applicable_entry_def list_all_iff)
next
  case (observed obs)
  then have "list_all (\<lambda>ob. ob_applicability ob = NotApplicable) obs"
    using assms by (simp add: observed_entry_def Let_def split: if_splits)
  moreover have "sorted_set (concat (map ob_evidenceRefs obs)) \<noteq> []"
    using observed(1,3) observe_refs by (cases "matching_steps (cr_capabilityId q) P") auto
  ultimately show ?thesis
    using observed by (auto simp: list_all_iff observed_entry_def Let_def)
qed (use assms in \<open>simp_all add: entry_defs\<close>)

lemma not_applicable_entry_grounded_witness:
  "\<exists>e. e = buildEntry \<lparr>cr_capabilityId = SecretDetection, cr_requirement = Required\<rparr>
      (planned_by_id [sample_planned ''gitleaks''\<lparr>pl_applicability := NotApplicable\<rparr>]) [] \<and> le_evidenceRefs e \<noteq> []"
proof -
  let ?q = "\<lparr>cr_capabilityId = SecretDetection, cr_requirement = Required\<rparr>"
  let ?P = "planned_by_id [sample_planned ''gitleaks''\<lparr>pl_applicability := NotApplicable\<rparr>]"
  have "le_applicability (buildEntry ?q ?P []) = NotApplicable"
    by (simp add: sample_planned_def buildEntry_def matching_steps_def capabilityStepIds_def static_adapters_def js_uniq_def
        planned_by_id_def jm_of_list_def jm_get_def List.map_filter_def matching_results_def not_applicable_entry_def)
  from not_applicable_entry_grounded [OF this] show ?thesis by blast
qed

section \<open>The ledger and its summary\<close>

lemma summarize_counts:
  "su_covered (summarize es) = length (filter (\<lambda>e. le_coverageEffect e = Covered) es)"
  "su_partial (summarize es) = length (filter (\<lambda>e. le_coverageEffect e = Partial) es)"
  "su_gap (summarize es) = length (filter (\<lambda>e. le_coverageEffect e = Gap) es)"
proof -
  have "su_covered (fold count_entry es s) = su_covered s + length (filter (\<lambda>e. le_coverageEffect e = Covered) es)
    \<and> su_partial (fold count_entry es s) = su_partial s + length (filter (\<lambda>e. le_coverageEffect e = Partial) es)
    \<and> su_gap (fold count_entry es s) = su_gap s + length (filter (\<lambda>e. le_coverageEffect e = Gap) es)" for s
    by (induction es arbitrary: s) (auto simp: count_entry_def split: coverage_effect.split)
  then show "su_covered (summarize es) = length (filter (\<lambda>e. le_coverageEffect e = Covered) es)"
    "su_partial (summarize es) = length (filter (\<lambda>e. le_coverageEffect e = Partial) es)"
    "su_gap (summarize es) = length (filter (\<lambda>e. le_coverageEffect e = Gap) es)"
    by (simp_all add: summarize_def)
qed

lemma buildCoverageLedger_cases:
  assumes "buildCoverageLedger h p ph steps dt rs = Inr (Some l)"
  obtains reqs where "pr_capabilityRequirements p = Some reqs" "reqs \<noteq> []" "ledger_ok h l"
    "lg_entries l = map (\<lambda>q. buildEntry q (planned_by_id steps) (results_by_id (or_else rs []))) reqs"
    "lg_summary l = summarize (lg_entries l)" "lg_planHash l = ph"
  using assms
  by (cases "pr_capabilityRequirements p")
    (auto simp: buildCoverageLedger_def Let_def split: list.splits if_splits)

text \<open>The ledger has one entry per required capability, in the order of the profile; its summary counts them all, and shows
  neither partial coverage nor a gap exactly if every entry is covered.\<close>

theorem ledger_summary:
  assumes "buildCoverageLedger h p ph steps dt rs = Inr (Some l)"
  shows "map le_capabilityId (lg_entries l) = map cr_capabilityId (the (pr_capabilityRequirements p))
    \<and> su_covered (lg_summary l) + su_partial (lg_summary l) + su_gap (lg_summary l)
       = length (the (pr_capabilityRequirements p))
    \<and> (su_partial (lg_summary l) = 0 \<and> su_gap (lg_summary l) = 0
       \<longleftrightarrow> list_all (\<lambda>e. le_coverageEffect e = Covered) (lg_entries l))"
proof -
  obtain reqs where l: "pr_capabilityRequirements p = Some reqs"
    "lg_entries l = map (\<lambda>q. buildEntry q (planned_by_id steps) (results_by_id (or_else rs []))) reqs"
    "lg_summary l = summarize (lg_entries l)"
    using buildCoverageLedger_cases [OF assms] by metis
  have counts: "length (filter (\<lambda>e. le_coverageEffect e = Covered) es) + length (filter (\<lambda>e. le_coverageEffect e = Partial) es)
      + length (filter (\<lambda>e. le_coverageEffect e = Gap) es) = length es" for es
    by (induction es) (auto intro: coverage_effect.exhaust)
  have empty: "(filter (\<lambda>e. le_coverageEffect e = Partial) es = [] \<and> filter (\<lambda>e. le_coverageEffect e = Gap) es = [])
      \<longleftrightarrow> list_all (\<lambda>e. le_coverageEffect e = Covered) es" for es
    by (induction es) (auto intro: coverage_effect.exhaust)
  have "length (lg_entries l) = length reqs" "map le_capabilityId (lg_entries l) = map cr_capabilityId reqs"
    by (simp_all add: l(2) buildEntry_ids comp_def)
  then show ?thesis
    using counts [of "lg_entries l"] empty [of "lg_entries l"]
    unfolding l(3) summarize_counts by (simp add: l(1))
qed

lemma ledger_summary_witness:
  "\<exists>l. buildCoverageLedger sample_host sample_profile (''sha256:'' @ replicate 64 (CHR ''0'')) [] ''now'' None = Inr (Some l)
     \<and> su_covered (lg_summary l) + su_partial (lg_summary l) + su_gap (lg_summary l) = 1"
proof -
  have "\<exists>l. buildCoverageLedger sample_host sample_profile (''sha256:'' @ replicate 64 (CHR ''0'')) [] ''now'' None = Inr (Some l)"
    by (simp add: buildCoverageLedger_def sample_profile_def Let_def ledger_ok_def canonical_hash_def sample_host_def
        buildEntry_def matching_steps_def capabilityStepIds_def static_adapters_def planned_by_id_def jm_of_list_def
        List.map_filter_def js_uniq_def unbound_entry_def entry_for_def entry_ok_def known_code_def scan_reason_codes_def
        text_within_def sha256_digest_def starts_with.simps hex_lower_def char_defs numeral_nat replicate_Suc)
  then obtain l where l: "buildCoverageLedger sample_host sample_profile (''sha256:'' @ replicate 64 (CHR ''0'')) [] ''now'' None
      = Inr (Some l)" by blast
  from ledger_summary [OF l] l show ?thesis by (simp add: sample_profile_def)
qed

lemma passive_dast_ids: "capabilityStepIds PassiveDast =
    [''dast:web-passive-standard'', ''runtime_scanner:nuclei-safe'', ''runtime_scanner:zap-baseline'']"
  by (simp add: capabilityStepIds_def static_adapters_def js_uniq_def)



end
