(* ===== verification/ScanOutcome.thy ===== *)
theory ScanOutcome
  imports CoverageLedger
begin

text \<open>
  The outcome of a finished profile scan: the aggregation of the runtime steps
  (\<open>coverage/runtime-assessment-coverage.ts\<close>), source SAST coverage (\<open>coverage/source-sast-applicability.ts\<close>,
  \<open>coverage/source-sast-coverage.ts\<close>), the gate (\<open>execution/scan-result-policy.ts\<close>) and the decision of
  \<open>execution/profile-orchestrator-finalize.ts\<close>. Writing the run and its events to the database is not modelled;
  the values written are.
\<close>

section \<open>Runtime assessment coverage\<close>

record runtime_step =
  rs_stepId :: string
  rs_applicability :: applicability
  rs_coverageEffect :: coverage_effect
  rs_planned :: rat
  rs_attempted :: rat
  rs_succeeded :: rat
  rs_failed :: rat
  rs_limitationCodes :: "string list"
  rs_requestCount :: rat

record runtime_coverage =
  rc_coverageStatus :: coverage_effect
  rc_planned :: rat
  rc_attempted :: rat
  rc_succeeded :: rat
  rc_failed :: rat
  rc_requestCount :: rat
  rc_limitationCodes :: "string list"
  rc_steps :: "runtime_step list"

definition numberValue :: "jsval \<Rightarrow> rat" where
  "numberValue v = (case v of JNum r \<Rightarrow> r | _ \<Rightarrow> 0)"

definition gateway_metrics :: "js_record option \<Rightarrow> js_record option" where
  "gateway_metrics metadata = js_as_record (js_prop_opt metadata ''gatewayMetrics'')"

definition summary_count :: "(dast_coverage_summary \<Rightarrow> nat) \<Rightarrow> dast_result \<Rightarrow> rat" where
  "summary_count f r = (case dr_coverageSummary r of None \<Rightarrow> 0 | Some s \<Rightarrow> of_nat (f s))"

fun toRuntimeStepCoverage :: "step_result \<Rightarrow> runtime_step list" where
  "toRuntimeStepCoverage (StaticResult r) = []"
| "toRuntimeStepCoverage (DastResult r) =
     [\<lparr>rs_stepId = ''dast:'' @ dr_profileId r,
       rs_applicability = (if dr_status r = Skipped then NotApplicable else Applicable),
       rs_coverageEffect = or_else (dr_coverageStatus r) Gap,
       rs_planned = summary_count cs_plannedRouteCount r,
       rs_attempted = summary_count cs_attemptedRouteCount r,
       rs_succeeded = summary_count cs_successfulRouteCount r,
       rs_failed = summary_count cs_failedRouteCount r,
       rs_limitationCodes = or_else (dr_limitationCodes r) [],
       rs_requestCount = summary_count cs_requestCount r\<rparr>]"
| "toRuntimeStepCoverage (CoverageResult r) =
     (let gateway = gateway_metrics (co_metadata r);
          budgetBlocked = numberValue (js_prop_opt gateway ''budgetBlockedRequests'');
          requestCount = numberValue (js_prop_opt gateway ''forwardedRequests'');
          truncatedResponses = numberValue (js_prop_opt gateway ''responseBodyTruncatedResponses'');
          noRequests = (co_applicability r = Applicable \<and> co_status r = Completed \<and> requestCount = 0)
      in [\<lparr>rs_stepId = co_stepId r,
           rs_applicability = co_applicability r,
           rs_coverageEffect =
             (if noRequests then Gap
              else if budgetBlocked > 0 \<or> truncatedResponses > 0 then Partial
              else if co_status r = Completed then co_coverageEffect r else Gap),
           rs_planned = requestCount + budgetBlocked,
           rs_attempted = requestCount,
           rs_succeeded = (if co_status r = Completed then requestCount else 0),
           rs_failed = (if co_status r = Failed then max requestCount 1 else 0),
           rs_limitationCodes = truthy_list (co_reasonCode r)
             @ (if budgetBlocked > 0 then [''request_budget_exhausted''] else [])
             @ (if truncatedResponses > 0 then [''response_body_truncated''] else [])
             @ (if noRequests then [''runtime_no_requests''] else []),
           rs_requestCount = requestCount\<rparr>])"

definition sum_steps :: "(runtime_step \<Rightarrow> rat) \<Rightarrow> runtime_step list \<Rightarrow> rat" where
  "sum_steps f steps = foldl (\<lambda>total step. total + f step) 0 steps"

definition aggregateRuntimeAssessmentCoverage :: "step_result list \<Rightarrow> runtime_coverage" where
  "aggregateRuntimeAssessmentCoverage results =
     (let steps = concat (map toRuntimeStepCoverage results);
          requestCount = sum_steps rs_requestCount steps
      in \<lparr>rc_coverageStatus =
            (if steps = [] \<or> list_all (\<lambda>s. rs_coverageEffect s = Gap) steps then Gap
             else if requestCount \<le> 250 \<and> list_all (\<lambda>s. rs_coverageEffect s = Covered) steps then Covered
             else Partial),
          rc_planned = sum_steps rs_planned steps,
          rc_attempted = sum_steps rs_attempted steps,
          rc_succeeded = sum_steps rs_succeeded steps,
          rc_failed = sum_steps rs_failed steps,
          rc_requestCount = requestCount,
          rc_limitationCodes = sorted_set (concat (map rs_limitationCodes steps))
            @ (if requestCount > 250 then [''aggregate_request_budget_exceeded''] else []),
          rc_steps = steps\<rparr>)"

section \<open>Source SAST\<close>

datatype known = Yes | No | Unsure

record sast_applicability =
  sa_applicability :: applicability
  sa_reasonCodes :: "string list"

definition resolveSourceSastApplicability :: "known \<Rightarrow> known \<Rightarrow> known \<Rightarrow> known \<Rightarrow> sast_applicability" where
  "resolveSourceSastApplicability hasSourceFiles hasSupportedLanguage rulesetAvailable adapterAvailable =
     (if hasSourceFiles = No \<or> hasSupportedLanguage = No
      then \<lparr>sa_applicability = NotApplicable, sa_reasonCodes = [''source_sast_no_supported_files'']\<rparr>
      else if hasSourceFiles = Unsure \<or> hasSupportedLanguage = Unsure
      then \<lparr>sa_applicability = UnknownApplicability, sa_reasonCodes = []\<rparr>
      else if rulesetAvailable = No
      then \<lparr>sa_applicability = Applicable, sa_reasonCodes = [''source_sast_ruleset_unavailable'']\<rparr>
      else if adapterAvailable = No
      then \<lparr>sa_applicability = Applicable, sa_reasonCodes = [''source_sast_adapter_unavailable'']\<rparr>
      else if rulesetAvailable = Unsure \<or> adapterAvailable = Unsure
      then \<lparr>sa_applicability = UnknownApplicability, sa_reasonCodes = []\<rparr>
      else \<lparr>sa_applicability = Applicable, sa_reasonCodes = []\<rparr>)"

datatype sast_state = SastApplicable | SastExecuted | SastNotApplicable | SastUnknown

record sast_coverage =
  sc_applicability :: applicability
  sc_state :: sast_state
  sc_coverageEffect :: coverage_effect
  sc_stepId :: "string option"
  sc_engine :: "string option"
  sc_rulesetId :: "string option"
  sc_limitationCodes :: "string list"

definition SOURCE_SAST_NOT_EXECUTED :: string where
  "SOURCE_SAST_NOT_EXECUTED = ''source_sast_not_executed''"

definition sast_ruleset :: "string \<Rightarrow> string option" where
  \<comment> \<open>\<open>manifest.sourceSastRulesetId ?? null\<close> of the registered adapters\<close>
  "sast_ruleset toolId = (if toolId = ''semgrep'' then Some ''curated-sast-v1'' else None)"

definition sast_tools :: "scan_profile \<Rightarrow> string list" where
  \<comment> \<open>the tools of the static steps whose adapter has the capability\<close>
  "sast_tools profile = List.map_filter
     (\<lambda>step. case st_ref step of
        ToolStep toolId \<Rightarrow>
          (case map_of static_adapters toolId of
             Some capabilities \<Rightarrow> (if SourceSast \<in> set capabilities then Some toolId else None)
           | None \<Rightarrow> None)
      | _ \<Rightarrow> None)
     (or_else (pr_steps profile) [])"

definition static_result :: "string \<Rightarrow> step_result list option \<Rightarrow> tool_result option" where
  \<comment> \<open>the first result of the tool\<close>
  "static_result toolId results =
     find (\<lambda>r. tr_toolId r = toolId)
       (List.map_filter (\<lambda>r. case r of StaticResult t \<Rightarrow> Some t | _ \<Rightarrow> None) (or_else results []))"

definition tool_completed :: "string \<Rightarrow> step_result list option \<Rightarrow> bool" where
  "tool_completed toolId results =
     list_ex (\<lambda>r. case r of StaticResult t \<Rightarrow> tr_toolId t = toolId \<and> tr_status t = Completed | _ \<Rightarrow> False)
       (or_else results [])"

definition sast_record ::
  "applicability \<Rightarrow> sast_state \<Rightarrow> coverage_effect \<Rightarrow> string \<Rightarrow> string list \<Rightarrow> sast_coverage" where
  "sast_record app state effect toolId codes =
     \<lparr>sc_applicability = app, sc_state = state, sc_coverageEffect = effect, sc_stepId = Some toolId,
      sc_engine = Some toolId, sc_rulesetId = sast_ruleset toolId, sc_limitationCodes = codes\<rparr>"

definition resolveSourceSastCoverage ::
  "scan_profile \<Rightarrow> step_result list option \<Rightarrow> sast_applicability option \<Rightarrow> sast_coverage option" where
  "resolveSourceSastCoverage profile results app =
     (if pr_id profile \<notin> {''full-security-scan'', ''change-gate'', ''source-assurance''} then None
      else
        (let tools = sast_tools profile;
             sastTool = opt_else (find (\<lambda>t. tool_completed t results) tools)
               (case tools of [] \<Rightarrow> None | t # _ \<Rightarrow> Some t)
         in Some (case sastTool of
              None \<Rightarrow> \<lparr>sc_applicability = Applicable, sc_state = SastApplicable, sc_coverageEffect = Gap,
                       sc_stepId = None, sc_engine = None, sc_rulesetId = None,
                       sc_limitationCodes = [SOURCE_SAST_NOT_EXECUTED]\<rparr>
            | Some toolId \<Rightarrow>
                (let resolved = or_else app (resolveSourceSastApplicability Yes Yes Yes Yes);
                     found = static_result toolId results
                 in if sa_applicability resolved = NotApplicable
                    then sast_record NotApplicable SastNotApplicable Covered toolId (sa_reasonCodes resolved)
                    else if sa_applicability resolved = UnknownApplicability
                    then sast_record UnknownApplicability SastUnknown Gap toolId []
                    else if map_option tr_status found = Some Completed
                    then sast_record Applicable SastExecuted Covered toolId []
                    else sast_record Applicable SastApplicable Gap toolId
                      ([SOURCE_SAST_NOT_EXECUTED] @ sa_reasonCodes resolved
                       @ (if results = None then []
                          else (case found of None \<Rightarrow> [] | Some t \<Rightarrow> truthy_list (tr_reasonCode t))))))))"

section \<open>The gate\<close>

datatype result_policy = AdvisoryPolicy | GatePolicy

datatype gate_decision = NotRequested | GatePass | GateFail | GateBlocked

datatype gate_threshold = AtCritical | AtHigh | AtMedium | AtLow

datatype profile_outcome =
  OutcomeCompleted | OutcomeWithWarnings | OutcomeBlocked | OutcomeIncomplete | OutcomeFailed

record gate_evaluation =
  ge_resultPolicy :: result_policy
  ge_gateDecision :: gate_decision
  ge_gateThreshold :: "gate_threshold option"
  ge_blockingFindingCount :: nat
  ge_reason :: "string option"

text \<open>
  What \<open>severityRank[key]\<close> is: a rank, a member every object inherits (which is neither undefined nor
  comparable with a number), or undefined. Of the inherited members only these two have lower-case names.
\<close>

datatype rank_lookup = Rank int | Inherited | NoRank

definition gate_rank :: "string \<Rightarrow> rank_lookup" where
  "gate_rank key =
     (if key = ''critical'' then Rank 4 else if key = ''high'' then Rank 3 else if key = ''medium'' then Rank 2
      else if key = ''low'' then Rank 1 else if key = ''info'' then Rank 0
      else if key = ''constructor'' \<or> key = ''__proto__'' then Inherited else NoRank)"

fun threshold_rank :: "gate_threshold \<Rightarrow> int" where
  "threshold_rank AtCritical = 4"
| "threshold_rank AtHigh = 3"
| "threshold_rank AtMedium = 2"
| "threshold_rank AtLow = 1"

definition reaches :: "int \<Rightarrow> string \<Rightarrow> bool" where
  "reaches threshold severity =
     (case gate_rank (js_lower severity) of Rank r \<Rightarrow> threshold \<le> r | _ \<Rightarrow> False)"

definition gate_blocked :: "gate_threshold option \<Rightarrow> string \<Rightarrow> gate_evaluation" where
  "gate_blocked threshold reason =
     \<lparr>ge_resultPolicy = GatePolicy, ge_gateDecision = GateBlocked, ge_gateThreshold = threshold,
      ge_blockingFindingCount = 0, ge_reason = Some reason\<rparr>"

definition evaluateScanGate ::
  "result_policy \<Rightarrow> gate_threshold option \<Rightarrow> profile_outcome \<Rightarrow> string list \<Rightarrow> gate_evaluation" where
  "evaluateScanGate resultPolicy gateThreshold profileOutcome severities =
     (if resultPolicy = AdvisoryPolicy
      then \<lparr>ge_resultPolicy = AdvisoryPolicy, ge_gateDecision = NotRequested, ge_gateThreshold = None,
            ge_blockingFindingCount = 0, ge_reason = None\<rparr>
      else if profileOutcome = OutcomeBlocked \<or> profileOutcome = OutcomeIncomplete
              \<or> profileOutcome = OutcomeFailed \<or> gateThreshold = None
      then gate_blocked gateThreshold
             (if gateThreshold \<noteq> None then ''scan_outcome_not_gate_eligible'' else ''gate_threshold_missing'')
      else if list_ex (\<lambda>s. gate_rank (js_lower s) = NoRank) severities
      then gate_blocked gateThreshold ''finding_severity_unknown''
      else
        (let blockingFindingCount =
               length (filter (reaches (threshold_rank (the gateThreshold))) severities)
         in \<lparr>ge_resultPolicy = GatePolicy,
             ge_gateDecision = (if blockingFindingCount > 0 then GateFail else GatePass),
             ge_gateThreshold = gateThreshold, ge_blockingFindingCount = blockingFindingCount,
             ge_reason = None\<rparr>))"

section \<open>Finalisation\<close>

record finalize_input =
  fi_profile :: scan_profile
  fi_planHash :: string
  fi_plannedSteps :: "planned_step list"
  fi_derivedAt :: string
  fi_stepResults :: "step_result list"
  fi_hasLanguages :: bool \<comment> \<open>\<open>capabilityPlan.languages.length > 0\<close>\<close>
  fi_hasSemgrepRules :: bool \<comment> \<open>\<open>semgrepCapability?.pluginIds.length\<close> is positive\<close>
  fi_preflightLimitations :: "string list"
  fi_profileFailingToolFailed :: bool
  fi_optionalToolFailed :: bool
  fi_resultPolicy :: result_policy
  fi_gateThreshold :: "gate_threshold option"
  fi_severities :: "string list" \<comment> \<open>of the findings of the run\<close>

datatype event_level = LevelInfo | LevelWarn | LevelError

record finalized =
  fz_ok :: bool
  fz_profileOutcome :: profile_outcome
  fz_statusCompleted :: bool \<comment> \<open>the status of the run is completed, not failed\<close>
  fz_gate :: gate_evaluation
  fz_ledger :: "coverage_ledger option"
  fz_sast :: "sast_coverage option"
  fz_runtime :: runtime_coverage
  fz_normalized :: "normalized_result list"
  fz_limitationCodes :: "string list"
  fz_totalFindings :: nat
  fz_eventLevel :: event_level
  fz_eventType :: string

definition as_known :: "bool \<Rightarrow> known" where
  "as_known b = (if b then Yes else No)"

definition runtime_limited :: "runtime_coverage \<Rightarrow> bool" where
  "runtime_limited c =
     list_ex (\<lambda>s. rs_applicability s = Applicable \<and> rs_coverageEffect s \<noteq> Covered) (rc_steps c)"

definition finalize_sast :: "finalize_input \<Rightarrow> sast_coverage option" where
  "finalize_sast i =
     (let languages = as_known (fi_hasLanguages i) in
      resolveSourceSastCoverage (fi_profile i) (Some (fi_stepResults i))
        (Some (resolveSourceSastApplicability languages languages (as_known (fi_hasSemgrepRules i)) Yes)))"

definition ledger_limited :: "coverage_ledger option \<Rightarrow> bool" where
  "ledger_limited ledger =
     (case ledger of None \<Rightarrow> False
      | Some l \<Rightarrow> list_ex (\<lambda>e. le_coverageEffect e \<noteq> Covered) (lg_entries l))"

definition decide_outcome :: "bool \<Rightarrow> bool \<Rightarrow> profile_outcome" where
  "decide_outcome profileFailingToolFailed limited =
     (if profileFailingToolFailed then OutcomeFailed
      else if limited then OutcomeWithWarnings else OutcomeCompleted)"

definition finalizeProfileScan :: "host \<Rightarrow> finalize_input \<Rightarrow> (string, finalized) result" where
  "finalizeProfileScan h i =
     (let runtime = aggregateRuntimeAssessmentCoverage (fi_stepResults i);
          sast = finalize_sast i
      in case buildCoverageLedger h (fi_profile i) (fi_planHash i) (fi_plannedSteps i) (fi_derivedAt i)
                (Some (fi_stepResults i)) of
           Inl e \<Rightarrow> Inl e
         | Inr ledger \<Rightarrow>
             (case map_result normalizeProfileStepResult (fi_stepResults i) of
                Inl e \<Rightarrow> Inl e
              | Inr normalized_results \<Rightarrow>
                  (let limited = (fi_optionalToolFailed i \<or> runtime_limited runtime
                         \<or> map_option sc_coverageEffect sast = Some Gap \<or> ledger_limited ledger);
                       outcome = decide_outcome (fi_profileFailingToolFailed i) limited;
                       gate = evaluateScanGate (fi_resultPolicy i) (fi_gateThreshold i) outcome (fi_severities i)
                   in Inr \<lparr>fz_ok = (outcome \<noteq> OutcomeFailed \<and> ge_gateDecision gate \<noteq> GateFail
                             \<and> ge_gateDecision gate \<noteq> GateBlocked),
                           fz_profileOutcome = outcome,
                           fz_statusCompleted = (\<not> fi_profileFailingToolFailed i),
                           fz_gate = gate, fz_ledger = ledger, fz_sast = sast, fz_runtime = runtime,
                           fz_normalized = normalized_results,
                           fz_limitationCodes = sorted_set
                             (or_else (pr_coverageGaps (fi_profile i)) []
                              @ (case ledger of None \<Rightarrow> [] | Some l \<Rightarrow> concat (map le_reasonCodes (lg_entries l)))
                              @ (case sast of None \<Rightarrow> [] | Some s \<Rightarrow> sc_limitationCodes s)
                              @ fi_preflightLimitations i),
                           fz_totalFindings =
                             foldl (\<lambda>acc r. acc + result_findingCount r) 0 (fi_stepResults i),
                           fz_eventLevel = (if outcome = OutcomeFailed then LevelError
                             else if ge_gateDecision gate = GateFail then LevelWarn else LevelInfo),
                           fz_eventType = (if outcome = OutcomeFailed then ''scan.failed'' else ''scan.completed'')\<rparr>)))"

section \<open>The gate\<close>

lemma gate_pass_char:
  "ge_gateDecision (evaluateScanGate policy threshold outcome severities) = GatePass \<longleftrightarrow>
     policy = GatePolicy \<and> (outcome = OutcomeCompleted \<or> outcome = OutcomeWithWarnings) \<and> threshold \<noteq> None
     \<and> list_all (\<lambda>s. gate_rank (js_lower s) \<noteq> NoRank \<and> \<not> reaches (threshold_rank (the threshold)) s) severities"
proof -
  have ex: "\<not> list_ex P xs \<longleftrightarrow> list_all (\<lambda>x. \<not> P x) xs" for P and xs :: "string list"
    by (simp add: list_ex_iff list_all_iff)
  have out: "\<not> (outcome = OutcomeBlocked \<or> outcome = OutcomeIncomplete \<or> outcome = OutcomeFailed)
      \<longleftrightarrow> outcome = OutcomeCompleted \<or> outcome = OutcomeWithWarnings"
    by (cases outcome) auto
  show ?thesis
  proof (cases policy)
    case AdvisoryPolicy
    then show ?thesis by (simp add: evaluateScanGate_def)
  next
    case GatePolicy
    show ?thesis
    proof (cases "(outcome = OutcomeCompleted \<or> outcome = OutcomeWithWarnings) \<and> threshold \<noteq> None
        \<and> list_all (\<lambda>s. gate_rank (js_lower s) \<noteq> NoRank) severities")
      case True
      then have "evaluateScanGate policy threshold outcome severities =
          (let n = length (filter (reaches (threshold_rank (the threshold))) severities)
           in \<lparr>ge_resultPolicy = GatePolicy, ge_gateDecision = (if n > 0 then GateFail else GatePass),
               ge_gateThreshold = threshold, ge_blockingFindingCount = n, ge_reason = None\<rparr>)"
        using GatePolicy out by (auto simp: evaluateScanGate_def list_ex_iff list_all_iff)
      then show ?thesis
        using True GatePolicy by (auto simp: Let_def filter_empty_conv list_all_iff)
    next
      case False
      then have "ge_gateDecision (evaluateScanGate policy threshold outcome severities) = GateBlocked"
        using GatePolicy out by (auto simp: evaluateScanGate_def gate_blocked_def list_ex_iff list_all_iff)
      then show ?thesis using False by (auto simp: list_all_iff)
    qed
  qed
qed


section \<open>Finalisation\<close>

lemma finalize_cases:
  assumes "finalizeProfileScan h i = Inr z"
  shows "buildCoverageLedger h (fi_profile i) (fi_planHash i) (fi_plannedSteps i) (fi_derivedAt i)
      (Some (fi_stepResults i)) = Inr (fz_ledger z)"
    and "fz_profileOutcome z = decide_outcome (fi_profileFailingToolFailed i)
      (fi_optionalToolFailed i \<or> runtime_limited (fz_runtime z)
       \<or> map_option sc_coverageEffect (fz_sast z) = Some Gap \<or> ledger_limited (fz_ledger z))"
    and "fz_gate z = evaluateScanGate (fi_resultPolicy i) (fi_gateThreshold i) (fz_profileOutcome z) (fi_severities i)"
    and "fz_ok z = (fz_profileOutcome z \<noteq> OutcomeFailed \<and> ge_gateDecision (fz_gate z) \<noteq> GateFail
      \<and> ge_gateDecision (fz_gate z) \<noteq> GateBlocked)"
    and "fz_runtime z = aggregateRuntimeAssessmentCoverage (fi_stepResults i)"
    and "fz_sast z = finalize_sast i"
    and "map_result normalizeProfileStepResult (fi_stepResults i) = Inr (fz_normalized z)"
  using assms by (auto simp: finalizeProfileScan_def Let_def split: sum.splits)

section \<open>A concrete scan\<close>

definition sample_finalize :: "result_policy \<Rightarrow> string list \<Rightarrow> finalize_input" where
  "sample_finalize policy severities =
     \<lparr>fi_profile = sample_profile\<lparr>pr_capabilityRequirements :=
        Some [\<lparr>cr_capabilityId = SecretDetection, cr_requirement = Required\<rparr>]\<rparr>,
      fi_planHash = ''sha256:'' @ replicate 64 (CHR ''0''), fi_plannedSteps = [sample_planned ''gitleaks''],
      fi_derivedAt = ''now'', fi_stepResults = [StaticResult (sample_tool_result ''gitleaks'' Completed)],
      fi_hasLanguages = True, fi_hasSemgrepRules = True, fi_preflightLimitations = [],
      fi_profileFailingToolFailed = False, fi_optionalToolFailed = False, fi_resultPolicy = policy,
      fi_gateThreshold = Some AtHigh, fi_severities = severities\<rparr>"

lemma sample_entry: "buildEntry \<lparr>cr_capabilityId = SecretDetection, cr_requirement = Required\<rparr>
    (planned_by_id [sample_planned ''gitleaks'']) (results_by_id [StaticResult (sample_tool_result ''gitleaks'' Completed)])
  = entry_for \<lparr>cr_capabilityId = SecretDetection, cr_requirement = Required\<rparr> Applicable ExecCompleted Covered
      [] [''step-result:gitleaks''] []"
  by (simp add: sample_planned_def sample_tool_result_def buildEntry_def matching_steps_def capabilityStepIds_def static_adapters_def js_uniq_def
        planned_by_id_def results_by_id_def jm_of_list_def jm_get_def List.map_filter_def matching_results_def observed_entry_def
        observe_result_def worst_covered knownReasonCodes_def sorted_set_def sort_strings_def)

lemma sample_ledger:
  "\<exists>l. buildCoverageLedger sample_host (fi_profile (sample_finalize p s)) (fi_planHash (sample_finalize p s))
     (fi_plannedSteps (sample_finalize p s)) (fi_derivedAt (sample_finalize p s)) (Some (fi_stepResults (sample_finalize p s))) = Inr (Some l)
   \<and> \<not> ledger_limited (Some l)"
  by (simp add: sample_finalize_def buildCoverageLedger_def Let_def sample_entry ledger_ok_def ledger_limited_def
      sample_profile_def canonical_hash_def sample_host_def entry_for_def entry_ok_def text_within_def sha256_digest_def
      hex_lower_def char_defs numeral_nat)

lemma sample_normalized:
  "\<exists>n. map_result normalizeProfileStepResult (fi_stepResults (sample_finalize p s)) = Inr n"
  by (simp add: sample_finalize_def sample_tool_result_def normalizeProfileStepResult_def Let_def normalized_ok_def
      normalized_form_def text_within_def)

lemma sample_finalized:
  obtains z where "finalizeProfileScan sample_host (sample_finalize p s) = Inr z" "fz_profileOutcome z = OutcomeCompleted"
proof -
  obtain l where l: "buildCoverageLedger sample_host (fi_profile (sample_finalize p s)) (fi_planHash (sample_finalize p s))
     (fi_plannedSteps (sample_finalize p s)) (fi_derivedAt (sample_finalize p s)) (Some (fi_stepResults (sample_finalize p s))) = Inr (Some l)"
    "\<not> ledger_limited (Some l)" using sample_ledger by blast
  obtain n where n: "map_result normalizeProfileStepResult (fi_stepResults (sample_finalize p s)) = Inr n"
    using sample_normalized by blast
  obtain z where z: "finalizeProfileScan sample_host (sample_finalize p s) = Inr z"
    using l n by (simp add: finalizeProfileScan_def Let_def)
  have "\<not> runtime_limited (aggregateRuntimeAssessmentCoverage (fi_stepResults (sample_finalize p s)))"
    by (simp add: sample_finalize_def aggregateRuntimeAssessmentCoverage_def runtime_limited_def Let_def)
  moreover have "finalize_sast (sample_finalize p s) = None"
    by (simp add: finalize_sast_def sample_finalize_def resolveSourceSastCoverage_def sample_profile_def Let_def)
  moreover have "fz_ledger z = Some l"
    using finalize_cases(1) [OF z] l(1) by simp
  moreover have "\<not> fi_profileFailingToolFailed (sample_finalize p s)" "\<not> fi_optionalToolFailed (sample_finalize p s)"
    by (simp_all add: sample_finalize_def)
  ultimately have "fz_profileOutcome z = OutcomeCompleted"
    using finalize_cases(2,5,6) [OF z] l(2) by (simp add: decide_outcome_def)
  then show ?thesis using that z by blast
qed

lemma sample_finalize_total:
  "\<exists>z. finalizeProfileScan sample_host ((sample_finalize p s)\<lparr>fi_profileFailingToolFailed := b\<rparr>) = Inr z"
proof -
  obtain l where l: "buildCoverageLedger sample_host (fi_profile (sample_finalize p s)) (fi_planHash (sample_finalize p s))
     (fi_plannedSteps (sample_finalize p s)) (fi_derivedAt (sample_finalize p s)) (Some (fi_stepResults (sample_finalize p s))) = Inr (Some l)"
    using sample_ledger by blast
  obtain n where n: "map_result normalizeProfileStepResult (fi_stepResults (sample_finalize p s)) = Inr n"
    using sample_normalized by blast
  show ?thesis using l n by (simp add: finalizeProfileScan_def Let_def)
qed

section \<open>What a finished scan guarantees\<close>

lemma gate_requested: "ge_gateDecision (evaluateScanGate GatePolicy t out sev) \<noteq> NotRequested"
  by (simp add: evaluateScanGate_def gate_blocked_def Let_def)

lemma gate_pass_facts:
  assumes "ge_gateDecision (evaluateScanGate p t out sev) = GatePass"
  shows "out \<noteq> OutcomeFailed" "t \<noteq> None"
    "s \<in> set sev \<Longrightarrow> gate_rank (js_lower s) \<noteq> NoRank \<and> \<not> reaches (threshold_rank (the t)) s"
  using assms unfolding gate_pass_char by (auto simp: list_all_iff)

text \<open>A scan with a gate that is reported as ok had no profile-failing failure, and none of its findings reaches the
  threshold or has a severity the gate does not know.\<close>

theorem gated_scan_ok:
  assumes "finalizeProfileScan h i = Inr z" and "fz_ok z" and "fi_resultPolicy i = GatePolicy"
    and "s \<in> set (fi_severities i)"
  shows "\<not> fi_profileFailingToolFailed i \<and> fi_gateThreshold i \<noteq> None
    \<and> gate_rank (js_lower s) \<noteq> NoRank \<and> \<not> reaches (threshold_rank (the (fi_gateThreshold i))) s"
proof -
  note z = finalize_cases [OF assms(1)]
  have "ge_gateDecision (fz_gate z) \<noteq> NotRequested"
    unfolding z(3) assms(3) by (rule gate_requested)
  then have "ge_gateDecision (fz_gate z) = GatePass"
    using assms(2) unfolding z(4) by (cases "ge_gateDecision (fz_gate z)") simp_all
  note pass = gate_pass_facts [OF this [unfolded z(3)]]
  have "\<not> fi_profileFailingToolFailed i"
    using pass(1) z(2) by (auto simp: decide_outcome_def)
  then show ?thesis using pass(2) pass(3) [OF assms(4)] by blast
qed

lemma gated_scan_ok_witness:
  "\<exists>z. finalizeProfileScan sample_host (sample_finalize GatePolicy [''LOW'']) = Inr z \<and> fz_ok z
     \<and> \<not> reaches 3 ''LOW''"
proof -
  obtain z where z: "finalizeProfileScan sample_host (sample_finalize GatePolicy [''LOW'']) = Inr z"
      "fz_profileOutcome z = OutcomeCompleted"
    by (rule sample_finalized)
  have "js_lower ''LOW'' = ''low''" by code_simp
  then have "fz_ok z"
    by (simp add: finalize_cases(4) [OF z(1)] finalize_cases(3) [OF z(1)] z(2))
      (simp add: sample_finalize_def evaluateScanGate_def gate_rank_def reaches_def)
  moreover have "fi_resultPolicy (sample_finalize GatePolicy [''LOW'']) = GatePolicy"
    "''LOW'' \<in> set (fi_severities (sample_finalize GatePolicy [''LOW'']))"
    "fi_gateThreshold (sample_finalize GatePolicy [''LOW'']) = Some AtHigh"
    by (simp_all add: sample_finalize_def)
  ultimately show ?thesis using gated_scan_ok [OF z(1), of "''LOW''"] z(1) by auto
qed

lemma completed_outcome:
  assumes "finalizeProfileScan h i = Inr z" and "fz_profileOutcome z = OutcomeCompleted"
  shows "\<not> fi_profileFailingToolFailed i" "\<not> fi_optionalToolFailed i" "\<not> runtime_limited (fz_runtime z)"
    "map_option sc_coverageEffect (fz_sast z) \<noteq> Some Gap" "\<not> ledger_limited (fz_ledger z)"
  using finalize_cases(2) [OF assms(1)] assms(2) by (auto simp: decide_outcome_def split: if_splits)

lemma planned_by_id_get: "jm_get (planned_by_id steps) k = Some s \<Longrightarrow> s \<in> set steps \<and> pl_stepId s = k"
  by (auto simp: planned_by_id_def dest!: jm_get_of_list_in)

lemma results_by_id_get: "jm_get (results_by_id rs) k = Some r \<Longrightarrow> r \<in> set rs \<and> stepIdFor r = k"
  by (auto simp: results_by_id_def dest!: jm_get_of_list_in)

lemma matching_steps_in: "s \<in> set (matching_steps c P) \<Longrightarrow> \<exists>k \<in> set (capabilityStepIds c). jm_get P k = Some s"
  by (force simp: matching_steps_def List.map_filter_def)

text \<open>A scan whose outcome is completed without warnings covers every capability its profile requires: the ledger has an
  entry for it that says covered, and when the capability is applicable some step bound to it has a completed result among
  the results of the scan.\<close>

theorem completed_scan_covered:
  assumes "finalizeProfileScan h i = Inr z" and "fz_profileOutcome z = OutcomeCompleted"
    and "q \<in> set (or_else (pr_capabilityRequirements (fi_profile i)) [])"
  shows "\<exists>e l. fz_ledger z = Some l \<and> e \<in> set (lg_entries l) \<and> le_capabilityId e = cr_capabilityId q
    \<and> le_coverageEffect e = Covered
    \<and> (le_applicability e = Applicable \<longrightarrow>
        (\<exists>r \<in> set (fi_stepResults i). stepIdFor r \<in> set (capabilityStepIds (cr_capabilityId q))
           \<and> result_status r = Completed))"
proof -
  note z = finalize_cases(1) [OF assms(1)]
  obtain reqs where reqs: "pr_capabilityRequirements (fi_profile i) = Some reqs" "q \<in> set reqs"
    using assms(3) by (cases "pr_capabilityRequirements (fi_profile i)") auto
  obtain l where l: "fz_ledger z = Some l"
  proof (cases "fz_ledger z")
    case None
    then show ?thesis using z reqs by (auto simp: buildCoverageLedger_def Let_def split: list.splits if_splits)
  qed (rule that)
  let ?P = "planned_by_id (fi_plannedSteps i)" and ?R = "results_by_id (fi_stepResults i)"
  have entries: "lg_entries l = map (\<lambda>q. buildEntry q ?P ?R) reqs"
    by (rule buildCoverageLedger_cases [OF z [unfolded l]]) (simp add: reqs(1))
  let ?e = "buildEntry q ?P ?R"
  have e: "?e \<in> set (lg_entries l)" using reqs(2) by (simp add: entries)
  have covered: "le_coverageEffect ?e = Covered"
    using completed_outcome(5) [OF assms(1,2)] e by (auto simp: l ledger_limited_def list_ex_iff)
  have "\<exists>r \<in> set (fi_stepResults i). stepIdFor r \<in> set (capabilityStepIds (cr_capabilityId q)) \<and> result_status r = Completed"
    if app: "le_applicability ?e = Applicable"
  proof -
    obtain s where s: "s \<in> set (matching_steps (cr_capabilityId q) ?P)"
      using covered_entry_steps [OF covered app] by (meson hd_in_set)
    then obtain r where r: "jm_get ?R (pl_stepId s) = Some r" "result_status r = Completed"
      using covered_entry_steps [OF covered app] by blast
    have "pl_stepId s \<in> set (capabilityStepIds (cr_capabilityId q))"
      using matching_steps_in [OF s] planned_by_id_get by blast
    moreover have "r \<in> set (fi_stepResults i)" "stepIdFor r = pl_stepId s"
      using results_by_id_get [OF r(1)] by blast+
    ultimately show ?thesis using r(2) by metis
  qed
  then show ?thesis using l e covered by (metis buildEntry_ids(1))
qed

lemma completed_scan_covered_witness:
  "\<exists>z l. finalizeProfileScan sample_host (sample_finalize AdvisoryPolicy []) = Inr z \<and> fz_ledger z = Some l
     \<and> (\<exists>e. e \<in> set (lg_entries l) \<and> le_capabilityId e = SecretDetection \<and> le_coverageEffect e = Covered)"
proof -
  obtain z where z: "finalizeProfileScan sample_host (sample_finalize AdvisoryPolicy []) = Inr z"
      "fz_profileOutcome z = OutcomeCompleted"
    by (rule sample_finalized)
  have "\<lparr>cr_capabilityId = SecretDetection, cr_requirement = Required\<rparr>
      \<in> set (or_else (pr_capabilityRequirements (fi_profile (sample_finalize AdvisoryPolicy []))) [])"
    by (simp add: sample_finalize_def)
  from completed_scan_covered [OF z this] z(1) show ?thesis by auto
qed

section \<open>The runtime steps\<close>

text \<open>Runtime assessment is covered exactly if there is a runtime step, every runtime step is covered, and the requests of
  all of them together stay within the budget of 250.\<close>

theorem runtime_covered_iff:
  "rc_coverageStatus (aggregateRuntimeAssessmentCoverage rs) = Covered \<longleftrightarrow>
     rc_steps (aggregateRuntimeAssessmentCoverage rs) \<noteq> []
     \<and> rc_requestCount (aggregateRuntimeAssessmentCoverage rs) \<le> 250
     \<and> list_all (\<lambda>s. rs_coverageEffect s = Covered) (rc_steps (aggregateRuntimeAssessmentCoverage rs))"
proof -
  have "\<not> (list_all (\<lambda>s. rs_coverageEffect s = Gap) xs \<and> list_all (\<lambda>s. rs_coverageEffect s = Covered) xs)"
    if "xs \<noteq> []" for xs
    using that by (cases xs) auto
  from this [of "concat (map toRuntimeStepCoverage rs)"] show ?thesis
    unfolding aggregateRuntimeAssessmentCoverage_def Let_def
    by (cases "concat (map toRuntimeStepCoverage rs) = []"; simp del: concat_eq_Nil_conv)
qed

lemma applicable_request_evidence:
  assumes "co_applicability r = Applicable" and "s \<in> set (toRuntimeStepCoverage (CoverageResult r))"
    and "rs_coverageEffect s = Covered"
  shows "co_status r = Completed \<and> rs_requestCount s \<noteq> 0"
  using assms by (auto simp: Let_def split: if_splits)

section \<open>SAST\<close>

lemma static_result_in:
  assumes "static_result t (Some rs) = Some x"
  shows "StaticResult x \<in> set rs" "tr_toolId x = t"
proof -
  have "x \<in> set (List.map_filter (\<lambda>r. case r of StaticResult t \<Rightarrow> Some t | _ \<Rightarrow> None) rs)" and "tr_toolId x = t"
    using assms by (auto simp: static_result_def find_Some_iff)
  then show "StaticResult x \<in> set rs" "tr_toolId x = t"
    by (auto simp: List.map_filter_def split: step_result.splits)
qed

text \<open>Source SAST is reported as covered only if it is not applicable to the project or a tool with that capability, a
  static step of the profile, has a completed result.\<close>

theorem sast_covered_executed:
  assumes "resolveSourceSastCoverage p (Some rs) (Some a) = Some c" and "sc_coverageEffect c = Covered"
  shows "sa_applicability a = NotApplicable
    \<or> (\<exists>t. StaticResult t \<in> set rs \<and> tr_status t = Completed \<and> sc_stepId c = Some (tr_toolId t)
         \<and> tr_toolId t \<in> set (sast_tools p))"
proof (cases "opt_else (find (\<lambda>t. tool_completed t (Some rs)) (sast_tools p))
    (case sast_tools p of [] \<Rightarrow> None | t # _ \<Rightarrow> Some t)")
  case None
  then show ?thesis
    using assms by (auto simp: resolveSourceSastCoverage_def Let_def split: if_splits)
next
  case (Some toolId)
  have mem: "toolId \<in> set (sast_tools p)"
    using Some by (cases "find (\<lambda>t. tool_completed t (Some rs)) (sast_tools p)")
      (auto simp: find_Some_iff opt_else_def split: list.splits)
  have c: "c = (if sa_applicability a = NotApplicable
        then sast_record NotApplicable SastNotApplicable Covered toolId (sa_reasonCodes a)
        else if sa_applicability a = UnknownApplicability then sast_record UnknownApplicability SastUnknown Gap toolId []
        else if map_option tr_status (static_result toolId (Some rs)) = Some Completed
        then sast_record Applicable SastExecuted Covered toolId []
        else sast_record Applicable SastApplicable Gap toolId
          ([SOURCE_SAST_NOT_EXECUTED] @ sa_reasonCodes a
           @ (case static_result toolId (Some rs) of None \<Rightarrow> [] | Some t \<Rightarrow> truthy_list (tr_reasonCode t))))"
    using assms(1) Some
    by (cases "static_result toolId (Some rs)") (auto simp: resolveSourceSastCoverage_def Let_def split: if_splits)
  show ?thesis
  proof (cases "map_option tr_status (static_result toolId (Some rs)) = Some Completed")
    case True
    then obtain t where t: "static_result toolId (Some rs) = Some t" "tr_status t = Completed" by auto
    show ?thesis
      using static_result_in [OF t(1)] t(2) mem assms(2) c by (auto simp: sast_record_def split: if_splits)
  next
    case False
    then show ?thesis using assms(2) c by (auto simp: sast_record_def split: if_splits)
  qed
qed

lemma sast_covered_executed_witness:
  "\<exists>t. StaticResult t \<in> set [StaticResult (sample_tool_result ''semgrep'' Completed)] \<and> tr_status t = Completed"
proof -
  let ?p = "sample_profile\<lparr>pr_id := ''change-gate'', pr_steps := Some [\<lparr>st_ref = ToolStep ''semgrep'', st_displayName = ''Semgrep'',
    st_required = True, st_requirement = None, st_timeoutSec = None, st_failurePolicy = FailProfile, st_maxRequests = None\<rparr>]\<rparr>"
  let ?a = "\<lparr>sa_applicability = Applicable, sa_reasonCodes = []\<rparr>"
  let ?c = "sast_record Applicable SastExecuted Covered ''semgrep'' []"
  have "resolveSourceSastCoverage ?p (Some [StaticResult (sample_tool_result ''semgrep'' Completed)]) (Some ?a) = Some ?c"
    by (simp add: resolveSourceSastCoverage_def Let_def sast_tools_def static_adapters_def tool_completed_def
        static_result_def List.map_filter_def sample_tool_result_def)
  from sast_covered_executed [OF this] show ?thesis by (auto simp: sast_record_def)
qed

end
