(* ===== verification/StepOrchestrator.thy ===== *)
theory StepOrchestrator
  imports CoverageLedger
begin

text \<open>
  The sequential execution of the steps of a profile
  (\<open>api/modules/scans/execution/profile-step-orchestrator.ts\<close>). What a step does when it runs
  (\<open>execute-profile-step.ts\<close>: containers, processes, HTTP) and the state of the shared runtime target are
  parameters; everything the orchestrator decides, records and emits is modelled. The writes of events to the
  database are taken to succeed.
\<close>

section \<open>Parameters\<close>

record diff_tool =
  dt_toolId :: string
  dt_applicability :: applicability
  dt_reasonCode :: "string option"
  dt_coverageEffect :: coverage_effect

record diff_info =
  di_tools :: "diff_tool list"
  di_unsupported :: nat
  di_tooLarge :: nat
  di_targetDigest :: string

record orch_params =
  op_plannedSteps :: "planned_step list"
  op_planHash :: string
  op_enforced :: bool \<comment> \<open>\<open>scanPreflight.mode === "enforced"\<close>\<close>
  op_continueOnToolFailure :: bool
  op_timeoutSec :: "nat option"
  op_defaultTimeoutSec :: nat
  op_diffPlan :: "diff_info option"

record executed =
  ex_toolResults :: "tool_result list"
  ex_stepResults :: "step_result list"
  ex_profileFailingToolFailed :: bool
  ex_optionalToolFailed :: bool

text \<open>
  The environment: running a step with its timeout and whether its failure fails the profile (it may throw),
  the failure of the shared runtime target, whether the target session was used, and whether disposing of it
  throws.
\<close>

record 'r step_env =
  run_step :: "'r \<Rightarrow> profile_step \<Rightarrow> string \<Rightarrow> nat \<Rightarrow> bool \<Rightarrow> 'r \<times> (string, executed) result"
  runtime_failure :: "'r \<Rightarrow> (string \<times> string list) option"
  session_used :: "'r \<Rightarrow> bool"
  dispose_throws :: "'r \<Rightarrow> bool"

section \<open>Lifecycle\<close>

datatype lifecycle = LcCompleted | LcFailed | LcSkipped | LcNotApplicable | LcBlocked

record lifecycle_details =
  lc_outcome :: lifecycle
  lc_findingCount :: nat
  lc_reasonCode :: "string option"

definition details :: "lifecycle \<Rightarrow> nat \<Rightarrow> string option \<Rightarrow> lifecycle_details" where
  "details outcome findings reason = \<lparr>lc_outcome = outcome, lc_findingCount = findings, lc_reasonCode = reason\<rparr>"

fun lifecycle_reason :: "step_result \<Rightarrow> string option" where
  "lifecycle_reason (StaticResult r) = tr_reasonCode r"
| "lifecycle_reason (CoverageResult r) = co_reasonCode r"
| "lifecycle_reason (DastResult r) =
     (case dr_reasonCode r of Some c \<Rightarrow> Some c
      | None \<Rightarrow> (case dr_limitationCodes r of Some (c # _) \<Rightarrow> Some c | _ \<Rightarrow> None))"

definition lifecycleOutcome ::
  "step_result option \<Rightarrow> bool \<Rightarrow> bool \<Rightarrow> bool \<Rightarrow> string option \<Rightarrow> lifecycle_details" where
  "lifecycleOutcome found plannedNotApplicable preflightBlocked skippedDueToPriorFailure fallbackReasonCode =
     (if plannedNotApplicable then details LcNotApplicable 0 fallbackReasonCode
      else if preflightBlocked then details LcBlocked 0 (opt_else fallbackReasonCode (Some ''preflight_failed''))
      else if skippedDueToPriorFailure then details LcSkipped 0 (Some ''execution_failed'')
      else (case found of
          None \<Rightarrow> details LcFailed 0 (opt_else fallbackReasonCode (Some ''step_execution_aborted''))
        | Some r \<Rightarrow>
            (let reasonCode = lifecycle_reason r; findings = result_findingCount r in
             if result_status r = Completed then details LcCompleted findings reasonCode
             else if result_status r = Failed
             then details LcFailed findings (opt_else reasonCode (Some ''execution_failed''))
             else if result_status r = Blocked
             then details LcBlocked findings (opt_else reasonCode (Some ''runtime_target_unavailable''))
             else if result_not_applicable r then details LcNotApplicable findings reasonCode
             else details LcSkipped findings reasonCode)))"

datatype orch_event =
    NotApplicableEvent string "string option"
  | StepStarted string
  | StepFinished string lifecycle_details
  | CleanupFailedEvent

section \<open>Results of steps that do not run\<close>

fun scanProfileStepId :: "step_ref \<Rightarrow> string" where
  "scanProfileStepId (ToolStep toolId) = toolId"
| "scanProfileStepId (DastStep profileId) = ''dast:'' @ profileId"
| "scanProfileStepId (AdapterStep kind adapter) = step_kind_text kind @ '':'' @ adapter"

fun requiresRuntimeTarget :: "step_ref \<Rightarrow> bool" where
  "requiresRuntimeTarget (DastStep _) = True"
| "requiresRuntimeTarget (AdapterStep kind _) = (kind = RuntimeScanner \<or> kind = ApiSchemaScan)"
| "requiresRuntimeTarget (ToolStep _) = False"

definition dast_not_run ::
  "string \<Rightarrow> bool \<Rightarrow> step_status \<Rightarrow> coverage_effect option \<Rightarrow> string list option \<Rightarrow> string option \<Rightarrow> string list option
    \<Rightarrow> string \<Rightarrow> dast_result" where
  "dast_not_run profileId required status effect codes reason artifactIds error =
     \<lparr>dr_profileId = profileId, dr_required = required, dr_status = status, dr_outcome = None, dr_verdict = None,
      dr_coverageStatus = effect, dr_coverageSummary = None, dr_limitationCodes = codes, dr_findingCount = 0,
      dr_dastRunId = None, dr_targetOrigin = None, dr_error = Some error, dr_reasonCode = reason,
      dr_artifactIds = artifactIds, dr_autoTarget = None\<rparr>"

definition coverage_not_run ::
  "step_kind \<Rightarrow> string \<Rightarrow> string \<Rightarrow> bool \<Rightarrow> step_status \<Rightarrow> applicability \<Rightarrow> string \<Rightarrow> string list option \<Rightarrow> string
    \<Rightarrow> coverage_result" where
  "coverage_not_run kind stepId adapter required status app reason artifactIds error =
     \<lparr>co_kind = kind, co_stepId = stepId, co_adapter = adapter, co_required = required, co_status = status,
      co_applicability = app, co_reasonCode = Some reason, co_coverageEffect = Gap, co_findingCount = 0,
      co_error = Some error, co_artifactIds = artifactIds, co_metadata = None\<rparr>"

fun runtimeBlockedStepResult :: "step_ref \<Rightarrow> bool \<Rightarrow> string \<Rightarrow> string list \<Rightarrow> step_result option" where
  \<comment> \<open>no static tool needs the runtime target\<close>
  "runtimeBlockedStepResult (ToolStep _) required error artifactIds = None"
| "runtimeBlockedStepResult (DastStep profileId) required error artifactIds = Some (DastResult
     (dast_not_run profileId required Blocked (Some Gap) (Some [''runtime_target_unavailable''])
        (Some ''runtime_target_unavailable'') (Some artifactIds) error))"
| "runtimeBlockedStepResult (AdapterStep kind adapter) required error artifactIds = Some (CoverageResult
     (coverage_not_run kind (scanProfileStepId (AdapterStep kind adapter)) adapter required Blocked Applicable
        ''runtime_target_unavailable'' (Some artifactIds) error))"

definition prior_failure_step :: string where
  "prior_failure_step = ''Skipped due to previous profile-failing step failure''"

definition skipped_tool_result ::
  "string \<Rightarrow> bool \<Rightarrow> string option \<Rightarrow> applicability \<Rightarrow> string option \<Rightarrow> coverage_effect \<Rightarrow> js_record option \<Rightarrow> tool_result" where
  "skipped_tool_result toolId required error app reason effect metadata =
     \<lparr>tr_toolId = toolId, tr_toolRunId = None, tr_required = required, tr_status = Skipped, tr_findingCount = 0,
      tr_exitCode = None, tr_error = error, tr_applicability = Some app, tr_reasonCode = reason,
      tr_coverageEffect = Some effect, tr_artifactIds = Some [], tr_metadata = metadata\<rparr>"

fun skipped_step_result :: "step_ref \<Rightarrow> bool \<Rightarrow> planned_step_result" where
  "skipped_step_result (ToolStep toolId) required =
     (let toolResult = skipped_tool_result toolId required
            (Some ''Skipped due to previous profile-failing tool failure'') Applicable (Some ''execution_failed'')
            Gap None
      in \<lparr>ps_toolResult = Some toolResult, ps_stepResult = StaticResult toolResult\<rparr>)"
| "skipped_step_result (DastStep profileId) required =
     \<lparr>ps_toolResult = None, ps_stepResult = DastResult
        (dast_not_run profileId required Skipped None None None None prior_failure_step)\<rparr>"
| "skipped_step_result (AdapterStep kind adapter) required =
     \<lparr>ps_toolResult = None, ps_stepResult = CoverageResult
        (coverage_not_run kind (scanProfileStepId (AdapterStep kind adapter)) adapter required Skipped NotApplicable
           ''execution_failed'' None prior_failure_step)\<rparr>"

section \<open>One step\<close>

record 'r orch_state =
  os_toolResults :: "tool_result list"
  os_stepResults :: "step_result list"
  os_profileFailingToolFailed :: bool
  os_optionalToolFailed :: bool
  os_events :: "orch_event list"
  os_runner :: 'r

definition emit :: "orch_event \<Rightarrow> 'r orch_state \<Rightarrow> 'r orch_state" where
  "emit e s = s\<lparr>os_events := os_events s @ [e]\<rparr>"

definition push :: "planned_step_result \<Rightarrow> 'r orch_state \<Rightarrow> 'r orch_state" where
  "push p s = s\<lparr>os_toolResults := os_toolResults s @ (case ps_toolResult p of None \<Rightarrow> [] | Some t \<Rightarrow> [t]),
                os_stepResults := os_stepResults s @ [ps_stepResult p]\<rparr>"

definition diff_not_applicable :: "orch_params \<Rightarrow> step_ref \<Rightarrow> diff_tool option" where
  \<comment> \<open>the first entry of the diff plan for the tool, if it says not applicable\<close>
  "diff_not_applicable p r =
     (case (r, op_diffPlan p) of
        (ToolStep toolId, Some d) \<Rightarrow>
          (case find (\<lambda>t. dt_toolId t = toolId) (di_tools d) of
             Some t \<Rightarrow> (if dt_applicability t = NotApplicable then Some t else None)
           | None \<Rightarrow> None)
      | _ \<Rightarrow> None)"

definition failure_fails_profile :: "profile_step \<Rightarrow> bool" where
  "failure_fails_profile step = (st_required step \<or> st_failurePolicy step = FailProfile)"

text \<open>
  The body of the \<open>try\<close> block. It returns the error a step threw, the flags that the \<open>finally\<close> block reads,
  and the new state.
\<close>

record step_flags =
  sf_plannedNotApplicable :: bool
  sf_preflightBlocked :: bool
  sf_skipped :: bool
  sf_reason :: "string option"

definition no_flags :: step_flags where
  "no_flags = \<lparr>sf_plannedNotApplicable = False, sf_preflightBlocked = False, sf_skipped = False, sf_reason = None\<rparr>"

definition execute_body ::
  "'r step_env \<Rightarrow> orch_params \<Rightarrow> profile_step \<Rightarrow> string \<Rightarrow> 'r orch_state \<Rightarrow> string option \<times> 'r orch_state" where
  "execute_body env p step stepId s =
     (let timeout = or_else (opt_else (st_timeoutSec step) (op_timeoutSec p)) (op_defaultTimeoutSec p);
          s' = emit (StepStarted stepId) s;
          (r', out) = run_step env (os_runner s') step stepId timeout (failure_fails_profile step)
      in case out of
           Inl e \<Rightarrow> (Some e, s'\<lparr>os_runner := r'\<rparr>)
         | Inr ex \<Rightarrow> (None, s'\<lparr>os_runner := r',
             os_toolResults := os_toolResults s' @ ex_toolResults ex,
             os_stepResults := os_stepResults s' @ ex_stepResults ex,
             os_profileFailingToolFailed := (os_profileFailingToolFailed s' \<or> ex_profileFailingToolFailed ex),
             os_optionalToolFailed := (os_optionalToolFailed s' \<or> ex_optionalToolFailed ex)\<rparr>))"

definition step_body ::
  "'r step_env \<Rightarrow> orch_params \<Rightarrow> profile_step \<Rightarrow> string \<Rightarrow> planned_step \<Rightarrow> 'r orch_state
    \<Rightarrow> string option \<times> step_flags \<times> 'r orch_state" where
  "step_body env p step stepId planned s =
     (if pl_applicability planned = NotApplicable then
        (let reasonCode = (case pl_reasonCodes planned of [] \<Rightarrow> ''not_applicable'' | c # _ \<Rightarrow> c)
         in (None, no_flags\<lparr>sf_plannedNotApplicable := True, sf_reason := Some reasonCode\<rparr>,
             emit (NotApplicableEvent stepId (Some reasonCode))
               (push (notApplicablePlannedStepResult step stepId reasonCode (op_planHash p)) s)))
      else if op_enforced p \<and> pl_readiness planned = ReadinessBlocked \<and> pl_reasonCodes planned \<noteq> [] then
        (None, no_flags\<lparr>sf_preflightBlocked := True, sf_reason := Some ''preflight_failed''\<rparr>,
         push (preflightBlockedStepResult step stepId (pl_reasonCodes planned))
           (if failure_fails_profile step then s\<lparr>os_profileFailingToolFailed := True\<rparr>
            else s\<lparr>os_optionalToolFailed := True\<rparr>))
      else
        (case (if requiresRuntimeTarget (st_ref step) then runtime_failure env (os_runner s) else None) of
           Some (message, artifactIds) \<Rightarrow>
             (None, no_flags\<lparr>sf_reason := Some ''runtime_target_unavailable''\<rparr>,
              (case runtimeBlockedStepResult (st_ref step) (st_required step) message artifactIds of
                 None \<Rightarrow> s
               | Some r \<Rightarrow> push \<lparr>ps_toolResult = None, ps_stepResult = r\<rparr> s))
         | None \<Rightarrow>
             (if os_profileFailingToolFailed s \<and> \<not> op_continueOnToolFailure p then
                (None, no_flags\<lparr>sf_skipped := True\<rparr>, push (skipped_step_result (st_ref step) (st_required step)) s)
              else (case diff_not_applicable p (st_ref step) of
                  Some t \<Rightarrow>
                    (let toolResult = skipped_tool_result (dt_toolId t) (st_required step) None NotApplicable
                           (dt_reasonCode t) (dt_coverageEffect t)
                           (Some [(''targetDigest'', JStr (case op_diffPlan p of Some d \<Rightarrow> di_targetDigest d | None \<Rightarrow> []))])
                     in (None, no_flags,
                         emit (NotApplicableEvent (dt_toolId t) (dt_reasonCode t))
                           (push \<lparr>ps_toolResult = Some toolResult, ps_stepResult = StaticResult toolResult\<rparr> s)))
                | None \<Rightarrow>
                    (case execute_body env p step stepId s of (e, s') \<Rightarrow> (e, no_flags, s'))))))"

definition run_planned_step ::
  "'r step_env \<Rightarrow> orch_params \<Rightarrow> profile_step \<Rightarrow> planned_step \<Rightarrow> 'r orch_state \<Rightarrow> string option \<times> 'r orch_state" where
  \<comment> \<open>the \<open>try\<close> block and its \<open>finally\<close>\<close>
  "run_planned_step env p step planned s =
     (let stepId = scanProfileStepId (st_ref step);
          resultStartIndex = length (os_stepResults s)
      in case step_body env p step stepId planned s of
           (e, flags, s') \<Rightarrow>
             (let found = (if resultStartIndex < length (os_stepResults s')
                           then Some (os_stepResults s' ! resultStartIndex) else None)
              in (e, emit (StepFinished (pl_stepId planned) (lifecycleOutcome found (sf_plannedNotApplicable flags)
                       (sf_preflightBlocked flags) (sf_skipped flags) (sf_reason flags))) s')))"

section \<open>All steps\<close>

fun run_all_steps ::
  "'r step_env \<Rightarrow> orch_params \<Rightarrow> profile_step list \<Rightarrow> 'r orch_state \<Rightarrow> string option \<times> 'r orch_state" where
  "run_all_steps env p [] s = (None, s)"
| "run_all_steps env p (step # steps) s =
     (let stepId = scanProfileStepId (st_ref step) in
      case jm_get (jm_of_list (map (\<lambda>q. (pl_stepId q, q)) (op_plannedSteps p))) stepId of
        None \<Rightarrow> (Some (''execution_plan_step_missing:'' @ stepId), s)
      | Some planned \<Rightarrow>
          (case run_planned_step env p step planned s of
             (Some e, s') \<Rightarrow> (Some e, s')
           | (None, s') \<Rightarrow> run_all_steps env p steps s'))"

definition initial_state :: "orch_params \<Rightarrow> 'r \<Rightarrow> 'r orch_state" where
  "initial_state p r =
     \<lparr>os_toolResults = [], os_stepResults = [], os_profileFailingToolFailed = False,
      os_optionalToolFailed = (case op_diffPlan p of None \<Rightarrow> False
        | Some d \<Rightarrow> di_unsupported d > 0 \<or> di_tooLarge d > 0),
      os_events = [], os_runner = r\<rparr>"

definition executeProfileSteps ::
  "'r step_env \<Rightarrow> orch_params \<Rightarrow> profile_step list \<Rightarrow> 'r \<Rightarrow> (string, 'r orch_state) result \<times> orch_event list" where
  "executeProfileSteps env p steps r =
     (case run_all_steps env p steps (initial_state p r) of
        (e, s) \<Rightarrow>
          (if session_used env (os_runner s) \<and> dispose_throws env (os_runner s)
           then (Inl ''runtime_target_cleanup_failed'', os_events s @ [CleanupFailedEvent])
           else (case e of Some err \<Rightarrow> (Inl err, os_events s) | None \<Rightarrow> (Inr s, os_events s))))"

section \<open>Facts\<close>

definition finished_ids :: "orch_event list \<Rightarrow> string list" where
  "finished_ids es = List.map_filter (\<lambda>e. case e of StepFinished i d \<Rightarrow> Some i | _ \<Rightarrow> None) es"

definition started_ids :: "orch_event list \<Rightarrow> string list" where
  "started_ids es = List.map_filter (\<lambda>e. case e of StepStarted i \<Rightarrow> Some i | _ \<Rightarrow> None) es"

definition step_id :: "profile_step \<Rightarrow> string" where
  "step_id step = scanProfileStepId (st_ref step)"

lemma ids_append [simp]:
  "finished_ids (es @ fs) = finished_ids es @ finished_ids fs" "started_ids (es @ fs) = started_ids es @ started_ids fs"
  by (simp_all add: finished_ids_def started_ids_def List.map_filter_def)

lemma ids_single [simp]:
  "finished_ids [StepFinished i d] = [i]" "finished_ids [StepStarted i] = []" "finished_ids [NotApplicableEvent i c] = []"
  "started_ids [StepFinished i d] = []" "started_ids [StepStarted i] = [i]" "started_ids [NotApplicableEvent i c] = []"
  by (simp_all add: finished_ids_def started_ids_def List.map_filter_def)

lemma emit_simps [simp]:
  "os_events (emit e s) = os_events s @ [e]" "os_stepResults (emit e s) = os_stepResults s"
  "os_profileFailingToolFailed (emit e s) = os_profileFailingToolFailed s" "os_runner (emit e s) = os_runner s"
  by (simp_all add: emit_def)

lemma push_simps [simp]:
  "os_events (push r s) = os_events s" "os_stepResults (push r s) = os_stepResults s @ [ps_stepResult r]"
  "os_profileFailingToolFailed (push r s) = os_profileFailingToolFailed s" "os_runner (push r s) = os_runner s"
  by (simp_all add: push_def)

lemma execute_body_facts:
  assumes "execute_body env p step sid s = (e, s')"
  shows "finished_ids (os_events s') = finished_ids (os_events s)"
    and "os_profileFailingToolFailed s \<Longrightarrow> os_profileFailingToolFailed s'"
  using assms by (auto simp: execute_body_def Let_def split: prod.splits sum.splits)

text \<open>The body of a step, case by case.\<close>

lemma step_body_facts:
  assumes "step_body env p step sid planned s = (e, fl, s')"
  shows "finished_ids (os_events s') = finished_ids (os_events s)"
    and "os_profileFailingToolFailed s \<Longrightarrow> os_profileFailingToolFailed s'"
    and "os_profileFailingToolFailed s \<Longrightarrow> \<not> op_continueOnToolFailure p
      \<Longrightarrow> os_runner s' = os_runner s \<and> started_ids (os_events s') = started_ids (os_events s)"
  using assms execute_body_facts [of env p step sid s]
  by (auto simp: step_body_def Let_def split: if_splits option.splits prod.splits)

lemma run_planned_step_facts:
  assumes "run_planned_step env p step planned s = (e, s')"
  shows "finished_ids (os_events s') = finished_ids (os_events s) @ [pl_stepId planned]"
    and "os_profileFailingToolFailed s \<Longrightarrow> os_profileFailingToolFailed s'"
    and "os_profileFailingToolFailed s \<Longrightarrow> \<not> op_continueOnToolFailure p
      \<Longrightarrow> os_runner s' = os_runner s \<and> started_ids (os_events s') = started_ids (os_events s)"
  using assms step_body_facts [of env p step "scanProfileStepId (st_ref step)" planned s]
  by (auto simp: run_planned_step_def Let_def split: prod.splits)

definition planned_of :: "orch_params \<Rightarrow> string \<Rightarrow> planned_step option" where
  "planned_of p i = jm_get (jm_of_list (map (\<lambda>q. (pl_stepId q, q)) (op_plannedSteps p))) i"

lemma planned_of_id: "planned_of p i = Some q \<Longrightarrow> pl_stepId q = i"
  by (auto simp: planned_of_def dest!: jm_get_of_list_in)

lemma run_all_steps_Cons:
  "run_all_steps env p (step # steps) s =
     (case planned_of p (step_id step) of
        None \<Rightarrow> (Some (''execution_plan_step_missing:'' @ step_id step), s)
      | Some planned \<Rightarrow>
          (case run_planned_step env p step planned s of
             (Some e, s') \<Rightarrow> (Some e, s')
           | (None, s') \<Rightarrow> run_all_steps env p steps s'))"
  unfolding planned_of_def step_id_def run_all_steps.simps Let_def by (rule refl)

declare run_all_steps.simps(2) [simp del]

lemma run_all_steps_finished:
  "run_all_steps env p steps s = (None, s')
    \<Longrightarrow> finished_ids (os_events s') = finished_ids (os_events s) @ map step_id steps"
proof (induction steps arbitrary: s)
  case Nil
  then show ?case by simp
next
  case (Cons step steps)
  then show ?case
    unfolding run_all_steps_Cons
    using run_planned_step_facts(1) planned_of_id
    by (fastforce split: option.splits prod.splits)
qed

lemma run_all_steps_failing:
  "run_all_steps env p steps s = (e, s') \<Longrightarrow> os_profileFailingToolFailed s \<Longrightarrow> os_profileFailingToolFailed s'"
proof (induction steps arbitrary: s)
  case Nil
  then show ?case by simp
next
  case (Cons step steps)
  then show ?case
    unfolding run_all_steps_Cons
    using run_planned_step_facts(2)
    by (fastforce split: option.splits prod.splits)
qed

lemma run_all_steps_stopped:
  "run_all_steps env p steps s = (e, s') \<Longrightarrow> os_profileFailingToolFailed s \<Longrightarrow> \<not> op_continueOnToolFailure p
    \<Longrightarrow> os_runner s' = os_runner s \<and> started_ids (os_events s') = started_ids (os_events s)"
proof (induction steps arbitrary: s)
  case Nil
  then show ?case by simp
next
  case (Cons step steps)
  show ?case
  proof (cases "planned_of p (step_id step)")
    case None
    then show ?thesis using Cons.prems by (simp add: run_all_steps_Cons)
  next
    case (Some q)
    obtain e1 s1 where one: "run_planned_step env p step q s = (e1, s1)" by fastforce
    note s1 = run_planned_step_facts(2,3) [OF one]
    show ?thesis
    proof (cases e1)
      case None
      then have "run_all_steps env p steps s1 = (e, s')"
        using Cons.prems(1) Some one by (simp add: run_all_steps_Cons)
      from Cons.IH [OF this] s1 Cons.prems(2,3) show ?thesis by simp
    next
      case (Some x)
      then show ?thesis using Cons.prems \<open>planned_of p (step_id step) = Some q\<close> one s1
        by (simp add: run_all_steps_Cons)
    qed
  qed
qed

definition one_result_per_step :: "'r step_env \<Rightarrow> bool" where
  "one_result_per_step env = (\<forall>r step sid t f r' ex.
     run_step env r step sid t f = (r', Inr ex) \<longrightarrow> map stepIdFor (ex_stepResults ex) = [sid])"

lemma not_run_ids:
  "stepIdFor (ps_stepResult (notApplicablePlannedStepResult step (step_id step) c h)) = step_id step"
  "stepIdFor (ps_stepResult (preflightBlockedStepResult step (step_id step) cs)) = step_id step"
  "stepIdFor (ps_stepResult (skipped_step_result (st_ref step) req)) = step_id step"
  "runtimeBlockedStepResult (st_ref step) req m a = Some x \<Longrightarrow> stepIdFor x = step_id step"
  by (cases "st_ref step"; auto simp: notApplicablePlannedStepResult_def preflightBlockedStepResult_def step_id_def
      skipped_tool_result_def dast_not_run_def coverage_not_run_def Let_def)+

lemma diff_not_applicable_id:
  "diff_not_applicable p (st_ref step) = Some t \<Longrightarrow> dt_toolId t = step_id step"
  by (auto simp: diff_not_applicable_def step_id_def find_Some_iff split: step_ref.splits option.splits if_splits)

lemma runtime_blocked_some: "requiresRuntimeTarget r \<Longrightarrow> \<exists>x. runtimeBlockedStepResult r req m a = Some x"
  by (cases r) auto

lemma execute_body_result:
  assumes "one_result_per_step env" and "execute_body env p step sid s = (None, s')"
  shows "map stepIdFor (os_stepResults s') = map stepIdFor (os_stepResults s) @ [sid]"
proof -
  obtain r' out where run: "run_step env (os_runner s) step sid (or_else (opt_else (st_timeoutSec step) (op_timeoutSec p)) (op_defaultTimeoutSec p))
      (failure_fails_profile step) = (r', out)" by fastforce
  then obtain ex where "out = Inr ex" using assms(2) by (cases out) (auto simp: execute_body_def Let_def)
  moreover have "map stepIdFor (ex_stepResults ex) = [sid]" if "out = Inr ex"
    using assms(1) run that unfolding one_result_per_step_def by blast
  ultimately show ?thesis using assms(2) run by (auto simp: execute_body_def Let_def)
qed

lemma step_body_result:
  assumes "one_result_per_step env" and "step_body env p step (step_id step) planned s = (None, fl, s')"
  shows "map stepIdFor (os_stepResults s') = map stepIdFor (os_stepResults s) @ [step_id step]"
proof -
  consider (out) "pl_applicability planned = NotApplicable"
    | (blocked) "pl_applicability planned \<noteq> NotApplicable"
        "op_enforced p \<and> pl_readiness planned = ReadinessBlocked \<and> pl_reasonCodes planned \<noteq> []"
    | (runs) "pl_applicability planned \<noteq> NotApplicable"
        "\<not> (op_enforced p \<and> pl_readiness planned = ReadinessBlocked \<and> pl_reasonCodes planned \<noteq> [])"
    by blast
  then show ?thesis
  proof cases
    case out
    then show ?thesis using assms(2) by (auto simp: step_body_def Let_def not_run_ids)
  next
    case blocked
    then show ?thesis using assms(2) by (auto simp: step_body_def Let_def not_run_ids)
  next
    case runs
    show ?thesis
    proof (cases "if requiresRuntimeTarget (st_ref step) then runtime_failure env (os_runner s) else None")
      case (Some f)
      obtain m a where f: "f = (m, a)" by fastforce
      have "requiresRuntimeTarget (st_ref step)" using Some by (simp split: if_splits)
      then obtain x where x: "runtimeBlockedStepResult (st_ref step) (st_required step) m a = Some x"
        using runtime_blocked_some by metis
      have "s' = push \<lparr>ps_toolResult = None, ps_stepResult = x\<rparr> s"
        using assms(2) runs Some f x by (simp add: step_body_def)
      then show ?thesis by (simp add: not_run_ids(4) [OF x])
    next
      case None
      show ?thesis
      proof (cases "os_profileFailingToolFailed s \<and> \<not> op_continueOnToolFailure p")
        case True
        then have "s' = push (skipped_step_result (st_ref step) (st_required step)) s"
          using assms(2) runs None by (simp add: step_body_def)
        then show ?thesis by (simp add: not_run_ids(3))
      next
        case False
        then have body: "step_body env p step (step_id step) planned s = (case diff_not_applicable p (st_ref step) of
            Some t \<Rightarrow>
              (let toolResult = skipped_tool_result (dt_toolId t) (st_required step) None NotApplicable
                     (dt_reasonCode t) (dt_coverageEffect t)
                     (Some [(''targetDigest'', JStr (case op_diffPlan p of Some d \<Rightarrow> di_targetDigest d | None \<Rightarrow> []))])
               in (None, no_flags, emit (NotApplicableEvent (dt_toolId t) (dt_reasonCode t))
                     (push \<lparr>ps_toolResult = Some toolResult, ps_stepResult = StaticResult toolResult\<rparr> s)))
          | None \<Rightarrow> (case execute_body env p step (step_id step) s of (e, s') \<Rightarrow> (e, no_flags, s')))"
          unfolding step_body_def None if_not_P [OF runs(1)] if_not_P [OF runs(2)] if_not_P [OF False] option.case(1)
          by (simp split: option.split prod.split)
        show ?thesis
        proof (cases "diff_not_applicable p (st_ref step)")
          case None
          then have "execute_body env p step (step_id step) s = (None, s')"
            using body assms(2) by (auto split: prod.splits)
          then show ?thesis by (rule execute_body_result [OF assms(1)])
        next
          case (Some t)
          then show ?thesis
            using body assms(2) diff_not_applicable_id [OF Some] by (auto simp: Let_def skipped_tool_result_def)
        qed
      qed
    qed
  qed
qed

lemma run_planned_step_result:
  assumes "one_result_per_step env" and "run_planned_step env p step planned s = (None, s')"
  shows "map stepIdFor (os_stepResults s') = map stepIdFor (os_stepResults s) @ [step_id step]"
proof -
  obtain e fl s1 where body: "step_body env p step (step_id step) planned s = (e, fl, s1)"
    by (metis prod_cases3)
  then have "e = None" "os_stepResults s' = os_stepResults s1"
    using assms(2) by (auto simp: run_planned_step_def step_id_def Let_def)
  then show ?thesis using step_body_result [OF assms(1)] body by simp
qed

lemma run_all_steps_results:
  "one_result_per_step env \<Longrightarrow> run_all_steps env p steps s = (None, s')
    \<Longrightarrow> map stepIdFor (os_stepResults s') = map stepIdFor (os_stepResults s) @ map step_id steps"
proof (induction steps arbitrary: s)
  case Nil
  then show ?case by simp
next
  case (Cons step steps)
  from Cons.prems(2) obtain q s1 where one: "run_planned_step env p step q s = (None, s1)"
      "run_all_steps env p steps s1 = (None, s')"
    unfolding run_all_steps_Cons by (auto split: option.splits prod.splits)
  show ?case
    using Cons.IH [OF Cons.prems(1) one(2)] run_planned_step_result [OF Cons.prems(1) one(1)] by simp
qed

lemma executeProfileSteps_ok:
  assumes "executeProfileSteps env p steps r = (Inr s, es)"
  shows "run_all_steps env p steps (initial_state p r) = (None, s)" "es = os_events s"
    "\<not> (session_used env (os_runner s) \<and> dispose_throws env (os_runner s))"
  using assms by (auto simp: executeProfileSteps_def split: prod.splits if_splits option.splits)

lemma initial_state_simps [simp]:
  "os_events (initial_state p r) = []" "os_stepResults (initial_state p r) = []" "os_runner (initial_state p r) = r"
  by (simp_all add: initial_state_def)

lemma ids_Nil [simp]: "finished_ids [] = []" "started_ids [] = []"
  by (simp_all add: finished_ids_def started_ids_def List.map_filter_def)

lemma blocked_step_fails:
  assumes "run_planned_step env p step q s = (e, s')" and "op_enforced p" and "pl_applicability q \<noteq> NotApplicable"
    and "pl_readiness q = ReadinessBlocked" and "pl_reasonCodes q \<noteq> []" and "failure_fails_profile step"
  shows "os_profileFailingToolFailed s'"
  using assms by (auto simp: run_planned_step_def step_body_def Let_def)

lemma run_all_steps_blocked:
  assumes "step \<in> set steps" and "run_all_steps env p steps s = (None, s')"
    and "planned_of p (step_id step) = Some q" and "op_enforced p" and "pl_applicability q \<noteq> NotApplicable"
    and "pl_readiness q = ReadinessBlocked" and "pl_reasonCodes q \<noteq> []" and "failure_fails_profile step"
  shows "os_profileFailingToolFailed s'"
  using assms(1,2)
proof (induction steps arbitrary: s)
  case Nil
  then show ?case by simp
next
  case (Cons x steps)
  from Cons.prems(2) obtain qx s1 where one: "planned_of p (step_id x) = Some qx" "run_planned_step env p x qx s = (None, s1)"
      "run_all_steps env p steps s1 = (None, s')"
    unfolding run_all_steps_Cons by (auto split: option.splits prod.splits)
  show ?case
  proof (cases "x = step")
    case True
    then have "os_profileFailingToolFailed s1"
      using blocked_step_fails [OF _ assms(4-8)] one assms(3) by simp
    then show ?thesis using run_all_steps_failing [OF one(3)] by simp
  next
    case False
    then show ?thesis using Cons.IH [OF _ one(3)] Cons.prems(1) by simp
  qed
qed

section \<open>Properties\<close>

text \<open>A concrete environment and profile for the witnesses: every step completes with one result.\<close>

definition sample_env :: "unit step_env" where
  "sample_env = \<lparr>run_step = (\<lambda>r step sid t f. (r, Inr \<lparr>ex_toolResults = [],
       ex_stepResults = [StaticResult (sample_tool_result sid Completed)], ex_profileFailingToolFailed = False,
       ex_optionalToolFailed = False\<rparr>)),
     runtime_failure = (\<lambda>r. None), session_used = (\<lambda>r. False), dispose_throws = (\<lambda>r. False)\<rparr>"

definition sample_step :: "string \<Rightarrow> profile_step" where
  "sample_step toolId = \<lparr>st_ref = ToolStep toolId, st_displayName = toolId, st_required = True, st_requirement = None,
     st_timeoutSec = None, st_failurePolicy = FailProfile, st_maxRequests = None\<rparr>"

definition sample_params :: "planned_step list \<Rightarrow> orch_params" where
  "sample_params steps = \<lparr>op_plannedSteps = steps, op_planHash = ''h'', op_enforced = True,
     op_continueOnToolFailure = False, op_timeoutSec = None, op_defaultTimeoutSec = 60, op_diffPlan = None\<rparr>"

lemma sample_env_ok: "one_result_per_step sample_env"
  by (simp add: one_result_per_step_def sample_env_def sample_tool_result_def)

lemma sample_run:
  "\<exists>s es. executeProfileSteps sample_env (sample_params [sample_planned ''osv'']) [sample_step ''osv''] () = (Inr s, es)"
  by (simp add: executeProfileSteps_def run_all_steps_Cons planned_of_def step_id_def sample_params_def sample_planned_def
      sample_step_def jm_of_list_def jm_get_def run_planned_step_def step_body_def diff_not_applicable_def
      execute_body_def sample_env_def Let_def)



text \<open>C6. Fail closed: if the enforced preflight blocked an applicable step whose failure fails the profile, then the execution
  of the profile, when it returns, reports a profile-failing failure, whatever the other steps did.\<close>

theorem preflight_block_fails_profile:
  assumes "executeProfileSteps env p steps r = (Inr s, es)" and "step \<in> set steps"
    and "planned_of p (step_id step) = Some planned" and "op_enforced p"
    and "pl_applicability planned \<noteq> NotApplicable" and "pl_readiness planned = ReadinessBlocked"
    and "pl_reasonCodes planned \<noteq> []" and "failure_fails_profile step"
  shows "os_profileFailingToolFailed s"
  by (rule run_all_steps_blocked [OF assms(2) executeProfileSteps_ok(1) [OF assms(1)] assms(3-8)])

lemma preflight_block_fails_profile_witness:
  "\<exists>s es. executeProfileSteps sample_env
      (sample_params [sample_planned ''osv''\<lparr>pl_readiness := ReadinessBlocked, pl_reasonCodes := [''tool_unavailable'']\<rparr>])
      [sample_step ''osv''] () = (Inr s, es) \<and> os_profileFailingToolFailed s"
proof -
  let ?q = "sample_planned ''osv''\<lparr>pl_readiness := ReadinessBlocked, pl_reasonCodes := [''tool_unavailable'']\<rparr>"
  have "\<exists>s es. executeProfileSteps sample_env (sample_params [?q]) [sample_step ''osv''] () = (Inr s, es)"
    by (simp add: executeProfileSteps_def run_all_steps_Cons planned_of_def step_id_def sample_params_def sample_planned_def
      sample_step_def jm_of_list_def jm_get_def run_planned_step_def step_body_def sample_env_def Let_def)
  then obtain s es where run: "executeProfileSteps sample_env (sample_params [?q]) [sample_step ''osv''] () = (Inr s, es)"
    by blast
  have "planned_of (sample_params [?q]) (step_id (sample_step ''osv'')) = Some ?q"
    by (simp add: planned_of_def step_id_def sample_params_def sample_planned_def sample_step_def jm_of_list_def jm_get_def)
  from preflight_block_fails_profile [OF run _ this] run show ?thesis
    by (auto simp: sample_params_def sample_planned_def sample_step_def failure_fails_profile_def)
qed

text \<open>Stop: once a profile-failing failure is recorded and the profile does not continue on failure, no further step is
  started and the environment is left as it was, though every remaining step still gets its finished event.\<close>

theorem no_step_after_failure:
  assumes "run_all_steps env p steps s = (None, s')" and "os_profileFailingToolFailed s" and "\<not> op_continueOnToolFailure p"
  shows "os_runner s' = os_runner s \<and> started_ids (os_events s') = started_ids (os_events s)
    \<and> finished_ids (os_events s') = finished_ids (os_events s) @ map step_id steps"
  using run_all_steps_stopped [OF assms] run_all_steps_finished [OF assms(1)] by simp

lemma no_step_after_failure_witness:
  "\<exists>s'. run_all_steps sample_env (sample_params [sample_planned ''osv'']) [sample_step ''osv'']
      (initial_state (sample_params []) ()\<lparr>os_profileFailingToolFailed := True\<rparr>) = (None, s')
    \<and> started_ids (os_events s') = [] \<and> finished_ids (os_events s') = [''osv'']"
proof -
  let ?p = "sample_params [sample_planned ''osv'']"
  let ?s = "initial_state (sample_params []) ()\<lparr>os_profileFailingToolFailed := True\<rparr>"
  have "\<exists>s'. run_all_steps sample_env ?p [sample_step ''osv''] ?s = (None, s')"
    by (simp add: run_all_steps_Cons planned_of_def step_id_def sample_params_def sample_planned_def
      sample_step_def jm_of_list_def jm_get_def run_planned_step_def step_body_def sample_env_def Let_def)
  then obtain s' where run: "run_all_steps sample_env ?p [sample_step ''osv''] ?s = (None, s')" by blast
  have "os_profileFailingToolFailed ?s" "\<not> op_continueOnToolFailure ?p" by (simp_all add: sample_params_def)
  from no_step_after_failure [OF run this] run show ?thesis
    by (simp add: step_id_def sample_step_def)
qed

text \<open>Defect. A step whose runtime target was unavailable, and which therefore never ran, has a result with the status
  blocked whose only reason code is not in the registry of reason codes; its normalised form, which is stored with the
  scan, says that its execution completed, with no reason code.\<close>

theorem runtime_blocked_step_normalized_completed:
  assumes "runtimeBlockedStepResult ref required message artifactIds = Some r"
  shows "result_status r = Blocked \<and> nr_execution (normalized_form r) = ExecCompleted
    \<and> nr_reasonCodes (normalized_form r) = []"
proof -
  have "\<not> known_code ''runtime_target_unavailable''"
    by (simp add: known_code_def scan_reason_codes_def)
  then show ?thesis
    using assms by (cases ref) (auto simp: normalized_form_def dast_not_run_def coverage_not_run_def Let_def)
qed

lemma runtime_blocked_step_normalized_completed_witness:
  "\<exists>r. runtimeBlockedStepResult (DastStep ''web-passive-standard'') True ''down'' [] = Some r
     \<and> nr_execution (normalized_form r) = ExecCompleted"
  using runtime_blocked_step_normalized_completed [of "DastStep ''web-passive-standard''" True "''down''" "[]"] by simp

end
