(* ===== verification/ScanProgress.thy ===== *)
theory ScanProgress
  imports StepOrchestrator
begin

text \<open>
  The lifecycle events of a step (\<open>execution/scan-step-lifecycle-events.ts\<close>) and the progress that the user
  interface rebuilds from the plan and the stored events (\<open>execution/scan-progress-projector.ts\<close>).
\<close>

section \<open>Lifecycle events\<close>

record lifecycle_context =
  lx_scanRunId :: string
  lx_displayName :: string
  lx_planned :: planned_step
  lx_position :: nat
  lx_totalSteps :: nat
  lx_planHash :: string

datatype log_level = LogInfo | LogWarn | LogError

record scan_event =
  ev_scanRunId :: string
  ev_level :: log_level
  ev_eventType :: string
  ev_message :: string
  ev_data :: js_record

fun lifecycle_text :: "lifecycle \<Rightarrow> string" where
  "lifecycle_text LcCompleted = ''completed''"
| "lifecycle_text LcFailed = ''failed''"
| "lifecycle_text LcSkipped = ''skipped''"
| "lifecycle_text LcNotApplicable = ''not_applicable''"
| "lifecycle_text LcBlocked = ''blocked''"

definition baseEventData :: "lifecycle_context \<Rightarrow> js_record" where
  "baseEventData c =
     [(''schemaVersion'', JNum 1), (''stepId'', JStr (pl_stepId (lx_planned c))),
      (''kind'', JStr (step_kind_text (pl_kind (lx_planned c)))), (''adapter'', JStr (pl_adapter (lx_planned c))),
      (''displayName'', JStr (lx_displayName c)), (''position'', JNum (of_nat (lx_position c))),
      (''totalSteps'', JNum (of_nat (lx_totalSteps c))), (''required'', JBool (pl_required (lx_planned c))),
      (''planHash'', JStr (lx_planHash c))]"

definition eventLevelForOutcome :: "lifecycle \<Rightarrow> log_level" where
  "eventLevelForOutcome outcome =
     (if outcome = LcFailed then LogError
      else if outcome = LcSkipped \<or> outcome = LcBlocked then LogWarn else LogInfo)"

definition emitScanStepStarted :: "lifecycle_context \<Rightarrow> scan_event" where
  "emitScanStepStarted c =
     \<lparr>ev_scanRunId = lx_scanRunId c, ev_level = LogInfo, ev_eventType = ''scan.step.started'',
      ev_message = pl_stepId (lx_planned c) @ '' started.'', ev_data = baseEventData c\<rparr>"

definition nullable_text :: "string option \<Rightarrow> jsval" where
  "nullable_text x = (case x of None \<Rightarrow> JNull | Some s \<Rightarrow> JStr s)"

definition emitScanStepFinished :: "lifecycle_context \<Rightarrow> lifecycle_details \<Rightarrow> nat option \<Rightarrow> scan_event" where
  "emitScanStepFinished c d durationMs =
     \<lparr>ev_scanRunId = lx_scanRunId c, ev_level = eventLevelForOutcome (lc_outcome d),
      ev_eventType = ''scan.step.finished'',
      ev_message = pl_stepId (lx_planned c) @ '' finished with outcome '' @ lifecycle_text (lc_outcome d) @ ''.'',
      ev_data = baseEventData c @
        [(''outcome'', JStr (lifecycle_text (lc_outcome d))), (''findingCount'', JNum (of_nat (lc_findingCount d))),
         (''reasonCode'', nullable_text (lc_reasonCode d)),
         (''durationMs'', (case durationMs of None \<Rightarrow> JNull | Some ms \<Rightarrow> JNum (of_nat ms)))]\<rparr>"

section \<open>The projection\<close>

record plan_step =
  sp_stepId :: string
  sp_applicability :: applicability

record progress_event =
  pe_seq :: int
  pe_eventType :: string
  pe_data :: js_record

datatype phase =
    Queued
  | ResourcePreparation
  | TargetPreparation
  | ScannerExecution
  | EvidencePersistence
  | CleanupPhase
  | Terminal

datatype projected_status =
    Pending
  | Running
  | StepCompleted
  | StepFailed
  | StepSkipped
  | StepBlocked
  | StepNotApplicable

record progress_step =
  pg_stepId :: string
  pg_status :: projected_status
  pg_safeMessage :: "string option"

record progress_snapshot =
  sn_runId :: string
  sn_planHash :: string
  sn_currentPhase :: phase
  sn_steps :: "progress_step list"
  sn_completedStepCount :: nat
  sn_totalStepCount :: nat
  sn_lastEventSeq :: int

definition phaseForEvent :: "string \<Rightarrow> phase option" where
  "phaseForEvent eventType =
     (if eventType = ''scan.queued'' then Some Queued
      else if eventType = ''scan.started'' then Some ResourcePreparation
      else if eventType = ''scan.cleanup.started'' then Some CleanupPhase
      else if eventType = ''scan.completed'' \<or> eventType = ''scan.failed'' then Some Terminal
      else if eventType = ''scan.step.started'' \<or> eventType = ''scan.step.progress'' \<or> eventType = ''scan.step.finished''
      then Some ScannerExecution
      else None)"

definition finished_status :: "jsval \<Rightarrow> projected_status" where
  "finished_status outcome =
     (if outcome = JStr ''completed'' then StepCompleted
      else if outcome = JStr ''not_applicable'' then StepNotApplicable
      else if outcome = JStr ''blocked'' then StepBlocked
      else if outcome = JStr ''skipped'' then StepSkipped
      else StepFailed)"

record progress_state =
  gp_statuses :: "(string, projected_status) jsmap"
  gp_messages :: "(string, string option) jsmap"
  gp_phase :: phase
  gp_lastSeq :: int

definition project_step :: "string \<Rightarrow> progress_event \<Rightarrow> progress_state \<Rightarrow> progress_state" where
  \<comment> \<open>the part of the loop body after the step is found in the plan\<close>
  "project_step stepId e st =
     (if pe_eventType e = ''scan.step.started'' then st\<lparr>gp_statuses := jm_set stepId Running (gp_statuses st)\<rparr>
      else if pe_eventType e = ''scan.step.finished'' then
        st\<lparr>gp_statuses := jm_set stepId (finished_status (js_prop (pe_data e) ''outcome'')) (gp_statuses st),
           gp_messages := jm_set stepId (js_as_text (js_prop (pe_data e) ''reasonCode'')) (gp_messages st)\<rparr>
      else st)"

definition project_event :: "progress_event \<Rightarrow> progress_state \<Rightarrow> progress_state" where
  "project_event e st =
     (let st' = st\<lparr>gp_lastSeq := max (gp_lastSeq st) (pe_seq e),
                   gp_phase := or_else (phaseForEvent (pe_eventType e)) (gp_phase st)\<rparr>
      in case js_as_text (js_prop (pe_data e) ''stepId'') of
           None \<Rightarrow> st'
         | Some stepId \<Rightarrow>
             (if stepId = [] \<or> \<not> jm_has (gp_statuses st') stepId then st' else project_step stepId e st'))"

definition progress_start :: "plan_step list \<Rightarrow> progress_state" where
  "progress_start steps =
     \<lparr>gp_statuses = jm_of_list (map (\<lambda>s. (sp_stepId s,
        if sp_applicability s = NotApplicable then StepNotApplicable else Pending)) steps),
      gp_messages = [], gp_phase = Queued, gp_lastSeq = 0\<rparr>"

definition replay :: "progress_event list \<Rightarrow> progress_state \<Rightarrow> progress_state" where
  "replay events st = fold project_event events st"

definition progress_step_of :: "progress_state \<Rightarrow> plan_step \<Rightarrow> progress_step" where
  "progress_step_of st s =
     \<lparr>pg_stepId = sp_stepId s, pg_status = or_else (jm_get (gp_statuses st) (sp_stepId s)) Pending,
      pg_safeMessage = or_else (jm_get (gp_messages st) (sp_stepId s)) None\<rparr>"

definition projectScanProgress ::
  "string \<Rightarrow> string \<Rightarrow> plan_step list \<Rightarrow> progress_event list \<Rightarrow> (string, progress_snapshot) result" where
  "projectScanProgress runId planHash steps events =
     (if steps = [] then Inl ''scan_progress_plan_has_no_steps''
      else
        (let st = replay events (progress_start steps);
             projected = map (progress_step_of st) steps
         in Inr \<lparr>sn_runId = runId, sn_planHash = planHash, sn_currentPhase = gp_phase st, sn_steps = projected,
                 sn_completedStepCount = length (filter
                   (\<lambda>s. pg_status s = StepCompleted \<or> pg_status s = StepNotApplicable) projected),
                 sn_totalStepCount = length projected, sn_lastEventSeq = gp_lastSeq st\<rparr>))"

section \<open>Facts\<close>

lemma project_event_keys: "jm_has (gp_statuses (project_event e st)) k = jm_has (gp_statuses st) k"
  by (auto simp: project_event_def project_step_def Let_def jm_has_def jm_keys_set split: option.split)

lemma replay_keys: "jm_has (gp_statuses (replay es st)) k = jm_has (gp_statuses st) k"
  unfolding replay_def by (induction es arbitrary: st) (simp_all add: project_event_keys)

definition event_step :: "progress_event \<Rightarrow> string option" where
  "event_step e = js_as_text (js_prop (pe_data e) ''stepId'')"

definition touches :: "string \<Rightarrow> progress_event \<Rightarrow> bool" where
  "touches i e = (event_step e = Some i
     \<and> (pe_eventType e = ''scan.step.started'' \<or> pe_eventType e = ''scan.step.finished''))"

lemma project_event_other:
  "\<not> touches i e \<Longrightarrow> jm_get (gp_statuses (project_event e st)) i = jm_get (gp_statuses st) i"
  "\<not> touches i e \<Longrightarrow> jm_get (gp_messages (project_event e st)) i = jm_get (gp_messages st) i"
  by (auto simp: project_event_def project_step_def touches_def event_step_def Let_def split: option.split)

lemma replay_other:
  "list_all (\<lambda>e. \<not> touches i e) es \<Longrightarrow> jm_get (gp_statuses (replay es st)) i = jm_get (gp_statuses st) i"
  "list_all (\<lambda>e. \<not> touches i e) es \<Longrightarrow> jm_get (gp_messages (replay es st)) i = jm_get (gp_messages st) i"
  unfolding replay_def by (induction es arbitrary: st) (simp_all add: project_event_other)

lemma project_event_finished:
  assumes "event_step e = Some i" and "i \<noteq> []" and "jm_has (gp_statuses st) i" and "pe_eventType e = ''scan.step.finished''"
  shows "jm_get (gp_statuses (project_event e st)) i = Some (finished_status (js_prop (pe_data e) ''outcome''))"
    "jm_get (gp_messages (project_event e st)) i = Some (js_as_text (js_prop (pe_data e) ''reasonCode''))"
  using assms by (simp_all add: project_event_def project_step_def event_step_def Let_def)

lemma replay_append: "replay (es @ fs) st = replay fs (replay es st)"
  by (simp add: replay_def)

lemma progress_start_has: "s \<in> set steps \<Longrightarrow> jm_has (gp_statuses (progress_start steps)) (sp_stepId s)"
  by (force simp: progress_start_def jm_has_get jm_get_of_list_None)

lemma replay_last_seq: "gp_lastSeq (replay es st) = foldl max (gp_lastSeq st) (map pe_seq es)"
proof (induction es arbitrary: st)
  case Nil
  then show ?case by (simp add: replay_def)
next
  case (Cons e es)
  have "gp_lastSeq (project_event e st) = max (gp_lastSeq st) (pe_seq e)"
    by (auto simp: project_event_def project_step_def Let_def split: option.split)
  then show ?case using Cons [of "project_event e st"] by (simp add: replay_def)
qed

definition shown_after :: "progress_event \<Rightarrow> projected_status" where
  "shown_after e = (if pe_eventType e = ''scan.step.started'' then Running
                    else finished_status (js_prop (pe_data e) ''outcome''))"

lemma touched_by: "touches i e \<Longrightarrow> i \<noteq> [] \<Longrightarrow> jm_has (gp_statuses st) i
    \<Longrightarrow> jm_get (gp_statuses (project_event e st)) i = Some (shown_after e)"
  by (auto simp: touches_def shown_after_def event_step_def project_event_def project_step_def Let_def)

lemma replay_last:
  assumes "jm_has (gp_statuses st) i" and "i \<noteq> []"
  shows "jm_get (gp_statuses (replay es st)) i
    = (case find (touches i) (rev es) of None \<Rightarrow> jm_get (gp_statuses st) i | Some e \<Rightarrow> Some (shown_after e))"
proof (induction es rule: rev_induct)
  case Nil
  then show ?case by (simp add: replay_def)
next
  case (snoc e es)
  have "replay (es @ [e]) st = project_event e (replay es st)" by (simp add: replay_def)
  then show ?case
    using snoc touched_by [OF _ assms(2), of e "replay es st"] project_event_other(1) [of i e "replay es st"] assms(1)
    by (simp add: replay_keys)
qed

section \<open>The events of a run of the orchestrator\<close>

fun is_lifecycle :: "orch_event \<Rightarrow> bool" where
  "is_lifecycle (StepStarted _) = True"
| "is_lifecycle (StepFinished _ _) = True"
| "is_lifecycle _ = False"

fun about :: "string \<Rightarrow> orch_event \<Rightarrow> bool" where
  "about i (StepStarted j) = (i = j)"
| "about i (StepFinished j _) = (i = j)"
| "about i _ = False"

fun recorded_as :: "(string \<Rightarrow> lifecycle_context) \<Rightarrow> (string \<Rightarrow> nat option) \<Rightarrow> orch_event \<Rightarrow> progress_event \<Rightarrow> bool" where
  \<comment> \<open>the stored event of a lifecycle event, whatever its sequence number\<close>
  "recorded_as ctx dur (StepStarted i) e =
     (pe_eventType e = ev_eventType (emitScanStepStarted (ctx i)) \<and> pe_data e = ev_data (emitScanStepStarted (ctx i)))"
| "recorded_as ctx dur (StepFinished i d) e =
     (pe_eventType e = ev_eventType (emitScanStepFinished (ctx i) d (dur i))
      \<and> pe_data e = ev_data (emitScanStepFinished (ctx i) d (dur i)))"
| "recorded_as ctx dur _ e = False"

definition is_step_event :: "progress_event \<Rightarrow> bool" where
  "is_step_event e = (pe_eventType e = ''scan.step.started'' \<or> pe_eventType e = ''scan.step.finished'')"

definition own_contexts :: "(string \<Rightarrow> lifecycle_context) \<Rightarrow> bool" where
  "own_contexts ctx = (\<forall>i. pl_stepId (lx_planned (ctx i)) = i)"

lemma recorded_touches:
  assumes "own_contexts ctx" and "recorded_as ctx dur v e"
  shows "touches i e = about i v"
  using assms
  by (cases v) (auto simp: own_contexts_def touches_def event_step_def emitScanStepStarted_def emitScanStepFinished_def
      baseEventData_def js_prop_def jm_get_def js_as_text_def)

lemma recorded_finish:
  "recorded_as ctx dur (StepFinished i d) e \<Longrightarrow> shown_after e \<noteq> Running \<and> shown_after e \<noteq> Pending"
  by (auto simp: shown_after_def finished_status_def emitScanStepFinished_def)

lemma find_recorded:
  assumes "list_all2 (recorded_as ctx dur) vs es" and "own_contexts ctx" and "find (about i) vs = Some v"
  shows "\<exists>e. find (touches i) es = Some e \<and> recorded_as ctx dur v e"
  using assms(1,3)
proof (induction rule: list_all2_induct)
  case Nil
  then show ?case by simp
next
  case (Cons x xs y ys)
  then show ?case using recorded_touches [OF assms(2), of dur x y i] by (auto split: if_splits)
qed

lemma find_filter: "(\<And>x. P x \<Longrightarrow> Q x) \<Longrightarrow> find P (filter Q xs) = find P xs"
  by (induction xs) auto

lemma step_body_events:
  assumes "step_body env p step sid planned s = (e, fl, s')"
  shows "\<exists>mid. os_events s' = os_events s @ mid \<and> list_all (\<lambda>v. is_lifecycle v \<longrightarrow> v = StepStarted sid) mid"
  using assms by (auto simp: step_body_def execute_body_def Let_def split: if_splits option.splits prod.splits sum.splits)

lemma run_planned_step_last:
  assumes "run_planned_step env p step planned s = (e, s')" and "pl_stepId planned = step_id step"
  shows "\<exists>mid d. os_events s' = os_events s @ mid @ [StepFinished (step_id step) d]
    \<and> list_all (\<lambda>v. is_lifecycle v \<longrightarrow> v = StepStarted (step_id step)) mid"
  using assms step_body_events [of env p step "step_id step" planned s]
  by (auto simp: run_planned_step_def step_id_def Let_def split: prod.splits)

definition settled_at :: "string \<Rightarrow> orch_event list \<Rightarrow> bool" where
  "settled_at i es = (case find (about i) (rev es) of Some (StepFinished _ _) \<Rightarrow> True | _ \<Rightarrow> False)"

lemma find_holds: "find P xs = Some x \<Longrightarrow> P x"
  by (induction xs) (auto split: if_splits)

lemma settled_atE:
  assumes "settled_at i es" obtains d where "find (about i) (rev es) = Some (StepFinished i d)"
proof -
  from assms obtain j d where found: "find (about i) (rev es) = Some (StepFinished j d)"
    by (auto simp: settled_at_def split: option.splits orch_event.splits)
  then have "about i (StepFinished j d)" by (rule find_holds)
  then show thesis using found that by simp
qed

lemma about_lifecycle: "about i v \<Longrightarrow> is_lifecycle v"
  by (cases v) auto

lemma touches_step_event: "touches i e \<Longrightarrow> is_step_event e"
  by (auto simp: touches_def is_step_event_def)

lemma find_none_about: "list_all (\<lambda>v. is_lifecycle v \<longrightarrow> v = StepStarted j) mid \<Longrightarrow> i \<noteq> j \<Longrightarrow> find (about i) (rev mid) = None"
  by (auto simp: find_None_iff list_all_iff elim!: about.elims)

lemma find_append: "find P (xs @ ys) = (case find P xs of Some x \<Rightarrow> Some x | None \<Rightarrow> find P ys)"
  by (induction xs) auto

lemma settled_step:
  assumes "run_planned_step env p step planned s = (e, s')" and "pl_stepId planned = step_id step"
  shows "settled_at (step_id step) (os_events s')"
    and "settled_at i (os_events s) \<Longrightarrow> settled_at i (os_events s')"
proof -
  obtain mid d where ev: "os_events s' = os_events s @ mid @ [StepFinished (step_id step) d]"
    and mid: "list_all (\<lambda>v. is_lifecycle v \<longrightarrow> v = StepStarted (step_id step)) mid"
    using run_planned_step_last [OF assms] by blast
  show own: "settled_at (step_id step) (os_events s')" by (simp add: ev settled_at_def)
  show "settled_at i (os_events s')" if "settled_at i (os_events s)"
  proof (cases "i = step_id step")
    case True
    then show ?thesis using own by simp
  next
    case False
    then show ?thesis using that find_none_about [OF mid False] by (simp add: ev settled_at_def find_append)
  qed
qed

lemma run_all_steps_settled:
  "run_all_steps env p steps s = (None, s') \<Longrightarrow> i \<in> set (map step_id steps) \<or> settled_at i (os_events s)
    \<Longrightarrow> settled_at i (os_events s')"
proof (induction steps arbitrary: s)
  case Nil
  then show ?case by simp
next
  case (Cons x steps)
  from Cons.prems(1) obtain q s1 where one: "planned_of p (step_id x) = Some q" "run_planned_step env p x q s = (None, s1)"
      "run_all_steps env p steps s1 = (None, s')"
    unfolding run_all_steps_Cons by (auto split: option.splits prod.splits)
  have "i \<in> set (map step_id steps) \<or> settled_at i (os_events s1)"
    using Cons.prems(2) settled_step [OF one(2) planned_of_id [OF one(1)]] by auto
  then show ?case by (rule Cons.IH [OF one(3)])
qed

section \<open>Properties\<close>

text \<open>The last lifecycle event of a step decides its status: if an event says that a step of the plan finished and no
  later event starts or finishes it, the snapshot shows the outcome and the reason of that event, whatever came before,
  and it lists the steps of the plan in order.\<close>

theorem last_event_decides:
  assumes "projectScanProgress run ph steps (es @ e # fs) = Inr snap" and "s \<in> set steps"
    and "event_step e = Some (sp_stepId s)" and "sp_stepId s \<noteq> []" and "pe_eventType e = ''scan.step.finished''"
    and "list_all (\<lambda>f. \<not> touches (sp_stepId s) f) fs"
  shows "map pg_stepId (sn_steps snap) = map sp_stepId steps
    \<and> \<lparr>pg_stepId = sp_stepId s, pg_status = finished_status (js_prop (pe_data e) ''outcome''),
       pg_safeMessage = js_as_text (js_prop (pe_data e) ''reasonCode'')\<rparr> \<in> set (sn_steps snap)"
proof -
  let ?i = "sp_stepId s" and ?mid = "replay es (progress_start steps)"
  have has: "jm_has (gp_statuses ?mid) ?i"
    by (simp add: replay_keys progress_start_has [OF assms(2)])
  have st: "replay (es @ e # fs) (progress_start steps) = replay fs (project_event e ?mid)"
    by (simp add: replay_def)
  have "jm_get (gp_statuses (replay fs (project_event e ?mid))) ?i = Some (finished_status (js_prop (pe_data e) ''outcome''))"
    "jm_get (gp_messages (replay fs (project_event e ?mid))) ?i = Some (js_as_text (js_prop (pe_data e) ''reasonCode''))"
    using replay_other [OF assms(6)] project_event_finished [OF assms(3,4) has assms(5)] by simp_all
  then have "progress_step_of (replay (es @ e # fs) (progress_start steps)) s
      = \<lparr>pg_stepId = ?i, pg_status = finished_status (js_prop (pe_data e) ''outcome''),
         pg_safeMessage = js_as_text (js_prop (pe_data e) ''reasonCode'')\<rparr>"
    by (simp add: progress_step_of_def st)
  moreover have "sn_steps snap = map (progress_step_of (replay (es @ e # fs) (progress_start steps))) steps"
    using assms(1) by (auto simp: projectScanProgress_def Let_def split: if_splits)
  moreover have "map pg_stepId (map (progress_step_of st) steps) = map sp_stepId steps" for st
    by (simp add: progress_step_of_def)
  moreover have "progress_step_of st s \<in> set (map (progress_step_of st) steps)" for st
    using assms(2) by simp
  ultimately show ?thesis by metis
qed



definition sample_event :: "string \<Rightarrow> string \<Rightarrow> js_record \<Rightarrow> progress_event" where
  "sample_event t i extra = \<lparr>pe_seq = 1, pe_eventType = t, pe_data = (''stepId'', JStr i) # extra\<rparr>"

lemma last_event_decides_witness:
  "\<exists>snap. projectScanProgress ''r'' ''h'' [\<lparr>sp_stepId = ''osv'', sp_applicability = Applicable\<rparr>]
      [sample_event ''scan.step.started'' ''osv'' [],
       sample_event ''scan.step.finished'' ''osv'' [(''outcome'', JStr ''blocked''), (''reasonCode'', JStr ''preflight_failed'')],
       sample_event ''tool.not_applicable'' ''osv'' []] = Inr snap
    \<and> \<lparr>pg_stepId = ''osv'', pg_status = StepBlocked, pg_safeMessage = Some ''preflight_failed''\<rparr> \<in> set (sn_steps snap)"
proof -
  let ?s = "\<lparr>sp_stepId = ''osv'', sp_applicability = Applicable\<rparr>"
  let ?e = "sample_event ''scan.step.finished'' ''osv'' [(''outcome'', JStr ''blocked''), (''reasonCode'', JStr ''preflight_failed'')]"
  obtain snap where run: "projectScanProgress ''r'' ''h'' [?s] ([sample_event ''scan.step.started'' ''osv'' []]
      @ ?e # [sample_event ''tool.not_applicable'' ''osv'' []]) = Inr snap"
    by (simp add: projectScanProgress_def Let_def)
  have pe: "pe_eventType ?e = ''scan.step.finished''" "js_prop (pe_data ?e) ''outcome'' = JStr ''blocked''"
    "js_prop (pe_data ?e) ''reasonCode'' = JStr ''preflight_failed''" "event_step ?e = Some ''osv''"
    by (simp_all add: sample_event_def js_prop_def jm_get_def event_step_def js_as_text_def)
  have "list_all (\<lambda>f. \<not> touches ''osv'' f) [sample_event ''tool.not_applicable'' ''osv'' []]"
    by (simp add: touches_def sample_event_def)
  from last_event_decides [OF run, of ?s] this pe run show ?thesis
    by (simp add: finished_status_def js_as_text_def)
qed

text \<open>C20. Execution and progress agree: when the execution of a profile has returned, the snapshot rebuilt from the
  stored lifecycle events of the run, with any other events in between, shows no step of the profile as pending or
  running, whether the step was run, blocked, skipped or not applicable.\<close>

theorem finished_run_shows_no_open_step:
  assumes "executeProfileSteps env p steps r = (Inr s, es)"
    and "list_all2 (recorded_as ctx dur) (filter is_lifecycle es) (filter is_step_event events)" and "own_contexts ctx"
    and "list_all (\<lambda>q. sp_stepId q \<noteq> [] \<and> sp_stepId q \<in> set (map step_id steps)) plan"
    and "projectScanProgress run ph plan events = Inr snap"
  shows "list_all (\<lambda>q. pg_status q \<noteq> Pending \<and> pg_status q \<noteq> Running) (sn_steps snap)"
proof -
  have shown: "pg_status (progress_step_of (replay events (progress_start plan)) q) \<notin> {Pending, Running}" if "q \<in> set plan" for q
  proof -
    let ?i = "sp_stepId q"
    have "?i \<noteq> []" and "?i \<in> set (map step_id steps)" using assms(4) that by (auto simp: list_all_iff)
    then have "settled_at ?i es"
      using run_all_steps_settled [OF executeProfileSteps_ok(1) [OF assms(1)]] executeProfileSteps_ok(2) [OF assms(1)] by simp
    then obtain d where "find (about ?i) (rev es) = Some (StepFinished ?i d)" by (rule settled_atE)
    then have "find (about ?i) (rev (filter is_lifecycle es)) = Some (StepFinished ?i d)"
      by (simp add: rev_filter find_filter about_lifecycle)
    then obtain e where "find (touches ?i) (rev (filter is_step_event events)) = Some e"
        "recorded_as ctx dur (StepFinished ?i d) e"
      using find_recorded [OF _ assms(3)] assms(2) by (metis list_all2_rev)
    then have "find (touches ?i) (rev events) = Some e" "shown_after e \<notin> {Pending, Running}"
      using recorded_finish [of ctx dur ?i d e] by (simp_all add: rev_filter find_filter touches_step_event)
    then show ?thesis
      using replay_last [OF progress_start_has [OF that] \<open>?i \<noteq> []\<close>, of events] by (simp add: progress_step_of_def)
  qed
  moreover have "sn_steps snap = map (progress_step_of (replay events (progress_start plan))) plan"
    using assms(5) by (auto simp: projectScanProgress_def Let_def split: if_splits)
  ultimately show ?thesis by (auto simp: list_all_iff)
qed


lemma finished_run_shows_no_open_step_witness:
  "\<exists>s es events snap. executeProfileSteps sample_env (sample_params [sample_planned ''osv'']) [sample_step ''osv''] ()
      = (Inr s, es)
    \<and> projectScanProgress ''r'' ''h'' [\<lparr>sp_stepId = ''osv'', sp_applicability = Applicable\<rparr>] events = Inr snap
    \<and> list_all (\<lambda>q. pg_status q \<noteq> Pending \<and> pg_status q \<noteq> Running) (sn_steps snap)"
proof -
  let ?ctx = "\<lambda>i. \<lparr>lx_scanRunId = ''r'', lx_displayName = i, lx_planned = sample_planned i, lx_position = 1,
    lx_totalSteps = 1, lx_planHash = ''h''\<rparr>"
  let ?run = "executeProfileSteps sample_env (sample_params [sample_planned ''osv'']) [sample_step ''osv''] ()"
  obtain s d where run: "?run = (Inr s, [StepStarted ''osv'', StepFinished ''osv'' d])"
    by (simp add: executeProfileSteps_def run_all_steps_Cons planned_of_def step_id_def sample_params_def
      sample_planned_def sample_step_def jm_of_list_def jm_get_def run_planned_step_def step_body_def
      diff_not_applicable_def execute_body_def sample_env_def initial_state_def emit_def Let_def)
  let ?ev = "\<lambda>n x. \<lparr>pe_seq = n, pe_eventType = ev_eventType x, pe_data = ev_data x\<rparr>"
  let ?events = "[?ev 1 (emitScanStepStarted (?ctx ''osv'')), ?ev 2 (emitScanStepFinished (?ctx ''osv'') d (Some 5))]"
  obtain snap where snap: "projectScanProgress ''r'' ''h'' [\<lparr>sp_stepId = ''osv'', sp_applicability = Applicable\<rparr>] ?events = Inr snap"
    by (simp add: projectScanProgress_def Let_def)
  have "list_all2 (recorded_as ?ctx (\<lambda>i. Some 5)) (filter is_lifecycle [StepStarted ''osv'', StepFinished ''osv'' d])
      (filter is_step_event ?events)"
    by (simp add: is_step_event_def emitScanStepStarted_def emitScanStepFinished_def)
  from finished_run_shows_no_open_step [OF run this _ _ snap] run snap show ?thesis
    by (force simp: own_contexts_def sample_planned_def step_id_def sample_step_def)
qed

end
