(* ===== verification/StableJson.thy ===== *)
theory StableJson
  imports JsValue
begin

text \<open>
  The canonical JSON text that the plans are hashed by: \<open>canonicalJson\<close> of
  \<open>api/modules/scans/execution/diff/diff-scan-plan.ts\<close>. It sorts the entries of every object with
  \<open>localeCompare\<close>, rebuilds the object and prints it with \<open>JSON.stringify\<close>. A rebuilt object enumerates the
  keys that are array indices first, and printing leaves out undefined entries; both are part of the model.
\<close>

section \<open>Rebuilt objects\<close>

definition array_index :: "string \<Rightarrow> nat option" where
  \<comment> \<open>the keys that are array indices: the decimal text of a number below \<open>2 ^ 32 - 1\<close>\<close>
  "array_index k =
     (if k \<noteq> [] \<and> list_all is_digit k \<and> length k \<le> 10 \<and> nat_str (digits_value k) = k
         \<and> int (digits_value k) < 4294967295
      then Some (digits_value k) else None)"

definition index_compare :: "string \<times> 'a \<Rightarrow> string \<times> 'a \<Rightarrow> int" where
  "index_compare e f = int (or_else (array_index (fst e)) 0) - int (or_else (array_index (fst f)) 0)"

definition own_keys_order :: "(string \<times> 'a) list \<Rightarrow> (string \<times> 'a) list" where
  "own_keys_order es =
     js_sort index_compare (filter (\<lambda>e. array_index (fst e) \<noteq> None) es) @ filter (\<lambda>e. array_index (fst e) = None) es"

definition entries_sorted :: "collation \<Rightarrow> (string \<times> 'a) list \<Rightarrow> (string \<times> 'a) list" where
  "entries_sorted lc es = js_sort (\<lambda>a b. lc (fst a) (fst b)) es"

lemma size_entry: "e \<in> set es \<Longrightarrow> size (snd e) < size (JObj es)"
  by (induction es) (auto simp: size_prod_simp)

function canonicalize :: "collation \<Rightarrow> jsval \<Rightarrow> jsval" where
  "canonicalize lc (JArr vs) = JArr (map (canonicalize lc) vs)"
| "canonicalize lc (JObj es) =
     JObj (own_keys_order (map (\<lambda>e. (fst e, canonicalize lc (snd e))) (entries_sorted lc es)))"
| "canonicalize lc JUndef = JUndef"
| "canonicalize lc JNull = JNull"
| "canonicalize lc (JBool b) = JBool b"
| "canonicalize lc (JNum r) = JNum r"
| "canonicalize lc (JStr s) = JStr s"
  by pat_completeness auto
termination
proof (relation "measure (\<lambda>(lc, v). size v)", goal_cases)
  case 1
  then show ?case by simp
next
  case (2 lc vs v)
  then show ?case by (induction vs) auto
next
  case (3 lc es e)
  then show ?case using size_entry [of e es] by (simp add: entries_sorted_def del: jsval.size)
qed

function stringify :: "jsval \<Rightarrow> string" where
  \<comment> \<open>\<open>JSON.stringify\<close>; an undefined item of an array prints as null, an undefined entry not at all\<close>
  "stringify (JArr vs) = ''['' @ join_with '','' (map stringify vs) @ '']''"
| "stringify (JObj es) =
     ''{'' @ join_with '','' (map (\<lambda>e. json_string (fst e) @ '':'' @ stringify (snd e))
        (filter (\<lambda>e. snd e \<noteq> JUndef) es)) @ ''}''"
| "stringify JUndef = ''null''"
| "stringify JNull = ''null''"
| "stringify (JBool b) = (if b then ''true'' else ''false'')"
| "stringify (JNum r) = number_text r"
| "stringify (JStr s) = json_string s"
  by pat_completeness auto
termination
proof (relation "measure size", goal_cases)
  case 1
  then show ?case by simp
next
  case (2 vs v)
  then show ?case by (induction vs) auto
next
  case (3 es e)
  then show ?case using size_entry [of e es] by (simp del: jsval.size)
qed

definition canonicalJson :: "collation \<Rightarrow> jsval \<Rightarrow> string" where
  "canonicalJson lc v = stringify (canonicalize lc v)"

section \<open>The order of entries does not matter\<close>

text \<open>Two values are the same up to the order in which the entries of their objects were inserted.\<close>

inductive same_json :: "jsval \<Rightarrow> jsval \<Rightarrow> bool" where
  same_refl: "same_json v v"
| same_arr: "list_all2 same_json vs ws \<Longrightarrow> same_json (JArr vs) (JArr ws)"
| same_obj: "list_all2 (\<lambda>e f. fst e = fst f \<and> same_json (snd e) (snd f)) es fs \<Longrightarrow> mset fs = mset gs
    \<Longrightarrow> same_json (JObj es) (JObj gs)"

fun tells_keys_apart :: "collation \<Rightarrow> jsval \<Rightarrow> bool" where
  \<comment> \<open>every object in the value has distinct keys, and the collation does not equate two of them\<close>
  "tells_keys_apart lc (JArr vs) = list_all (tells_keys_apart lc) vs"
| "tells_keys_apart lc (JObj es) =
     (distinct (map fst es) \<and> list_all (\<lambda>k. list_all (\<lambda>k'. lc k k' = 0 \<longrightarrow> k = k') (map fst es)) (map fst es)
      \<and> list_all (\<lambda>e. tells_keys_apart lc (snd e)) es)"
| "tells_keys_apart lc _ = True"

lemma entries_sorted_perm:
  assumes "comparator lc" and "mset es = mset es'" and "distinct (map fst es)"
    and "\<And>k k'. k \<in> fst ` set es \<Longrightarrow> k' \<in> fst ` set es \<Longrightarrow> lc k k' = 0 \<Longrightarrow> k = k'"
  shows "entries_sorted lc es = entries_sorted lc es'"
proof -
  have keys: "e = e'" if "e \<in> set es" "e' \<in> set es" "lc (fst e) (fst e') = 0" for e e'
    using assms(4) [of "fst e" "fst e'"] that assms(3) by (metis eq_key_imp_eq_value image_eqI prod.collapse)
  show ?thesis unfolding entries_sorted_def
    by (rule comparator.js_sort_perm [OF comparator_on [OF assms(1)] assms(2)]) (rule keys)
qed

lemma sort_entries_map:
  fixes f :: "'a \<Rightarrow> 'a"
  shows "map (\<lambda>e. (fst e, f (snd e))) (entries_sorted lc es) = entries_sorted lc (map (\<lambda>e. (fst e, f (snd e))) es)"
  unfolding entries_sorted_def by (rule js_sort_map [symmetric, of _ "\<lambda>e. (fst e, f (snd e))"]) simp

lemma canonicalize_same:
  assumes "same_json v w" and "comparator lc" and "tells_keys_apart lc v"
  shows "canonicalize lc v = canonicalize lc w"
  using assms(1,3)
proof (induction rule: same_json.induct)
  case (same_refl v)
  then show ?case by simp
next
  case (same_arr vs ws)
  have "map (canonicalize lc) vs = map (canonicalize lc) ws"
    using same_arr(1) same_arr(2) by (induction rule: list_all2_induct) auto
  then show ?case by simp
next
  case (same_obj es fs gs)
  let ?c = "\<lambda>e. (fst e, canonicalize lc (snd e))"
  have inner: "list_all (\<lambda>e. tells_keys_apart lc (snd e)) es" using same_obj(3) by simp
  have "map ?c es = map ?c fs \<and> map fst es = map fst fs"
    using same_obj(1) inner by (induction rule: list_all2_induct) auto
  then have eq: "map ?c es = map ?c fs" "map fst es = map fst fs" by auto
  have "entries_sorted lc (map ?c fs) = entries_sorted lc (map ?c gs)"
  proof (rule entries_sorted_perm [OF assms(2)])
    show "mset (map ?c fs) = mset (map ?c gs)" using same_obj(2) by simp
    show "distinct (map fst (map ?c fs))" using same_obj(3) eq(2) by (simp add: comp_def)
    show "k = k'" if "k \<in> fst ` set (map ?c fs)" "k' \<in> fst ` set (map ?c fs)" "lc k k' = 0" for k k'
    proof -
      have "k \<in> set (map fst es)" "k' \<in> set (map fst es)" using that(1,2) unfolding eq(2) by force+
      then show ?thesis using same_obj(3) that(3) by (auto simp: list_all_iff)
    qed
  qed
  then show ?case by (simp add: sort_entries_map eq(1))
qed

section \<open>Property\<close>

text \<open>Stable hashes: the text a plan is hashed by does not depend on the order in which the entries of its objects were
  inserted, at any depth, if the collation tells the keys of each object apart.\<close>

theorem hashed_text_order_free:
  assumes "same_json v w" and "comparator lc" and "tells_keys_apart lc v"
  shows "canonicalJson lc v = canonicalJson lc w"
  by (simp add: canonicalJson_def canonicalize_same [OF assms])

lemma hashed_text_order_free_witness:
  "canonicalJson code_unit_compare (JObj [(''b'', JObj [(''x'', JNull), (''y'', JBool True)]), (''a'', JNum 1)])
   = canonicalJson code_unit_compare (JObj [(''a'', JNum 1), (''b'', JObj [(''y'', JBool True), (''x'', JNull)])])"
proof (rule hashed_text_order_free [OF _ code_unit.comparator_axioms])
  have inner: "same_json (JObj [(''x'', JNull), (''y'', JBool True)]) (JObj [(''y'', JBool True), (''x'', JNull)])"
    by (rule same_obj [where fs = "[(''x'', JNull), (''y'', JBool True)]"]) (auto intro: same_refl)
  show "same_json (JObj [(''b'', JObj [(''x'', JNull), (''y'', JBool True)]), (''a'', JNum 1)])
      (JObj [(''a'', JNum 1), (''b'', JObj [(''y'', JBool True), (''x'', JNull)])])"
    by (rule same_obj [where fs = "[(''b'', JObj [(''y'', JBool True), (''x'', JNull)]), (''a'', JNum 1)]"])
      (auto intro: same_refl inner)
qed simp

end
