(* ===== verification/ExecutionPlan.thy ===== *)
theory ExecutionPlan
  imports StepOrchestrator StableJson
begin

text \<open>
  The immutable execution contract compiled after the preflight
  (\<open>api/modules/scans/execution/scan-execution-plan-builder.ts\<close>) with the schema that validates it
  (\<open>shared/schemas/scan-execution-plan.schema.ts\<close>). The text format of a UUID is the schema library's and
  enters as a predicate.
\<close>

section \<open>The preflight\<close>

datatype check_status = CheckReady | CheckBlocked | CheckNotApplicable

record preflight_check =
  ck_stepId :: string
  ck_kind :: string
  ck_required :: bool
  ck_status :: check_status
  ck_reasonCode :: "string option"
  ck_evidenceRefs :: "string list"

datatype source_state = SourceClean | SourceDirty | SourceUnknown

record preflight_binding =
  pb_resolvedProfileHash :: string
  pb_scannerManifestHash :: "string option"
  pb_scannerVersionsHash :: string
  pb_dockerImagesHash :: "string option"
  pb_targetPlanHash :: "string option"
  pb_sourceRevisionHash :: "string option"

record preflight =
  pf_sourceRevision :: "string option"
  pf_sourceState :: source_state
  pf_createdAt :: string
  pf_checks :: "preflight_check list"
  pf_limitationCodes :: "string list"
  pf_binding :: preflight_binding
  pf_bindingHash :: string
  pf_preflightHash :: string

section \<open>The plan\<close>

datatype runner = HostRunner | DockerRunner

datatype plan_version = V1 | V2 | V3

record runtime_isolation =
  ri_planHash :: string
  ri_qualificationHash :: string
  ri_sourceSnapshotDigest :: string
  ri_projectionDigest :: string
  ri_recipeHash :: string
  ri_dependencyLockDigest :: string
  ri_dockerDaemonIdentityHash :: string
  ri_imageDigests :: "(string, string) jsmap"
  ri_databaseMode :: string

record step_contract = planned_step +
  sv_inputBindingHash :: string
  sv_policyHash :: string
  sv_timeoutSec :: nat
  sv_maxRequests :: "nat option"
  sv_cleanupRequired :: bool

record contract_v2 =
  c2_capabilityRequirements :: "capability_entry list"
  c2_networkPolicy :: string
  c2_steps :: "step_contract list"

record plan_contract =
  cn_projectId :: string
  cn_profileId :: string
  cn_strictness :: strictness
  cn_sourceRevision :: "string option"
  cn_binding :: preflight_binding
  cn_sourceSnapshotDigest :: "string option"
  cn_sourceState :: source_state
  cn_technologyRegistryDigest :: "string option"
  cn_runner :: runner
  cn_preflightBindingHash :: string
  cn_qualificationHash :: "string option"
  cn_blockerCodes :: "string list"
  cn_warningCodes :: "string list"
  cn_steps :: "planned_step list"
  cn_v2 :: "contract_v2 option"
  cn_runtimeIsolation :: "runtime_isolation option"

record execution_plan = plan_contract +
  ep_scanRunId :: string
  ep_createdAt :: string
  ep_preflightHash :: string
  ep_planHash :: string

record plan_request =
  rq_scanRunId :: string
  rq_projectId :: string
  rq_profile :: scan_profile
  rq_steps :: "profile_step list"
  rq_preflight :: preflight
  rq_qualificationHash :: "string option"
  rq_technologyRegistryDigest :: "string option"
  rq_sourceSnapshotDigest :: "string option"
  rq_runner :: "runner option"
  rq_schemaVersion :: "plan_version option"
  rq_runtimeIsolation :: "runtime_isolation option"

section \<open>Planning one step\<close>

fun adapterForStep :: "step_ref \<Rightarrow> string" where
  "adapterForStep (ToolStep toolId) = toolId"
| "adapterForStep (DastStep profileId) = profileId"
| "adapterForStep (AdapterStep kind adapter) = adapter"

definition uniqueSorted :: "string option list \<Rightarrow> string list" where
  "uniqueSorted values = sorted_set (concat (map truthy_list values))"

definition advisory_step :: "profile_step \<Rightarrow> bool" where
  "advisory_step step = (st_requirement step = Some StepAdvisory \<or> st_requirement step = Some StepInventory)"

definition checks_of :: "preflight \<Rightarrow> string \<Rightarrow> preflight_check list" where
  "checks_of pf stepId = filter (\<lambda>c. ck_stepId c = stepId) (pf_checks pf)"

definition plan_step_of :: "strictness \<Rightarrow> preflight \<Rightarrow> profile_step \<Rightarrow> planned_step" where
  "plan_step_of strict pf step =
     (let stepId = scanProfileStepId (st_ref step);
          checks = checks_of pf stepId;
          notApplicable = list_ex (\<lambda>c. ck_status c = CheckNotApplicable) checks;
          blocked = list_ex (\<lambda>c. ck_status c = CheckBlocked) checks;
          required = (if advisory_step step then False
                      else if strict = Strict then \<not> notApplicable else st_required step)
      in \<lparr>pl_stepId = stepId, pl_kind = step_kind_of (st_ref step), pl_adapter = adapterForStep (st_ref step),
          pl_required = required,
          pl_applicability = (if notApplicable then NotApplicable
            else if checks = [] then UnknownApplicability else Applicable),
          pl_readiness = (if blocked then ReadinessBlocked else if checks = [] then Unchecked else Ready),
          pl_requirement = or_else (st_requirement step) (if required then StepRequiredIfApplicable else StepAdvisory),
          pl_reasonCodes = uniqueSorted (map ck_reasonCode checks),
          pl_evidenceRefs = uniqueSorted (map Some (concat (map ck_evidenceRefs checks)))\<rparr>)"

definition blocker_codes :: "preflight \<Rightarrow> string list" where
  "blocker_codes pf = uniqueSorted (map ck_reasonCode
     (filter (\<lambda>c. ck_required c \<and> ck_status c = CheckBlocked) (pf_checks pf)))"

definition warning_codes :: "preflight \<Rightarrow> string list" where
  "warning_codes pf = uniqueSorted (map Some
     (filter (\<lambda>code. code \<notin> set (blocker_codes pf)) (pf_limitationCodes pf)))"

definition qualification_prefix :: string where
  "qualification_prefix = ''scanner-e2e-qualification:''"

definition qualification_hash :: "string option \<Rightarrow> preflight \<Rightarrow> string option" where
  "qualification_hash given pf =
     opt_else given
       (case find (\<lambda>c. ck_kind c = ''scanner_e2e_qualification'') (pf_checks pf) of
          None \<Rightarrow> None
        | Some c \<Rightarrow> map_option (drop (length qualification_prefix))
            (find (\<lambda>ref. starts_with ref qualification_prefix) (ck_evidenceRefs c)))"

section \<open>The contract and its hash\<close>

fun planned_requirement_text :: "step_requirement \<Rightarrow> string" where
  "planned_requirement_text StepRequiredIfApplicable = ''required_if_applicable''"
| "planned_requirement_text StepAdvisory = ''advisory''"
| "planned_requirement_text StepInventory = ''inventory''"

fun readiness_text :: "readiness \<Rightarrow> string" where
  "readiness_text Ready = ''ready''"
| "readiness_text ReadinessBlocked = ''blocked''"
| "readiness_text Unchecked = ''unchecked''"

fun runner_text :: "runner \<Rightarrow> string" where
  "runner_text HostRunner = ''host''"
| "runner_text DockerRunner = ''docker''"

fun source_state_text :: "source_state \<Rightarrow> string" where
  "source_state_text SourceClean = ''clean''"
| "source_state_text SourceDirty = ''dirty''"
| "source_state_text SourceUnknown = ''unknown''"

definition hashPreflightValue :: "host \<Rightarrow> string \<Rightarrow> string" where
  "hashPreflightValue h value = ''sha256:'' @ sha256_hex h value"

definition plan_value_hash :: "host \<Rightarrow> jsval \<Rightarrow> string" where
  "plan_value_hash h v = hashPreflightValue h (canonicalJson (locale_compare h) v)"

definition step_entries :: "planned_step \<Rightarrow> (string \<times> jsval) list" where
  "step_entries s =
     [(''stepId'', JStr (pl_stepId s)), (''kind'', JStr (step_kind_text (pl_kind s))),
      (''adapter'', JStr (pl_adapter s)), (''required'', JBool (pl_required s)),
      (''applicability'', JStr (applicability_text (pl_applicability s))),
      (''readiness'', JStr (readiness_text (pl_readiness s))),
      (''requirement'', JStr (planned_requirement_text (pl_requirement s))),
      (''reasonCodes'', JArr (map JStr (pl_reasonCodes s))), (''evidenceRefs'', JArr (map JStr (pl_evidenceRefs s)))]"

definition nullable_number :: "nat option \<Rightarrow> jsval" where
  "nullable_number x = (case x of None \<Rightarrow> JNull | Some n \<Rightarrow> JNum (of_nat n))"

definition nullable_string :: "string option \<Rightarrow> jsval" where
  "nullable_string x = (case x of None \<Rightarrow> JNull | Some s \<Rightarrow> JStr s)"

definition step_contract_json :: "step_contract \<Rightarrow> jsval" where
  "step_contract_json s = JObj (step_entries (planned_step.truncate s) @
     [(''inputBindingHash'', JStr (sv_inputBindingHash s)), (''policyHash'', JStr (sv_policyHash s)),
      (''budget'', JObj [(''timeoutSec'', JNum (of_nat (sv_timeoutSec s))),
         (''maxRequests'', nullable_number (sv_maxRequests s))]),
      (''cleanupRequirement'', JStr (if sv_cleanupRequired s then ''required'' else ''not_required''))])"

definition step_contract_of :: "host \<Rightarrow> runner \<Rightarrow> nat \<Rightarrow> planned_step \<Rightarrow> profile_step \<Rightarrow> step_contract" where
  "step_contract_of h rn defaultTimeoutSec planned step = planned_step.extend planned
     (step_contract.fields
        (plan_value_hash h (JObj [(''stepId'', JStr (pl_stepId planned)),
           (''applicability'', JStr (applicability_text (pl_applicability planned))),
           (''readiness'', JStr (readiness_text (pl_readiness planned))),
           (''evidenceRefs'', JArr (map JStr (pl_evidenceRefs planned)))]))
        (plan_value_hash h (JObj [(''required'', JBool (pl_required planned)),
           (''requirement'', JStr (planned_requirement_text (pl_requirement planned))),
           (''runner'', JStr (runner_text rn))]))
        (or_else (st_timeoutSec step) defaultTimeoutSec) (st_maxRequests step)
        (pl_kind planned = Dast \<or> pl_kind planned = RuntimeScanner \<or> pl_kind planned = ApiSchemaScan))"

definition isolation_json :: "runtime_isolation \<Rightarrow> jsval" where
  "isolation_json r = JObj
     [(''planHash'', JStr (ri_planHash r)), (''qualificationHash'', JStr (ri_qualificationHash r)),
      (''sourceSnapshotDigest'', JStr (ri_sourceSnapshotDigest r)), (''projectionDigest'', JStr (ri_projectionDigest r)),
      (''recipeHash'', JStr (ri_recipeHash r)), (''dependencyLockDigest'', JStr (ri_dependencyLockDigest r)),
      (''dockerDaemonIdentityHash'', JStr (ri_dockerDaemonIdentityHash r)),
      (''imageDigests'', JObj (map (\<lambda>e. (fst e, JStr (snd e))) (ri_imageDigests r))),
      (''databaseMode'', JStr (ri_databaseMode r))]"

definition contract_entries :: "plan_contract \<Rightarrow> (string \<times> jsval) list" where
  \<comment> \<open>\<open>contract\<close> without its steps\<close>
  "contract_entries c =
     [(''projectId'', JStr (cn_projectId c)), (''profileId'', JStr (cn_profileId c)), (''profileVersion'', JNum 1),
      (''strictness'', JStr (if cn_strictness c = Strict then ''strict'' else ''best_effort'')),
      (''sourceRevision'', nullable_string (cn_sourceRevision c)),
      (''sourceRevisionHash'', nullable_string (pb_sourceRevisionHash (cn_binding c))),
      (''sourceSnapshotDigest'', nullable_string (cn_sourceSnapshotDigest c)),
      (''sourceState'', JStr (source_state_text (cn_sourceState c))),
      (''resolvedProfileHash'', JStr (pb_resolvedProfileHash (cn_binding c))),
      (''scannerManifestHash'', nullable_string (pb_scannerManifestHash (cn_binding c))),
      (''scannerVersionsHash'', JStr (pb_scannerVersionsHash (cn_binding c))),
      (''dockerImagesHash'', nullable_string (pb_dockerImagesHash (cn_binding c))),
      (''targetPlanHash'', nullable_string (pb_targetPlanHash (cn_binding c))),
      (''technologyRegistryDigest'', nullable_string (cn_technologyRegistryDigest c)),
      (''orchestrator'', JObj [(''id'', JStr ''profile-orchestrator''), (''version'', JNum 1),
         (''runner'', JStr (runner_text (cn_runner c)))]),
      (''preflightBindingHash'', JStr (cn_preflightBindingHash c)),
      (''qualificationHash'', nullable_string (cn_qualificationHash c)),
      (''blockerCodes'', JArr (map JStr (cn_blockerCodes c))), (''warningCodes'', JArr (map JStr (cn_warningCodes c)))]"

definition contract_json :: "plan_contract \<Rightarrow> jsval" where
  \<comment> \<open>\<open>versionedContract\<close>\<close>
  "contract_json c =
     (case cn_v2 c of
        None \<Rightarrow> JObj (contract_entries c @ [(''steps'', JArr (map (JObj \<circ> step_entries) (cn_steps c))),
          (''schemaVersion'', JNum 1)])
      | Some v \<Rightarrow> JObj (contract_entries c @
          [(''steps'', JArr (map step_contract_json (c2_steps v))),
           (''schemaVersion'', JNum (if cn_runtimeIsolation c = None then 2 else 3)),
           (''capabilityRequirements'', JArr (map (\<lambda>q. JObj
              [(''capabilityId'', JStr (capability_text (cr_capabilityId q))),
               (''requirement'', JStr (requirement_text (cr_requirement q)))]) (c2_capabilityRequirements v))),
           (''safety'', JObj [(''networkPolicy'', JStr (c2_networkPolicy v)), (''approvalRequired'', JBool False),
              (''approvalRef'', JNull)])]
          @ (case cn_runtimeIsolation c of None \<Rightarrow> [] | Some r \<Rightarrow> [(''runtimeIsolation'', isolation_json r)])))"

definition contract_of :: "host \<Rightarrow> plan_request \<Rightarrow> plan_contract" where
  "contract_of h rq =
     (let version = or_else (rq_schemaVersion rq) V1;
          strict = or_else (pr_strictness (rq_profile rq)) BestEffort;
          pf = rq_preflight rq; rn = or_else (rq_runner rq) HostRunner;
          steps = map (plan_step_of strict pf) (rq_steps rq)
      in \<lparr>cn_projectId = rq_projectId rq, cn_profileId = pr_id (rq_profile rq), cn_strictness = strict,
          cn_sourceRevision = pf_sourceRevision pf, cn_binding = pf_binding pf,
          cn_sourceSnapshotDigest = rq_sourceSnapshotDigest rq, cn_sourceState = pf_sourceState pf,
          cn_technologyRegistryDigest = rq_technologyRegistryDigest rq, cn_runner = rn,
          cn_preflightBindingHash = pf_bindingHash pf,
          cn_qualificationHash = qualification_hash (rq_qualificationHash rq) pf,
          cn_blockerCodes = blocker_codes pf, cn_warningCodes = warning_codes pf, cn_steps = steps,
          cn_v2 = (if version = V1 then None else Some
            \<lparr>c2_capabilityRequirements = or_else (pr_capabilityRequirements (rq_profile rq)) [],
             c2_networkPolicy = (if rn = DockerRunner then ''isolated'' else ''allowlisted''),
             c2_steps = map2 (step_contract_of h rn (pr_defaultTimeoutSec (rq_profile rq))) steps (rq_steps rq)\<rparr>),
          cn_runtimeIsolation = (if version = V3 then rq_runtimeIsolation rq else None)\<rparr>)"

section \<open>The schema\<close>

definition digest_or_null :: "string option \<Rightarrow> bool" where
  "digest_or_null x = (case x of None \<Rightarrow> True | Some s \<Rightarrow> sha256_digest s)"

definition hex_within :: "nat \<Rightarrow> nat \<Rightarrow> string option \<Rightarrow> bool" where
  \<comment> \<open>\<open>/^[a-f0-9]{low,high}$/\<close>, nullable\<close>
  "hex_within low high x = (case x of None \<Rightarrow> True
     | Some s \<Rightarrow> low \<le> length s \<and> length s \<le> high \<and> list_all hex_lower s)"

definition planned_step_ok :: "planned_step \<Rightarrow> bool" where
  "planned_step_ok s =
     (text_within 160 (pl_stepId s) \<and> text_within 100 (pl_adapter s)
      \<and> list_all (text_within 100) (pl_reasonCodes s) \<and> length (pl_reasonCodes s) \<le> 32
      \<and> list_all (text_within 200) (pl_evidenceRefs s) \<and> length (pl_evidenceRefs s) \<le> 32)"

definition step_contract_ok :: "step_contract \<Rightarrow> bool" where
  "step_contract_ok s =
     (sha256_digest (sv_inputBindingHash s) \<and> sha256_digest (sv_policyHash s)
      \<and> 0 < sv_timeoutSec s \<and> int (sv_timeoutSec s) \<le> 86400
      \<and> (case sv_maxRequests s of None \<Rightarrow> True | Some n \<Rightarrow> 0 < n \<and> int n \<le> 1000000))"

definition isolation_ok :: "runtime_isolation \<Rightarrow> bool" where
  "isolation_ok r =
     (list_all sha256_digest [ri_planHash r, ri_qualificationHash r, ri_sourceSnapshotDigest r, ri_projectionDigest r,
        ri_recipeHash r, ri_dependencyLockDigest r, ri_dockerDaemonIdentityHash r]
      \<and> list_all (\<lambda>e. text_within 100 (fst e) \<and> sha256_digest (snd e)) (ri_imageDigests r)
      \<and> ri_databaseMode r \<in> set [''none'', ''sqlite_ephemeral'', ''postgres_ephemeral'', ''mysql_ephemeral''])"

definition contract_ok :: "(string \<Rightarrow> bool) \<Rightarrow> plan_contract \<Rightarrow> bool" where
  "contract_ok is_uuid c =
     (is_uuid (cn_projectId c) \<and> text_within 160 (cn_profileId c) \<and> hex_within 40 64 (cn_sourceRevision c)
      \<and> list_all digest_or_null [pb_sourceRevisionHash (cn_binding c), pb_scannerManifestHash (cn_binding c),
           pb_dockerImagesHash (cn_binding c), pb_targetPlanHash (cn_binding c), cn_technologyRegistryDigest c,
           cn_qualificationHash c]
      \<and> hex_within 64 64 (cn_sourceSnapshotDigest c)
      \<and> list_all sha256_digest [pb_resolvedProfileHash (cn_binding c), pb_scannerVersionsHash (cn_binding c),
           cn_preflightBindingHash c]
      \<and> list_all (text_within 100) (cn_blockerCodes c) \<and> length (cn_blockerCodes c) \<le> 100
      \<and> list_all (text_within 100) (cn_warningCodes c) \<and> length (cn_warningCodes c) \<le> 100
      \<and> list_all planned_step_ok (cn_steps c) \<and> cn_steps c \<noteq> [] \<and> length (cn_steps c) \<le> 64
      \<and> (case cn_v2 c of None \<Rightarrow> True | Some v \<Rightarrow>
           requirements_ok (c2_capabilityRequirements v) \<and> list_all step_contract_ok (c2_steps v))
      \<and> (case cn_runtimeIsolation c of None \<Rightarrow> True | Some r \<Rightarrow> isolation_ok r))"

definition plan_ok :: "host \<Rightarrow> (string \<Rightarrow> bool) \<Rightarrow> execution_plan \<Rightarrow> bool" where
  \<comment> \<open>\<open>scanExecutionPlanSchema\<close>\<close>
  "plan_ok h is_uuid p =
     (contract_ok is_uuid (plan_contract.truncate p) \<and> is_uuid (ep_scanRunId p) \<and> is_datetime h (ep_createdAt p)
      \<and> sha256_digest (ep_preflightHash p) \<and> sha256_digest (ep_planHash p))"

section \<open>Building and applying a plan\<close>

definition buildScanExecutionPlan ::
  "host \<Rightarrow> (string \<Rightarrow> bool) \<Rightarrow> plan_request \<Rightarrow> (string, execution_plan) result" where
  "buildScanExecutionPlan h is_uuid rq =
     (let contract = contract_of h rq in
      if rq_schemaVersion rq = Some V3 \<and> rq_runtimeIsolation rq = None
      then Inl ''runtime_isolation_plan_required''
      else
        (let plan = plan_contract.extend contract
               (execution_plan.fields (rq_scanRunId rq) (pf_createdAt (rq_preflight rq))
                  (pf_preflightHash (rq_preflight rq)) (plan_value_hash h (contract_json contract)))
         in if plan_ok h is_uuid plan then Inr plan else Inl ''scan_execution_plan_invalid''))"

definition applyExecutionPlanToSteps :: "profile_step list \<Rightarrow> planned_step list \<Rightarrow> profile_step list" where
  "applyExecutionPlanToSteps steps plannedSteps =
     (let requirements = jm_of_list (map (\<lambda>s. (pl_stepId s, s)) plannedSteps)
      in map (\<lambda>step. case jm_get requirements (scanProfileStepId (st_ref step)) of
           None \<Rightarrow> step
         | Some planned \<Rightarrow> step\<lparr>st_required := pl_required planned,
             st_failurePolicy := (if pl_required planned then FailProfile else st_failurePolicy step)\<rparr>) steps)"

definition applyStrictProfileRequirements :: "scan_profile \<Rightarrow> profile_step list \<Rightarrow> profile_step list" where
  "applyStrictProfileRequirements profile steps =
     (if pr_strictness profile \<noteq> Some Strict then steps
      else map (\<lambda>step. if advisory_step step then step
                       else step\<lparr>st_required := True, st_failurePolicy := FailProfile\<rparr>) steps)"

definition executionPlanBlocks :: "planned_step list \<Rightarrow> bool" where
  "executionPlanBlocks steps = list_ex (\<lambda>s. pl_required s
     \<and> (pl_applicability s = UnknownApplicability
        \<or> (pl_applicability s = Applicable \<and> pl_readiness s \<noteq> Ready))) steps"

section \<open>Facts\<close>

lemma build_plan_cases:
  assumes "buildScanExecutionPlan h is_uuid rq = Inr plan"
  shows "plan_contract.truncate plan = contract_of h rq"
    and "ep_planHash plan = plan_value_hash h (contract_json (contract_of h rq))"
    and "cn_steps plan = map (plan_step_of (or_else (pr_strictness (rq_profile rq)) BestEffort) (rq_preflight rq)) (rq_steps rq)"
    and "cn_blockerCodes plan = blocker_codes (rq_preflight rq)"
    and "cn_warningCodes plan = warning_codes (rq_preflight rq)"
  using assms
  by (auto simp: buildScanExecutionPlan_def contract_of_def plan_contract.defs execution_plan.defs Let_def split: if_splits)

lemma in_truthy_list: "s \<in> set (truthy_list x) \<longleftrightarrow> x = Some s \<and> s \<noteq> []"
  by (cases x) (auto simp: truthy_list_def truthy_def)

lemma in_uniqueSorted: "s \<in> set (uniqueSorted xs) \<longleftrightarrow> Some s \<in> set xs \<and> s \<noteq> []"
  by (auto simp: uniqueSorted_def in_truthy_list)

lemma plan_step_simps [simp]:
  "pl_stepId (plan_step_of strict pf step) = step_id step"
  by (simp add: plan_step_of_def step_id_def Let_def)

lemma planned_applicable:
  assumes "\<not> executionPlanBlocks steps" and "s \<in> set steps" and "pl_required s"
  shows "pl_applicability s = NotApplicable \<or> (pl_applicability s = Applicable \<and> pl_readiness s = Ready)"
  using assms by (cases "pl_applicability s") (auto simp: executionPlanBlocks_def list_ex_iff)

lemma strict_required:
  "\<not> advisory_step step \<Longrightarrow> pl_required (plan_step_of Strict pf step)
     \<longleftrightarrow> \<not> list_ex (\<lambda>c. ck_status c = CheckNotApplicable) (checks_of pf (step_id step))"
  by (simp add: plan_step_of_def step_id_def Let_def)

lemma planned_ready:
  "pl_readiness (plan_step_of strict pf step) = Ready \<longleftrightarrow> checks_of pf (step_id step) \<noteq> []
     \<and> list_all (\<lambda>c. ck_status c \<noteq> CheckBlocked) (checks_of pf (step_id step))"
  by (auto simp: plan_step_of_def step_id_def Let_def list_all_iff list_ex_iff)

lemma planned_not_applicable:
  "pl_applicability (plan_step_of strict pf step) = NotApplicable
     \<longleftrightarrow> list_ex (\<lambda>c. ck_status c = CheckNotApplicable) (checks_of pf (step_id step))"
  by (simp add: plan_step_of_def step_id_def Let_def)

lemma planned_blocked:
  "c \<in> set (checks_of pf (step_id step)) \<Longrightarrow> ck_status c = CheckBlocked
     \<Longrightarrow> pl_readiness (plan_step_of strict pf step) = ReadinessBlocked"
  by (auto simp: plan_step_of_def step_id_def Let_def list_ex_iff)

lemma in_checks_of: "c \<in> set (checks_of pf i) \<longleftrightarrow> c \<in> set (pf_checks pf) \<and> ck_stepId c = i"
  by (auto simp: checks_of_def)

lemma planned_reason:
  "c \<in> set (checks_of pf (step_id step)) \<Longrightarrow> ck_reasonCode c = Some r \<Longrightarrow> r \<noteq> []
     \<Longrightarrow> r \<in> set (pl_reasonCodes (plan_step_of strict pf step))"
  by (force simp: plan_step_of_def step_id_def Let_def in_uniqueSorted)

lemma distinct_uniqueSorted [simp]: "distinct (uniqueSorted xs)"
  by (simp add: uniqueSorted_def)

lemma in_blocker_codes:
  "code \<in> set (blocker_codes pf) \<longleftrightarrow> code \<noteq> [] \<and> (\<exists>c \<in> set (pf_checks pf).
      ck_required c \<and> ck_status c = CheckBlocked \<and> ck_reasonCode c = Some code)"
  unfolding blocker_codes_def in_uniqueSorted set_map image_iff by auto

lemma in_warning_codes:
  "code \<in> set (warning_codes pf) \<longleftrightarrow> code \<noteq> [] \<and> code \<in> set (pf_limitationCodes pf) \<and> code \<notin> set (blocker_codes pf)"
  unfolding warning_codes_def in_uniqueSorted set_map image_iff by auto

lemma distinct_codes: "distinct (blocker_codes pf)" "distinct (warning_codes pf)"
  by (simp_all add: blocker_codes_def warning_codes_def)

lemma applied_steps:
  assumes "step \<in> set steps" and "distinct (map step_id steps)" and "plannedSteps = map (plan_step_of strict pf) steps"
  shows "\<exists>applied \<in> set (applyExecutionPlanToSteps steps plannedSteps). step_id applied = step_id step
    \<and> st_ref applied = st_ref step
    \<and> (pl_required (plan_step_of strict pf step) \<longrightarrow> failure_fails_profile applied)"
    and "jm_get (jm_of_list (map (\<lambda>q. (pl_stepId q, q)) plannedSteps)) (step_id step) = Some (plan_step_of strict pf step)"
proof -
  show get: "jm_get (jm_of_list (map (\<lambda>q. (pl_stepId q, q)) plannedSteps)) (step_id step) = Some (plan_step_of strict pf step)"
    by (rule jm_get_of_list_distinct) (use assms in \<open>auto simp: comp_def\<close>)
  show "\<exists>applied \<in> set (applyExecutionPlanToSteps steps plannedSteps). step_id applied = step_id step
    \<and> st_ref applied = st_ref step
    \<and> (pl_required (plan_step_of strict pf step) \<longrightarrow> failure_fails_profile applied)"
    using assms(1) get by (force simp: applyExecutionPlanToSteps_def step_id_def failure_fails_profile_def)
qed

text \<open>The sample request of the witnesses: one tool step and one check.\<close>

definition sample_digest :: string where
  "sample_digest = ''sha256:'' @ replicate 64 (CHR ''0'')"

definition sample_check :: "check_status \<Rightarrow> string option \<Rightarrow> preflight_check" where
  "sample_check status reason = \<lparr>ck_stepId = ''osv'', ck_kind = ''binary_version'', ck_required = True,
     ck_status = status, ck_reasonCode = reason, ck_evidenceRefs = []\<rparr>"

definition sample_preflight :: "preflight_check list \<Rightarrow> preflight" where
  "sample_preflight checks = \<lparr>pf_sourceRevision = None, pf_sourceState = SourceClean, pf_createdAt = ''now'',
     pf_checks = checks, pf_limitationCodes = [''dirty'', ''tool_unavailable''],
     pf_binding = \<lparr>pb_resolvedProfileHash = sample_digest, pb_scannerManifestHash = None,
       pb_scannerVersionsHash = sample_digest, pb_dockerImagesHash = None, pb_targetPlanHash = None,
       pb_sourceRevisionHash = None\<rparr>, pf_bindingHash = sample_digest, pf_preflightHash = sample_digest\<rparr>"

definition sample_request :: "preflight_check list \<Rightarrow> plan_request" where
  "sample_request checks = \<lparr>rq_scanRunId = ''run'', rq_projectId = ''project'',
     rq_profile = sample_profile\<lparr>pr_strictness := Some Strict\<rparr>, rq_steps = [sample_step ''osv''],
     rq_preflight = sample_preflight checks, rq_qualificationHash = None, rq_technologyRegistryDigest = None,
     rq_sourceSnapshotDigest = None, rq_runner = None, rq_schemaVersion = None, rq_runtimeIsolation = None\<rparr>"

lemma sample_digest_ok: "sha256_digest sample_digest" "sha256_digest (''sha256:'' @ replicate 64 (CHR ''0''))"
  by (simp_all add: sample_digest_def sha256_digest_def hex_lower_def is_digit_def code_of_def numeral_nat replicate_Suc)

lemma sample_hash: "plan_value_hash sample_host v = sample_digest"
  by (simp add: plan_value_hash_def hashPreflightValue_def sample_host_def sample_digest_def)

lemma sample_run_plans:
  assumes "checks = [sample_check CheckReady None] \<or> checks = [sample_check CheckBlocked (Some ''tool_unavailable'')]"
  shows "\<exists>plan. buildScanExecutionPlan sample_host (\<lambda>s. True) ((sample_request checks)\<lparr>rq_scanRunId := run\<rparr>) = Inr plan"
proof -
  have "plan_ok sample_host (\<lambda>s. True) (plan_contract.extend (contract_of sample_host ((sample_request checks)\<lparr>rq_scanRunId := run\<rparr>))
      (execution_plan.fields run ''now'' sample_digest sample_digest))"
    using assms
    by (elim disjE) (simp_all add: plan_ok_def contract_ok_def contract_of_def sample_request_def sample_preflight_def
        sample_check_def sample_profile_def sample_step_def sample_host_def plan_contract.defs execution_plan.defs
        digest_or_null_def hex_within_def sample_digest_ok text_within_def planned_step_ok_def plan_step_of_def
        checks_of_def uniqueSorted_def truthy_list_def truthy_def sorted_set_def js_uniq_def sort_strings_def
        blocker_codes_def warning_codes_def qualification_hash_def Let_def)
  then show ?thesis
    by (simp add: buildScanExecutionPlan_def sample_hash Let_def) (simp add: sample_request_def sample_preflight_def)
qed

lemma sample_plans:
  assumes "checks = [sample_check CheckReady None] \<or> checks = [sample_check CheckBlocked (Some ''tool_unavailable'')]"
  shows "\<exists>plan. buildScanExecutionPlan sample_host (\<lambda>s. True) (sample_request checks) = Inr plan"
  using sample_run_plans [OF assms, of "rq_scanRunId (sample_request checks)"] by simp

lemma sample_env_step: "\<exists>s'. run_planned_step sample_env p step q s = (None, s')"
  by (auto simp: run_planned_step_def step_body_def execute_body_def sample_env_def Let_def split: option.splits prod.splits)

lemma sample_env_steps:
  "list_all (\<lambda>step. planned_of p (step_id step) \<noteq> None) steps \<Longrightarrow> \<exists>s'. run_all_steps sample_env p steps s = (None, s')"
proof (induction steps arbitrary: s)
  case Nil
  then show ?case by simp
next
  case (Cons x steps)
  then obtain q where q: "planned_of p (step_id x) = Some q" by auto
  obtain s1 where s1: "run_planned_step sample_env p x q s = (None, s1)" using sample_env_step by blast
  from Cons show ?case by (simp add: run_all_steps_Cons q s1)
qed

lemma sample_env_returns:
  assumes "list_all (\<lambda>step. planned_of p (step_id step) \<noteq> None) steps"
  shows "\<exists>s es. executeProfileSteps sample_env p steps r = (Inr s, es)"
  using sample_env_steps [OF assms, of "initial_state p r"] by (auto simp: executeProfileSteps_def sample_env_def)

section \<open>Properties\<close>

text \<open>C37. Strict plans are decided: if a strict plan does not block, then every step that is not advisory and not an
  inventory is either declared not applicable by some check, or it has at least one check and every one of its checks
  is ready. No step of a strict profile runs unchecked.\<close>

theorem strict_plan_decided:
  assumes "buildScanExecutionPlan h is_uuid rq = Inr plan" and "pr_strictness (rq_profile rq) = Some Strict"
    and "\<not> executionPlanBlocks (cn_steps plan)" and "step \<in> set (rq_steps rq)" and "\<not> advisory_step step"
  shows "(\<exists>c \<in> set (checks_of (rq_preflight rq) (step_id step)). ck_status c = CheckNotApplicable)
    \<or> (checks_of (rq_preflight rq) (step_id step) \<noteq> []
       \<and> list_all (\<lambda>c. ck_status c = CheckReady) (checks_of (rq_preflight rq) (step_id step)))"
proof (cases "list_ex (\<lambda>c. ck_status c = CheckNotApplicable) (checks_of (rq_preflight rq) (step_id step))")
  case True
  then show ?thesis by (auto simp: list_ex_iff)
next
  case False
  let ?s = "plan_step_of Strict (rq_preflight rq) step"
  have "?s \<in> set (cn_steps plan)" using build_plan_cases(3) [OF assms(1)] assms(2,4) by simp
  moreover have "pl_required ?s" using strict_required [OF assms(5)] False by simp
  ultimately have "pl_readiness ?s = Ready"
    using planned_applicable [OF assms(3)] False planned_not_applicable by blast
  moreover have "ck_status c = CheckReady \<longleftrightarrow> ck_status c \<noteq> CheckBlocked \<and> ck_status c \<noteq> CheckNotApplicable" for c
    by (cases "ck_status c") auto
  ultimately show ?thesis using False by (auto simp: planned_ready list_all_iff list_ex_iff)
qed

lemma strict_plan_decided_witness:
  "list_all (\<lambda>c. ck_status c = CheckReady) (checks_of (sample_preflight [sample_check CheckReady None]) ''osv'')
     \<and> checks_of (sample_preflight [sample_check CheckReady None]) ''osv'' \<noteq> []"
proof -
  let ?rq = "sample_request [sample_check CheckReady None]" and ?st = "sample_step ''osv''"
  obtain plan where plan: "buildScanExecutionPlan sample_host (\<lambda>s. True) ?rq = Inr plan"
    using sample_plans by blast
  have rq: "rq_steps ?rq = [?st]" "pr_strictness (rq_profile ?rq) = Some Strict" "step_id ?st = ''osv''"
    "rq_preflight ?rq = sample_preflight [sample_check CheckReady None]" "\<not> advisory_step ?st"
    by (simp_all add: sample_request_def sample_step_def step_id_def advisory_step_def)
  have checks: "checks_of (sample_preflight [sample_check CheckReady None]) ''osv'' = [sample_check CheckReady None]"
    by (simp add: checks_of_def sample_preflight_def sample_check_def)
  let ?s = "plan_step_of Strict (sample_preflight [sample_check CheckReady None]) ?st"
  have "pl_readiness ?s = Ready"
    unfolding planned_ready rq checks by (simp add: sample_check_def)
  moreover have "pl_applicability ?s = Applicable"
    by (simp add: plan_step_of_def step_id_def [symmetric] rq checks Let_def) (simp add: sample_check_def)
  ultimately have "\<not> executionPlanBlocks (cn_steps plan)"
    by (simp add: build_plan_cases(3) [OF plan] executionPlanBlocks_def rq)
  from strict_plan_decided [OF plan rq(2) this _ rq(5)] show ?thesis
    by (simp add: rq checks) (simp add: sample_check_def)
qed

text \<open>One hash per contract: the run a plan is made for, the time of its preflight and the hash of the preflight record
  are not part of what is hashed, so a preview and the run created from it have one plan hash.\<close>

theorem plan_hash_of_contract:
  assumes "buildScanExecutionPlan h is_uuid rq = Inr preview"
    and "buildScanExecutionPlan h is_uuid (rq\<lparr>rq_scanRunId := run, rq_preflight := (rq_preflight rq)
           \<lparr>pf_createdAt := time, pf_preflightHash := hash\<rparr>\<rparr>) = Inr plan"
  shows "ep_planHash preview = ep_planHash plan \<and> cn_steps preview = cn_steps plan \<and> ep_scanRunId plan = run"
proof -
  let ?rq = "rq\<lparr>rq_scanRunId := run, rq_preflight := (rq_preflight rq)\<lparr>pf_createdAt := time, pf_preflightHash := hash\<rparr>\<rparr>"
  have "plan_step_of strict (rq_preflight ?rq) = plan_step_of strict (rq_preflight rq)" for strict
    by (rule ext) (simp add: plan_step_of_def checks_of_def)
  then have "contract_of h ?rq = contract_of h rq"
    by (simp add: contract_of_def blocker_codes_def warning_codes_def qualification_hash_def Let_def)
  moreover have "ep_scanRunId plan = run"
    using assms(2) by (auto simp: buildScanExecutionPlan_def plan_contract.defs execution_plan.defs Let_def split: if_splits)
  ultimately show ?thesis
    using build_plan_cases(1,2) [OF assms(1)] build_plan_cases(1,2) [OF assms(2)]
    by (auto simp: plan_contract.defs dest!: arg_cong [of _ _ cn_steps])
qed

text \<open>Blockers and warnings: a code is a blocker of the plan exactly if some required check was blocked for it, and a
  warning exactly if it is a limitation of the preflight and no blocker; no code is both, and neither list repeats a code.\<close>

theorem plan_codes:
  assumes "buildScanExecutionPlan h is_uuid rq = Inr plan"
  shows "(code \<in> set (cn_blockerCodes plan) \<longleftrightarrow> code \<noteq> [] \<and> (\<exists>c \<in> set (pf_checks (rq_preflight rq)).
      ck_required c \<and> ck_status c = CheckBlocked \<and> ck_reasonCode c = Some code))
    \<and> (code \<in> set (cn_warningCodes plan) \<longleftrightarrow> code \<noteq> [] \<and> code \<in> set (pf_limitationCodes (rq_preflight rq))
       \<and> code \<notin> set (cn_blockerCodes plan))
    \<and> distinct (cn_blockerCodes plan) \<and> distinct (cn_warningCodes plan)"
  unfolding build_plan_cases(4,5) [OF assms]
  using in_blocker_codes [of code "rq_preflight rq"] in_warning_codes [of code "rq_preflight rq"]
  by (simp add: distinct_codes)

lemma plan_hash_of_contract_witness:
  "\<exists>preview plan. buildScanExecutionPlan sample_host (\<lambda>s. True) (sample_request [sample_check CheckReady None]) = Inr preview
     \<and> buildScanExecutionPlan sample_host (\<lambda>s. True)
         ((sample_request [sample_check CheckReady None])\<lparr>rq_scanRunId := ''other''\<rparr>) = Inr plan
     \<and> ep_planHash preview = ep_planHash plan"
proof -
  let ?rq = "sample_request [sample_check CheckReady None]"
  obtain preview where preview: "buildScanExecutionPlan sample_host (\<lambda>s. True) ?rq = Inr preview"
    using sample_plans by blast
  obtain plan where plan: "buildScanExecutionPlan sample_host (\<lambda>s. True) (?rq\<lparr>rq_scanRunId := ''other''\<rparr>) = Inr plan"
    using sample_run_plans by blast
  have same: "?rq\<lparr>rq_scanRunId := ''other''\<rparr> = ?rq\<lparr>rq_scanRunId := ''other'', rq_preflight := (rq_preflight ?rq)
      \<lparr>pf_createdAt := ''now'', pf_preflightHash := sample_digest\<rparr>\<rparr>"
    by (simp add: sample_request_def sample_preflight_def)
  have "buildScanExecutionPlan sample_host (\<lambda>s. True) (?rq\<lparr>rq_scanRunId := ''other'', rq_preflight := (rq_preflight ?rq)
      \<lparr>pf_createdAt := ''now'', pf_preflightHash := sample_digest\<rparr>\<rparr>) = Inr plan"
    unfolding same [symmetric] by (rule plan)
  from plan_hash_of_contract [OF preview this] preview plan show ?thesis by blast
qed

lemma plan_codes_witness:
  "\<exists>plan. buildScanExecutionPlan sample_host (\<lambda>s. True) (sample_request [sample_check CheckBlocked (Some ''tool_unavailable'')])
      = Inr plan \<and> ''tool_unavailable'' \<in> set (cn_blockerCodes plan) \<and> ''tool_unavailable'' \<notin> set (cn_warningCodes plan)"
proof -
  let ?rq = "sample_request [sample_check CheckBlocked (Some ''tool_unavailable'')]"
  obtain plan where plan: "buildScanExecutionPlan sample_host (\<lambda>s. True) ?rq = Inr plan"
    using sample_plans by blast
  have "pf_checks (rq_preflight ?rq) = [sample_check CheckBlocked (Some ''tool_unavailable'')]"
    by (simp add: sample_request_def sample_preflight_def)
  with plan_codes [OF plan, of "''tool_unavailable''"] plan show ?thesis
    by (auto simp: sample_check_def)
qed

end
