(* ===== verification/ProfessionalRunGroup.thy ===== *)
theory ProfessionalRunGroup
  imports ExecutionPlan
begin

text \<open>
  The parent contract of a professional run group (\<open>api/modules/scans/execution/professional-run-group.ts\<close>,
  \<open>shared/schemas/professional-run-group.schema.ts\<close>): one child per capability, an assessment led by the
  coverage ledger, a qualification bound to plan and ledger, and the handoff to a human review.
\<close>

section \<open>Data\<close>

datatype child_kind =
  ChildProfile | ChildDynamic | ChildDast | ChildActive | ChildAuthorization | ChildBusiness | ChildReproduction
  | ChildAttestation

fun child_kind_text :: "child_kind \<Rightarrow> string" where
  "child_kind_text ChildProfile = ''profile''"
| "child_kind_text ChildDynamic = ''dynamic''"
| "child_kind_text ChildDast = ''dast''"
| "child_kind_text ChildActive = ''active''"
| "child_kind_text ChildAuthorization = ''authorization''"
| "child_kind_text ChildBusiness = ''business''"
| "child_kind_text ChildReproduction = ''reproduction''"
| "child_kind_text ChildAttestation = ''attestation''"

fun childKindByCapability :: "capability \<Rightarrow> child_kind" where
  "childKindByCapability ProvenanceIntegrity = ChildAttestation"
| "childKindByCapability DynamicTests = ChildDynamic"
| "childKindByCapability SanitizerFuzz = ChildDynamic"
| "childKindByCapability PassiveDast = ChildDast"
| "childKindByCapability BrowserClient = ChildDast"
| "childKindByCapability AuthenticationSession = ChildDast"
| "childKindByCapability ApiSchemaContract = ChildDast"
| "childKindByCapability AuthorizationMatrix = ChildAuthorization"
| "childKindByCapability ActiveDast = ChildActive"
| "childKindByCapability capability.BusinessLogic = ChildBusiness"
| "childKindByCapability RemediationRetest = ChildReproduction"
| "childKindByCapability _ = ChildProfile"

record group_child =
  gc_childId :: string
  gc_kind :: child_kind
  gc_capabilityId :: capability
  gc_requirement :: capability_requirement
  gc_inputBindingHash :: string
  gc_policyHash :: string
  gc_cleanupRequired :: bool

record group_plan =
  rg_parentScanRunId :: string
  rg_executionPlanHash :: string
  rg_catalogEntryHash :: string
  rg_createdAt :: string
  rg_children :: "group_child list"
  rg_planHash :: string

record group_assessment =
  ga_parentScanRunId :: string
  ga_planHash :: string
  ga_ledgerHash :: string
  ga_technicalCompletion :: bool
  ga_blockingCapabilityIds :: "capability list"
  ga_incompleteChildIds :: "string list"
  ga_cleanupIncompleteChildIds :: "string list"

record group_qualification =
  gq_qualifiedAt :: string
  gq_parentScanRunId :: string
  gq_planHash :: string
  gq_executionPlanHash :: string
  gq_ledgerHash :: string
  gq_qualifiedCapabilityIds :: "string list"
  gq_qualificationHash :: string

section \<open>Building the plan\<close>

definition child_of :: "host \<Rightarrow> step_contract list \<Rightarrow> capability_entry \<Rightarrow> group_child" where
  "child_of h steps requirement =
     (let expectedStepIds = capabilityStepIds (cr_capabilityId requirement);
          matchingSteps = filter (\<lambda>s. pl_stepId s \<in> set expectedStepIds) steps
      in \<lparr>gc_childId = ''capability:'' @ capability_text (cr_capabilityId requirement),
          gc_kind = childKindByCapability (cr_capabilityId requirement),
          gc_capabilityId = cr_capabilityId requirement, gc_requirement = cr_requirement requirement,
          gc_inputBindingHash = plan_value_hash h (JArr (map JStr (sort_strings (map sv_inputBindingHash matchingSteps)))),
          gc_policyHash = plan_value_hash h (JArr (map JStr (sort_strings (map sv_policyHash matchingSteps)))),
          gc_cleanupRequired = list_ex sv_cleanupRequired matchingSteps\<rparr>)"

definition child_json :: "group_child \<Rightarrow> jsval" where
  "child_json c = JObj
     [(''childId'', JStr (gc_childId c)), (''kind'', JStr (child_kind_text (gc_kind c))),
      (''capabilityId'', JStr (capability_text (gc_capabilityId c))),
      (''requirement'', JStr (requirement_text (gc_requirement c))),
      (''inputBindingHash'', JStr (gc_inputBindingHash c)), (''policyHash'', JStr (gc_policyHash c)),
      (''cleanupRequired'', JBool (gc_cleanupRequired c))]"

definition group_plan_json :: "group_plan \<Rightarrow> jsval" where
  \<comment> \<open>\<open>unsigned\<close>\<close>
  "group_plan_json p = JObj
     [(''schemaVersion'', JNum 1), (''parentScanRunId'', JStr (rg_parentScanRunId p)),
      (''executionPlanHash'', JStr (rg_executionPlanHash p)), (''catalogEntryHash'', JStr (rg_catalogEntryHash p)),
      (''createdAt'', JStr (rg_createdAt p)), (''children'', JArr (map child_json (rg_children p))),
      (''humanReview'', JObj [(''required'', JBool True), (''status'', JStr ''pending'')])]"

definition group_plan_ok :: "host \<Rightarrow> (string \<Rightarrow> bool) \<Rightarrow> group_plan \<Rightarrow> bool" where
  \<comment> \<open>\<open>professionalRunGroupPlanSchema\<close>\<close>
  "group_plan_ok h is_uuid p =
     (is_uuid (rg_parentScanRunId p) \<and> list_all sha256_digest [rg_executionPlanHash p, rg_catalogEntryHash p, rg_planHash p]
      \<and> is_datetime h (rg_createdAt p) \<and> rg_children p \<noteq> [] \<and> length (rg_children p) \<le> 18
      \<and> list_all (\<lambda>c. text_within 160 (gc_childId c) \<and> sha256_digest (gc_inputBindingHash c) \<and> sha256_digest (gc_policyHash c))
          (rg_children p)
      \<and> distinct (map gc_childId (rg_children p)))"

definition buildProfessionalRunGroupPlan ::
  "host \<Rightarrow> (string \<Rightarrow> bool) \<Rightarrow> string \<Rightarrow> contract_v2 \<Rightarrow> string \<Rightarrow> string \<Rightarrow> string \<Rightarrow> (string, group_plan) result" where
  "buildProfessionalRunGroupPlan h is_uuid parentScanRunId executionPlan executionPlanHash catalogEntryHash createdAt =
     (let declaredCapabilities = map cr_capabilityId (c2_capabilityRequirements executionPlan);
          missingCapabilities = filter (\<lambda>c. c \<notin> set declaredCapabilities) capability_options
      in if missingCapabilities \<noteq> []
         then Inl (''professional_run_group_capabilities_missing:'' @ join_with '','' (map capability_text missingCapabilities))
         else
           (let unsigned = \<lparr>rg_parentScanRunId = parentScanRunId, rg_executionPlanHash = executionPlanHash,
                  rg_catalogEntryHash = catalogEntryHash, rg_createdAt = createdAt,
                  rg_children = map (child_of h (c2_steps executionPlan)) (c2_capabilityRequirements executionPlan),
                  rg_planHash = []\<rparr>;
                plan = unsigned\<lparr>rg_planHash := plan_value_hash h (group_plan_json unsigned)\<rparr>
            in if group_plan_ok h is_uuid plan then Inr plan else Inl ''professional_run_group_plan_invalid''))"

section \<open>Assessment\<close>

definition results_by_child :: "normalized_result list \<Rightarrow> (string, normalized_result) jsmap" where
  "results_by_child childResults =
     jm_of_list (concat (map (\<lambda>r. map (\<lambda>ref. (ref, r)) (nr_childRunRefs r)) childResults))"

definition ledger_by_capability :: "coverage_ledger \<Rightarrow> (capability, ledger_entry) jsmap" where
  "ledger_by_capability ledger = jm_of_list (map (\<lambda>e. (le_capabilityId e, e)) (lg_entries ledger))"

definition ledger_covers :: "coverage_ledger \<Rightarrow> capability \<Rightarrow> bool" where
  "ledger_covers ledger c = (map_option le_coverageEffect (jm_get (ledger_by_capability ledger) c) = Some Covered)"

definition child_incomplete :: "coverage_ledger \<Rightarrow> normalized_result list \<Rightarrow> group_child \<Rightarrow> bool" where
  "child_incomplete ledger childResults child =
     (if gc_requirement child = Advisory then False
      else \<not> ledger_covers ledger (gc_capabilityId child)
        \<or> (case jm_get (results_by_child childResults) (gc_childId child) of
             None \<Rightarrow> True
           | Some r \<Rightarrow> nr_execution r \<noteq> ExecCompleted \<or> nr_coverageEffect r \<noteq> Covered \<or> nr_evidenceRefs r = []))"

definition cleanup_incomplete :: "normalized_result list \<Rightarrow> group_child \<Rightarrow> bool" where
  "cleanup_incomplete childResults child =
     (gc_cleanupRequired child
      \<and> map_option nr_cleanupState (jm_get (results_by_child childResults) (gc_childId child)) \<noteq> Some CleanupCompleted)"

definition group_assessment_ok :: "(string \<Rightarrow> bool) \<Rightarrow> group_assessment \<Rightarrow> bool" where
  \<comment> \<open>\<open>professionalRunGroupAssessmentSchema\<close>\<close>
  "group_assessment_ok is_uuid a =
     (is_uuid (ga_parentScanRunId a) \<and> sha256_digest (ga_planHash a) \<and> sha256_digest (ga_ledgerHash a)
      \<and> list_all (text_within 160) (ga_incompleteChildIds a) \<and> list_all (text_within 160) (ga_cleanupIncompleteChildIds a))"

definition assessProfessionalRunGroup ::
  "(string \<Rightarrow> bool) \<Rightarrow> group_plan \<Rightarrow> coverage_ledger \<Rightarrow> normalized_result list \<Rightarrow> (string, group_assessment) result" where
  "assessProfessionalRunGroup is_uuid plan ledger childResults =
     (let incompleteChildIds = map gc_childId (filter (child_incomplete ledger childResults) (rg_children plan));
          cleanupIncompleteChildIds = map gc_childId (filter (cleanup_incomplete childResults) (rg_children plan));
          required = filter (\<lambda>c. gc_requirement c \<noteq> Advisory) (rg_children plan);
          blockingCapabilityIds = js_uniq
            (map gc_capabilityId (filter (\<lambda>c. \<not> ledger_covers ledger (gc_capabilityId c)) required)
             @ (if lg_planHash ledger = rg_executionPlanHash plan then [] else map gc_capabilityId required));
          assessment = \<lparr>ga_parentScanRunId = rg_parentScanRunId plan, ga_planHash = rg_planHash plan,
            ga_ledgerHash = lg_ledgerHash ledger,
            ga_technicalCompletion = (blockingCapabilityIds = [] \<and> incompleteChildIds = [] \<and> cleanupIncompleteChildIds = []),
            ga_blockingCapabilityIds = blockingCapabilityIds, ga_incompleteChildIds = incompleteChildIds,
            ga_cleanupIncompleteChildIds = cleanupIncompleteChildIds\<rparr>
      in if group_assessment_ok is_uuid assessment then Inr assessment else Inl ''professional_run_group_assessment_invalid'')"

section \<open>Qualification and handoff\<close>

definition qualification_json :: "group_qualification \<Rightarrow> jsval" where
  "qualification_json q = JObj
     [(''schemaVersion'', JNum 1), (''qualifiedAt'', JStr (gq_qualifiedAt q)),
      (''parentScanRunId'', JStr (gq_parentScanRunId q)), (''planHash'', JStr (gq_planHash q)),
      (''executionPlanHash'', JStr (gq_executionPlanHash q)), (''ledgerHash'', JStr (gq_ledgerHash q)),
      (''technicalCompletion'', JBool True), (''humanApproval'', JStr ''pending''),
      (''qualifiedCapabilityIds'', JArr (map JStr (gq_qualifiedCapabilityIds q)))]"

definition qualification_ok :: "host \<Rightarrow> (string \<Rightarrow> bool) \<Rightarrow> group_qualification \<Rightarrow> bool" where
  \<comment> \<open>\<open>professionalRunGroupQualificationSchema\<close>\<close>
  "qualification_ok h is_uuid q =
     (is_datetime h (gq_qualifiedAt q) \<and> is_uuid (gq_parentScanRunId q)
      \<and> list_all sha256_digest [gq_planHash q, gq_executionPlanHash q, gq_ledgerHash q, gq_qualificationHash q]
      \<and> gq_qualifiedCapabilityIds q \<noteq> [] \<and> length (gq_qualifiedCapabilityIds q) \<le> 18)"

definition qualified_capability_ids :: "coverage_ledger \<Rightarrow> string list" where
  "qualified_capability_ids ledger = sort_strings (map (capability_text \<circ> le_capabilityId)
     (filter (\<lambda>e. le_requirement e = Advisory \<or> le_coverageEffect e = Covered) (lg_entries ledger)))"

definition qualifyProfessionalRunGroup ::
  "host \<Rightarrow> (string \<Rightarrow> bool) \<Rightarrow> group_plan \<Rightarrow> coverage_ledger \<Rightarrow> group_assessment \<Rightarrow> string
    \<Rightarrow> (string, group_qualification) result" where
  "qualifyProfessionalRunGroup h is_uuid plan ledger assessment qualifiedAt =
     (if ga_parentScanRunId assessment \<noteq> rg_parentScanRunId plan \<or> ga_planHash assessment \<noteq> rg_planHash plan
         \<or> ga_ledgerHash assessment \<noteq> lg_ledgerHash ledger
      then Inl ''professional_run_group_qualification_binding_mismatch''
      else if \<not> ga_technicalCompletion assessment then Inl ''professional_run_group_qualification_incomplete''
      else if lg_planHash ledger \<noteq> rg_executionPlanHash plan
      then Inl ''professional_run_group_qualification_ledger_plan_mismatch''
      else if length (qualified_capability_ids ledger) \<noteq> length (rg_children plan)
         \<or> list_ex (\<lambda>c. capability_text (gc_capabilityId c) \<notin> set (qualified_capability_ids ledger)) (rg_children plan)
      then Inl ''professional_run_group_qualification_coverage_incomplete''
      else
        (let unsigned = \<lparr>gq_qualifiedAt = qualifiedAt, gq_parentScanRunId = rg_parentScanRunId plan,
               gq_planHash = rg_planHash plan, gq_executionPlanHash = rg_executionPlanHash plan,
               gq_ledgerHash = lg_ledgerHash ledger, gq_qualifiedCapabilityIds = qualified_capability_ids ledger,
               gq_qualificationHash = []\<rparr>;
             qualification = unsigned\<lparr>gq_qualificationHash := plan_value_hash h (qualification_json unsigned)\<rparr>
         in if qualification_ok h is_uuid qualification then Inr qualification
            else Inl ''professional_run_group_qualification_invalid''))"

record group_handoff =
  gh_parentScanRunId :: string
  gh_qualificationHash :: string
  gh_preparedAt :: string
  gh_humanApproval :: string
  gh_status :: string

definition buildProfessionalRunGroupPhase56Handoff ::
  "host \<Rightarrow> (string \<Rightarrow> bool) \<Rightarrow> group_qualification \<Rightarrow> string \<Rightarrow> (string, group_handoff) result" where
  "buildProfessionalRunGroupPhase56Handoff h is_uuid qualification preparedAt =
     (if is_uuid (gq_parentScanRunId qualification) \<and> sha256_digest (gq_qualificationHash qualification)
         \<and> is_datetime h preparedAt
      then Inr \<lparr>gh_parentScanRunId = gq_parentScanRunId qualification,
                gh_qualificationHash = gq_qualificationHash qualification, gh_preparedAt = preparedAt,
                gh_humanApproval = ''pending'', gh_status = ''ready_for_human_review''\<rparr>
      else Inl ''professional_run_group_handoff_invalid'')"

section \<open>Facts\<close>

lemma assess_facts:
  assumes "assessProfessionalRunGroup is_uuid plan ledger rs = Inr a"
  shows "ga_technicalCompletion a \<longleftrightarrow>
      (\<forall>c \<in> set (rg_children plan). \<not> child_incomplete ledger rs c \<and> \<not> cleanup_incomplete rs c
         \<and> (gc_requirement c \<noteq> Advisory \<longrightarrow> ledger_covers ledger (gc_capabilityId c)
              \<and> lg_planHash ledger = rg_executionPlanHash plan))"
  using assms
  by (auto simp: assessProfessionalRunGroup_def Let_def filter_empty_conv split: if_splits)

lemma qualify_facts:
  assumes "qualifyProfessionalRunGroup h is_uuid plan ledger a t = Inr q"
  shows "ga_technicalCompletion a" "lg_planHash ledger = rg_executionPlanHash plan" "gq_planHash q = rg_planHash plan"
    "gq_ledgerHash q = lg_ledgerHash ledger"
  using assms by (auto simp: qualifyProfessionalRunGroup_def Let_def split: if_splits)

lemma ledger_covers_entry:
  "ledger_covers ledger c \<Longrightarrow> \<exists>e \<in> set (lg_entries ledger). le_capabilityId e = c \<and> le_coverageEffect e = Covered"
  by (fastforce simp: ledger_covers_def ledger_by_capability_def dest!: jm_get_of_list_in)

lemma results_by_child_get:
  "jm_get (results_by_child rs) i = Some r \<Longrightarrow> r \<in> set rs \<and> i \<in> set (nr_childRunRefs r)"
  by (auto simp: results_by_child_def dest!: jm_get_of_list_in)

lemma complete_child:
  assumes "\<not> child_incomplete ledger rs c" and "gc_requirement c \<noteq> Advisory"
  shows "\<exists>r \<in> set rs. gc_childId c \<in> set (nr_childRunRefs r) \<and> nr_execution r = ExecCompleted
    \<and> nr_coverageEffect r = Covered \<and> nr_evidenceRefs r \<noteq> []"
proof -
  from assms obtain r where "jm_get (results_by_child rs) (gc_childId c) = Some r" "nr_execution r = ExecCompleted"
    "nr_coverageEffect r = Covered" "nr_evidenceRefs r \<noteq> []"
    by (auto simp: child_incomplete_def split: option.splits)
  then show ?thesis using results_by_child_get by blast
qed

lemma clean_child:
  assumes "\<not> cleanup_incomplete rs c" and "gc_cleanupRequired c"
  shows "\<exists>r \<in> set rs. gc_childId c \<in> set (nr_childRunRefs r) \<and> nr_cleanupState r = CleanupCompleted"
  using assms by (auto simp: cleanup_incomplete_def dest!: results_by_child_get)

lemma child_of_simps [simp]:
  "gc_childId (child_of h steps q) = ''capability:'' @ capability_text (cr_capabilityId q)"
  "gc_capabilityId (child_of h steps q) = cr_capabilityId q" "gc_requirement (child_of h steps q) = cr_requirement q"
  by (simp_all add: child_of_def Let_def)

lemma build_group_cases:
  assumes "buildProfessionalRunGroupPlan h is_uuid run ep eph ceh t = Inr plan"
  shows "rg_children plan = map (child_of h (c2_steps ep)) (c2_capabilityRequirements ep)"
    and "set capability_options \<subseteq> set (map cr_capabilityId (c2_capabilityRequirements ep))" and "group_plan_ok h is_uuid plan"
    and "rg_executionPlanHash plan = eph"
  using assms by (auto simp: buildProfessionalRunGroupPlan_def Let_def filter_empty_conv split: if_splits)

lemma child_run_ref_prefix: "ref \<in> set (child_run_refs r) \<Longrightarrow> starts_with ref ''dast-run:''"
  by (cases r) auto

text \<open>A complete contract without steps, a plan with one child and a ledger for the witnesses.\<close>

definition sample_contract :: contract_v2 where
  "sample_contract = \<lparr>c2_capabilityRequirements = map (\<lambda>c. \<lparr>cr_capabilityId = c, cr_requirement = RequiredIfApplicable\<rparr>)
     capability_options, c2_networkPolicy = ''isolated'', c2_steps = []\<rparr>"

definition sample_ledger_with :: "ledger_entry list \<Rightarrow> coverage_ledger" where
  "sample_ledger_with es = \<lparr>lg_planHash = sample_digest, lg_derivedAt = ''now'', lg_entries = es,
     lg_summary = summarize es, lg_ledgerHash = sample_digest\<rparr>"

definition sample_group :: group_plan where
  "sample_group = \<lparr>rg_parentScanRunId = ''r'', rg_executionPlanHash = sample_digest, rg_catalogEntryHash = sample_digest,
     rg_createdAt = ''now'', rg_children = [\<lparr>gc_childId = ''capability:sca'', gc_kind = ChildProfile, gc_capabilityId = Sca,
       gc_requirement = Required, gc_inputBindingHash = sample_digest, gc_policyHash = sample_digest,
       gc_cleanupRequired = False\<rparr>], rg_planHash = sample_digest\<rparr>"

definition sample_sca_result :: normalized_result where
  "sample_sca_result = \<lparr>nr_stepId = ''osv'', nr_kind = StaticTool, nr_adapter = ''osv'', nr_required = True,
     nr_execution = ExecCompleted, nr_applicability = Applicable, nr_coverageEffect = Covered, nr_reasonCodes = [],
     nr_findingCount = 0, nr_evidenceRefs = [''artifact:a''], nr_artifactIds = [''a''],
     nr_childRunRefs = [''capability:sca''], nr_cleanupState = CleanupNotRequired\<rparr>"

definition sample_sca_entry :: ledger_entry where
  "sample_sca_entry = \<lparr>le_capabilityId = Sca, le_requirement = Required, le_applicability = Applicable,
     le_execution = ExecCompleted, le_coverageEffect = Covered, le_reasonCodes = [], le_evidenceRefs = [''osv''],
     le_limitations = []\<rparr>"

lemma sample_group_built:
  "\<exists>plan. buildProfessionalRunGroupPlan sample_host (\<lambda>s. True) ''r'' sample_contract sample_digest sample_digest ''now''
     = Inr plan"
proof -
  have "filter (\<lambda>c. c \<notin> set (map cr_capabilityId (c2_capabilityRequirements sample_contract))) capability_options = []"
    by (simp add: sample_contract_def comp_def)
  moreover have "child_of sample_host [] q = \<lparr>gc_childId = ''capability:'' @ capability_text (cr_capabilityId q),
      gc_kind = childKindByCapability (cr_capabilityId q), gc_capabilityId = cr_capabilityId q,
      gc_requirement = cr_requirement q, gc_inputBindingHash = sample_digest, gc_policyHash = sample_digest,
      gc_cleanupRequired = False\<rparr>" for q
    by (simp add: child_of_def sample_hash Let_def)
  ultimately show ?thesis
    by (simp add: buildProfessionalRunGroupPlan_def sample_hash Let_def)
      (simp add: group_plan_ok_def sample_contract_def sample_host_def sample_digest_ok text_within_def capability_options_def)
qed

section \<open>Properties\<close>

text \<open>The run group leaves nothing out: a plan that is built has exactly one child for each of the eighteen capabilities,
  with the requirement the execution plan gives it, and it demands cleanup for every child one of whose steps demands it.\<close>

theorem group_plan_complete:
  assumes "buildProfessionalRunGroupPlan h is_uuid run ep eph ceh t = Inr plan"
  shows "distinct (map gc_capabilityId (rg_children plan)) \<and> set (map gc_capabilityId (rg_children plan)) = UNIV
    \<and> length (rg_children plan) = 18
    \<and> map gc_requirement (rg_children plan) = map cr_requirement (c2_capabilityRequirements ep)
    \<and> list_all (\<lambda>c. gc_cleanupRequired c \<longleftrightarrow> list_ex (\<lambda>s. sv_cleanupRequired s
         \<and> pl_stepId s \<in> set (capabilityStepIds (gc_capabilityId c))) (c2_steps ep)) (rg_children plan)"
proof -
  note b = build_group_cases [OF assms]
  have caps: "map gc_capabilityId (rg_children plan) = map cr_capabilityId (c2_capabilityRequirements ep)"
    by (simp add: b(1))
  have all: "set (map gc_capabilityId (rg_children plan)) = UNIV"
    unfolding caps using b(2) capability_options_complete(1) by auto
  have ids: "map gc_childId (rg_children plan)
      = map (\<lambda>c. ''capability:'' @ capability_text c) (map gc_capabilityId (rg_children plan))" by (simp add: b(1))
  have "distinct (map gc_childId (rg_children plan))" using b(3) by (simp add: group_plan_ok_def)
  then have dist: "distinct (map gc_capabilityId (rg_children plan))" unfolding ids distinct_map by (rule conjunct1)
  have "length capability_options = 18" by (simp add: capability_options_def)
  then have "card (UNIV :: capability set) = 18"
    using distinct_card [OF capability_options_complete(2)] unfolding capability_options_complete(1) by simp
  then have "length (rg_children plan) = 18"
    using distinct_card [OF dist] unfolding all by simp
  moreover have "map gc_requirement (rg_children plan) = map cr_requirement (c2_capabilityRequirements ep)" by (simp add: b(1))
  moreover have "list_all (\<lambda>c. gc_cleanupRequired c \<longleftrightarrow> list_ex (\<lambda>s. sv_cleanupRequired s
         \<and> pl_stepId s \<in> set (capabilityStepIds (gc_capabilityId c))) (c2_steps ep)) (rg_children plan)"
    by (auto simp: b(1) list_all_iff list_ex_iff child_of_def Let_def)
  ultimately show ?thesis using all dist by blast
qed

lemma group_plan_complete_witness:
  "\<exists>plan. buildProfessionalRunGroupPlan sample_host (\<lambda>s. True) ''r'' sample_contract sample_digest sample_digest ''now''
      = Inr plan \<and> length (rg_children plan) = 18"
proof -
  obtain plan where "buildProfessionalRunGroupPlan sample_host (\<lambda>s. True) ''r'' sample_contract sample_digest sample_digest
      ''now'' = Inr plan" using sample_group_built by blast
  from group_plan_complete [OF this] this show ?thesis by blast
qed

text \<open>C38. Qualification is earned: if a run group is qualified from the assessment of its plan, its ledger and its child
  results, then the ledger belongs to the plan, every capability that is not advisory has a ledger entry that says covered
  and a child result that completed, covered it and carries evidence, and every child that demands cleanup has a result
  whose cleanup completed.\<close>

theorem qualified_group_sound:
  assumes "assessProfessionalRunGroup is_uuid plan ledger rs = Inr a"
    and "qualifyProfessionalRunGroup h is_uuid plan ledger a t = Inr q" and "c \<in> set (rg_children plan)"
  shows "lg_planHash ledger = rg_executionPlanHash plan
    \<and> (gc_requirement c \<noteq> Advisory \<longrightarrow>
         (\<exists>e \<in> set (lg_entries ledger). le_capabilityId e = gc_capabilityId c \<and> le_coverageEffect e = Covered)
         \<and> (\<exists>r \<in> set rs. gc_childId c \<in> set (nr_childRunRefs r) \<and> nr_execution r = ExecCompleted
              \<and> nr_coverageEffect r = Covered \<and> nr_evidenceRefs r \<noteq> []))
    \<and> (gc_cleanupRequired c \<longrightarrow>
         (\<exists>r \<in> set rs. gc_childId c \<in> set (nr_childRunRefs r) \<and> nr_cleanupState r = CleanupCompleted))"
proof -
  have "\<not> child_incomplete ledger rs c" "\<not> cleanup_incomplete rs c"
    "gc_requirement c \<noteq> Advisory \<Longrightarrow> ledger_covers ledger (gc_capabilityId c)"
    using assess_facts [OF assms(1)] qualify_facts(1) [OF assms(2)] assms(3) by auto
  then show ?thesis
    using qualify_facts(2) [OF assms(2)] complete_child clean_child ledger_covers_entry by blast
qed

lemma qualified_group_sound_witness:
  "\<exists>a q. assessProfessionalRunGroup (\<lambda>s. True) sample_group (sample_ledger_with [sample_sca_entry]) [sample_sca_result] = Inr a
     \<and> qualifyProfessionalRunGroup sample_host (\<lambda>s. True) sample_group (sample_ledger_with [sample_sca_entry]) a ''now'' = Inr q
     \<and> nr_evidenceRefs sample_sca_result \<noteq> []"
proof -
  let ?l = "sample_ledger_with [sample_sca_entry]"
  obtain a where a: "assessProfessionalRunGroup (\<lambda>s. True) sample_group ?l [sample_sca_result] = Inr a"
    and facts: "ga_technicalCompletion a" "ga_parentScanRunId a = ''r''" "ga_planHash a = sample_digest"
      "ga_ledgerHash a = sample_digest"
    by (simp add: assessProfessionalRunGroup_def group_assessment_ok_def sample_group_def sample_ledger_with_def
        sample_digest_ok child_incomplete_def cleanup_incomplete_def results_by_child_def ledger_covers_def
        ledger_by_capability_def sample_sca_entry_def sample_sca_result_def jm_of_list_def jm_get_def js_uniq_def Let_def)
  have ids: "qualified_capability_ids ?l = [''sca'']"
    by (simp add: qualified_capability_ids_def sample_ledger_with_def sample_sca_entry_def sort_strings_def)
  have "\<exists>q. qualifyProfessionalRunGroup sample_host (\<lambda>s. True) sample_group ?l a ''now'' = Inr q"
    by (simp add: qualifyProfessionalRunGroup_def facts ids sample_hash)
      (simp add: sample_group_def sample_ledger_with_def qualification_ok_def sample_digest_ok sample_host_def)
  then obtain q where q: "qualifyProfessionalRunGroup sample_host (\<lambda>s. True) sample_group ?l a ''now'' = Inr q" by blast
  have "gc_requirement (hd (rg_children sample_group)) \<noteq> Advisory" "hd (rg_children sample_group) \<in> set (rg_children sample_group)"
    by (simp_all add: sample_group_def)
  with qualified_group_sound [OF a q, of "hd (rg_children sample_group)"] a q show ?thesis by auto
qed

text \<open>Defect. The children of a built plan are looked up as \<open>capability:...\<close>, but the references that normalised step
  results carry all have the form \<open>dast-run:...\<close>: assessed on normalised step results, a group with a child that is
  not advisory is never technically complete, whatever the steps did.\<close>

theorem normalized_results_never_complete:
  assumes "buildProfessionalRunGroupPlan h is_uuid run ep eph ceh t = Inr plan"
    and "assessProfessionalRunGroup is_uuid plan ledger rs = Inr a"
    and "map_result normalizeProfileStepResult results = Inr rs"
    and "c \<in> set (rg_children plan)" and "gc_requirement c \<noteq> Advisory"
  shows "\<not> ga_technicalCompletion a \<and> gc_childId c \<in> set (ga_incompleteChildIds a)"
proof -
  have "child_incomplete ledger rs c"
  proof (rule ccontr)
    assume "\<not> child_incomplete ledger rs c"
    then obtain r where r: "r \<in> set rs" "gc_childId c \<in> set (nr_childRunRefs r)"
      using complete_child [OF _ assms(5)] by blast
    then obtain x where "normalizeProfileStepResult x = Inr r" using map_result_dest [OF assms(3)]
      by (auto simp: list_all2_conv_all_nth in_set_conv_nth)
    then have "gc_childId c \<in> set (child_run_refs x)"
      using r(2) normalize_cases(1) normalized_form_simps(3) by metis
    then have "starts_with (gc_childId c) ''dast-run:''" by (rule child_run_ref_prefix)
    moreover obtain p where "gc_childId c = ''capability:'' @ p"
      using assms(4) by (auto simp: build_group_cases(1) [OF assms(1)])
    ultimately show False by (simp add: starts_with.simps)
  qed
  then show ?thesis using assms(2,4)
    by (auto simp: assessProfessionalRunGroup_def Let_def filter_empty_conv split: if_splits)
qed

lemma normalized_results_never_complete_witness:
  "\<exists>plan a. buildProfessionalRunGroupPlan sample_host (\<lambda>s. True) ''r'' sample_contract sample_digest sample_digest ''now''
      = Inr plan
    \<and> assessProfessionalRunGroup (\<lambda>s. True) plan (sample_ledger_with []) [] = Inr a \<and> \<not> ga_technicalCompletion a"
proof -
  obtain plan where plan: "buildProfessionalRunGroupPlan sample_host (\<lambda>s. True) ''r'' sample_contract sample_digest
      sample_digest ''now'' = Inr plan" using sample_group_built by blast
  have ok: "group_plan_ok sample_host (\<lambda>s. True) plan" by (rule build_group_cases(3) [OF plan])
  then obtain a where a: "assessProfessionalRunGroup (\<lambda>s. True) plan (sample_ledger_with []) [] = Inr a"
    by (auto simp: assessProfessionalRunGroup_def group_assessment_ok_def group_plan_ok_def sample_ledger_with_def
        sample_digest_ok list_all_iff Let_def)
  obtain c where c: "c \<in> set (rg_children plan)" using ok by (cases "rg_children plan") (auto simp: group_plan_ok_def)
  then have "gc_requirement c \<noteq> Advisory"
    by (auto simp: build_group_cases(1) [OF plan] sample_contract_def)
  from normalized_results_never_complete [OF plan a _ c this, of "[]"] plan a show ?thesis by auto
qed

end
