(* ===== verification/StepMachine.thy ===== *)
theory StepMachine
  imports Main
begin

text \<open>
  What the components with a state of their own share: a run is a list of events applied in order, and an
  invariant that holds at the start and is kept by every event holds after every run.
\<close>

fun run_events :: "('e \<Rightarrow> 's \<Rightarrow> 's option) \<Rightarrow> 'e list \<Rightarrow> 's \<Rightarrow> 's option" where
  \<comment> \<open>an event that is not possible in a state ends the run\<close>
  "run_events move [] s = Some s"
| "run_events move (e # es) s = (case move e s of None \<Rightarrow> None | Some s' \<Rightarrow> run_events move es s')"

lemma run_events_append:
  "run_events move (es @ fs) s = (case run_events move es s of None \<Rightarrow> None | Some s' \<Rightarrow> run_events move fs s')"
  by (induction es arbitrary: s) (auto split: option.split)

lemma run_events_snoc:
  "run_events move (es @ [e]) s = Some t \<longleftrightarrow> (\<exists>s'. run_events move es s = Some s' \<and> move e s' = Some t)"
  by (auto simp: run_events_append split: option.splits)

locale machine =
  fixes move :: "'e \<Rightarrow> 's \<Rightarrow> 's option" and start :: 's and inv :: "'s \<Rightarrow> bool"
  assumes inv_start: "inv start"
    and inv_move: "inv s \<Longrightarrow> move e s = Some s' \<Longrightarrow> inv s'"
begin

lemma inv_run: "inv s \<Longrightarrow> run_events move es s = Some s' \<Longrightarrow> inv s'"
  by (induction es arbitrary: s) (auto split: option.splits intro: inv_move)

lemma inv_reached: "run_events move es start = Some s \<Longrightarrow> inv s"
  by (rule inv_run [OF inv_start])

end

text \<open>A machine some measure of which every event of a kind decreases can take only as many of them.\<close>

locale draining_machine = machine move start inv
  for move :: "'e \<Rightarrow> 's \<Rightarrow> 's option" and start :: 's and inv :: "'s \<Rightarrow> bool" +
  fixes drain :: "'e \<Rightarrow> bool" and pending :: "'s \<Rightarrow> nat"
  assumes drain_move: "inv s \<Longrightarrow> drain e \<Longrightarrow> 0 < pending s \<Longrightarrow> \<exists>s'. move e s = Some s' \<and> pending s = Suc (pending s')"
begin

lemma drained:
  "inv s \<Longrightarrow> list_all drain es \<Longrightarrow> length es = pending s \<Longrightarrow> \<exists>s'. run_events move es s = Some s' \<and> pending s' = 0"
proof (induction es arbitrary: s)
  case Nil
  then show ?case by simp
next
  case (Cons e es)
  then obtain s' where s': "move e s = Some s'" "pending s = Suc (pending s')"
    using drain_move [of s e] by auto
  then show ?case using Cons inv_move by auto
qed

end

text \<open>A machine refines a specification, a relation of steps on a view of its state, if every event is a sequence of steps of
  the specification; the invariant of the specification then holds of the view of every reached state.\<close>

locale refining_machine =
  fixes move :: "'e \<Rightarrow> 's \<Rightarrow> 's option" and start :: 's and view :: "'s \<Rightarrow> 'w"
    and spec :: "'w \<Rightarrow> 'w \<Rightarrow> bool" and inv :: "'w \<Rightarrow> bool" and own :: "'s \<Rightarrow> bool"
  assumes start_ok: "inv (view start) \<and> own start"
    and refines: "inv (view s) \<Longrightarrow> own s \<Longrightarrow> move e s = Some s' \<Longrightarrow> spec\<^sup>*\<^sup>* (view s) (view s') \<and> own s'"
    and spec_keeps: "spec w w' \<Longrightarrow> inv w \<Longrightarrow> inv w'"
begin

lemma spec_keeps_all: "spec\<^sup>*\<^sup>* w w' \<Longrightarrow> inv w \<Longrightarrow> inv w'"
  by (induction rule: rtranclp_induct) (auto intro: spec_keeps)

lemma run_refines:
  "inv (view s) \<Longrightarrow> own s \<Longrightarrow> run_events move es s = Some s' \<Longrightarrow> spec\<^sup>*\<^sup>* (view s) (view s') \<and> inv (view s') \<and> own s'"
proof (induction es arbitrary: s)
  case (Cons e es)
  then obtain t where t: "move e s = Some t" "run_events move es t = Some s'" by (auto split: option.splits)
  have st: "spec\<^sup>*\<^sup>* (view s) (view t)" "own t" using refines [OF Cons(2,3) t(1)] by auto
  have "inv (view t)" by (rule spec_keeps_all [OF st(1) Cons(2)])
  then show ?case using Cons(1) [OF _ st(2) t(2)] rtranclp_trans [OF st(1)] by blast
qed simp

lemma reached: "run_events move es start = Some s \<Longrightarrow> spec\<^sup>*\<^sup>* (view start) (view s) \<and> inv (view s) \<and> own s"
  using run_refines start_ok by blast

end

end
