(* ===== verification/RuntimeSession.thy ===== *)
theory RuntimeSession
  imports StepMachine
begin

text \<open>
  The session that owns the runtime target of a profile run (\<open>api/modules/scans/execution/shared-runtime-target.ts\<close>).
  Calls of \<open>ensure\<close> are numbered in their order; what the provider's \<open>prepare\<close> ends with is an event. The state also
  records how often the provider was called, which targets were stopped, and what each call was answered.
\<close>

datatype session_state = Idle | Preparing | Ready | Failed | Disposed

datatype 't answer = Target 't | Failure string | SessionDisposed

record 't session =
  ss_state :: session_state
  ss_preparation :: bool \<comment> \<open>the promise has been made\<close>
  ss_target :: "'t option"
  ss_failure :: "string option"
  ss_disposed :: bool
  ss_prepares :: nat
  ss_stopped :: "'t list"
  ss_calls :: nat
  ss_awaiting :: "nat list"
  ss_answers :: "(nat \<times> 't answer) list"

definition new_session :: "'t session" where
  "new_session = \<lparr>ss_state = Idle, ss_preparation = False, ss_target = None, ss_failure = None, ss_disposed = False,
     ss_prepares = 0, ss_stopped = [], ss_calls = 0, ss_awaiting = [], ss_answers = []\<rparr>"

definition answer_call :: "'t answer \<Rightarrow> nat \<Rightarrow> 't session \<Rightarrow> 't session" where
  "answer_call a i s = s\<lparr>ss_answers := ss_answers s @ [(i, a)]\<rparr>"

definition ensure :: "'t session \<Rightarrow> 't session" where
  "ensure s0 = (let i = ss_calls s0; s = s0\<lparr>ss_calls := Suc i\<rparr>
     in if ss_disposed s then answer_call SessionDisposed i s
        else (case ss_target s of Some t \<Rightarrow> answer_call (Target t) i s
          | None \<Rightarrow> (case ss_failure s of Some f \<Rightarrow> answer_call (Failure f) i s
            | None \<Rightarrow> (let s' = (if ss_preparation s then s
                  else s\<lparr>ss_state := Preparing, ss_preparation := True, ss_prepares := Suc (ss_prepares s)\<rparr>)
                in s'\<lparr>ss_awaiting := ss_awaiting s' @ [i]\<rparr>))))"

definition preparing :: "'t session \<Rightarrow> bool" where
  "preparing s = (ss_preparation s \<and> ss_target s = None \<and> ss_failure s = None)"

definition settle :: "'t answer \<Rightarrow> 't session \<Rightarrow> 't session" where
  \<comment> \<open>every call that awaits the promise gets what it ended with\<close>
  "settle a s = s\<lparr>ss_answers := ss_answers s @ map (\<lambda>i. (i, a)) (ss_awaiting s), ss_awaiting := []\<rparr>"

definition end_with :: "string + 't \<Rightarrow> 't session \<Rightarrow> 't session" where
  "end_with r s = (case r of Inr t \<Rightarrow> settle (Target t) (s\<lparr>ss_target := Some t, ss_state := Ready\<rparr>)
     | Inl f \<Rightarrow> settle (Failure f) (s\<lparr>ss_failure := Some f, ss_state := Failed\<rparr>))"

definition prepared :: "string + 't \<Rightarrow> 't session \<Rightarrow> 't session option" where
  "prepared r s = (if preparing s then Some (end_with r s) else None)"

definition dispose :: "'t session \<Rightarrow> 't session" where
  "dispose s =
     (if ss_disposed s then s
      else s\<lparr>ss_disposed := True, ss_state := Disposed,
        ss_stopped := ss_stopped s @ (case ss_target s of None \<Rightarrow> [] | Some t \<Rightarrow> [t])\<rparr>)"

datatype 't session_event = Ensure | Prepared "string + 't" | Dispose

fun session_move :: "'t session_event \<Rightarrow> 't session \<Rightarrow> 't session option" where
  "session_move Ensure s = Some (ensure s)"
| "session_move (Prepared r) s = prepared r s"
| "session_move Dispose s = Some (dispose s)"

section \<open>The invariant\<close>

definition outcome_answer :: "'t session \<Rightarrow> 't answer option" where
  \<comment> \<open>what the one preparation ended with\<close>
  "outcome_answer s = (case ss_target s of Some t \<Rightarrow> Some (Target t)
     | None \<Rightarrow> (case ss_failure s of Some f \<Rightarrow> Some (Failure f) | None \<Rightarrow> None))"

definition numbered :: "(nat \<times> 't answer) list \<Rightarrow> nat list \<Rightarrow> nat \<Rightarrow> bool" where
  \<comment> \<open>every call below \<open>n\<close> either has one answer or waits\<close>
  "numbered ans aw n = (distinct (map fst ans @ aw) \<and> set (map fst ans @ aw) = {..<n})"

definition calls_ok :: "'t session \<Rightarrow> bool" where
  "calls_ok s = numbered (ss_answers s) (ss_awaiting s) (ss_calls s)"

definition answers_ok :: "'t session \<Rightarrow> bool" where
  "answers_ok s = (\<forall>(i, a) \<in> set (ss_answers s). Some a = outcome_answer s \<or> a = SessionDisposed \<and> ss_disposed s)"

definition promise_ok :: "'t session \<Rightarrow> bool" where
  "promise_ok s = (ss_prepares s = (if ss_preparation s then 1 else 0) \<and> (ss_target s = None \<or> ss_failure s = None)
     \<and> (outcome_answer s \<noteq> None \<longrightarrow> ss_preparation s) \<and> (ss_awaiting s \<noteq> [] \<longrightarrow> preparing s)
     \<and> length (ss_stopped s) \<le> 1 \<and> (ss_disposed s \<or> ss_stopped s = []))"

definition session_ok :: "'t session \<Rightarrow> bool" where
  "session_ok s = (calls_ok s \<and> answers_ok s \<and> promise_ok s)"

lemma numbered_snoc:
  assumes "numbered ans aw n"
  shows "numbered (ans @ [(n, a)]) aw (Suc n)" "numbered ans (aw @ [n]) (Suc n)"
proof -
  have "n \<notin> set (map fst ans @ aw)" using assms by (simp add: numbered_def)
  then have n: "n \<notin> set (map fst ans)" "n \<notin> set aw" by simp_all
  have "{..<Suc n} = insert n (set (map fst ans @ aw))" using assms by (simp only: lessThan_Suc numbered_def)
  then show "numbered (ans @ [(n, a)]) aw (Suc n)" "numbered ans (aw @ [n]) (Suc n)"
    using assms n by (simp_all add: numbered_def)
qed

lemma numbered_settle: "numbered ans aw n \<Longrightarrow> numbered (ans @ map (\<lambda>i. (i, a)) aw) [] n"
  by (simp add: numbered_def comp_def image_Un image_image)

lemma outcome_same: "ss_target s' = ss_target s \<Longrightarrow> ss_failure s' = ss_failure s \<Longrightarrow> outcome_answer s' = outcome_answer s"
  by (simp add: outcome_answer_def split: option.split)

lemma answered_ok:
  assumes "session_ok s" and "Some a = outcome_answer s \<or> a = SessionDisposed \<and> ss_disposed s"
  shows "session_ok (answer_call a (ss_calls s) (s\<lparr>ss_calls := Suc (ss_calls s)\<rparr>))"
proof -
  let ?s = "answer_call a (ss_calls s) (s\<lparr>ss_calls := Suc (ss_calls s)\<rparr>)"
  have out: "outcome_answer ?s = outcome_answer s" by (rule outcome_same) (simp_all add: answer_call_def)
  have "calls_ok ?s"
    using assms(1) numbered_snoc(1) unfolding session_ok_def calls_ok_def answer_call_def by auto
  moreover have "answers_ok ?s"
    using assms unfolding session_ok_def answers_ok_def out by (auto simp: answer_call_def)
  moreover have "promise_ok ?s"
    using assms(1) unfolding session_ok_def promise_ok_def out by (simp add: answer_call_def preparing_def)
  ultimately show ?thesis by (simp add: session_ok_def)
qed

lemma awaited_ok:
  assumes "session_ok s" and "ss_target s = None" and "ss_failure s = None"
  shows "session_ok (s\<lparr>ss_calls := Suc (ss_calls s), ss_state := st, ss_preparation := True, ss_prepares := 1,
    ss_awaiting := ss_awaiting s @ [ss_calls s]\<rparr>)" (is "session_ok ?s")
proof -
  have out: "outcome_answer ?s = outcome_answer s" by (rule outcome_same) simp_all
  have "calls_ok ?s"
    using assms(1) numbered_snoc(2) unfolding session_ok_def calls_ok_def by auto
  moreover have "answers_ok ?s"
    using assms(1) unfolding session_ok_def answers_ok_def out by simp
  moreover have "promise_ok ?s"
    using assms unfolding session_ok_def promise_ok_def out by (simp add: preparing_def)
  ultimately show ?thesis by (simp add: session_ok_def)
qed

lemma ensure_cases:
  assumes "promise_ok s"
  shows "(\<exists>a. ensure s = answer_call a (ss_calls s) (s\<lparr>ss_calls := Suc (ss_calls s)\<rparr>)
      \<and> (Some a = outcome_answer s \<or> a = SessionDisposed \<and> ss_disposed s))
    \<or> (\<exists>st. ensure s = s\<lparr>ss_calls := Suc (ss_calls s), ss_state := st, ss_preparation := True, ss_prepares := 1,
        ss_awaiting := ss_awaiting s @ [ss_calls s]\<rparr> \<and> ss_target s = None \<and> ss_failure s = None)"
proof (cases "ss_disposed s")
  case True
  then have "ensure s = answer_call SessionDisposed (ss_calls s) (s\<lparr>ss_calls := Suc (ss_calls s)\<rparr>)"
    by (simp add: ensure_def Let_def)
  then show ?thesis using True by blast
next
  case running: False
  consider (target) t where "ss_target s = Some t" | (failure) f where "ss_target s = None" "ss_failure s = Some f"
    | (none) "ss_target s = None" "ss_failure s = None"
    by (cases "ss_target s"; cases "ss_failure s") auto
  then show ?thesis
  proof cases
    case target
    then have "ensure s = answer_call (Target t) (ss_calls s) (s\<lparr>ss_calls := Suc (ss_calls s)\<rparr>)" "outcome_answer s = Some (Target t)"
      using running by (simp_all add: ensure_def Let_def outcome_answer_def)
    then show ?thesis by metis
  next
    case failure
    then have "ensure s = answer_call (Failure f) (ss_calls s) (s\<lparr>ss_calls := Suc (ss_calls s)\<rparr>)" "outcome_answer s = Some (Failure f)"
      using running by (simp_all add: ensure_def Let_def outcome_answer_def)
    then show ?thesis by metis
  next
    case none
    have "ss_prepares s = (if ss_preparation s then 1 else 0)" using assms by (simp add: promise_ok_def)
    then have "ensure s = s\<lparr>ss_calls := Suc (ss_calls s), ss_state := (if ss_preparation s then ss_state s else Preparing),
        ss_preparation := True, ss_prepares := 1, ss_awaiting := ss_awaiting s @ [ss_calls s]\<rparr>"
      using running none by (cases s) (simp add: ensure_def Let_def)
    then show ?thesis using none by blast
  qed
qed

lemma ensure_ok: assumes "session_ok s" shows "session_ok (ensure s)"
proof -
  have "promise_ok s" using assms by (simp add: session_ok_def)
  from ensure_cases [OF this] show ?thesis
    using answered_ok [OF assms] awaited_ok [OF assms] by (elim disjE exE conjE) metis+
qed

lemma end_with_ok: assumes "session_ok s" and "preparing s" shows "session_ok (end_with r s)"
proof -
  have out: "outcome_answer s = None" using assms(2) by (simp add: preparing_def outcome_answer_def)
  have "calls_ok (end_with r s)"
    using assms(1) numbered_settle unfolding session_ok_def calls_ok_def end_with_def settle_def by (cases r) auto
  moreover have "answers_ok (end_with r s)"
    using assms out unfolding session_ok_def answers_ok_def end_with_def settle_def preparing_def
    by (cases r) (auto simp: outcome_answer_def)
  moreover have "promise_ok (end_with r s)"
    using assms out unfolding session_ok_def promise_ok_def end_with_def settle_def preparing_def
    by (cases r) (simp_all add: outcome_answer_def)
  ultimately show ?thesis by (simp add: session_ok_def)
qed

lemma prepared_ok: "session_ok s \<Longrightarrow> prepared r s = Some s' \<Longrightarrow> session_ok s'"
  by (auto simp: prepared_def end_with_ok split: if_splits)

lemma dispose_ok: assumes "session_ok s" shows "session_ok (dispose s)"
proof -
  have out: "outcome_answer (dispose s) = outcome_answer s" by (rule outcome_same) (simp_all add: dispose_def)
  have "calls_ok (dispose s)" using assms by (simp add: session_ok_def calls_ok_def dispose_def)
  moreover have "answers_ok (dispose s)" using assms unfolding session_ok_def answers_ok_def out by (auto simp: dispose_def)
  moreover have "promise_ok (dispose s)"
    using assms unfolding session_ok_def promise_ok_def out by (auto simp: dispose_def preparing_def split: option.split)
  ultimately show ?thesis by (simp add: session_ok_def)
qed

lemma session_ok_move: "session_ok s \<Longrightarrow> session_move e s = Some s' \<Longrightarrow> session_ok s'"
  by (cases e) (auto simp: ensure_ok prepared_ok dispose_ok)

interpretation session: machine session_move new_session session_ok
proof
  show "session_ok new_session" 
    by (simp add: new_session_def session_ok_def calls_ok_def numbered_def answers_ok_def promise_ok_def outcome_answer_def)
qed (rule session_ok_move)

section \<open>Properties\<close>

text \<open>One preparation for all: whatever the calls and their order, the provider is asked at most once and at most one target is
  stopped; every call is answered exactly once or still waits for the preparation in progress; and all the answers,
  other than the refusals after disposal, are the one outcome of the preparation, its target or its failure.\<close>

theorem session_prepares_once:
  assumes "run_events session_move es new_session = Some s"
  shows "ss_prepares s \<le> 1 \<and> length (ss_stopped s) \<le> 1
    \<and> distinct (map fst (ss_answers s) @ ss_awaiting s) \<and> set (map fst (ss_answers s) @ ss_awaiting s) = {..<ss_calls s}
    \<and> (\<forall>(i, a) \<in> set (ss_answers s). Some a = outcome_answer s \<or> a = SessionDisposed \<and> ss_disposed s)"
  using session.inv_reached [OF assms] unfolding session_ok_def calls_ok_def numbered_def answers_ok_def promise_ok_def by simp

lemma session_prepares_once_witness:
  "\<exists>s. run_events session_move [Ensure, Ensure, Prepared (Inl ''no docker''), Ensure, Dispose, Ensure] (new_session :: nat session) = Some s
    \<and> ss_prepares s \<le> 1 \<and> set (map fst (ss_answers s) @ ss_awaiting s) = {..<4}"
proof -
  obtain s where s: "run_events session_move [Ensure, Ensure, Prepared (Inl ''no docker''), Ensure, Dispose, Ensure] (new_session :: nat session) = Some s"
    "ss_calls s = 4"
    by (simp add: new_session_def ensure_def prepared_def end_with_def dispose_def outcome_answer_def preparing_def answer_call_def settle_def Let_def)
  with session_prepares_once [OF s(1)] show ?thesis by auto
qed

text \<open>Disposing of a session while it prepares does not stop the target that the preparation ends with: the session even
  leaves the state \<open>disposed\<close> again. (The orchestrator waits for every step before it disposes.)\<close>

lemma stopped_kept:
  "ss_disposed s \<Longrightarrow> run_events session_move es s = Some s' \<Longrightarrow> ss_disposed s' \<and> ss_stopped s' = ss_stopped s"
proof (induction es arbitrary: s)
  case (Cons e es)
  then obtain t where t: "session_move e s = Some t" "run_events session_move es t = Some s'"
    by (auto split: option.splits)
  have "ss_disposed t \<and> ss_stopped t = ss_stopped s"
    using t(1) Cons.prems(1)
    by (cases e) (auto simp: ensure_def prepared_def end_with_def dispose_def answer_call_def settle_def Let_def split: if_splits sum.splits)
  then show ?case using Cons.IH t(2) by auto
qed simp

theorem dispose_while_preparing_leaks:
  "\<exists>s. run_events session_move [Ensure, Dispose, Prepared (Inr t)] new_session = Some s
    \<and> ss_state s = Ready \<and> ss_answers s = [(0, Target t)]
    \<and> (\<forall>es s'. run_events session_move es s = Some s' \<longrightarrow> ss_stopped s' = [])"
proof -
  obtain s where s: "run_events session_move [Ensure, Dispose, Prepared (Inr t)] new_session = Some s"
    "ss_state s = Ready" "ss_answers s = [(0, Target t)]" "ss_disposed s" "ss_stopped s = []"
    by (simp add: new_session_def ensure_def prepared_def end_with_def dispose_def outcome_answer_def preparing_def answer_call_def settle_def Let_def)
  then show ?thesis using stopped_kept [OF s(4)] by auto
qed

end
