(* ===== verification/ProcessCapacity.thy ===== *)
theory ProcessCapacity
  imports StepMachine "HOL-Library.Multiset"
begin

text \<open>
  The bound on the processes that the server runs at a time (\<open>api/modules/processes/web-process-capacity.ts\<close>).
  A request for capacity has a number, given in the order of the requests; the limits are read anew at every
  operation, so they are an argument of each event. The state also records which requests were granted.
\<close>

section \<open>The state\<close>

record capacity_limits = \<comment> \<open>None is a number that is not a safe integer\<close>
  lm_concurrency :: "int option"
  lm_queueLimit :: "int option"

record waiter =
  wt_id :: nat
  wt_aborted :: bool

datatype refusal = Cancelled | QueueFull | NoCapacity

record capacity =
  pc_active :: nat
  pc_waiters :: "waiter list"
  pc_held :: "nat list" \<comment> \<open>the requests whose release has been handed out and not been called\<close>
  pc_requests :: nat \<comment> \<open>how many requests there have been\<close>
  pc_granted :: "nat list"
  pc_refused :: "(nat \<times> refusal) list"

definition boundedLimit :: "int option \<Rightarrow> int \<Rightarrow> nat" where
  "boundedLimit value maximum = (case value of None \<Rightarrow> 1 | Some v \<Rightarrow> nat (max 1 (min v maximum)))"

definition concurrency :: "capacity_limits \<Rightarrow> nat" where
  "concurrency l = boundedLimit (lm_concurrency l) 8"

definition queueLimit :: "capacity_limits \<Rightarrow> nat" where
  "queueLimit l = boundedLimit (lm_queueLimit l) 256"

definition new_capacity :: capacity where
  "new_capacity = \<lparr>pc_active = 0, pc_waiters = [], pc_held = [], pc_requests = 0, pc_granted = [], pc_refused = []\<rparr>"

definition compactWaiters :: "capacity \<Rightarrow> capacity" where
  "compactWaiters c = c\<lparr>pc_waiters := filter (\<lambda>w. \<not> wt_aborted w) (pc_waiters c)\<rparr>"

definition liveWaiters :: "capacity \<Rightarrow> nat list" where
  "liveWaiters c = map wt_id (filter (\<lambda>w. \<not> wt_aborted w) (pc_waiters c))"

definition grant :: "nat \<Rightarrow> capacity \<Rightarrow> capacity" where
  \<comment> \<open>\<open>this.active += 1\<close> and a new release\<close>
  "grant i c = c\<lparr>pc_active := Suc (pc_active c), pc_held := pc_held c @ [i], pc_granted := pc_granted c @ [i]\<rparr>"

definition refuse :: "refusal \<Rightarrow> nat \<Rightarrow> capacity \<Rightarrow> capacity" where
  "refuse r i c = c\<lparr>pc_refused := pc_refused c @ [(i, r)]\<rparr>"

function dispatchWaiters :: "nat \<Rightarrow> capacity \<Rightarrow> capacity" where
  "dispatchWaiters limit c =
     (if pc_active c < limit then
        (case pc_waiters c of
           [] \<Rightarrow> c
         | w # ws \<Rightarrow> (let c' = c\<lparr>pc_waiters := ws\<rparr>
             in dispatchWaiters limit (if wt_aborted w then c' else grant (wt_id w) c')))
      else c)"
  by pat_completeness auto
termination
  by (relation "measure (\<lambda>(limit, c). length (pc_waiters c))") (auto simp: grant_def)

section \<open>The operations\<close>

definition tryAcquire :: "capacity_limits \<Rightarrow> nat \<Rightarrow> capacity \<Rightarrow> bool \<times> capacity" where
  "tryAcquire l i c =
     (let c' = dispatchWaiters (concurrency l) (compactWaiters c)
      in if pc_waiters c' \<noteq> [] \<or> concurrency l \<le> pc_active c' then (False, c') else (True, grant i c'))"

definition acquire :: "capacity_limits \<Rightarrow> bool \<Rightarrow> nat \<Rightarrow> capacity \<Rightarrow> capacity" where
  "acquire l signalAborted i c =
     (if signalAborted then refuse Cancelled i c
      else (case tryAcquire l i c of
          (True, c') \<Rightarrow> c'
        | (False, c') \<Rightarrow>
            (let c'' = compactWaiters c'
             in if queueLimit l \<le> length (pc_waiters c'') then refuse QueueFull i c''
                else c''\<lparr>pc_waiters := pc_waiters c'' @ [\<lparr>wt_id = i, wt_aborted = False\<rparr>]\<rparr>)))"

definition abort_waiter :: "nat \<Rightarrow> capacity \<Rightarrow> capacity" where
  \<comment> \<open>the listener of the signal: it marks the waiter and rejects, once\<close>
  "abort_waiter i c =
     (if i \<in> set (liveWaiters c)
      then refuse Cancelled i (c\<lparr>pc_waiters := map (\<lambda>w. if wt_id w = i then w\<lparr>wt_aborted := True\<rparr> else w) (pc_waiters c)\<rparr>)
      else c)"

definition release :: "capacity_limits \<Rightarrow> nat \<Rightarrow> capacity \<Rightarrow> capacity" where
  \<comment> \<open>the function handed out with a grant; calling it again does nothing\<close>
  "release l i c =
     (if i \<in> set (pc_held c)
      then dispatchWaiters (concurrency l)
             (compactWaiters (c\<lparr>pc_active := pc_active c - 1, pc_held := remove1 i (pc_held c)\<rparr>))
      else c)"

datatype capacity_event =
  TryAcquire capacity_limits | Acquire capacity_limits bool | Abort nat | Release capacity_limits nat

definition with_request :: "(nat \<Rightarrow> capacity \<Rightarrow> capacity) \<Rightarrow> capacity \<Rightarrow> capacity" where
  "with_request f c = f (pc_requests c) (c\<lparr>pc_requests := Suc (pc_requests c)\<rparr>)"

fun capacity_move :: "capacity_event \<Rightarrow> capacity \<Rightarrow> capacity option" where
  "capacity_move (TryAcquire l) c = Some (with_request (\<lambda>i c'. case tryAcquire l i c' of
     (True, c'') \<Rightarrow> c'' | (False, c'') \<Rightarrow> refuse NoCapacity i c'') c)"
| "capacity_move (Acquire l signalAborted) c = Some (with_request (acquire l signalAborted) c)"
| "capacity_move (Abort i) c = Some (abort_waiter i c)"
| "capacity_move (Release l i) c = Some (release l i c)"

section \<open>The invariant\<close>

definition ordered_below :: "nat \<Rightarrow> capacity \<Rightarrow> bool" where
  \<comment> \<open>the requests granted so far and the live waiters are, in this order, different and numbered below \<open>n\<close>\<close>
  "ordered_below n c = (pc_active c = length (pc_held c) \<and> pc_active c \<le> 8 \<and> length (pc_waiters c) \<le> 256
     \<and> sorted_wrt (<) (pc_granted c @ liveWaiters c) \<and> (\<forall>i \<in> set (pc_granted c @ liveWaiters c). i < n)
     \<and> mset (pc_held c) \<subseteq># mset (pc_granted c))"

definition capacity_ok :: "capacity \<Rightarrow> bool" where
  "capacity_ok c = ordered_below (pc_requests c) c"

lemma limits_bounded: "1 \<le> concurrency l \<and> concurrency l \<le> 8" "1 \<le> queueLimit l \<and> queueLimit l \<le> 256"
  by (auto simp: concurrency_def queueLimit_def boundedLimit_def split: option.split)

declare dispatchWaiters.simps [simp del]

text \<open>Dispatching is only ever done on a compacted queue; there it grants as many of the oldest requests as fit.\<close>

definition granted_up_to :: "nat \<Rightarrow> capacity \<Rightarrow> capacity" where
  "granted_up_to limit c = (let n = limit - pc_active c; ids = take n (liveWaiters c) in
     c\<lparr>pc_waiters := drop n (filter (\<lambda>w. \<not> wt_aborted w) (pc_waiters c)), pc_active := pc_active c + length ids,
       pc_held := pc_held c @ ids, pc_granted := pc_granted c @ ids\<rparr>)"

lemma dispatch_live:
  "list_all (\<lambda>w. \<not> wt_aborted w) (pc_waiters c) \<Longrightarrow> dispatchWaiters limit c = granted_up_to limit c"
proof (induction limit c rule: dispatchWaiters.induct)
  case (1 limit c)
  show ?case
  proof (cases "pc_active c < limit \<and> pc_waiters c \<noteq> []")
    case True
    then obtain w ws where ws: "pc_waiters c = w # ws" by (cases "pc_waiters c") auto
    then have live: "\<not> wt_aborted w" "filter (\<lambda>w. \<not> wt_aborted w) ws = ws" using 1(2) by (auto simp: list_all_iff)
    let ?c = "grant (wt_id w) (c\<lparr>pc_waiters := ws\<rparr>)"
    have step: "dispatchWaiters limit c = dispatchWaiters limit ?c"
      using True ws live by (subst dispatchWaiters.simps) (simp add: Let_def)
    have "dispatchWaiters limit ?c = granted_up_to limit ?c"
      using 1(1) [of w ws "c\<lparr>pc_waiters := ws\<rparr>"] True ws live 1(2) by (simp add: grant_def)
    moreover have "limit - pc_active c = Suc (limit - Suc (pc_active c))" using True by arith
    ultimately show ?thesis
      using ws live by (simp add: step granted_up_to_def liveWaiters_def grant_def Let_def)
  next
    case False
    then have "dispatchWaiters limit c = c"
      by (subst dispatchWaiters.simps) (auto split: list.split)
    moreover have "limit - pc_active c = 0 \<or> pc_waiters c = []" using False by auto
    moreover have "filter (\<lambda>w. \<not> wt_aborted w) (pc_waiters c) = pc_waiters c" using 1(2) by (simp add: list_all_iff)
    ultimately show ?thesis by (auto simp: granted_up_to_def liveWaiters_def Let_def)
  qed
qed

lemma compact_simps [simp]:
  "liveWaiters (compactWaiters c) = liveWaiters c" "pc_active (compactWaiters c) = pc_active c"
  "pc_held (compactWaiters c) = pc_held c" "pc_granted (compactWaiters c) = pc_granted c"
  "pc_requests (compactWaiters c) = pc_requests c" "pc_refused (compactWaiters c) = pc_refused c"
  "pc_waiters (compactWaiters c) = filter (\<lambda>w. \<not> wt_aborted w) (pc_waiters c)"
  by (simp_all add: compactWaiters_def liveWaiters_def)

lemma granted_compact: "granted_up_to limit (compactWaiters c) = granted_up_to limit c"
  by (simp add: granted_up_to_def liveWaiters_def Let_def compactWaiters_def)

lemma dispatch_compact: "dispatchWaiters limit (compactWaiters c) = granted_up_to limit c"
proof -
  have "list_all (\<lambda>w. \<not> wt_aborted w) (pc_waiters (compactWaiters c))" by (simp add: list_all_iff)
  from dispatch_live [OF this] show ?thesis by (simp add: granted_compact)
qed

lemma filter_drop_filter: "filter P (drop n (filter P xs)) = drop n (filter P xs)"
  by (rule filter_True) (auto dest: in_set_dropD)

lemma granted_simps [simp]:
  "pc_active (granted_up_to limit c) = pc_active c + min (limit - pc_active c) (length (liveWaiters c))"
  "liveWaiters (granted_up_to limit c) = drop (limit - pc_active c) (liveWaiters c)"
  "length (pc_waiters (granted_up_to limit c)) = length (liveWaiters c) - (limit - pc_active c)"
  "pc_waiters (granted_up_to limit c) = [] \<longleftrightarrow> length (liveWaiters c) \<le> limit - pc_active c"
  "pc_granted (granted_up_to limit c) = pc_granted c @ take (limit - pc_active c) (liveWaiters c)"
  "pc_held (granted_up_to limit c) = pc_held c @ take (limit - pc_active c) (liveWaiters c)"
  "pc_requests (granted_up_to limit c) = pc_requests c"
  "compactWaiters (granted_up_to limit c) = granted_up_to limit c"
  by (simp_all add: granted_up_to_def liveWaiters_def compactWaiters_def Let_def min.commute drop_map filter_drop_filter)

lemma grant_simps [simp]:
  "pc_active (grant i c) = Suc (pc_active c)" "liveWaiters (grant i c) = liveWaiters c" "pc_waiters (grant i c) = pc_waiters c"
  "pc_granted (grant i c) = pc_granted c @ [i]" "pc_held (grant i c) = pc_held c @ [i]" "pc_requests (grant i c) = pc_requests c"
  by (simp_all add: grant_def liveWaiters_def)

lemma refuse_simps [simp]:
  "pc_active (refuse r i c) = pc_active c" "liveWaiters (refuse r i c) = liveWaiters c"
  "pc_waiters (refuse r i c) = pc_waiters c" "pc_granted (refuse r i c) = pc_granted c"
  "pc_held (refuse r i c) = pc_held c" "pc_requests (refuse r i c) = pc_requests c"
  by (simp_all add: refuse_def liveWaiters_def)

lemma live_length: "length (liveWaiters c) \<le> length (pc_waiters c)"
  by (simp add: liveWaiters_def)

lemma requests_ordered [simp]: "ordered_below n (c\<lparr>pc_requests := m\<rparr>) = ordered_below n c"
  by (simp add: ordered_below_def liveWaiters_def)

lemma refuse_ordered [simp]: "ordered_below n (refuse r i c) = ordered_below n c"
  by (simp add: ordered_below_def)

lemma ordered_mono: "ordered_below n c \<Longrightarrow> ordered_below (Suc n) c"
  by (auto simp: ordered_below_def less_Suc_eq)

lemma granted_ordered:
  assumes "ordered_below n c" and "limit \<le> 8"
  shows "ordered_below n (granted_up_to limit c)"
proof -
  note c = assms(1) [unfolded ordered_below_def]
  have parts: "take k (liveWaiters c) @ drop k (liveWaiters c) = liveWaiters c" for k by simp
  have "length (liveWaiters c) - (limit - pc_active c) \<le> 256"
    using live_length [of c] c by linarith
  moreover have "mset (pc_held c) + mset (take k (liveWaiters c)) \<subseteq># mset (pc_granted c) + mset (take k (liveWaiters c))" for k
    using c by simp
  moreover have "pc_active c + min (limit - pc_active c) (length (liveWaiters c)) \<le> 8" using c assms(2) by linarith
  ultimately show ?thesis
    using c unfolding ordered_below_def granted_simps append_assoc parts by (simp add: min.commute)
qed

lemma grant_ordered:
  assumes "ordered_below n c" and "liveWaiters c = []" and "pc_active c < 8"
  shows "ordered_below (Suc n) (grant n c)"
  using assms by (auto simp: ordered_below_def sorted_wrt_append less_Suc_eq)

lemma queue_ordered:
  assumes "ordered_below n c" and "length (pc_waiters c) < 256"
  shows "ordered_below (Suc n) (c\<lparr>pc_waiters := pc_waiters c @ [\<lparr>wt_id = n, wt_aborted = False\<rparr>]\<rparr>)"
  using assms by (auto simp: ordered_below_def liveWaiters_def sorted_wrt_append less_Suc_eq)

lemma tryAcquire_cases:
  "tryAcquire l i c = (let d = granted_up_to (concurrency l) c
     in if length (liveWaiters c) \<le> concurrency l - pc_active c \<and> pc_active d < concurrency l then (True, grant i d) else (False, d))"
  by (auto simp: tryAcquire_def dispatch_compact Let_def)

lemma tryAcquire_ordered:
  assumes "ordered_below n c"
  shows "ordered_below (Suc n) (snd (tryAcquire l n c))" "\<not> fst (tryAcquire l n c) \<Longrightarrow> ordered_below n (snd (tryAcquire l n c))"
proof -
  have d: "ordered_below n (granted_up_to (concurrency l) c)"
    by (rule granted_ordered [OF assms]) (use limits_bounded(1) in blast)
  then show "\<not> fst (tryAcquire l n c) \<Longrightarrow> ordered_below n (snd (tryAcquire l n c))"
    by (auto simp: tryAcquire_cases Let_def simp del: granted_simps split: if_splits)
  show "ordered_below (Suc n) (snd (tryAcquire l n c))"
  proof (cases "length (liveWaiters c) \<le> concurrency l - pc_active c \<and> pc_active (granted_up_to (concurrency l) c) < concurrency l")
    case True
    have "pc_active (granted_up_to (concurrency l) c) < 8" using True limits_bounded(1) [of l] by linarith
    then have "ordered_below (Suc n) (grant n (granted_up_to (concurrency l) c))"
      using True by (intro grant_ordered [OF d]) auto
    then show ?thesis using True by (simp add: tryAcquire_cases Let_def del: granted_simps)
  next
    case False
    then show ?thesis using ordered_mono [OF d] by (auto simp: tryAcquire_cases Let_def simp del: granted_simps)
  qed
qed

lemma tryAcquire_compact: "\<not> fst (tryAcquire l i c) \<Longrightarrow> compactWaiters (snd (tryAcquire l i c)) = snd (tryAcquire l i c)"
  by (auto simp: tryAcquire_cases Let_def split: if_splits)

lemma acquire_cases:
  "acquire l signalAborted i c = (let d = snd (tryAcquire l i c) in
     if signalAborted then refuse Cancelled i c else if fst (tryAcquire l i c) then d
     else if queueLimit l \<le> length (pc_waiters d) then refuse QueueFull i d
     else d\<lparr>pc_waiters := pc_waiters d @ [\<lparr>wt_id = i, wt_aborted = False\<rparr>]\<rparr>)"
  using tryAcquire_compact [of l i c]
  by (cases "tryAcquire l i c") (simp add: acquire_def Let_def del: compact_simps split: bool.split)

lemma acquire_ordered:
  assumes "ordered_below n c"
  shows "ordered_below (Suc n) (acquire l signalAborted n c)"
proof -
  let ?d = "snd (tryAcquire l n c)"
  have "length (pc_waiters ?d) < queueLimit l \<Longrightarrow> length (pc_waiters ?d) < 256"
    using limits_bounded(2) [of l] by linarith
  then show ?thesis
    using ordered_mono [OF assms] tryAcquire_ordered [OF assms, of l] queue_ordered [OF tryAcquire_ordered(2) [OF assms, of l]]
    by (simp add: acquire_cases Let_def not_le)
qed

lemma abort_live:
  "liveWaiters (c\<lparr>pc_waiters := map (\<lambda>w. if wt_id w = i then w\<lparr>wt_aborted := True\<rparr> else w) (pc_waiters c)\<rparr>)
    = filter (\<lambda>j. j \<noteq> i) (liveWaiters c)"
proof -
  have "map wt_id (filter (\<lambda>w. \<not> wt_aborted w) (map (\<lambda>w. if wt_id w = i then w\<lparr>wt_aborted := True\<rparr> else w) ws))
    = filter (\<lambda>j. j \<noteq> i) (map wt_id (filter (\<lambda>w. \<not> wt_aborted w) ws))" for ws
    by (induction ws) auto
  then show ?thesis by (simp add: liveWaiters_def)
qed

lemma abort_ordered: "ordered_below n c \<Longrightarrow> ordered_below n (abort_waiter i c)"
  by (auto simp: abort_waiter_def ordered_below_def abort_live sorted_wrt_append intro: sorted_wrt_filter)

lemma release_simp:
  "release l i c = (if i \<in> set (pc_held c)
     then granted_up_to (concurrency l) (c\<lparr>pc_active := pc_active c - 1, pc_held := remove1 i (pc_held c)\<rparr>) else c)"
  by (simp add: release_def dispatch_compact)

lemma release_ordered: assumes "ordered_below n c" shows "ordered_below n (release l i c)"
proof (cases "i \<in> set (pc_held c)")
  case True
  have "mset (pc_held c) - {#i#} \<subseteq># mset (pc_granted c)"
    using assms subset_mset.order_trans [OF diff_subset_eq_self] unfolding ordered_below_def by blast
  moreover have "length (pc_held c) \<le> 8" using assms by (simp add: ordered_below_def)
  then have "length (pc_held c) - 1 \<le> 8" by linarith
  ultimately have "ordered_below n (c\<lparr>pc_active := pc_active c - 1, pc_held := remove1 i (pc_held c)\<rparr>)"
    using True assms by (simp add: ordered_below_def liveWaiters_def length_remove1)
  from granted_ordered [OF this, of "concurrency l"] show ?thesis
    using True limits_bounded(1) [of l] by (simp add: release_simp)
qed (use assms in \<open>simp add: release_simp\<close>)

lemma op_requests [simp]:
  "pc_requests (snd (tryAcquire l i c)) = pc_requests c" "pc_requests (acquire l b i c) = pc_requests c"
  "pc_requests (abort_waiter i c) = pc_requests c" "pc_requests (release l i c) = pc_requests c"
proof -
  show t: "pc_requests (snd (tryAcquire l i c)) = pc_requests c"
    by (simp add: tryAcquire_cases Let_def)
  show "pc_requests (acquire l b i c) = pc_requests c"
    using t by (auto simp: acquire_def Let_def split: prod.split bool.split)
  show "pc_requests (abort_waiter i c) = pc_requests c" by (simp add: abort_waiter_def)
  show "pc_requests (release l i c) = pc_requests c" by (simp add: release_simp)
qed

lemma capacity_ok_move: assumes "capacity_ok c" and "capacity_move e c = Some c'" shows "capacity_ok c'"
proof -
  have c: "ordered_below (pc_requests c) (c\<lparr>pc_requests := Suc (pc_requests c)\<rparr>)" using assms(1) by (simp add: capacity_ok_def)
  show ?thesis
  proof (cases e)
    case (TryAcquire l)
    then have "c' = (let r = tryAcquire l (pc_requests c) (c\<lparr>pc_requests := Suc (pc_requests c)\<rparr>)
        in if fst r then snd r else refuse NoCapacity (pc_requests c) (snd r))"
      using assms(2) by (auto simp: with_request_def Let_def split: prod.splits bool.splits)
    then show ?thesis using tryAcquire_ordered(1) [OF c, of l] by (simp add: capacity_ok_def Let_def)
  next
    case (Acquire l b)
    then show ?thesis
      using acquire_ordered [OF c, of l b] assms(2) by (auto simp: with_request_def capacity_ok_def)
  next
    case (Abort i)
    then show ?thesis using abort_ordered assms by (auto simp: capacity_ok_def)
  next
    case (Release l i)
    then show ?thesis using release_ordered assms by (auto simp: capacity_ok_def)
  qed
qed

interpretation pc: machine capacity_move new_capacity capacity_ok
proof
  show "capacity_ok new_capacity" by (simp add: new_capacity_def capacity_ok_def ordered_below_def liveWaiters_def)
qed (rule capacity_ok_move)

section \<open>A fixed limit\<close>

definition at_limit :: "capacity_limits \<Rightarrow> capacity \<Rightarrow> bool" where
  \<comment> \<open>requests wait only while every slot is taken\<close>
  "at_limit l c = (pc_active c = length (pc_held c) \<and> pc_active c \<le> concurrency l
     \<and> (liveWaiters c \<noteq> [] \<longrightarrow> pc_active c = concurrency l))"

definition uses_limits :: "capacity_limits \<Rightarrow> capacity_event \<Rightarrow> bool" where
  "uses_limits l e = (case e of TryAcquire l' \<Rightarrow> l' = l | Acquire l' _ \<Rightarrow> l' = l | Abort _ \<Rightarrow> True | Release l' _ \<Rightarrow> l' = l)"

definition fixed_move :: "capacity_limits \<Rightarrow> capacity_event \<Rightarrow> capacity \<Rightarrow> capacity option" where
  "fixed_move l e c = (if uses_limits l e then capacity_move e c else None)"

lemma granted_at_limit:
  "pc_active c = length (pc_held c) \<Longrightarrow> pc_active c \<le> concurrency l \<Longrightarrow> at_limit l (granted_up_to (concurrency l) c)"
  by (auto simp: at_limit_def min.commute)

lemma refuse_at_limit [simp]: "at_limit l (refuse r i c) = at_limit l c"
  by (simp add: at_limit_def)

lemma tryAcquire_at_limit:
  assumes "at_limit l c"
  shows "at_limit l (snd (tryAcquire l i c))"
    and "\<not> fst (tryAcquire l i c) \<Longrightarrow> pc_active (snd (tryAcquire l i c)) = concurrency l"
proof -
  have c: "pc_active c = length (pc_held c)" "pc_active c \<le> concurrency l" using assms by (auto simp: at_limit_def)
  show "at_limit l (snd (tryAcquire l i c))"
    using granted_at_limit [OF c] by (auto simp: tryAcquire_cases Let_def at_limit_def split: if_splits)
  show "\<not> fst (tryAcquire l i c) \<Longrightarrow> pc_active (snd (tryAcquire l i c)) = concurrency l"
    using c by (auto simp: tryAcquire_cases Let_def split: if_splits)
qed

lemma freed_live [simp]: "liveWaiters (c\<lparr>pc_active := a, pc_held := h\<rparr>) = liveWaiters c"
  by (simp add: liveWaiters_def)

lemma queue_at_limit:
  "at_limit l c \<Longrightarrow> pc_active c = concurrency l \<Longrightarrow> at_limit l (c\<lparr>pc_waiters := pc_waiters c @ [w]\<rparr>)"
  by (simp add: at_limit_def)

lemma at_limit_move: assumes "at_limit l c" and "fixed_move l e c = Some c'" shows "at_limit l c'"
proof -
  have c: "at_limit l (c\<lparr>pc_requests := Suc (pc_requests c)\<rparr>)" using assms(1) by (auto simp: at_limit_def liveWaiters_def)
  have e: "uses_limits l e" "capacity_move e c = Some c'"
    using assms(2) by (auto simp: fixed_move_def split: if_splits)
  show ?thesis
  proof (cases e)
    case (TryAcquire l')
    then have "c' = (let r = tryAcquire l (pc_requests c) (c\<lparr>pc_requests := Suc (pc_requests c)\<rparr>)
        in if fst r then snd r else refuse NoCapacity (pc_requests c) (snd r))"
      using e by (auto simp: uses_limits_def with_request_def Let_def split: prod.splits bool.splits)
    then show ?thesis using tryAcquire_at_limit(1) [OF c] by (simp add: Let_def)
  next
    case (Acquire l' b)
    then have "c' = acquire l b (pc_requests c) (c\<lparr>pc_requests := Suc (pc_requests c)\<rparr>)"
      using e by (simp add: uses_limits_def with_request_def)
    then show ?thesis
      using c tryAcquire_at_limit [OF c] queue_at_limit [OF tryAcquire_at_limit [OF c]]
      by (simp add: acquire_cases Let_def)
  next
    case (Abort i)
    then show ?thesis using assms(1) e by (auto simp: abort_waiter_def at_limit_def abort_live)
  next
    case (Release l' i)
    then have c': "c' = release l i c" using e by (simp add: uses_limits_def)
    let ?r = "c\<lparr>pc_active := pc_active c - 1, pc_held := remove1 i (pc_held c)\<rparr>"
    have "pc_active c - 1 \<le> concurrency l" using assms(1) unfolding at_limit_def by linarith
    then have "pc_active ?r \<le> concurrency l" by simp
    moreover have "i \<in> set (pc_held c) \<Longrightarrow> pc_active ?r = length (pc_held ?r)"
      using assms(1) by (simp add: at_limit_def length_remove1)
    ultimately show ?thesis using granted_at_limit [of ?r l] assms(1) by (simp add: c' release_simp)
  qed
qed

interpretation fixed: machine "fixed_move l" new_capacity "at_limit l"
proof
  show "at_limit l new_capacity" by (simp add: new_capacity_def at_limit_def liveWaiters_def)
qed (rule at_limit_move)

definition release_held :: "capacity_limits \<Rightarrow> nat \<Rightarrow> capacity \<Rightarrow> capacity option" where
  \<comment> \<open>a release that has an effect: its request holds a slot\<close>
  "release_held l i c = (if i \<in> set (pc_held c) then fixed_move l (Release l i) c else None)"

lemma release_held_at_limit: "at_limit l c \<Longrightarrow> release_held l i c = Some c' \<Longrightarrow> at_limit l c'"
  using at_limit_move by (auto simp: release_held_def split: if_splits)

lemma release_held_grants:
  assumes "at_limit l c" and "release_held l i c = Some c'"
  shows "pc_granted c' = pc_granted c @ take 1 (liveWaiters c)" "liveWaiters c' = drop 1 (liveWaiters c)"
proof -
  let ?r = "c\<lparr>pc_active := pc_active c - 1, pc_held := remove1 i (pc_held c)\<rparr>"
  have i: "i \<in> set (pc_held c)" and c': "c' = granted_up_to (concurrency l) ?r"
    using assms(2) by (auto simp: release_held_def fixed_move_def uses_limits_def release_simp split: if_splits)
  have "0 < pc_active c" using i assms(1) by (auto simp: at_limit_def)
  then have slot: "liveWaiters c = [] \<or> concurrency l - (pc_active c - 1) = 1"
    using assms(1) unfolding at_limit_def by linarith
  then show "pc_granted c' = pc_granted c @ take 1 (liveWaiters c)" by (auto simp: c')
  show "liveWaiters c' = drop 1 (liveWaiters c)" using slot by (auto simp: c')
qed

lemma releases_grant:
  assumes "at_limit l c" and "run_events (release_held l) ids c = Some c'"
  shows "pc_granted c' = pc_granted c @ take (length ids) (liveWaiters c)"
  using assms
proof (induction ids arbitrary: c)
  case (Cons i ids)
  then obtain d where d: "release_held l i c = Some d" "run_events (release_held l) ids d = Some c'"
    by (auto split: option.splits)
  have "pc_granted c' = pc_granted d @ take (length ids) (liveWaiters d)"
    by (rule Cons.IH [OF release_held_at_limit [OF Cons.prems(1) d(1)] d(2)])
  then show ?case
    using release_held_grants [OF Cons.prems(1) d(1)] by (cases "liveWaiters c") simp_all
qed simp

section \<open>Properties\<close>

text \<open>C26. The capacity is never exceeded and requests are served in order: whatever the events and the limits they see, at most
  eight processes hold a slot, the count kept is the number of releases that are still to be called, at most 256
  requests wait, and the requests granted so far followed by those that wait are in strictly increasing order, so
  that none is granted twice or overtaken.\<close>

theorem capacity_bounded_in_order:
  assumes "run_events capacity_move es new_capacity = Some c"
  shows "pc_active c = length (pc_held c) \<and> pc_active c \<le> 8 \<and> length (pc_waiters c) \<le> 256
    \<and> sorted_wrt (<) (pc_granted c @ liveWaiters c) \<and> mset (pc_held c) \<subseteq># mset (pc_granted c)"
  using pc.inv_reached [OF assms] by (simp add: capacity_ok_def ordered_below_def)

definition sample_limits :: capacity_limits where
  "sample_limits = \<lparr>lm_concurrency = Some 1, lm_queueLimit = Some 2\<rparr>"

definition sample_capacity_events :: "capacity_event list" where
  "sample_capacity_events = [Acquire sample_limits False, Acquire sample_limits False, Acquire sample_limits False,
     Acquire sample_limits False, Abort 1, TryAcquire sample_limits]"

lemma sample_limits_values: "concurrency sample_limits = 1" "queueLimit sample_limits = 2"
  by (simp_all add: sample_limits_def concurrency_def queueLimit_def boundedLimit_def)

lemma capacity_bounded_in_order_witness:
  "\<exists>c. run_events capacity_move sample_capacity_events new_capacity = Some c \<and> pc_active c = length (pc_held c) \<and> pc_active c \<le> 8"
proof -
  obtain c where "run_events capacity_move sample_capacity_events new_capacity = Some c"
    by (simp add: sample_capacity_events_def)
  with capacity_bounded_in_order [OF this] show ?thesis by blast
qed

text \<open>C27. No request waits for ever: while the limits stay the same, requests wait only while every slot is taken (so there is a
  release to be called), and however the holders release, the release number \<open>k\<close> from now on grants the request that
  is at place \<open>k\<close> of the queue.\<close>

theorem waiters_served:
  assumes "run_events (fixed_move l) es new_capacity = Some c" and "k < length (liveWaiters c)"
  shows "pc_held c \<noteq> [] \<and> pc_active c = concurrency l
    \<and> (\<forall>ids c'. length ids = Suc k \<longrightarrow> run_events (release_held l) ids c = Some c' \<longrightarrow> last (pc_granted c') = liveWaiters c ! k)"
proof -
  have c: "at_limit l c" by (rule fixed.inv_reached [OF assms(1)])
  then have "pc_active c = concurrency l" "pc_active c = length (pc_held c)" using assms(2) by (auto simp: at_limit_def)
  moreover have "last (pc_granted c') = liveWaiters c ! k" if "length ids = Suc k" "run_events (release_held l) ids c = Some c'" for ids c'
    using releases_grant [OF c that(2)] assms(2) that(1) by (simp add: take_Suc_conv_app_nth)
  ultimately show ?thesis using limits_bounded(1) [of l] by auto
qed

lemma waiters_served_witness:
  "\<exists>c c'. run_events (fixed_move sample_limits) sample_capacity_events new_capacity = Some c
     \<and> run_events (release_held sample_limits) [0] c = Some c' \<and> liveWaiters c = [2] \<and> last (pc_granted c') = liveWaiters c ! 0"
proof -
  obtain c where c: "run_events (fixed_move sample_limits) sample_capacity_events new_capacity = Some c" "liveWaiters c = [2]" "pc_held c = [0]"
    by (simp add: sample_capacity_events_def fixed_move_def uses_limits_def with_request_def new_capacity_def acquire_cases
        tryAcquire_cases Let_def sample_limits_values granted_up_to_def liveWaiters_def abort_waiter_def grant_def refuse_def)
  obtain c' where c': "run_events (release_held sample_limits) [0] c = Some c'"
    using c(3) by (simp add: release_held_def fixed_move_def uses_limits_def)
  have "last (pc_granted c') = liveWaiters c ! 0"
    by (rule waiters_served [OF c(1), of 0, THEN conjunct2, THEN conjunct2, rule_format, OF _ _ c']) (simp_all add: c(2))
  with c c' show ?thesis by blast
qed

end
