(* ===== verification/WriterCodec.thy ===== *)
theory WriterCodec
  imports JsValue "HOL-Library.Word"
begin

text \<open>
  The values that cross between the server and the process that writes the database
  (\<open>api/db/writer/codec.ts\<close>, \<open>api/db/writer/protocol.ts\<close>): the encoding of a JavaScript value, its errors,
  and the decoding. A value is a finite tree, so the guard against cycles never fires. The entries of an object
  are listed in the order in which the object enumerates them.
\<close>

section \<open>Values\<close>

datatype js_val =
    VNull
  | VBool bool
  | VStr string
  | VNum rat
  | VNonFinite \<comment> \<open>NaN and the infinities\<close>
  | VBigInt int
  | VBytes "8 word list"
  | VArr "js_val option list" \<comment> \<open>None is a hole\<close>
  | VObj "(string \<times> js_val) list"
  | VSymbolKeyed \<comment> \<open>a plain object with a symbol-keyed property\<close>
  | VForeign string \<comment> \<open>an object whose prototype is not the plain one, with the name of its constructor\<close>
  | VUndef
  | VTypeof string \<comment> \<open>a function or a symbol\<close>

datatype encoded =
    ENull
  | EBool bool
  | EStr string
  | ENum rat
  | EBigInt string
  | EBytes string
  | EObj "(string \<times> encoded) list"
  | EArr "encoded list"
  | EInvalid \<comment> \<open>any other object\<close>

section \<open>Bytes as text\<close>

definition base64_char :: "nat \<Rightarrow> char" where
  "base64_char d =
     (if d < 26 then char_of (65 + d) else if d < 52 then char_of (71 + d)
      else if d < 62 then char_of (d - 4) else if d = 62 then CHR ''+'' else CHR ''/'')"

definition base64_value :: "char \<Rightarrow> nat option" where
  \<comment> \<open>the decoder also takes the alphabet for URLs\<close>
  "base64_value c =
     (if is_upper c then Some (code_of c - 65) else if is_lower c then Some (code_of c - 71)
      else if is_digit c then Some (code_of c + 4)
      else if c = CHR ''+'' \<or> c = CHR ''-'' then Some 62
      else if c = CHR ''/'' \<or> c = CHR ''_'' then Some 63 else None)"

fun bytes_digits :: "nat list \<Rightarrow> nat list" where
  "bytes_digits [] = []"
| "bytes_digits [a] = [a div 4, (a mod 4) * 16]"
| "bytes_digits [a, b] = [a div 4, (a mod 4) * 16 + b div 16, (b mod 16) * 4]"
| "bytes_digits (a # b # c # rest) =
     (a div 4) # ((a mod 4) * 16 + b div 16) # ((b mod 16) * 4 + c div 64) # (c mod 64) # bytes_digits rest"

fun digits_bytes :: "nat list \<Rightarrow> nat list" where
  "digits_bytes (a # b # c # d # rest) =
     (a * 4 + b div 16) # ((b mod 16) * 16 + c div 4) # ((c mod 4) * 64 + d) # digits_bytes rest"
| "digits_bytes [a, b, c] = [a * 4 + b div 16, (b mod 16) * 16 + c div 4]"
| "digits_bytes [a, b] = [a * 4 + b div 16]"
| "digits_bytes _ = []"

definition bytesToBase64 :: "8 word list \<Rightarrow> string" where
  "bytesToBase64 value =
     map base64_char (bytes_digits (map unat value)) @ replicate ((3 - length value mod 3) mod 3) (CHR ''='')"

definition base64ToBytes :: "string \<Rightarrow> 8 word list" where
  \<comment> \<open>\<open>Buffer.from(value, "base64")\<close>: up to the padding, skipping what is not in the alphabet\<close>
  "base64ToBytes value =
     map word_of_nat (digits_bytes (List.map_filter base64_value (takeWhile (\<lambda>c. c \<noteq> CHR ''='') value)))"

section \<open>Integers as text\<close>

definition bigint_text :: "int \<Rightarrow> string" where
  "bigint_text i = (if i < 0 then ''-'' else []) @ nat_str (nat \<bar>i\<bar>)"

definition parse_bigint :: "string \<Rightarrow> (string, int) result" where
  \<comment> \<open>\<open>BigInt(text)\<close>\<close>
  "parse_bigint text =
     (let t = js_trim text; (neg, ds) = split_sign t in
      if t = [] then Inr 0
      else if ds \<noteq> [] \<and> list_all is_digit ds
      then Inr (if neg then - int (digits_value ds) else int (digits_value ds))
      else (case t of
          c # p # hs \<Rightarrow>
            (if c = CHR ''0'' \<and> hs \<noteq> [] then
               (case radix_of p of None \<Rightarrow> Inl ''SyntaxError''
                | Some b \<Rightarrow> (case radix_value b 0 hs of None \<Rightarrow> Inl ''SyntaxError'' | Some n \<Rightarrow> Inr (int n)))
             else Inl ''SyntaxError'')
        | _ \<Rightarrow> Inl ''SyntaxError''))"

section \<open>Encoding\<close>

definition put_own :: "string \<Rightarrow> 'a \<Rightarrow> (string, 'a) jsmap \<Rightarrow> (string, 'a) jsmap" where
  \<comment> \<open>\<open>output[key] = value\<close> on a plain object: the key \<open>__proto__\<close> sets the prototype and no property\<close>
  "put_own key v output = (if key = ''__proto__'' then output else jm_set key v output)"

fun encodeValue :: "js_val \<Rightarrow> (string, encoded) result"
  and encodeItems :: "js_val option list \<Rightarrow> (string, encoded list) result"
  and encodeEntries :: "(string \<times> js_val) list \<Rightarrow> (string, encoded) jsmap \<Rightarrow> (string, (string, encoded) jsmap) result" where
  "encodeValue VNull = Inr ENull"
| "encodeValue (VStr s) = Inr (EStr s)"
| "encodeValue (VBool b) = Inr (EBool b)"
| "encodeValue (VNum r) = Inr (ENum r)"
| "encodeValue VNonFinite = Inl ''Writer protocol does not support non-finite numbers.''"
| "encodeValue (VBigInt i) = Inr (EBigInt (bigint_text i))"
| "encodeValue (VBytes bs) = Inr (EBytes (bytesToBase64 bs))"
| "encodeValue (VArr items) = (case encodeItems items of Inl e \<Rightarrow> Inl e | Inr ws \<Rightarrow> Inr (EArr ws))"
| "encodeValue (VForeign name) = Inl (''Writer protocol cannot encode '' @ name @ ''.'')"
| "encodeValue VSymbolKeyed = Inl ''Writer protocol cannot encode symbol-keyed properties.''"
| "encodeValue (VObj entries) = (case encodeEntries entries [] of Inl e \<Rightarrow> Inl e | Inr output \<Rightarrow> Inr (EObj output))"
| "encodeValue VUndef = Inl ''Writer protocol cannot encode undefined.''"
| "encodeValue (VTypeof t) = Inl (''Writer protocol cannot encode '' @ t @ ''.'')"
| "encodeItems [] = Inr []"
| "encodeItems (None # items) = Inl ''Writer protocol cannot encode sparse arrays.''"
| "encodeItems (Some v # items) =
     (case encodeValue v of Inl e \<Rightarrow> Inl e
      | Inr w \<Rightarrow> (case encodeItems items of Inl e \<Rightarrow> Inl e | Inr ws \<Rightarrow> Inr (w # ws)))"
| "encodeEntries [] output = Inr output"
| "encodeEntries ((key, v) # entries) output =
     (if v = VUndef then encodeEntries entries output
      else (case encodeValue v of Inl e \<Rightarrow> Inl e | Inr w \<Rightarrow> encodeEntries entries (put_own key w output)))"

definition encodeWriterValue :: "js_val \<Rightarrow> (string, encoded) result" where
  "encodeWriterValue v = encodeValue v"

section \<open>Decoding\<close>

fun decodeWriterValue :: "encoded \<Rightarrow> (string, js_val) result"
  and decodeItems :: "encoded list \<Rightarrow> (string, js_val list) result"
  and decodeEntries :: "(string \<times> encoded) list \<Rightarrow> (string, (string \<times> js_val) list) result" where
  "decodeWriterValue ENull = Inr VNull"
| "decodeWriterValue (EStr s) = Inr (VStr s)"
| "decodeWriterValue (EBool b) = Inr (VBool b)"
| "decodeWriterValue (ENum r) = Inr (VNum r)"
| "decodeWriterValue (EArr ws) = (case decodeItems ws of Inl e \<Rightarrow> Inl e | Inr vs \<Rightarrow> Inr (VArr (map Some vs)))"
| "decodeWriterValue (EBigInt s) = (case parse_bigint s of Inl e \<Rightarrow> Inl e | Inr i \<Rightarrow> Inr (VBigInt i))"
| "decodeWriterValue (EBytes s) = Inr (VBytes (base64ToBytes s))"
| "decodeWriterValue (EObj entries) = (case decodeEntries entries of Inl e \<Rightarrow> Inl e | Inr vs \<Rightarrow> Inr (VObj (jm_of_list vs)))"
| "decodeWriterValue EInvalid = Inl ''Writer protocol received an invalid encoded object.''"
| "decodeItems [] = Inr []"
| "decodeItems (w # ws) =
     (case decodeWriterValue w of Inl e \<Rightarrow> Inl e
      | Inr v \<Rightarrow> (case decodeItems ws of Inl e \<Rightarrow> Inl e | Inr vs \<Rightarrow> Inr (v # vs)))"
| "decodeEntries [] = Inr []"
| "decodeEntries ((key, w) # entries) =
     (case decodeWriterValue w of Inl e \<Rightarrow> Inl e
      | Inr v \<Rightarrow> (case decodeEntries entries of Inl e \<Rightarrow> Inl e | Inr vs \<Rightarrow> Inr ((key, v) # vs)))"

section \<open>What can be encoded\<close>

fun encodable :: "js_val \<Rightarrow> bool" where
  "encodable (VArr items) = list_all (\<lambda>i. case i of None \<Rightarrow> False | Some v \<Rightarrow> encodable v) items"
| "encodable (VObj entries) = list_all (\<lambda>e. snd e = VUndef \<or> encodable (snd e)) entries"
| "encodable v = (v \<noteq> VNonFinite \<and> v \<noteq> VSymbolKeyed \<and> v \<noteq> VUndef
     \<and> (case v of VForeign _ \<Rightarrow> False | VTypeof _ \<Rightarrow> False | _ \<Rightarrow> True))"

fun plain :: "js_val \<Rightarrow> bool" where
  \<comment> \<open>the keys of an object are distinct, and none is the accessor of the prototype\<close>
  "plain (VArr items) = list_all (\<lambda>i. case i of None \<Rightarrow> True | Some v \<Rightarrow> plain v) items"
| "plain (VObj entries) = (distinct (map fst entries) \<and> ''__proto__'' \<notin> set (map fst entries)
     \<and> list_all (\<lambda>e. plain (snd e)) entries)"
| "plain _ = True"

fun without_undefined :: "js_val \<Rightarrow> js_val" where
  "without_undefined (VArr items) = VArr (map (map_option without_undefined) items)"
| "without_undefined (VObj entries) = VObj (map (\<lambda>e. (fst e, without_undefined (snd e)))
     (filter (\<lambda>e. snd e \<noteq> VUndef) entries))"
| "without_undefined v = v"

section \<open>Facts\<close>

lemma base64_chars:
  assumes "d < 64"
  shows "base64_value (base64_char d) = Some d" and "base64_char d \<noteq> CHR ''=''"
proof -
  have codes: "code_of CHR ''+'' = 43" "code_of CHR ''/'' = 47" by (simp_all add: code_of_def)
  have "d = (d - 4) + 4 \<and> 48 \<le> d - 4 \<and> d - 4 < 58" if "\<not> d < 52" "d < 62" using that by linarith
  then consider "d < 26" | "26 \<le> d \<and> d < 52" | e where "d = e + 4" "48 \<le> e" "e < 58" | "d = 62" | "d = 63"
    using assms by (cases "d < 52"; cases "d < 62"; fastforce)
  then have "base64_value (base64_char d) = Some d \<and> code_of (base64_char d) \<noteq> 61"
    by cases (simp_all add: base64_char_def base64_value_def is_upper_def is_lower_def is_digit_def codes)
  then show "base64_value (base64_char d) = Some d" and "base64_char d \<noteq> CHR ''=''" by (auto simp: code_of_def)
qed

lemma sextets:
  fixes a b :: nat
  assumes "b < 256"
  shows "((a mod 4) * 16 + b div 16) div 16 = a mod 4" and "((a mod 4) * 16 + b div 16) mod 16 = b div 16"
    and "((a mod 16) * 4 + b div 64) div 4 = a mod 16" and "((a mod 16) * 4 + b div 64) mod 4 = b div 64"
    and "b div 16 mod 16 = b div 16" and "b div 16 div 16 = 0" and "b div 64 mod 4 = b div 64" and "b div 64 div 4 = 0"
  using assms by (simp_all add: div_mult2_eq [symmetric] less_mult_imp_div_less)

lemma sextet_bounds:
  fixes a b :: nat
  assumes "b < 256"
  shows "(a mod 4) * 16 + b div 16 < 64" and "(a mod 16) * 4 + b div 64 < 64" and "b div 4 < 64"
proof -
  have "a mod 4 < 4" "a mod 16 < 16" "b div 16 < 16" "b div 64 < 4" "b div 4 < 64"
    using assms by (simp_all add: less_mult_imp_div_less)
  then show "(a mod 4) * 16 + b div 16 < 64" and "(a mod 16) * 4 + b div 64 < 64" and "b div 4 < 64" by linarith+
qed

lemma bytes_digits_small: "list_all (\<lambda>b. b < 256) bs \<Longrightarrow> list_all (\<lambda>d. d < 64) (bytes_digits bs)"
proof (induction bs rule: bytes_digits.induct)
  case (2 a)
  then show ?case using sextet_bounds(1) [of 0 a] sextet_bounds(3) [of a] by simp
next
  case (3 a b)
  then show ?case using sextet_bounds(2) [of 0 b] by (simp add: sextet_bounds)
qed (simp_all add: sextet_bounds)

lemma digits_of_bytes: "list_all (\<lambda>b. b < 256) bs \<Longrightarrow> digits_bytes (bytes_digits bs) = bs"
  by (induction bs rule: bytes_digits.induct) (simp_all add: sextets)

lemma base64_text: "list_all (\<lambda>d. d < 64) ds
    \<Longrightarrow> List.map_filter base64_value (takeWhile (\<lambda>c. c \<noteq> CHR ''='') (map base64_char ds @ replicate n (CHR ''=''))) = ds"
  by (induction ds) (simp_all add: base64_chars List.map_filter_simps takeWhile_replicate)

lemma byte_bound: "unat (b :: 8 word) < 256"
  using unsigned_less [of b, where 'a = nat] by simp

lemma base64_roundtrip: "base64ToBytes (bytesToBase64 bs) = bs"
proof -
  have small: "list_all (\<lambda>b. b < 256) (map unat bs)"
    by (simp add: list_all_iff byte_bound)
  have "map word_of_nat (map unat bs) = bs" by (simp add: comp_def)
  then show ?thesis
    by (simp add: base64ToBytes_def bytesToBase64_def base64_text [OF bytes_digits_small [OF small]]
        digits_of_bytes [OF small])
qed

lemma digits_value_nat_str: "list_all is_digit (nat_str n)" "nat_str n \<noteq> []" "digits_value (nat_str n) = n"
  using nat_str_digits [of n] nat_str_value [of n] by (auto simp: list_all_iff)

lemma trim_plain:
  assumes "list_all (\<lambda>c. \<not> is_space c) s"
  shows "js_trim s = s"
proof -
  have "dropWhile is_space t = t" if "list_all (\<lambda>c. \<not> is_space c) t" for t using that by (cases t) auto
  then show ?thesis using assms by (simp add: js_trim_def)
qed

lemma digit_not_space: "is_digit c \<Longrightarrow> \<not> is_space c \<and> c \<noteq> CHR ''-'' \<and> c \<noteq> CHR ''+''"
  by (auto simp: is_digit_def is_space_def code_of_def)

lemma bigint_roundtrip: "parse_bigint (bigint_text i) = Inr i"
proof -
  let ?ds = "nat_str (nat \<bar>i\<bar>)"
  have ds: "list_all is_digit ?ds" "?ds \<noteq> []" "digits_value ?ds = nat \<bar>i\<bar>" by (rule digits_value_nat_str)+
  have minus: "\<not> is_space CHR ''-''" by (simp add: is_space_def code_of_def)
  have "list_all (\<lambda>c. \<not> is_space c) (bigint_text i)"
    using ds(1) digit_not_space minus by (auto simp: bigint_text_def list_all_iff)
  then have trim: "js_trim (bigint_text i) = bigint_text i" by (rule trim_plain)
  obtain c cs where c: "?ds = c # cs" "is_digit c" using ds(1,2) by (cases ?ds) auto
  have "split_sign (bigint_text i) = (i < 0, ?ds)"
    using c digit_not_space [OF c(2)] by (simp add: bigint_text_def split_sign_def)
  moreover have "bigint_text i \<noteq> []" using ds(2) by (simp add: bigint_text_def)
  ultimately show ?thesis using ds(1,2) by (simp add: parse_bigint_def trim digits_value_nat_str(3) Let_def)
qed

text \<open>Encoding, case by case.\<close>

lemma encodeEntries_plain:
  "list_all (\<lambda>e. snd e = VUndef \<or> (\<exists>w. encodeValue (snd e) = Inr w)) es \<Longrightarrow> ''__proto__'' \<notin> set (map fst es)
    \<Longrightarrow> distinct (jm_keys acc @ map fst es)
    \<Longrightarrow> encodeEntries es acc = Inr (acc @ map (\<lambda>e. (fst e, projr (encodeValue (snd e)))) (filter (\<lambda>e. snd e \<noteq> VUndef) es))"
proof (induction es arbitrary: acc)
  case Nil
  then show ?case by simp
next
  case (Cons e es)
  obtain k v where e: "e = (k, v)" by fastforce
  show ?case
  proof (cases "v = VUndef")
    case True
    then show ?thesis using Cons by (simp add: e)
  next
    case False
    then obtain w where w: "encodeValue v = Inr w" using Cons.prems(1) by (auto simp: e)
    have k: "k \<notin> set (jm_keys acc)" "k \<noteq> ''__proto__''" using Cons.prems by (auto simp: e)
    have set: "jm_set k w acc = acc @ [(k, w)]" using k(1) by (rule jm_set_fresh)
    have "distinct (jm_keys (acc @ [(k, w)]) @ map fst es)" using Cons.prems(3) by (auto simp: e jm_keys_def)
    from Cons.IH [OF _ _ this] Cons.prems show ?thesis
      using False k by (simp add: e w put_own_def set)
  qed
qed

lemma encodeEntries_bad:
  "(k, v) \<in> set es \<Longrightarrow> v \<noteq> VUndef \<Longrightarrow> encodeValue v = Inl x \<Longrightarrow> \<exists>y. encodeEntries es acc = Inl y"
proof (induction es arbitrary: acc)
  case Nil
  then show ?case by simp
next
  case (Cons e es)
  obtain k' v' where e: "e = (k', v')" by fastforce
  show ?case
  proof (cases "(k, v) = e")
    case True
    then show ?thesis using Cons.prems by (simp add: e)
  next
    case False
    then show ?thesis using Cons by (auto simp: e split: sum.split)
  qed
qed

lemma encodeItems_good:
  "list_all (\<lambda>i. \<exists>v w. i = Some v \<and> encodeValue v = Inr w) items
    \<Longrightarrow> encodeItems items = Inr (map (\<lambda>i. projr (encodeValue (the i))) items)"
  by (induction items) auto

lemma encodeItems_bad:
  "i \<in> set items \<Longrightarrow> i = None \<or> (\<exists>v x. i = Some v \<and> encodeValue v = Inl x) \<Longrightarrow> \<exists>x. encodeItems items = Inl x"
proof (induction items)
  case Nil
  then show ?case by simp
next
  case (Cons k items)
  then show ?case by (cases k; cases "i = k") (auto split: sum.splits)
qed

lemma decodeItems_good:
  "list_all (\<lambda>w. \<exists>v. decodeWriterValue w = Inr v) ws \<Longrightarrow> decodeItems ws = Inr (map (\<lambda>w. projr (decodeWriterValue w)) ws)"
  by (induction ws) auto

lemma decodeEntries_good:
  "list_all (\<lambda>e. \<exists>v. decodeWriterValue (snd e) = Inr v) es
    \<Longrightarrow> decodeEntries es = Inr (map (\<lambda>e. (fst e, projr (decodeWriterValue (snd e)))) es)"
  by (induction es) auto

definition crosses :: "js_val \<Rightarrow> bool" where
  \<comment> \<open>what becomes of a value: it arrives without its undefined entries, or it is refused\<close>
  "crosses v = (if encodable v
     then (\<exists>w. encodeValue v = Inr w \<and> decodeWriterValue w = Inr (without_undefined v))
     else (\<exists>e. encodeValue v = Inl e))"

lemma crosses_array:
  assumes "\<And>v. Some v \<in> set items \<Longrightarrow> crosses v"
  shows "crosses (VArr items)"
proof (cases "encodable (VArr items)")
  case True
  have each: "\<exists>v w. i = Some v \<and> encodeValue v = Inr w \<and> decodeWriterValue w = Inr (without_undefined v)"
    if i: "i \<in> set items" for i
  proof -
    obtain v where v: "i = Some v" "encodable v" using True i by (auto simp: list_all_iff split: option.splits)
    then show ?thesis using assms [of v] i by (auto simp: crosses_def)
  qed
  have enc: "encodeItems items = Inr (map (\<lambda>i. projr (encodeValue (the i))) items)"
    by (rule encodeItems_good) (use each in \<open>fastforce simp: list_all_iff\<close>)
  have "decodeItems (map (\<lambda>i. projr (encodeValue (the i))) items)
      = Inr (map (\<lambda>w. projr (decodeWriterValue w)) (map (\<lambda>i. projr (encodeValue (the i))) items))"
    by (rule decodeItems_good) (use each in \<open>fastforce simp: list_all_iff\<close>)
  moreover have "map Some (map (\<lambda>w. projr (decodeWriterValue w)) (map (\<lambda>i. projr (encodeValue (the i))) items))
      = map (map_option without_undefined) items"
    unfolding map_map by (rule map_cong [OF refl]) (use each in fastforce)
  ultimately show ?thesis using True enc by (simp add: crosses_def)
next
  case False
  then obtain i where i: "i \<in> set items" "\<not> (case i of None \<Rightarrow> False | Some v \<Rightarrow> encodable v)"
    by (auto simp: list_all_iff)
  have "i = None \<or> (\<exists>v x. i = Some v \<and> encodeValue v = Inl x)"
  proof (cases i)
    case (Some v)
    then show ?thesis using assms [of v] i by (simp add: crosses_def)
  qed simp
  then have "\<exists>x. encodeItems items = Inl x" by (rule encodeItems_bad [OF i(1)])
  then show ?thesis using False by (auto simp: crosses_def)
qed

lemma crosses_object:
  assumes "\<And>e. e \<in> set es \<Longrightarrow> crosses (snd e)" and "distinct (map fst es)" and "''__proto__'' \<notin> set (map fst es)"
  shows "crosses (VObj es)"
proof (cases "encodable (VObj es)")
  case True
  let ?es = "filter (\<lambda>e. snd e \<noteq> VUndef) es" and ?enc = "\<lambda>e. (fst e, projr (encodeValue (snd e)))"
  have each: "\<exists>w. encodeValue (snd e) = Inr w \<and> decodeWriterValue w = Inr (without_undefined (snd e))" if "e \<in> set ?es" for e
    using assms(1) [of e] True that by (auto simp: crosses_def list_all_iff split: if_splits)
  have "encodeEntries es [] = Inr ([] @ map ?enc ?es)"
    by (rule encodeEntries_plain) (use each assms(2,3) in \<open>auto simp: list_all_iff\<close>)
  moreover have "decodeEntries (map ?enc ?es) = Inr (map (\<lambda>e. (fst e, projr (decodeWriterValue (snd e)))) (map ?enc ?es))"
    by (rule decodeEntries_good) (use each in \<open>fastforce simp: list_all_iff\<close>)
  moreover have "map (\<lambda>e. (fst e, projr (decodeWriterValue (snd e)))) (map ?enc ?es)
      = map (\<lambda>e. (fst e, without_undefined (snd e))) ?es"
    unfolding map_map by (rule map_cong [OF refl]) (use each in fastforce)
  moreover have "jm_of_list (map (\<lambda>e. (fst e, without_undefined (snd e))) ?es) = map (\<lambda>e. (fst e, without_undefined (snd e))) ?es"
    by (rule jm_of_list_fresh) (use assms(2) in \<open>simp add: comp_def distinct_map_filter\<close>)
  ultimately have "encodeValue (VObj es) = Inr (EObj (map ?enc ?es))"
    "decodeWriterValue (EObj (map ?enc ?es)) = Inr (without_undefined (VObj es))"
    by (simp_all only: encodeValue.simps decodeWriterValue.simps without_undefined.simps sum.case append.simps)
  then show ?thesis using True unfolding crosses_def by auto
next
  case False
  then obtain e where e: "e \<in> set es" "snd e \<noteq> VUndef" "\<not> encodable (snd e)" by (auto simp: list_all_iff)
  then obtain x where "encodeValue (snd e) = Inl x" using assms(1) [OF e(1)] by (auto simp: crosses_def)
  with encodeEntries_bad [of "fst e" "snd e" es x "[]"] e show ?thesis using False by (auto simp: crosses_def)
qed

lemma plain_crosses: "plain v \<Longrightarrow> crosses v"
proof (induction v)
  case (VArr items)
  show ?case
    by (rule crosses_array) (use VArr in \<open>fastforce simp: list_all_iff\<close>)
next
  case (VObj es)
  show ?case
    by (rule crosses_object) (use VObj in \<open>fastforce simp: list_all_iff\<close>)+
qed (simp_all add: crosses_def bigint_roundtrip base64_roundtrip)

section \<open>Properties\<close>

text \<open>C24. Round trip: a value whose objects have distinct keys other than \<open>__proto__\<close> is either encoded, and then decodes to
  itself without its undefined entries (integers of any size and bytes included), or refused with an error; it is refused
  exactly if it holds a hole, an undefined item, a number that is not finite, a foreign object, a symbol key, a function
  or a symbol.\<close>

theorem codec_roundtrip:
  assumes "plain v"
  shows "(encodable v \<longrightarrow> (\<exists>w. encodeWriterValue v = Inr w \<and> decodeWriterValue w = Inr (without_undefined v)))
    \<and> (\<not> encodable v \<longrightarrow> (\<exists>e. encodeWriterValue v = Inl e))"
  using plain_crosses [OF assms] by (auto simp: crosses_def encodeWriterValue_def split: if_splits)

lemma codec_roundtrip_witness:
  "\<exists>w. encodeWriterValue (VObj [(''a'', VBigInt (- 12)), (''b'', VUndef), (''c'', VArr [Some (VBytes [255, 0])])]) = Inr w
     \<and> decodeWriterValue w = Inr (VObj [(''a'', VBigInt (- 12)), (''c'', VArr [Some (VBytes [255, 0])])])"
  using codec_roundtrip [of "VObj [(''a'', VBigInt (- 12)), (''b'', VUndef), (''c'', VArr [Some (VBytes [255, 0])])]"]
  by simp

text \<open>Defect: an entry with the key \<open>__proto__\<close> is assigned to the prototype of the encoded object and lost without an
  error, so an object that has only this entry arrives empty.\<close>

theorem proto_entry_lost:
  assumes "encodeWriterValue v = Inr w"
  shows "\<exists>x. encodeWriterValue (VObj [(''__proto__'', v)]) = Inr x \<and> decodeWriterValue x = Inr (VObj [])"
  using assms by (cases "v = VUndef") (auto simp: encodeWriterValue_def put_own_def jm_of_list_def)

lemma proto_entry_lost_witness:
  "\<exists>x. encodeWriterValue (VObj [(''__proto__'', VStr ''lost'')]) = Inr x \<and> decodeWriterValue x = Inr (VObj [])"
  by (rule proto_entry_lost [of "VStr ''lost''" "EStr ''lost''"]) (simp add: encodeWriterValue_def)

end
