(* ===== verification/WriterQueue.thy ===== *)
theory WriterQueue
  imports StepMachine
begin

text \<open>
  The queue in front of the process that writes the database (\<open>api/db/writer/queue.ts\<close>): jobs run one at a time
  in the order in which they were accepted. A job is a number; what it does and how it ends is the environment's.
  The state also records which jobs were accepted, refused and settled, in order.
\<close>

datatype outcome = Resolved | Rejected

record writer_queue =
  wq_maxDepth :: nat
  wq_jobs :: "nat list"
  wq_active :: "nat option" \<comment> \<open>the job that is awaited; the flag \<open>active\<close> is set while there is one\<close>
  wq_accepting :: bool
  wq_accepted :: "nat list"
  wq_refused :: "(nat \<times> string) list"
  wq_settled :: "(nat \<times> outcome) list"

datatype queue_event = Enqueue nat | Finish outcome | StopAccepting

definition new_queue :: "nat \<Rightarrow> writer_queue" where
  "new_queue maxDepth = \<lparr>wq_maxDepth = maxDepth, wq_jobs = [], wq_active = None, wq_accepting = True,
     wq_accepted = [], wq_refused = [], wq_settled = []\<rparr>"

definition depth :: "writer_queue \<Rightarrow> nat" where
  "depth q = length (wq_jobs q) + (if wq_active q = None then 0 else 1)"

definition drain_next :: "writer_queue \<Rightarrow> writer_queue" where
  \<comment> \<open>one turn of the loop of \<open>drain\<close>: shift a job and await it, or clear the flag\<close>
  "drain_next q = (case wq_jobs q of
     [] \<Rightarrow> q\<lparr>wq_active := None\<rparr>
   | job # jobs \<Rightarrow> q\<lparr>wq_jobs := jobs, wq_active := Some job\<rparr>)"

definition enqueue :: "nat \<Rightarrow> writer_queue \<Rightarrow> writer_queue" where
  "enqueue job q =
     (if \<not> wq_accepting q then q\<lparr>wq_refused := wq_refused q @ [(job, ''Writer is shutting down.'')]\<rparr>
      else if length (wq_jobs q) \<ge> wq_maxDepth q then q\<lparr>wq_refused := wq_refused q @ [(job, ''Writer queue is full.'')]\<rparr>
      else (let q' = q\<lparr>wq_jobs := wq_jobs q @ [job], wq_accepted := wq_accepted q @ [job]\<rparr>
            in if wq_active q' = None then drain_next q' else q'))"

definition finish :: "outcome \<Rightarrow> writer_queue \<Rightarrow> writer_queue option" where
  \<comment> \<open>the awaited job resolves or rejects, and the loop goes on\<close>
  "finish out q = (case wq_active q of None \<Rightarrow> None
     | Some job \<Rightarrow> Some (drain_next (q\<lparr>wq_settled := wq_settled q @ [(job, out)]\<rparr>)))"

fun queue_move :: "queue_event \<Rightarrow> writer_queue \<Rightarrow> writer_queue option" where
  "queue_move (Enqueue job) q = Some (enqueue job q)"
| "queue_move (Finish out) q = finish out q"
| "queue_move StopAccepting q = Some (q\<lparr>wq_accepting := False\<rparr>)"

section \<open>The invariant\<close>

definition active_list :: "writer_queue \<Rightarrow> nat list" where
  "active_list q = (case wq_active q of None \<Rightarrow> [] | Some job \<Rightarrow> [job])"

definition queue_ok :: "nat \<Rightarrow> writer_queue \<Rightarrow> bool" where
  "queue_ok n q = (wq_maxDepth q = n \<and> wq_accepted q = map fst (wq_settled q) @ active_list q @ wq_jobs q
     \<and> length (wq_jobs q) \<le> n \<and> (wq_active q = None \<longrightarrow> wq_jobs q = []))"

lemmas queue_defs = queue_ok_def active_list_def drain_next_def enqueue_def finish_def depth_def

lemma queue_ok_move: "queue_ok n q \<Longrightarrow> queue_move e q = Some q' \<Longrightarrow> queue_ok n q'"
  by (cases e) (auto simp: queue_defs Let_def split: option.splits list.splits if_splits)

fun is_finish :: "queue_event \<Rightarrow> bool" where
  "is_finish (Finish _) = True"
| "is_finish _ = False"

lemma finish_depth: "queue_ok n q \<Longrightarrow> is_finish e \<Longrightarrow> 0 < depth q \<Longrightarrow> \<exists>q'. queue_move e q = Some q' \<and> depth q = Suc (depth q')"
  by (cases e) (auto simp: queue_defs split: option.splits list.splits if_splits)

interpretation wq: draining_machine queue_move "new_queue n" "queue_ok n" is_finish depth
proof
  show "queue_ok n (new_queue n)" by (simp add: new_queue_def queue_ok_def active_list_def)
qed (rule queue_ok_move finish_depth; assumption)+

section \<open>Properties\<close>

text \<open>C25. First in, first out, exactly once: after any events the jobs that were accepted are, in the order of acceptance, those
  that have been settled (each once), the one that is running and those that wait; at most one job runs, none waits
  while nothing runs, and never more than the limit wait.\<close>

theorem queue_fifo:
  assumes "run_events queue_move es (new_queue n) = Some q"
  shows "wq_accepted q = map fst (wq_settled q) @ active_list q @ wq_jobs q \<and> length (wq_jobs q) \<le> n
    \<and> (wq_active q = None \<longrightarrow> wq_jobs q = [])"
  using wq.inv_reached [OF assms] by (simp add: queue_ok_def)

lemma queue_fifo_witness:
  "\<exists>q. run_events queue_move [Enqueue 1, Enqueue 2, Finish Rejected, Enqueue 3] (new_queue 1) = Some q
     \<and> wq_accepted q = map fst (wq_settled q) @ active_list q @ wq_jobs q"
proof -
  obtain q where "run_events queue_move [Enqueue 1, Enqueue 2, Finish Rejected, Enqueue 3] (new_queue 1) = Some q"
    by (simp add: new_queue_def queue_defs Let_def)
  with queue_fifo [OF this] show ?thesis by blast
qed

text \<open>The queue empties: from any state that events lead to, as many jobs finishing as are running or waiting, however they
  end, leave it idle with every accepted job settled, so \<open>whenIdle\<close> returns.\<close>

theorem queue_drains:
  assumes "run_events queue_move es (new_queue n) = Some q" and "length outs = depth q"
  shows "\<exists>q'. run_events queue_move (map Finish outs) q = Some q' \<and> depth q' = 0 \<and> map fst (wq_settled q') = wq_accepted q'"
proof -
  have ok: "queue_ok n q" by (rule wq.inv_reached [OF assms(1)])
  obtain q' where q': "run_events queue_move (map Finish outs) q = Some q'" "depth q' = 0"
    using wq.drained [OF ok, of "map Finish outs"] assms(2) by (auto simp: list_all_iff)
  moreover have "queue_ok n q'" by (rule wq.inv_run [OF ok q'(1)])
  then have "map fst (wq_settled q') = wq_accepted q'"
    using q'(2) by (auto simp: queue_ok_def active_list_def depth_def split: option.splits if_splits)
  ultimately show ?thesis by blast
qed

lemma queue_drains_witness:
  "\<exists>q q'. run_events queue_move [Enqueue 1, Enqueue 2, StopAccepting] (new_queue 5) = Some q
     \<and> run_events queue_move (map Finish [Resolved, Rejected]) q = Some q' \<and> depth q' = 0"
proof -
  obtain q where q: "run_events queue_move [Enqueue 1, Enqueue 2, StopAccepting] (new_queue 5) = Some q" "depth q = 2"
    by (simp add: new_queue_def queue_defs Let_def)
  with queue_drains [OF q(1), of "[Resolved, Rejected]"] show ?thesis by auto
qed

end
