(* ===== verification/StrictJson.thy ===== *)
theory StrictJson
  imports JsText
begin

text \<open>
  The strict JSON reader for untrusted documents (\<open>api/modules/api-schema-fuzz/strict-json-document.ts\<close>). Text is
  a list of 16-bit code units; a cursor is the offset of the parser with the text from there. A number is the
  rational number its text names (rounding to 64-bit floats is not modelled, overflowing to infinity is). The
  recursion is given a bound on its depth as fuel, and running out of it is one more error, which is proved
  never to occur.
\<close>

section \<open>Values and errors\<close>

type_synonym units = "int list"

type_synonym cursor = "nat \<times> units"

datatype json =
    JsNull
  | JsBool bool
  | JsNum rat
  | JsStr units
  | JsArr "json list"
  | JsObj "(units \<times> json) list" \<comment> \<open>the properties in the order of the document\<close>

datatype reason =
    Size_exceeded | Utf8_invalid | Trailing_data | Depth_exceeded | Value_invalid | Number_invalid
  | Object_key_invalid | Duplicate_key | Prototype_key | Object_colon_missing | Object_separator_invalid
  | Array_separator_invalid | String_invalid | Lone_surrogate | String_control_character | String_unterminated
  | Out_of_fuel

type_synonym 'a parsed = "(reason \<times> nat) + ('a \<times> cursor)"

definition units_of :: "string \<Rightarrow> units" where
  "units_of s = map of_char s"

definition FORBIDDEN_KEYS :: "units set" where
  "FORBIDDEN_KEYS = {units_of ''__proto__'', units_of ''constructor'', units_of ''prototype''}"

definition fail_at :: "reason \<Rightarrow> cursor \<Rightarrow> 'a parsed" where
  "fail_at r cur = Inl (r, fst cur)"

section \<open>Tokens\<close>

definition is_ws :: "int \<Rightarrow> bool" where
  "is_ws u = (u = 0x20 \<or> u = 0x09 \<or> u = 0x0D \<or> u = 0x0A)"

definition advance :: "nat \<Rightarrow> cursor \<Rightarrow> cursor" where
  "advance n cur = (fst cur + n, drop n (snd cur))"

definition whitespace :: "cursor \<Rightarrow> cursor" where
  "whitespace cur = advance (length (takeWhile is_ws (snd cur))) cur"

definition at_unit :: "int \<Rightarrow> cursor \<Rightarrow> bool" where
  \<comment> \<open>\<open>this.source[this.offset] === unit\<close>\<close>
  "at_unit u cur = (case snd cur of [] \<Rightarrow> False | x # _ \<Rightarrow> x = u)"

definition at_token :: "units \<Rightarrow> cursor \<Rightarrow> bool" where
  \<comment> \<open>\<open>startsWith(token, this.offset)\<close>\<close>
  "at_token t cur = (take (length t) (snd cur) = t)"

definition unit_digit :: "int \<Rightarrow> bool" where
  "unit_digit u = (0x30 \<le> u \<and> u \<le> 0x39)"

definition digits_of :: "units \<Rightarrow> units" where
  "digits_of s = takeWhile unit_digit s"

definition digits_number :: "units \<Rightarrow> nat" where
  "digits_number ds = foldl (\<lambda>n d. 10 * n + nat (d - 0x30)) 0 ds"

record number_parts =
  np_neg :: bool
  np_int :: units
  np_frac :: units
  np_expNeg :: bool
  np_exp :: units
  np_length :: nat

definition lex_sign :: "int set \<Rightarrow> units \<Rightarrow> units \<times> units" where
  "lex_sign signs s = (case s of [] \<Rightarrow> ([], []) | x # xs \<Rightarrow> (if x \<in> signs then ([x], xs) else ([], s)))"

definition lex_integer :: "units \<Rightarrow> units" where
  \<comment> \<open>\<open>0|[1-9]\d*\<close>, nothing when it does not match\<close>
  "lex_integer s = (if take 1 s = [0x30] then [0x30] else digits_of s)"

definition lex_fraction :: "units \<Rightarrow> units" where
  \<comment> \<open>the digits of \<open>(?:\.\d+)?\<close>\<close>
  "lex_fraction s = (case s of [] \<Rightarrow> [] | x # xs \<Rightarrow> (if x = 0x2E then digits_of xs else []))"

definition lex_exponent :: "units \<Rightarrow> units \<times> units" where
  \<comment> \<open>the sign and the digits of \<open>(?:[eE][+-]?\d+)?\<close>\<close>
  "lex_exponent s = (case s of [] \<Rightarrow> ([], []) | x # xs \<Rightarrow>
     (if x = 0x65 \<or> x = 0x45 then
        (let (sg, ys) = lex_sign {0x2B, 0x2D} xs; ds = digits_of ys in if ds = [] then ([], []) else (sg, ds))
      else ([], [])))"

definition lex_number :: "units \<Rightarrow> number_parts option" where
  "lex_number s =
     (let (neg, s1) = lex_sign {0x2D} s; int = lex_integer s1; s2 = drop (length int) s1;
          frac = lex_fraction s2; fracLength = (if frac = [] then 0 else Suc (length frac));
          (esign, exp) = lex_exponent (drop fracLength s2); expLength = (if exp = [] then 0 else Suc (length esign + length exp))
      in if int = [] then None
         else Some \<lparr>np_neg = (neg \<noteq> []), np_int = int, np_frac = frac, np_expNeg = (esign = [0x2D]), np_exp = exp,
           np_length = length neg + length int + fracLength + expLength\<rparr>)"

definition number_value :: "number_parts \<Rightarrow> rat" where
  "number_value p =
     (let m = of_nat (digits_number (np_int p @ np_frac p)) / 10 ^ length (np_frac p); e = 10 ^ digits_number (np_exp p);
          v = (if np_expNeg p then m / e else m * e)
      in if np_neg p then - v else v)"

definition is_finite_number :: "rat \<Rightarrow> bool" where
  \<comment> \<open>\<open>Number\<close> rounds to infinity from half a unit above the largest float on\<close>
  "is_finite_number v = (\<bar>v\<bar> < 2 ^ 1024 - 2 ^ 970)"

section \<open>Strings\<close>

fun scan_string :: "bool \<Rightarrow> nat \<Rightarrow> units \<Rightarrow> units parsed" where
  \<comment> \<open>the units up to the closing quote\<close>
  "scan_string escaped off [] = Inl (String_unterminated, off)"
| "scan_string escaped off (c # cs) =
     (if \<not> escaped \<and> c = 0x22 then Inr ([], (Suc off, cs))
      else if \<not> escaped \<and> c < 0x20 then Inl (String_control_character, off)
      else (case scan_string (\<not> escaped \<and> c = 0x5C) (Suc off) cs of
          Inl e \<Rightarrow> Inl e | Inr (body, cur) \<Rightarrow> Inr (c # body, cur)))"

definition hex_value :: "int \<Rightarrow> int option" where
  "hex_value u = (if unit_digit u then Some (u - 0x30)
     else if 0x61 \<le> u \<and> u \<le> 0x66 then Some (u - 0x61 + 10)
     else if 0x41 \<le> u \<and> u \<le> 0x46 then Some (u - 0x41 + 10) else None)"

definition simple_escape :: "int \<Rightarrow> int option" where
  "simple_escape u = map_of [(0x22, 0x22), (0x5C, 0x5C), (0x2F, 0x2F), (0x62, 0x08), (0x66, 0x0C), (0x6E, 0x0A),
     (0x72, 0x0D), (0x74, 0x09)] u"

definition hex4 :: "units \<Rightarrow> int option" where
  "hex4 s = (case map hex_value (take 4 s) of
     [Some a, Some b, Some c, Some d] \<Rightarrow> Some (((a * 16 + b) * 16 + c) * 16 + d) | _ \<Rightarrow> None)"

fun unescape :: "units \<Rightarrow> units option" where
  \<comment> \<open>\<open>JSON.parse\<close> of the string literal with these units between its quotes\<close>
  "unescape [] = Some []"
| "unescape (c # cs) =
     (if c \<noteq> 0x5C then (if c < 0x20 \<or> c = 0x22 then None else map_option (Cons c) (unescape cs))
      else (case cs of [] \<Rightarrow> None
        | e # es \<Rightarrow>
            (if e = 0x75 then (case hex4 es of None \<Rightarrow> None | Some u \<Rightarrow> map_option (Cons u) (unescape (drop 4 es)))
             else (case simple_escape e of None \<Rightarrow> None | Some u \<Rightarrow> map_option (Cons u) (unescape es)))))"

definition is_high :: "int \<Rightarrow> bool" where
  "is_high u = (0xD800 \<le> u \<and> u \<le> 0xDBFF)"

definition is_low :: "int \<Rightarrow> bool" where
  "is_low u = (0xDC00 \<le> u \<and> u \<le> 0xDFFF)"

fun well_paired :: "units \<Rightarrow> bool" where
  "well_paired [] = True"
| "well_paired [u] = (\<not> is_high u \<and> \<not> is_low u)"
| "well_paired (u # v # us) =
     (if is_high u then is_low v \<and> well_paired us else \<not> is_low u \<and> well_paired (v # us))"

definition parse_string :: "cursor \<Rightarrow> units parsed" where
  "parse_string cur = (case scan_string False (Suc (fst cur)) (drop 1 (snd cur)) of
     Inl e \<Rightarrow> Inl e
   | Inr (body, cur') \<Rightarrow> (case unescape body of
       None \<Rightarrow> fail_at String_invalid cur'
     | Some s \<Rightarrow> (if well_paired s then Inr (s, cur') else fail_at Lone_surrogate cur')))"

section \<open>The parser\<close>

definition parse_literal :: "cursor \<Rightarrow> (json \<times> cursor) option" where
  "parse_literal cur =
     (if at_token (units_of ''true'') cur then Some (JsBool True, advance 4 cur)
      else if at_token (units_of ''false'') cur then Some (JsBool False, advance 5 cur)
      else if at_token (units_of ''null'') cur then Some (JsNull, advance 4 cur) else None)"

definition parse_number :: "cursor \<Rightarrow> json parsed" where
  "parse_number cur = (case lex_number (snd cur) of
     None \<Rightarrow> fail_at Value_invalid cur
   | Some p \<Rightarrow> (let cur' = advance (np_length p) cur in
       if is_finite_number (number_value p) then Inr (JsNum (number_value p), cur') else fail_at Number_invalid cur'))"

fun parse_value :: "nat \<Rightarrow> nat \<Rightarrow> cursor \<Rightarrow> json parsed"
  and parse_entries :: "nat \<Rightarrow> nat \<Rightarrow> units list \<Rightarrow> cursor \<Rightarrow> (units \<times> json) list parsed"
  and parse_items :: "nat \<Rightarrow> nat \<Rightarrow> cursor \<Rightarrow> json list parsed"
where
  "parse_value 0 depth cur = fail_at Out_of_fuel cur"
| "parse_value (Suc n) depth cur0 =
     (if depth > 128 then fail_at Depth_exceeded cur0
      else (let cur = whitespace cur0 in
        if at_unit 0x7B cur then
          (let cur1 = whitespace (advance 1 cur) in
           if at_unit 0x7D cur1 then Inr (JsObj [], advance 1 cur1)
           else (case parse_entries n (Suc depth) [] cur1 of
               Inl e \<Rightarrow> Inl e | Inr (es, cur2) \<Rightarrow> Inr (JsObj es, cur2)))
        else if at_unit 0x5B cur then
          (let cur1 = whitespace (advance 1 cur) in
           if at_unit 0x5D cur1 then Inr (JsArr [], advance 1 cur1)
           else (case parse_items n (Suc depth) cur1 of
               Inl e \<Rightarrow> Inl e | Inr (vs, cur2) \<Rightarrow> Inr (JsArr vs, cur2)))
        else if at_unit 0x22 cur then
          (case parse_string cur of Inl e \<Rightarrow> Inl e | Inr (s, cur1) \<Rightarrow> Inr (JsStr s, cur1))
        else (case parse_literal cur of Some r \<Rightarrow> Inr r | None \<Rightarrow> parse_number cur)))"
| "parse_entries 0 depth keys cur = fail_at Out_of_fuel cur"
| "parse_entries (Suc n) depth keys cur0 =
     (let cur = whitespace cur0 in
      if \<not> at_unit 0x22 cur then fail_at Object_key_invalid cur
      else (case parse_string cur of Inl e \<Rightarrow> Inl e
        | Inr (key, cur1) \<Rightarrow>
            (if key \<in> set keys then fail_at Duplicate_key cur1
             else if key \<in> FORBIDDEN_KEYS then fail_at Prototype_key cur1
             else (let cur2 = whitespace cur1 in
               if \<not> at_unit 0x3A cur2 then fail_at Object_colon_missing cur2
               else (case parse_value n depth (advance 1 cur2) of Inl e \<Rightarrow> Inl e
                 | Inr (v, cur3) \<Rightarrow>
                     (let cur4 = whitespace cur3 in
                      if at_unit 0x7D cur4 then Inr ([(key, v)], advance 1 cur4)
                      else if at_unit 0x2C cur4 then
                        (case parse_entries n depth (key # keys) (advance 1 cur4) of Inl e \<Rightarrow> Inl e
                          | Inr (es, cur5) \<Rightarrow> Inr ((key, v) # es, cur5))
                      else fail_at Object_separator_invalid cur4))))))"
| "parse_items 0 depth cur = fail_at Out_of_fuel cur"
| "parse_items (Suc n) depth cur =
     (case parse_value n depth cur of Inl e \<Rightarrow> Inl e
      | Inr (v, cur1) \<Rightarrow>
          (let cur2 = whitespace cur1 in
           if at_unit 0x5D cur2 then Inr ([v], advance 1 cur2)
           else if at_unit 0x2C cur2 then
             (case parse_items n depth (advance 1 cur2) of Inl e \<Rightarrow> Inl e | Inr (vs, cur3) \<Rightarrow> Inr (v # vs, cur3))
           else fail_at Array_separator_invalid cur2))"

definition parse_text :: "units \<Rightarrow> (reason \<times> nat) + json" where
  "parse_text source = (case parse_value (2 * length source + 1) 0 (0, source) of
     Inl e \<Rightarrow> Inl e
   | Inr (v, cur) \<Rightarrow> (let cur' = whitespace cur in if snd cur' = [] then Inr v else Inl (Trailing_data, fst cur')))"

section \<open>What the parser accepts\<close>

function json_ok :: "nat \<Rightarrow> json \<Rightarrow> bool" where
  \<comment> \<open>a value inside \<open>d\<close> objects and arrays\<close>
  "json_ok d JsNull = (d \<le> 128)"
| "json_ok d (JsBool b) = (d \<le> 128)"
| "json_ok d (JsNum v) = (d \<le> 128 \<and> is_finite_number v)"
| "json_ok d (JsStr s) = (d \<le> 128 \<and> well_paired s)"
| "json_ok d (JsArr vs) = (d \<le> 128 \<and> (\<forall>v \<in> set vs. json_ok (Suc d) v))"
| "json_ok d (JsObj es) = (d \<le> 128 \<and> distinct (map fst es)
     \<and> (\<forall>(k, v) \<in> set es. k \<notin> FORBIDDEN_KEYS \<and> well_paired k \<and> json_ok (Suc d) v))"
  by pat_completeness auto
termination
proof (relation "measure (size \<circ> snd)")
  fix es :: "(units \<times> json) list" and z k v and d :: nat
  assume "z \<in> set es" "(k, v) = z"
  then show "((Suc d, v), d, JsObj es) \<in> measure (size \<circ> snd)"
    by (induction es) (auto simp: less_Suc_eq)
qed (auto simp: less_Suc_eq_le size_list_estimation')

definition entries_ok :: "nat \<Rightarrow> units list \<Rightarrow> (units \<times> json) list \<Rightarrow> bool" where
  "entries_ok d keys es = (distinct (map fst es) \<and> set (map fst es) \<inter> set keys = {}
     \<and> (\<forall>(k, v) \<in> set es. k \<notin> FORBIDDEN_KEYS \<and> well_paired k \<and> json_ok d v))"

definition left :: "cursor \<Rightarrow> nat" where
  "left cur = length (snd cur)"

lemma left_simps [simp]: "left (off, s) = length s" "left (advance n cur) = left cur - n"
  by (simp_all add: left_def advance_def)

lemma left_whitespace: "left (whitespace cur) \<le> left cur"
  by (simp add: whitespace_def)

lemma left_unit: "at_unit u cur \<Longrightarrow> 0 < left cur"
  by (auto simp: at_unit_def left_def split: list.splits)

lemma left_scan: "scan_string escaped off s = Inr (body, cur) \<Longrightarrow> left cur < length s"
  by (induction escaped off s arbitrary: body rule: scan_string.induct) (fastforce split: if_splits sum.splits)+

lemma parse_string_ok:
  assumes "parse_string cur = Inr (s, cur')"
  shows "well_paired s \<and> left cur' < left cur"
proof -
  obtain body where "scan_string False (Suc (fst cur)) (drop 1 (snd cur)) = Inr (body, cur')" "well_paired s"
    using assms by (auto simp: parse_string_def fail_at_def split: sum.splits option.splits if_splits)
  with left_scan [OF this(1)] show ?thesis by (simp add: left_def)
qed

lemma lex_integer_nonempty: "lex_integer s \<noteq> [] \<Longrightarrow> s \<noteq> []"
  by (auto simp: lex_integer_def digits_of_def)

lemma parse_number_ok:
  assumes "parse_number cur = Inr (v, cur')"
  shows "json_ok 0 v \<and> left cur' < left cur" "\<exists>q. v = JsNum q"
proof -
  obtain p where p: "lex_number (snd cur) = Some p" "is_finite_number (number_value p)"
    "v = JsNum (number_value p)" "cur' = advance (np_length p) cur"
    using assms by (auto simp: parse_number_def fail_at_def Let_def split: option.splits if_splits)
  have "0 < np_length p" "snd cur \<noteq> []"
    using p(1) lex_integer_nonempty [of "snd cur"] by (auto simp: lex_number_def lex_sign_def Let_def split: prod.splits if_splits list.splits)
  then show "json_ok 0 v \<and> left cur' < left cur" "\<exists>q. v = JsNum q"
    using p by (auto simp: left_def advance_def)
qed

lemma parse_literal_ok:
  assumes "parse_literal cur = Some (v, cur')"
  shows "json_ok 0 v \<and> left cur' < left cur" "v = JsNull \<or> (\<exists>b. v = JsBool b)"
proof -
  have "at_token t cur \<Longrightarrow> length t \<le> left cur" for t
    by (auto simp: at_token_def left_def dest: arg_cong [where f = length])
  from this [of "units_of ''true''"] this [of "units_of ''false''"] this [of "units_of ''null''"]
  show "json_ok 0 v \<and> left cur' < left cur" "v = JsNull \<or> (\<exists>b. v = JsBool b)"
    using assms by (auto simp: parse_literal_def units_of_def split: if_splits)
qed

text \<open>A value, property list or item list that is returned is well formed at its depth and was not empty in the text.\<close>

definition value_good :: "nat \<Rightarrow> nat \<Rightarrow> bool" where
  "value_good n d = (\<forall>cur v cur'. parse_value n d cur = Inr (v, cur') \<longrightarrow> json_ok d v \<and> left cur' < left cur)"

definition entries_good :: "nat \<Rightarrow> nat \<Rightarrow> bool" where
  "entries_good n d = (\<forall>keys cur es cur'. parse_entries n d keys cur = Inr (es, cur') \<longrightarrow> entries_ok d keys es \<and> left cur' < left cur)"

definition items_good :: "nat \<Rightarrow> nat \<Rightarrow> bool" where
  "items_good n d = (\<forall>cur vs cur'. parse_items n d cur = Inr (vs, cur') \<longrightarrow> (\<forall>v \<in> set vs. json_ok d v) \<and> left cur' < left cur)"

lemma left_step [simp]: "left (whitespace (advance n cur)) \<le> left cur - n"
  using left_whitespace [of "advance n cur"] by simp

lemma value_good_Suc:
  assumes e: "entries_good n (Suc d)" and i: "items_good n (Suc d)"
  shows "value_good (Suc n) d"
  unfolding value_good_def
proof (intro allI impI)
  fix cur0 v cur'
  assume r: "parse_value (Suc n) d cur0 = Inr (v, cur')"
  let ?cur = "whitespace cur0" let ?cur1 = "whitespace (advance 1 ?cur)"
  have d: "d \<le> 128" using r by (auto simp: fail_at_def split: if_splits)
  have le: "left ?cur \<le> left cur0" "left ?cur1 \<le> left ?cur - 1" by (simp_all add: left_whitespace)
  have scalar: "json_ok d v" if "json_ok 0 v" "(\<exists>q. v = JsNum q) \<or> v = JsNull \<or> (\<exists>b. v = JsBool b)" for v
    using that d by auto
  consider (obj) "at_unit 0x7B ?cur" | (arr) "\<not> at_unit 0x7B ?cur" "at_unit 0x5B ?cur"
    | (str) "\<not> at_unit 0x7B ?cur" "\<not> at_unit 0x5B ?cur" "at_unit 0x22 ?cur"
    | (other) "\<not> at_unit 0x7B ?cur" "\<not> at_unit 0x5B ?cur" "\<not> at_unit 0x22 ?cur" by blast
  then show "json_ok d v \<and> left cur' < left cur0"
  proof cases
    case obj
    have pos: "0 < left ?cur" by (rule left_unit [OF obj])
    show ?thesis
    proof (cases "at_unit 0x7D ?cur1")
      case True
      then have "v = JsObj []" "left cur' = left ?cur1 - 1" using r d obj by (auto simp: Let_def)
      moreover have "left ?cur1 - 1 < left cur0" using le pos by linarith
      ultimately show ?thesis using d by simp
    next
      case False
      then obtain es where es: "parse_entries n (Suc d) [] ?cur1 = Inr (es, cur')" "v = JsObj es"
        using r d obj by (auto simp: Let_def split: sum.splits)
      have "entries_ok (Suc d) [] es" "left cur' < left ?cur1"
        using e [unfolded entries_good_def, rule_format, OF es(1)] by blast+
      moreover have "left ?cur1 < left cur0" using le pos by linarith
      ultimately show ?thesis using d es(2) by (simp add: entries_ok_def)
    qed
  next
    case arr
    have pos: "0 < left ?cur" by (rule left_unit [OF arr(2)])
    show ?thesis
    proof (cases "at_unit 0x5D ?cur1")
      case True
      then have "v = JsArr []" "left cur' = left ?cur1 - 1" using r d arr by (auto simp: Let_def)
      moreover have "left ?cur1 - 1 < left cur0" using le pos by linarith
      ultimately show ?thesis using d by simp
    next
      case False
      then obtain vs where vs: "parse_items n (Suc d) ?cur1 = Inr (vs, cur')" "v = JsArr vs"
        using r d arr by (auto simp: Let_def split: sum.splits)
      have "\<forall>v \<in> set vs. json_ok (Suc d) v" "left cur' < left ?cur1"
        using i [unfolded items_good_def, rule_format, OF vs(1)] by blast+
      moreover have "left ?cur1 < left cur0" using le pos by linarith
      ultimately show ?thesis using d vs(2) by simp
    qed
  next
    case str
    then obtain t where "parse_string ?cur = Inr (t, cur')" "v = JsStr t"
      using r d by (auto simp: Let_def split: sum.splits)
    then show ?thesis using parse_string_ok d le by fastforce
  next
    case other
    show ?thesis
    proof (cases "parse_literal ?cur")
      case None
      then have "parse_number ?cur = Inr (v, cur')" using r d other by (simp add: Let_def)
      then show ?thesis using parse_number_ok scalar le by (meson less_le_trans)
    next
      case (Some p)
      then have "parse_literal ?cur = Some (v, cur')" using r d other by (simp add: Let_def)
      then show ?thesis using parse_literal_ok scalar le by (meson less_le_trans)
    qed
  qed
qed

lemma entries_good_Suc:
  assumes v: "value_good n d" and e: "entries_good n d"
  shows "entries_good (Suc n) d"
  unfolding entries_good_def
proof (intro allI impI)
  fix keys cur0 es cur'
  assume r: "parse_entries (Suc n) d keys cur0 = Inr (es, cur')"
  let ?cur = "whitespace cur0"
  obtain key cur1 where key: "parse_string ?cur = Inr (key, cur1)" "key \<notin> set keys" "key \<notin> FORBIDDEN_KEYS"
    using r by (auto simp: Let_def fail_at_def split: sum.splits if_splits)
  obtain w cur3 where w: "parse_value n d (advance 1 (whitespace cur1)) = Inr (w, cur3)"
    using r key by (auto simp: Let_def fail_at_def split: sum.splits if_splits)
  let ?cur4 = "whitespace cur3"
  have left: "left cur1 < left cur0" "well_paired key" "json_ok d w" "left cur3 < left cur0"
    using parse_string_ok [OF key(1)] left_whitespace [of cur0] left_whitespace [of cur1]
      v [unfolded value_good_def, rule_format, OF w] by auto
  show "entries_ok d keys es \<and> left cur' < left cur0"
  proof (cases "at_unit 0x7D ?cur4")
    case True
    then have "es = [(key, w)]" "cur' = advance 1 ?cur4"
      using r key w by (auto simp: Let_def fail_at_def split: if_splits)
    then show ?thesis using key left left_whitespace [of cur3] by (simp add: entries_ok_def)
  next
    case False
    then obtain es' where es': "parse_entries n d (key # keys) (advance 1 ?cur4) = Inr (es', cur')" "es = (key, w) # es'"
      using r key w by (auto simp: Let_def fail_at_def split: sum.splits if_splits)
    have "entries_ok d (key # keys) es'" "left cur' < left ?cur4"
      using e [unfolded entries_good_def, rule_format, OF es'(1)] by auto
    then show ?thesis using es'(2) key left left_whitespace [of cur3] by (auto simp: entries_ok_def)
  qed
qed

lemma items_good_Suc:
  assumes v: "value_good n d" and i: "items_good n d"
  shows "items_good (Suc n) d"
  unfolding items_good_def
proof (intro allI impI)
  fix cur vs cur'
  assume r: "parse_items (Suc n) d cur = Inr (vs, cur')"
  obtain w cur1 where w: "parse_value n d cur = Inr (w, cur1)"
    using r by (auto simp: Let_def fail_at_def split: sum.splits if_splits)
  let ?cur2 = "whitespace cur1"
  have left: "json_ok d w" "left ?cur2 < left cur"
    using v [unfolded value_good_def, rule_format, OF w] left_whitespace [of cur1] by auto
  show "(\<forall>v \<in> set vs. json_ok d v) \<and> left cur' < left cur"
  proof (cases "at_unit 0x5D ?cur2")
    case True
    then have "vs = [w]" "cur' = advance 1 ?cur2" using r w by (auto simp: Let_def fail_at_def split: if_splits)
    then show ?thesis using left by simp
  next
    case False
    then obtain vs' where vs': "parse_items n d (advance 1 ?cur2) = Inr (vs', cur')" "vs = w # vs'"
      using r w by (auto simp: Let_def fail_at_def split: sum.splits if_splits)
    show ?thesis using i [unfolded items_good_def, rule_format, OF vs'(1)] vs'(2) left by auto
  qed
qed

lemma parse_good: "value_good n d \<and> entries_good n d \<and> items_good n d"
proof (induction n arbitrary: d)
  case 0
  show ?case by (simp add: value_good_def entries_good_def items_good_def fail_at_def)
next
  case (Suc n)
  then show ?case using value_good_Suc entries_good_Suc items_good_Suc by blast
qed

lemma parse_value_good: "parse_value n d cur = Inr (v, cur') \<Longrightarrow> json_ok d v \<and> left cur' < left cur"
  using parse_good [of n d] unfolding value_good_def by blast

section \<open>Enough fuel\<close>

definition fueled :: "'a parsed \<Rightarrow> bool" where
  "fueled r = (case r of Inl e \<Rightarrow> fst e \<noteq> Out_of_fuel | Inr _ \<Rightarrow> True)"

lemma fueled_simps [simp]:
  "fueled (Inr x)" "fueled (Inl e) \<longleftrightarrow> fst e \<noteq> Out_of_fuel" "fueled (fail_at r cur) \<longleftrightarrow> r \<noteq> Out_of_fuel"
  by (simp_all add: fueled_def fail_at_def)

lemma fueled_scan: "fueled (scan_string escaped off s)"
  by (induction escaped off s rule: scan_string.induct) (auto split: sum.splits)

lemma fueled_string: "fueled (parse_string cur)"
  using fueled_scan [of False "Suc (fst cur)" "drop 1 (snd cur)"]
  by (auto simp: parse_string_def split: sum.splits option.splits)

lemma fueled_number: "fueled (parse_number cur)"
  by (simp add: parse_number_def Let_def split: option.split)

lemma fueled_case:
  "fueled r \<Longrightarrow> (\<And>x cur. r = Inr (x, cur) \<Longrightarrow> fueled (f x cur)) \<Longrightarrow> fueled (case r of Inl e \<Rightarrow> Inl e | Inr (x, cur) \<Rightarrow> f x cur)"
  by (cases r) (auto split: prod.split)

lemma fueled_value:
  assumes "\<And>cur. 2 * left cur + 2 \<le> n \<Longrightarrow> fueled (parse_entries n (Suc d) [] cur)"
    and "\<And>cur. 2 * left cur + 2 \<le> n \<Longrightarrow> fueled (parse_items n (Suc d) cur)" and "2 * left cur0 + 1 \<le> Suc n"
  shows "fueled (parse_value (Suc n) d cur0)"
proof -
  let ?cur = "whitespace cur0" let ?cur1 = "whitespace (advance 1 ?cur)"
  have n: "0 < left ?cur \<Longrightarrow> 2 * left ?cur1 + 2 \<le> n"
    using assms(3) left_whitespace [of cur0] left_whitespace [of "advance 1 ?cur"] unfolding left_simps by linarith
  have e: "at_unit u ?cur \<Longrightarrow> fueled (parse_entries n (Suc d) [] ?cur1)" for u
    by (rule assms(1)) (rule n, rule left_unit)
  have i: "at_unit u ?cur \<Longrightarrow> fueled (parse_items n (Suc d) ?cur1)" for u
    by (rule assms(2)) (rule n, rule left_unit)
  show ?thesis
    using e [of "0x7B"] i [of "0x5B"] fueled_string [of ?cur] fueled_number [of ?cur]
    unfolding parse_value.simps Let_def
    by (simp split: option.split add: fueled_case)
qed

lemma fueled_entries:
  assumes "\<And>cur. 2 * left cur + 1 \<le> n \<Longrightarrow> fueled (parse_value n d cur)"
    and "\<And>keys cur. 2 * left cur + 2 \<le> n \<Longrightarrow> fueled (parse_entries n d keys cur)" and "2 * left cur0 + 2 \<le> Suc n"
  shows "fueled (parse_entries (Suc n) d keys cur0)"
proof -
  have v: "fueled (parse_value n d (advance 1 (whitespace cur1)))" if "parse_string (whitespace cur0) = Inr (key, cur1)" for key cur1
  proof (rule assms(1))
    show "2 * left (advance 1 (whitespace cur1)) + 1 \<le> n"
      using assms(3) parse_string_ok [OF that] left_whitespace [of cur0] left_whitespace [of cur1] unfolding left_simps by linarith
  qed
  have e: "fueled (parse_entries n d keys' (advance 1 (whitespace cur3)))"
    if "parse_string (whitespace cur0) = Inr (key, cur1)" "parse_value n d (advance 1 (whitespace cur1)) = Inr (w, cur3)"
    for key cur1 w cur3 keys'
  proof (rule assms(2))
    have "left cur3 < left (advance 1 (whitespace cur1))" using parse_value_good [OF that(2)] by blast
    then show "2 * left (advance 1 (whitespace cur3)) + 2 \<le> n"
      using assms(3) parse_string_ok [OF that(1)] left_whitespace [of cur0] left_whitespace [of cur1] left_whitespace [of cur3]
      unfolding left_simps by linarith
  qed
  show ?thesis
    unfolding parse_entries.simps Let_def
    by (auto intro!: fueled_case fueled_string) (erule v [unfolded One_nat_def], erule (1) e [unfolded One_nat_def])
qed

lemma fueled_items:
  assumes "\<And>cur. 2 * left cur + 1 \<le> n \<Longrightarrow> fueled (parse_value n d cur)"
    and "\<And>cur. 2 * left cur + 2 \<le> n \<Longrightarrow> fueled (parse_items n d cur)" and "2 * left cur0 + 2 \<le> Suc n"
  shows "fueled (parse_items (Suc n) d cur0)"
proof -
  have i: "fueled (parse_items n d (advance 1 (whitespace cur1)))" if "parse_value n d cur0 = Inr (w, cur1)" for w cur1
  proof (rule assms(2))
    show "2 * left (advance 1 (whitespace cur1)) + 2 \<le> n"
      using assms(3) parse_value_good [OF that] left_whitespace [of cur1] unfolding left_simps by linarith
  qed
  have "fueled (parse_value n d cur0)" using assms(1,3) by simp
  then show ?thesis
    unfolding parse_items.simps Let_def by (auto intro!: fueled_case i [unfolded One_nat_def])
qed

lemma parse_fueled:
  "(\<forall>cur. 2 * left cur + 1 \<le> n \<longrightarrow> fueled (parse_value n d cur))
    \<and> (\<forall>keys cur. 2 * left cur + 2 \<le> n \<longrightarrow> fueled (parse_entries n d keys cur))
    \<and> (\<forall>cur. 2 * left cur + 2 \<le> n \<longrightarrow> fueled (parse_items n d cur))"
proof (induction n arbitrary: d)
  case (Suc n)
  then show ?case by (intro conjI allI impI fueled_value fueled_entries fueled_items) blast+
qed simp

section \<open>Properties\<close>

text \<open>C22. An accepted document is safe to use: its objects have no property twice and none of the names \<open>__proto__\<close>,
  \<open>constructor\<close> and \<open>prototype\<close>, its strings and property names have no unpaired surrogate, its numbers are finite,
  and nothing in it is inside more than 128 objects and arrays.\<close>

theorem accepted_document_ok:
  assumes "parse_text source = Inr v"
  shows "json_ok 0 v"
proof -
  obtain cur where "parse_value (2 * length source + 1) 0 (0, source) = Inr (v, cur)"
    using assms by (auto simp: parse_text_def Let_def split: sum.splits if_splits)
  then show ?thesis using parse_value_good by blast
qed

definition sample_document :: units where
  \<comment> \<open>an object with an array of null and an escaped letter, and an empty object\<close>
  "sample_document = [0x7B, 0x20, 0x22, 0x61, 0x22, 0x20, 0x3A, 0x20, 0x5B, 0x20, 0x6E, 0x75, 0x6C, 0x6C, 0x20, 0x2C,
     0x20, 0x22, 0x5C, 0x75, 0x30, 0x30, 0x65, 0x39, 0x22, 0x20, 0x5D, 0x20, 0x2C, 0x20, 0x22, 0x62,
     0x22, 0x20, 0x3A, 0x20, 0x7B, 0x7D, 0x20, 0x7D]"

lemma accepted_document_ok_witness: "\<exists>v. parse_text sample_document = Inr v \<and> json_ok 0 v"
proof -
  have "parse_text sample_document = Inr (JsObj [([97], JsArr [JsNull, JsStr [233]]), ([98], JsObj [])])"
    by code_simp
  from accepted_document_ok [OF this] this show ?thesis by blast
qed

text \<open>C39. Reading always comes to an end: the recursion never runs out of fuel, so that every text is either read to its end as
  a value or refused with one of the reasons of the code.\<close>

theorem parsing_ends: "parse_text source \<noteq> Inl (Out_of_fuel, off)"
proof -
  have "fueled (parse_value (2 * length source + 1) 0 (0, source))"
    using parse_fueled [of "2 * length source + 1" 0] by (simp only: left_simps)
  then show ?thesis
    by (auto simp: parse_text_def fueled_def Let_def split: sum.splits if_splits)
qed

end
