(* ===== verification/StrictJsonText.thy ===== *)
theory StrictJsonText
  imports StrictJson
begin

text \<open>
  The compact text of a JSON value, and that the strict reader (theory StrictJson) returns the value for it. Numbers
  are integers here.
\<close>

section \<open>The text of a value\<close>

definition hex_digit :: "int \<Rightarrow> int" where
  "hex_digit d = (if d < 10 then 0x30 + d else 0x57 + d)"

definition text_unit :: "int \<Rightarrow> units" where
  "text_unit u = (if u = 0x22 \<or> u = 0x5C then [0x5C, u]
     else if u < 0x20 then [0x5C, 0x75, 0x30, 0x30, hex_digit (u div 16), hex_digit (u mod 16)] else [u])"

definition text_string :: "units \<Rightarrow> units" where
  "text_string s = 0x22 # concat (map text_unit s) @ [0x22]"

fun text_nat :: "nat \<Rightarrow> units" where
  "text_nat n = (if n < 10 then [0x30 + int n] else text_nat (n div 10) @ [0x30 + int (n mod 10)])"

definition text_int :: "int \<Rightarrow> units" where
  "text_int z = (if z < 0 then 0x2D # text_nat (nat (- z)) else text_nat (nat z))"

fun commas :: "units list \<Rightarrow> units" where
  "commas [] = []"
| "commas [x] = x"
| "commas (x # y # ys) = x @ 0x2C # commas (y # ys)"

function text_json :: "json \<Rightarrow> units" where
  "text_json JsNull = units_of ''null''"
| "text_json (JsBool b) = units_of (if b then ''true'' else ''false'')"
| "text_json (JsNum q) = text_int \<lfloor>q\<rfloor>"
| "text_json (JsStr s) = text_string s"
| "text_json (JsArr vs) = 0x5B # commas (map text_json vs) @ [0x5D]"
| "text_json (JsObj es) = 0x7B # commas (map (\<lambda>(k, v). text_string k @ 0x3A # text_json v) es) @ [0x7D]"
  by pat_completeness auto
termination
proof (relation "measure size")
  fix es :: "(units \<times> json) list" and z k v
  assume "z \<in> set es" "(k, v) = z"
  then show "(v, JsObj es) \<in> measure size"
    by (induction es) (auto simp: less_Suc_eq)
qed (auto simp: less_Suc_eq_le size_list_estimation')

definition units_ok :: "units \<Rightarrow> bool" where
  "units_ok s = (\<forall>u \<in> set s. 0 \<le> u \<and> u < 0x10000)"

function has_text :: "json \<Rightarrow> bool" where
  "has_text JsNull = True"
| "has_text (JsBool b) = True"
| "has_text (JsNum q) = (of_int \<lfloor>q\<rfloor> = q)"
| "has_text (JsStr s) = units_ok s"
| "has_text (JsArr vs) = (\<forall>v \<in> set vs. has_text v)"
| "has_text (JsObj es) = (\<forall>(k, v) \<in> set es. units_ok k \<and> has_text v)"
  by pat_completeness auto
termination
proof (relation "measure size")
  fix es :: "(units \<times> json) list" and z k v
  assume "z \<in> set es" "(k, v) = z"
  then show "(v, JsObj es) \<in> measure size"
    by (induction es) (auto simp: less_Suc_eq)
qed (auto simp: less_Suc_eq_le size_list_estimation')

declare text_nat.simps [simp del]

section \<open>Strings\<close>

lemma hex_value_digit: "0 \<le> d \<Longrightarrow> d < 16 \<Longrightarrow> hex_value (hex_digit d) = Some d"
  by (simp add: hex_value_def hex_digit_def unit_digit_def)

lemma hex4_control:
  assumes "0 \<le> u" "u < 0x20"
  shows "hex4 (0x30 # 0x30 # hex_digit (u div 16) # hex_digit (u mod 16) # s) = Some u"
proof -
  have "0 \<le> u div 16" "u div 16 < 16" using assms by (auto simp: div_less_iff_less_mult)
  moreover have "hex_value 0x30 = Some 0" by (simp add: hex_value_def unit_digit_def)
  ultimately show ?thesis by (simp add: hex4_def hex_value_digit)
qed

lemma unescape_text: "units_ok s \<Longrightarrow> unescape (concat (map text_unit s)) = Some s"
proof (induction s)
  case (Cons u s)
  then have u: "0 \<le> u" and IH: "unescape (concat (map text_unit s)) = Some s" by (auto simp: units_ok_def)
  show ?case
    by (cases "u = 0x22 \<or> u = 0x5C"; cases "u < 0x20")
      (use u IH hex4_control [of u] in \<open>auto simp: text_unit_def [of u] simple_escape_def\<close>)
qed simp

lemma scan_plain: "c \<noteq> 0x22 \<Longrightarrow> c \<noteq> 0x5C \<Longrightarrow> \<not> c < 0x20 \<Longrightarrow> scan_string False off (c # cs) =
    (case scan_string False (Suc off) cs of Inl e \<Rightarrow> Inl e | Inr (body, cur) \<Rightarrow> Inr (c # body, cur))"
  by simp

lemma scan_text:
  "units_ok s \<Longrightarrow> scan_string False off (concat (map text_unit s) @ 0x22 # rest)
    = Inr (concat (map text_unit s), (Suc (off + length (concat (map text_unit s))), rest))"
proof (induction s arbitrary: off)
  case (Cons u s)
  then have u: "0 \<le> u" and IH: "\<And>off. scan_string False off (concat (map text_unit s) @ 0x22 # rest)
    = Inr (concat (map text_unit s), (Suc (off + length (concat (map text_unit s))), rest))" by (auto simp: units_ok_def)
  have hex: "hex_digit d \<noteq> 0x22 \<and> hex_digit d \<noteq> 0x5C \<and> \<not> hex_digit d < 0x20" if "0 \<le> d" "d < 16" for d
    using that by (auto simp: hex_digit_def)
  consider "u = 0x22 \<or> u = 0x5C" | "u < 0x20" | "u \<noteq> 0x22" "u \<noteq> 0x5C" "\<not> u < 0x20" by blast
  then show ?case
  proof cases
    case 2
    have "0 \<le> u div 16" "u div 16 < 16" using u 2 by (auto simp: div_less_iff_less_mult)
    then show ?thesis using 2 u IH hex [of "u div 16"] hex [of "u mod 16"] by (auto simp: text_unit_def [of u])
  qed (use IH in \<open>auto simp: text_unit_def [of u]\<close>)
qed simp

lemma parse_string_text:
  assumes "units_ok s" and "well_paired s"
  shows "parse_string (off, text_string s @ rest) = Inr (s, (off + length (text_string s), rest))"
  using scan_text [OF assms(1), of "Suc off" rest] unescape_text [OF assms(1)] assms(2)
  by (simp add: parse_string_def text_string_def)

section \<open>Integers\<close>

definition stops :: "units \<Rightarrow> bool" where
  "stops s = (case s of [] \<Rightarrow> True | u # _ \<Rightarrow> u \<in> {0x2C, 0x5D, 0x7D})"

lemma text_nat_digits: "list_all unit_digit (text_nat n)" "text_nat n \<noteq> []"
proof -
  show "text_nat n \<noteq> []" by (subst text_nat.simps) simp
  show "list_all unit_digit (text_nat n)"
    by (induction n rule: text_nat.induct) (subst text_nat.simps, auto simp: unit_digit_def list_all_iff)
qed

lemma digits_snoc: "digits_number (ds @ [d]) = 10 * digits_number ds + nat (d - 0x30)"
  by (simp add: digits_number_def)

lemma digits_text_nat: "digits_number (text_nat n) = n"
proof (induction n rule: text_nat.induct)
  case (1 n)
  then show ?case
    by (subst text_nat.simps) (auto simp: digits_snoc digits_number_def [of "[_]"])
qed

lemma text_nat_head: "n \<noteq> 0 \<Longrightarrow> hd (text_nat n) \<noteq> 0x30"
proof (induction n rule: text_nat.induct)
  case (1 n)
  then show ?case
    by (subst text_nat.simps) (auto simp: hd_append text_nat_digits(2))
qed

lemma text_nat_0: "text_nat 0 = [0x30]"
  by (subst text_nat.simps) simp

lemma digits_stop: "list_all unit_digit ds \<Longrightarrow> stops rest \<Longrightarrow> digits_of (ds @ rest) = ds"
  by (induction ds) (auto simp: digits_of_def stops_def unit_digit_def split: list.splits)

lemma lex_integer_text:
  assumes "stops rest"
  shows "lex_integer (text_nat n @ rest) = text_nat n"
proof (cases "n = 0")
  case False
  have "take 1 (text_nat n @ rest) \<noteq> [0x30]"
    using text_nat_head [OF False] text_nat_digits(2) [of n] by (cases "text_nat n") auto
  then show ?thesis using digits_stop [OF text_nat_digits(1) assms] by (simp add: lex_integer_def)
qed (simp add: text_nat_0 lex_integer_def)

lemma lex_number_text:
  assumes "stops rest"
  shows "\<exists>p. lex_number (text_int z @ rest) = Some p \<and> number_value p = of_int z \<and> np_length p = length (text_int z)"
proof -
  have tail: "lex_fraction rest = []" "lex_exponent rest = ([], [])"
    using assms by (auto simp: stops_def lex_fraction_def lex_exponent_def split: list.splits)
  have nonneg: "lex_sign {0x2D} (text_nat n @ rest) = ([], text_nat n @ rest)" for n
    using text_nat_digits [of n] by (cases "text_nat n") (auto simp: lex_sign_def unit_digit_def)
  have value0: "digits_number [] = 0" by (simp add: digits_number_def)
  show ?thesis
  proof (cases "z < 0")
    case True
    then show ?thesis using lex_integer_text [OF assms] tail text_nat_digits(2)
      by (simp add: lex_number_def text_int_def lex_sign_def number_value_def digits_text_nat value0 Let_def)
  next
    case False
    then show ?thesis using lex_integer_text [OF assms] tail nonneg text_nat_digits(2)
      by (simp add: lex_number_def text_int_def number_value_def digits_text_nat value0 Let_def)
  qed
qed

section \<open>Reading the text of a value\<close>

lemma whitespace_stop: "stops rest \<Longrightarrow> whitespace (off, rest) = (off, rest)"
  by (auto simp: whitespace_def advance_def stops_def is_ws_def split: list.splits)

definition first_ok :: "units \<Rightarrow> bool" where
  "first_ok s = (case s of [] \<Rightarrow> False | u # _ \<Rightarrow> \<not> is_ws u \<and> u \<noteq> 0x5D \<and> u \<noteq> 0x7D)"

lemma first_ok_append: "first_ok s \<Longrightarrow> first_ok (s @ t)"
  by (auto simp: first_ok_def split: list.splits)

lemma whitespace_first: "first_ok s \<Longrightarrow> whitespace (off, s) = (off, s)"
  by (auto simp: whitespace_def advance_def first_ok_def split: list.splits)

lemma text_int_first: "first_ok (text_int z)"
  using text_nat_digits [of "nat z"]
  by (cases "text_nat (nat z)") (auto simp: text_int_def first_ok_def is_ws_def unit_digit_def)

lemma text_first: "first_ok (text_json v)"
  by (cases v) (simp_all add: text_int_first, auto simp: first_ok_def is_ws_def units_of_def text_string_def)

lemma commas_first: "xs \<noteq> [] \<Longrightarrow> first_ok (hd xs) \<Longrightarrow> first_ok (commas xs)"
  by (cases xs rule: commas.cases) (auto simp: first_ok_append)

definition reads_back :: "nat \<Rightarrow> json \<Rightarrow> bool" where
  "reads_back d v = (\<forall>n off rest. stops rest \<longrightarrow> 2 * length (text_json v) + 1 \<le> n
     \<longrightarrow> parse_value n d (off, text_json v @ rest) = Inr (v, (off + length (text_json v), rest)))"

lemma reads_backD:
  "reads_back d v \<Longrightarrow> stops rest \<Longrightarrow> 2 * length (text_json v) + 1 \<le> n
    \<Longrightarrow> parse_value n d (off, text_json v @ rest) = Inr (v, (off + length (text_json v), rest))"
  by (simp add: reads_back_def)

lemma text_nonempty: "0 < length (text_json v)"
  using text_first [of v] by (auto simp: first_ok_def)

lemma items_text:
  assumes "vs \<noteq> []" and "\<forall>v \<in> set vs. reads_back d v" and "2 * length (commas (map text_json vs)) + 2 \<le> n"
  shows "parse_items n d (off, commas (map text_json vs) @ 0x5D # rest)
    = Inr (vs, (off + length (commas (map text_json vs)) + 1, rest))"
  using assms
proof (induction vs arbitrary: n off rule: induct_list012)
  case (2 v)
  obtain m where m: "n = Suc m" "2 * length (text_json v) + 1 \<le> m" using 2 by (cases n) auto
  have "stops (0x5D # rest)" by (simp add: stops_def)
  then show ?case
    using reads_backD [of d v "0x5D # rest" m off] 2 m
    by (simp add: whitespace_stop at_unit_def advance_def)
next
  case (3 v w vs)
  let ?tl = "commas (map text_json (w # vs)) @ 0x5D # rest"
  obtain m where m: "n = Suc m" "2 * length (text_json v) + 1 \<le> m" "2 * length (commas (map text_json (w # vs))) + 2 \<le> m"
    using 3(5) text_nonempty [of v] by (cases n) auto
  have st: "stops (0x2C # ?tl)" by (simp add: stops_def)
  have v: "parse_value m d (off, text_json v @ 0x2C # ?tl) = Inr (v, (off + length (text_json v), 0x2C # ?tl))"
    by (rule reads_backD) (use 3(4) st m(2) in simp_all)
  have "parse_items m d (off + length (text_json v) + 1, ?tl)
    = Inr (w # vs, (off + length (text_json v) + 1 + length (commas (map text_json (w # vs))) + 1, rest))"
    by (rule 3(2)) (use 3(4) m(3) in simp_all)
  then show ?case
    using v st by (simp add: m(1) whitespace_stop at_unit_def advance_def)
qed simp

definition text_entry :: "units \<times> json \<Rightarrow> units" where
  "text_entry e = text_string (fst e) @ 0x3A # text_json (snd e)"

lemma entry_first: "first_ok (text_entry e)"
  by (simp add: text_entry_def text_string_def first_ok_def is_ws_def)

lemma entry_nonempty: "3 \<le> length (text_entry e)"
  by (simp add: text_entry_def text_string_def)

definition entry_back :: "nat \<Rightarrow> units \<times> json \<Rightarrow> bool" where
  "entry_back d e = (units_ok (fst e) \<and> well_paired (fst e) \<and> fst e \<notin> FORBIDDEN_KEYS \<and> reads_back d (snd e))"

lemma entry_text:
  assumes "entry_back d (k, v)" and "k \<notin> set keys" and "stops rest" and "2 * length (text_entry (k, v)) \<le> n"
  shows "parse_entries (Suc n) d keys (off, text_entry (k, v) @ rest)
    = (let cur = (off + length (text_entry (k, v)), rest) in
       if at_unit 0x7D cur then Inr ([(k, v)], advance 1 cur)
       else if at_unit 0x2C cur then
         (case parse_entries n d (k # keys) (advance 1 cur) of Inl e \<Rightarrow> Inl e | Inr (es, cur5) \<Rightarrow> Inr ((k, v) # es, cur5))
       else fail_at Object_separator_invalid cur)"
proof -
  let ?o1 = "off + length (text_string k)"
  have t: "text_entry (k, v) @ rest = text_string k @ 0x3A # text_json v @ rest" by (simp add: text_entry_def)
  have ws: "whitespace (off, text_string k @ 0x3A # text_json v @ rest) = (off, text_string k @ 0x3A # text_json v @ rest)"
    using whitespace_first [OF first_ok_append [OF entry_first [of "(k, v)"], of rest]] by (simp add: text_entry_def)
  have q: "at_unit 0x22 (off, text_string k @ 0x3A # text_json v @ rest)" by (simp add: text_string_def at_unit_def)
  have k: "parse_string (off, text_string k @ 0x3A # text_json v @ rest) = Inr (k, (?o1, 0x3A # text_json v @ rest))"
    using assms(1) parse_string_text by (simp add: entry_back_def)
  have c: "whitespace (?o1, 0x3A # text_json v @ rest) = (?o1, 0x3A # text_json v @ rest)"
    by (simp add: whitespace_def advance_def is_ws_def)
  have v: "parse_value n d (?o1 + 1, text_json v @ rest) = Inr (v, (?o1 + 1 + length (text_json v), rest))"
    by (rule reads_backD) (use assms in \<open>simp_all add: entry_back_def text_entry_def text_string_def\<close>)
  have "k \<notin> FORBIDDEN_KEYS" using assms(1) by (simp add: entry_back_def)
  then show ?thesis
    using q k c v assms(2) whitespace_stop [OF assms(3)]
    unfolding t parse_entries.simps Let_def ws
    by (simp add: text_entry_def advance_def at_unit_def [of "0x3A"] add.assoc)
qed

lemma entries_text:
  assumes "es \<noteq> []" and "\<forall>e \<in> set es. entry_back d e" and "distinct (map fst es)" and "set (map fst es) \<inter> set keys = {}"
    and "2 * length (commas (map text_entry es)) + 1 \<le> n"
  shows "parse_entries n d keys (off, commas (map text_entry es) @ 0x7D # rest)
    = Inr (es, (off + length (commas (map text_entry es)) + 1, rest))"
  using assms
proof (induction es arbitrary: n off keys rule: induct_list012)
  case (2 e)
  obtain k v where e: "e = (k, v)" by (cases e)
  obtain m where m: "n = Suc m" "2 * length (text_entry (k, v)) \<le> m" using 2 e by (cases n) auto
  have "parse_entries (Suc m) d keys (off, text_entry (k, v) @ 0x7D # rest)
    = Inr ([(k, v)], advance 1 (off + length (text_entry (k, v)), 0x7D # rest))"
    using 2 e m by (subst entry_text) (simp_all add: stops_def at_unit_def)
  then show ?case using e m by (simp add: advance_def)
next
  case (3 e f es)
  obtain k v where e: "e = (k, v)" by (cases e)
  let ?tl = "commas (map text_entry (f # es)) @ 0x7D # rest"
  obtain m where m: "n = Suc m" "2 * length (text_entry (k, v)) \<le> m" "2 * length (commas (map text_entry (f # es))) + 1 \<le> m"
    using 3(7) e entry_nonempty [of "(k, v)"] by (cases n) auto
  have r: "parse_entries m d (k # keys) (off + length (text_entry (k, v)) + 1, ?tl)
    = Inr (f # es, (off + length (text_entry (k, v)) + 1 + length (commas (map text_entry (f # es))) + 1, rest))"
    by (rule 3(2)) (use 3(4-6) e m(3) in auto)
  have "parse_entries (Suc m) d keys (off, text_entry (k, v) @ 0x2C # ?tl)
    = (case parse_entries m d (k # keys) (off + length (text_entry (k, v)) + 1, ?tl) of
        Inl e \<Rightarrow> Inl e | Inr (es, cur5) \<Rightarrow> Inr ((k, v) # es, cur5))"
    using 3(4,6) e m(2) by (subst entry_text) (simp_all add: stops_def at_unit_def advance_def)
  then show ?case using e r by (simp add: m(1))
qed simp

lemma reads_back: "json_ok d v \<Longrightarrow> has_text v \<Longrightarrow> reads_back d v"
proof (induction d v rule: json_ok.induct)
  case (1 d)
  then show ?case
    unfolding reads_back_def
  proof (intro allI impI)
    fix n off :: nat and rest :: units assume "stops rest" "2 * length (text_json JsNull) + 1 \<le> n"
    then obtain m where "n = Suc m" by (cases n) auto
    then show "parse_value n d (off, text_json JsNull @ rest) = Inr (JsNull, (off + length (text_json JsNull), rest))"
      using 1 by (simp add: units_of_def whitespace_def advance_def is_ws_def at_unit_def parse_literal_def at_token_def)
  qed
next
  case (2 d b)
  then show ?case
    unfolding reads_back_def
  proof (intro allI impI)
    fix n off :: nat and rest :: units assume "stops rest" "2 * length (text_json (JsBool b)) + 1 \<le> n"
    then obtain m where "n = Suc m" by (cases n) auto
    then show "parse_value n d (off, text_json (JsBool b) @ rest) = Inr (JsBool b, (off + length (text_json (JsBool b)), rest))"
      using 2 by (cases b) (simp_all add: units_of_def whitespace_def advance_def is_ws_def at_unit_def parse_literal_def at_token_def)
  qed
next
  case (3 d q)
  then show ?case
    unfolding reads_back_def
  proof (intro allI impI)
    fix n off :: nat and rest :: units assume st: "stops rest" and n: "2 * length (text_json (JsNum q)) + 1 \<le> n"
    then obtain m where m: "n = Suc m" by (cases n) auto
    let ?cur = "(off, text_int \<lfloor>q\<rfloor> @ rest)"
    obtain p where p: "lex_number (text_int \<lfloor>q\<rfloor> @ rest) = Some p" "number_value p = q" "np_length p = length (text_int \<lfloor>q\<rfloor>)"
      using lex_number_text [OF st, of "\<lfloor>q\<rfloor>"] 3 by auto
    have "parse_number ?cur = Inr (JsNum q, (off + length (text_int \<lfloor>q\<rfloor>), rest))"
      using p 3 by (simp add: parse_number_def advance_def)
    moreover have "whitespace ?cur = ?cur" by (rule whitespace_first [OF first_ok_append [OF text_int_first]])
    moreover have "\<not> at_unit 0x7B ?cur" "\<not> at_unit 0x5B ?cur" "\<not> at_unit 0x22 ?cur" "parse_literal ?cur = None"
      using text_nat_digits [of "nat \<lfloor>q\<rfloor>"] text_nat_digits [of "nat (- \<lfloor>q\<rfloor>)"]
      by (cases "text_nat (nat \<lfloor>q\<rfloor>)";
          auto simp: text_int_def at_unit_def parse_literal_def at_token_def units_of_def unit_digit_def)+
    ultimately show "parse_value n d (off, text_json (JsNum q) @ rest) = Inr (JsNum q, (off + length (text_json (JsNum q)), rest))"
      using 3 by (simp add: m)
  qed
next
  case (4 d s)
  then show ?case
    unfolding reads_back_def
  proof (intro allI impI)
    fix n off :: nat and rest :: units assume "stops rest" "2 * length (text_json (JsStr s)) + 1 \<le> n"
    then obtain m where m: "n = Suc m" by (cases n) auto
    have "whitespace (off, text_string s @ rest) = (off, text_string s @ rest)"
      by (simp add: whitespace_def advance_def is_ws_def text_string_def)
    moreover have "\<not> at_unit 0x7B (off, text_string s @ rest)" "\<not> at_unit 0x5B (off, text_string s @ rest)"
      "at_unit 0x22 (off, text_string s @ rest)" by (simp_all add: at_unit_def text_string_def)
    ultimately show "parse_value n d (off, text_json (JsStr s) @ rest) = Inr (JsStr s, (off + length (text_json (JsStr s)), rest))"
      using 4 parse_string_text [of s off rest] by (simp add: m)
  qed
next
  case (5 d vs)
  then have ready: "\<forall>v \<in> set vs. reads_back (Suc d) v" by simp
  show ?case
    unfolding reads_back_def
  proof (intro allI impI)
    fix n off :: nat and rest :: units assume n: "2 * length (text_json (JsArr vs)) + 1 \<le> n"
    then obtain m where m: "n = Suc m" by (cases n) auto
    let ?body = "commas (map text_json vs) @ 0x5D # rest"
    have t: "text_json (JsArr vs) @ rest = 0x5B # ?body" by simp
    have start: "whitespace (off, 0x5B # ?body) = (off, 0x5B # ?body)" "at_unit 0x5B (off, 0x5B # ?body)" "\<not> at_unit 0x7B (off, 0x5B # ?body)"
      by (simp_all add: whitespace_def advance_def is_ws_def at_unit_def)
    have d: "d \<le> 128" using 5 by simp
    show "parse_value n d (off, text_json (JsArr vs) @ rest) = Inr (JsArr vs, (off + length (text_json (JsArr vs)), rest))"
    proof (cases "vs = []")
      case True
      then show ?thesis using start d unfolding t m parse_value.simps
        by (simp add: advance_def at_unit_def whitespace_def is_ws_def)
    next
      case False
      have f: "first_ok (commas (map text_json vs))"
        using False commas_first [of "map text_json vs"] text_first by (simp add: hd_map)
      have ws: "whitespace (Suc off, ?body) = (Suc off, ?body)" by (rule whitespace_first [OF first_ok_append [OF f]])
      have "\<not> at_unit 0x5D (Suc off, ?body)" using f by (auto simp: first_ok_def at_unit_def split: list.splits)
      moreover have "parse_items m (Suc d) (Suc off, ?body) = Inr (vs, (Suc off + length (commas (map text_json vs)) + 1, rest))"
        by (rule items_text [OF False ready]) (use n m in simp)
      ultimately show ?thesis using start d ws unfolding t m parse_value.simps
        by (simp add: advance_def)
    qed
  qed
next
  case (6 d es)
  have ready: "\<forall>e \<in> set es. entry_back (Suc d) e"
  proof
    fix e assume e: "e \<in> set es"
    obtain k v where kv: "e = (k, v)" by (cases e)
    have ok: "k \<notin> FORBIDDEN_KEYS" "well_paired k" "json_ok (Suc d) v" "units_ok k" "has_text v"
      using 6(2,3) e kv by auto
    then have "reads_back (Suc d) v" using 6(1) [OF e kv [symmetric]] by blast
    with ok kv show "entry_back (Suc d) e" by (simp add: entry_back_def)
  qed
  have map: "map (\<lambda>(k, v). text_string k @ 0x3A # text_json v) es = map text_entry es"
    by (simp add: text_entry_def case_prod_unfold)
  show ?case
    unfolding reads_back_def
  proof (intro allI impI)
    fix n off :: nat and rest :: units assume n: "2 * length (text_json (JsObj es)) + 1 \<le> n"
    then obtain m where m: "n = Suc m" by (cases n) auto
    let ?body = "commas (map text_entry es) @ 0x7D # rest"
    have t: "text_json (JsObj es) @ rest = 0x7B # ?body" by (simp add: map)
    have start: "whitespace (off, 0x7B # ?body) = (off, 0x7B # ?body)" "at_unit 0x7B (off, 0x7B # ?body)"
      by (simp_all add: whitespace_def advance_def is_ws_def at_unit_def)
    have d: "d \<le> 128" "distinct (map fst es)" using 6 by simp_all
    show "parse_value n d (off, text_json (JsObj es) @ rest) = Inr (JsObj es, (off + length (text_json (JsObj es)), rest))"
    proof (cases "es = []")
      case True
      then show ?thesis using start d unfolding t m parse_value.simps
        by (simp add: advance_def at_unit_def whitespace_def is_ws_def)
    next
      case False
      have f: "first_ok (commas (map text_entry es))"
        using False commas_first [of "map text_entry es"] entry_first by (simp add: hd_map)
      have ws: "whitespace (Suc off, ?body) = (Suc off, ?body)" by (rule whitespace_first [OF first_ok_append [OF f]])
      have "\<not> at_unit 0x7D (Suc off, ?body)" using f by (auto simp: first_ok_def at_unit_def split: list.splits)
      moreover have "parse_entries m (Suc d) [] (Suc off, ?body) = Inr (es, (Suc off + length (commas (map text_entry es)) + 1, rest))"
        by (rule entries_text [OF False ready d(2)]) (use n m in \<open>simp_all add: map\<close>)
      ultimately show ?thesis using start d ws unfolding t m parse_value.simps
        by (simp add: advance_def map)
    qed
  qed
qed

section \<open>The round trip\<close>

text \<open>Nothing well formed is refused: the compact text of any value that satisfies what the reader guarantees, with integers
  for numbers, is accepted and read as that very value.\<close>

lemma json_text_roundtrip:
  assumes "json_ok 0 v" and "has_text v"
  shows "parse_text (text_json v) = Inr v"
proof -
  have "parse_value (2 * length (text_json v) + 1) 0 (0, text_json v @ []) = Inr (v, (0 + length (text_json v), []))"
    by (rule reads_backD [OF reads_back [OF assms]]) (simp_all add: stops_def)
  then show ?thesis by (simp add: parse_text_def whitespace_def advance_def)
qed

end
