(* ===== verification/StrictJsonBytes.thy ===== *)
theory StrictJsonBytes
  imports StrictJsonText
begin

text \<open>
  The strict JSON reader as it is called (\<open>parseStrictJsonDocument\<close> of
  \<open>api/modules/api-schema-fuzz/strict-json-document.ts\<close>): a string, which is encoded first, or bytes; the bound on
  the size; the decoding of UTF-8 that refuses what is not UTF-8 and drops a byte order mark.
\<close>

section \<open>UTF-8\<close>

fun code_points :: "units \<Rightarrow> int list" where
  \<comment> \<open>what \<open>TextEncoder\<close> encodes: a surrogate without its partner becomes U+FFFD\<close>
  "code_points [] = []"
| "code_points [u] = [if is_high u \<or> is_low u then 0xFFFD else u]"
| "code_points (u # v # us) =
     (if is_high u \<and> is_low v then (0x10000 + (u - 0xD800) * 0x400 + (v - 0xDC00)) # code_points us
      else (if is_high u \<or> is_low u then 0xFFFD else u) # code_points (v # us))"

definition encode_point :: "int \<Rightarrow> int list" where
  "encode_point p =
     (if p < 0x80 then [p]
      else if p < 0x800 then [0xC0 + p div 0x40, 0x80 + p mod 0x40]
      else if p < 0x10000 then [0xE0 + p div 0x1000, 0x80 + p div 0x40 mod 0x40, 0x80 + p mod 0x40]
      else [0xF0 + p div 0x40000, 0x80 + p div 0x1000 mod 0x40, 0x80 + p div 0x40 mod 0x40, 0x80 + p mod 0x40])"

definition utf8_encode :: "units \<Rightarrow> int list" where
  "utf8_encode s = concat (map encode_point (code_points s))"

definition point_units :: "int \<Rightarrow> units" where
  "point_units p = (if p < 0x10000 then [p] else [0xD800 + (p - 0x10000) div 0x400, 0xDC00 + (p - 0x10000) mod 0x400])"

definition in_range :: "int \<Rightarrow> int \<Rightarrow> int \<Rightarrow> bool" where
  "in_range lo hi b = (lo \<le> b \<and> b \<le> hi)"

fun utf8_points :: "int list \<Rightarrow> int list option" where
  \<comment> \<open>the shortest form only, no surrogates, nothing above U+10FFFF\<close>
  "utf8_points [] = Some []"
| "utf8_points (b # bs) =
     (if in_range 0 0x7F b then map_option (Cons b) (utf8_points bs)
      else if in_range 0xC2 0xDF b then (case bs of
          c # cs \<Rightarrow> (if in_range 0x80 0xBF c then map_option (Cons ((b - 0xC0) * 0x40 + (c - 0x80))) (utf8_points cs) else None)
        | [] \<Rightarrow> None)
      else if in_range 0xE0 0xEF b then (case bs of
          c # d # ds \<Rightarrow>
            (if in_range (if b = 0xE0 then 0xA0 else 0x80) (if b = 0xED then 0x9F else 0xBF) c \<and> in_range 0x80 0xBF d
             then map_option (Cons ((b - 0xE0) * 0x1000 + (c - 0x80) * 0x40 + (d - 0x80))) (utf8_points ds) else None)
        | _ \<Rightarrow> None)
      else if in_range 0xF0 0xF4 b then (case bs of
          c # d # e # es \<Rightarrow>
            (if in_range (if b = 0xF0 then 0x90 else 0x80) (if b = 0xF4 then 0x8F else 0xBF) c \<and> in_range 0x80 0xBF d \<and> in_range 0x80 0xBF e
             then map_option (Cons ((b - 0xF0) * 0x40000 + (c - 0x80) * 0x1000 + (d - 0x80) * 0x40 + (e - 0x80))) (utf8_points es)
             else None)
        | _ \<Rightarrow> None)
      else None)"

definition utf8_decode :: "int list \<Rightarrow> units option" where
  \<comment> \<open>\<open>new TextDecoder("utf-8", { fatal: true }).decode(bytes)\<close>\<close>
  "utf8_decode bs = (case utf8_points bs of None \<Rightarrow> None
     | Some ps \<Rightarrow> Some (concat (map point_units (if take 1 ps = [0xFEFF] then drop 1 ps else ps))))"

section \<open>Documents\<close>

definition MAX_STRICT_JSON_BYTES :: nat where
  "MAX_STRICT_JSON_BYTES = 5 * 1024 * 1024"

datatype document = Text units | Bytes "int list"

definition parseStrictJsonDocument :: "document \<Rightarrow> (reason \<times> nat) + json" where
  \<comment> \<open>the errors raised before the text is read have no offset; zero stands there\<close>
  "parseStrictJsonDocument source =
     (let bytes = (case source of Text s \<Rightarrow> utf8_encode s | Bytes bs \<Rightarrow> bs)
      in if MAX_STRICT_JSON_BYTES < length bytes then Inl (Size_exceeded, 0)
         else (case utf8_decode bytes of None \<Rightarrow> Inl (Utf8_invalid, 0) | Some text \<Rightarrow> parse_text text))"

section \<open>Decoding what was encoded\<close>

definition point_ok :: "int \<Rightarrow> bool" where
  "point_ok p = (0 \<le> p \<and> p \<le> 0x10FFFF \<and> \<not> is_high p \<and> \<not> is_low p)"

lemma div_parts: "0 \<le> c \<Longrightarrow> c < k \<Longrightarrow> (k * x + c) div k = (x::int)" "0 \<le> c \<Longrightarrow> c < k \<Longrightarrow> (k * x + c) mod k = (c::int)"
  by simp_all

lemma six_bits:
  assumes "0 \<le> b" "b < (0x40::int)" "0 \<le> c" "c < 0x40" and p: "p = 0x1000 * a + 0x40 * b + c"
  shows "p mod 0x40 = c" "p div 0x40 mod 0x40 = b" "p div 0x1000 = a"
proof -
  have p': "p = 0x40 * (0x40 * a + b) + c" using p by simp
  have d: "p div 0x40 = 0x40 * a + b" unfolding p' by (rule div_parts(1)) (use assms in simp_all)
  show "p mod 0x40 = c" unfolding p' by (rule div_parts(2)) (use assms in simp_all)
  show "p div 0x40 mod 0x40 = b" unfolding d by (rule div_parts(2)) (use assms in simp_all)
  have "p div (0x40 * 0x40) = p div 0x40 div 0x40" by (rule zdiv_zmult2_eq) simp
  also have "\<dots> = a" unfolding d by (rule div_parts(1)) (use assms in simp_all)
  finally show "p div 0x1000 = a" by simp
qed

lemma split_point:
  assumes "0 \<le> (p::int)"
  shows "\<exists>a b c. p = 0x1000 * a + 0x40 * b + c \<and> 0 \<le> a \<and> 0 \<le> b \<and> b < 0x40 \<and> 0 \<le> c \<and> c < 0x40"
proof (intro exI conjI)
  have "p = 0x40 * (p div 0x40) + p mod 0x40" "p div 0x40 = 0x40 * (p div 0x40 div 0x40) + p div 0x40 mod 0x40" by simp_all
  then show "p = 0x1000 * (p div 0x40 div 0x40) + 0x40 * (p div 0x40 mod 0x40) + p mod 0x40" by linarith
qed (use assms in \<open>simp_all add: pos_imp_zdiv_nonneg_iff\<close>)

lemma utf8_point:
  assumes "point_ok p"
  shows "utf8_points (encode_point p @ bs) = map_option (Cons p) (utf8_points bs)"
proof -
  have p: "0 \<le> p" "p \<le> 0x10FFFF" "p < 0xD800 \<or> 0xDFFF < p" using assms by (auto simp: point_ok_def is_high_def is_low_def)
  consider "p < 0x80" | "0x80 \<le> p" "p < 0x800" | "0x800 \<le> p" "p < 0x10000" | "0x10000 \<le> p" by linarith
  then show ?thesis
  proof cases
    case 1
    then show ?thesis using p by (simp add: encode_point_def in_range_def)
  next
    case 2
    then have "in_range 0xC2 0xDF (0xC0 + p div 0x40)" "in_range 0x80 0xBF (0x80 + p mod 0x40)" "\<not> in_range 0 0x7F (0xC0 + p div 0x40)"
      unfolding in_range_def by presburger+
    then show ?thesis using 2 by (simp add: encode_point_def)
  next
    case 3
    obtain a b c where abc: "p = 0x1000 * a + 0x40 * b + c" "0 \<le> a" "0 \<le> b" "b < 0x40" "0 \<le> c" "c < 0x40"
      using split_point [OF p(1)] by blast
    have e: "encode_point p = [0xE0 + a, 0x80 + b, 0x80 + c]"
      using 3 six_bits [OF abc(3-6) abc(1)] by (simp add: encode_point_def)
    have a: "a \<le> 0xF" using 3 abc by linarith
    have "a = 0 \<Longrightarrow> 0x20 \<le> b" "a = 0xD \<Longrightarrow> b < 0x20" using 3 abc p(3) by linarith+
    then have "in_range (if a = 0 then 0xA0 else 0x80) (if a = 0xD then 0x9F else 0xBF) (0x80 + b)"
      using abc unfolding in_range_def by auto
    then show ?thesis unfolding e using abc a by (simp add: in_range_def mult.commute)
  next
    case 4
    obtain r b c where bc: "p = 0x1000 * r + 0x40 * b + c" "0 \<le> r" "0 \<le> b" "b < 0x40" "0 \<le> c" "c < 0x40"
      using split_point [OF p(1)] by blast
    let ?a = "r div 0x40" let ?m = "r mod 0x40"
    have r: "r = 0x40 * ?a + ?m" "0 \<le> ?a" "0 \<le> ?m" "?m < 0x40" using bc(2) by (simp_all add: pos_imp_zdiv_nonneg_iff)
    note six = six_bits [OF bc(3-6) bc(1)]
    have "p div (0x1000 * 0x40) = p div 0x1000 div 0x40" by (rule zdiv_zmult2_eq) simp
    then have d: "p div 0x40000 = ?a" by (simp add: six(3))
    have e: "encode_point p = [0xF0 + ?a, 0x80 + ?m, 0x80 + b, 0x80 + c]"
      using 4 by (simp add: encode_point_def d six)
    have val: "?a * 0x40000 + ?m * 0x1000 + b * 0x40 + c = p" using r(1) bc(1) by linarith
    have a: "?a \<le> 4" using val p(2) r bc by linarith
    have "?a = 0 \<Longrightarrow> 0x10 \<le> ?m" "?a = 4 \<Longrightarrow> ?m < 0x10" using 4 val p(2) bc r by linarith+
    then have "in_range (if ?a = 0 then 0x90 else 0x80) (if ?a = 4 then 0x8F else 0xBF) (0x80 + ?m)"
      using r unfolding in_range_def by auto
    then show ?thesis unfolding e using bc(3-6) r(2-4) a val by (simp add: in_range_def)
  qed
qed

lemma utf8_points_encode: "list_all point_ok ps \<Longrightarrow> utf8_points (concat (map encode_point ps)) = Some ps"
  by (induction ps) (simp_all add: utf8_point)

lemma code_points_ok: "units_ok s \<Longrightarrow> list_all point_ok (code_points s)"
  by (induction s rule: code_points.induct) (auto simp: units_ok_def point_ok_def is_high_def is_low_def)

lemma code_points_units: "units_ok s \<Longrightarrow> well_paired s \<Longrightarrow> concat (map point_units (code_points s)) = s"
proof (induction s rule: code_points.induct)
  case (3 u v us)
  show ?case
  proof (cases "is_high u")
    case True
    let ?p = "0x10000 + (u - 0xD800) * 0x400 + (v - 0xDC00)"
    have v: "is_low v" using True 3(4) by simp
    have y: "0 \<le> v - 0xDC00" "v - 0xDC00 < 0x400" "0 \<le> u - 0xD800" using True v by (simp_all add: is_high_def is_low_def)
    have q: "?p - 0x10000 = 0x400 * (u - 0xD800) + (v - 0xDC00)" by simp
    have "(?p - 0x10000) div 0x400 = u - 0xD800" "(?p - 0x10000) mod 0x400 = v - 0xDC00"
      unfolding q by (rule div_parts [OF y(1,2)])+
    moreover have "\<not> ?p < 0x10000" using y by simp
    ultimately have "point_units ?p = [u, v]" by (simp add: point_units_def del: diff_add_eq)
    then show ?thesis using True v 3 by (simp add: units_ok_def)
  next
    case False
    then show ?thesis using 3 by (auto simp: units_ok_def point_units_def)
  qed
qed (auto simp: units_ok_def point_units_def)

lemma utf8_decode_encode:
  assumes "units_ok s" and "well_paired s" and "take 1 (code_points s) \<noteq> [0xFEFF]"
  shows "utf8_decode (utf8_encode s) = Some s"
  using utf8_points_encode [OF code_points_ok [OF assms(1)]] code_points_units [OF assms(1,2)] assms(3)
  by (simp add: utf8_decode_def utf8_encode_def)

section \<open>The text of a value is decodable\<close>

definition plain :: "int \<Rightarrow> bool" where
  "plain u = (0 \<le> u \<and> u < 0xD800)"

lemma well_paired_plain: "plain u \<Longrightarrow> well_paired (u # s) = well_paired s"
  by (cases s) (auto simp: plain_def is_high_def is_low_def)

lemma well_paired_plains: "list_all plain s \<Longrightarrow> well_paired (s @ t) = well_paired t"
  by (induction s) (simp_all add: well_paired_plain)

lemma well_paired_append: "well_paired s \<Longrightarrow> well_paired t \<Longrightarrow> well_paired (s @ t)"
  by (induction s rule: well_paired.induct) (auto simp: is_high_def is_low_def split: if_splits, (cases t; auto simp: is_high_def is_low_def)+)

lemma text_unit_plain: "plain u \<Longrightarrow> list_all plain (text_unit u)"
proof -
  assume u: "plain u"
  have "plain (hex_digit (u div 16)) \<and> plain (hex_digit (u mod 16))" if "u < 0x20"
  proof -
    have "0 \<le> u div 16" "u div 16 < 16" using u that by (auto simp: plain_def div_less_iff_less_mult)
    moreover have "0 \<le> u mod 16" "u mod 16 < 16" by simp_all
    ultimately show ?thesis by (auto simp: plain_def hex_digit_def)
  qed
  then show ?thesis using u by (simp add: text_unit_def) (simp add: plain_def)
qed

lemma text_unit_other: "\<not> plain u \<Longrightarrow> 0 \<le> u \<Longrightarrow> text_unit u = [u]"
  by (simp add: plain_def text_unit_def)

lemma well_paired_string:
  "units_ok s \<Longrightarrow> well_paired s \<Longrightarrow> well_paired (concat (map text_unit s))"
proof (induction s rule: well_paired.induct)
  case (2 u)
  then show ?case
    by (cases "plain u") (simp_all add: well_paired_plains [OF text_unit_plain, of u "[]", simplified] text_unit_other units_ok_def)
next
  case (3 u v us)
  show ?case
  proof (cases "is_high u")
    case True
    then have "\<not> plain u" "\<not> plain v" "0 \<le> u" "0 \<le> v" using 3(4) by (auto simp: is_high_def is_low_def plain_def)
    then show ?thesis using True 3 by (simp add: text_unit_other units_ok_def)
  next
    case False
    then have IH: "well_paired (concat (map text_unit (v # us)))" using 3 by (simp add: units_ok_def)
    show ?thesis
    proof (cases "plain u")
      case True
      then show ?thesis using IH by (simp add: well_paired_plains [OF text_unit_plain])
    next
      case other: False
      then have "text_unit u = [u]" using 3(3) by (simp add: text_unit_other units_ok_def)
      moreover have "well_paired [u]" using False 3(4) by (simp)
      ultimately show ?thesis using well_paired_append [OF _ IH, of "[u]"] by simp
    qed
  qed
qed simp

definition clean :: "units \<Rightarrow> bool" where
  "clean s = (units_ok s \<and> well_paired s)"

lemma clean_append: "clean s \<Longrightarrow> clean t \<Longrightarrow> clean (s @ t)"
  by (auto simp: clean_def units_ok_def well_paired_append)

lemma clean_plain: "list_all plain s \<Longrightarrow> clean s"
  using well_paired_plains [of s "[]"] by (auto simp: clean_def units_ok_def list_all_iff plain_def)

lemma clean_Cons: "plain u \<Longrightarrow> clean s \<Longrightarrow> clean (u # s)"
  using clean_append [OF clean_plain [of "[u]"]] by simp

lemma text_unit_ok: "0 \<le> u \<Longrightarrow> u < 0x10000 \<Longrightarrow> units_ok (text_unit u)"
proof (cases "plain u")
  case True
  then show ?thesis using clean_plain [OF text_unit_plain] by (simp add: clean_def)
next
  case False
  assume "0 \<le> u" "u < 0x10000"
  with False show ?thesis by (simp add: text_unit_other units_ok_def)
qed

lemma clean_string: assumes "units_ok s" and "well_paired s" shows "clean (text_string s)"
proof -
  have "units_ok (concat (map text_unit s))"
    using assms(1) text_unit_ok unfolding units_ok_def by (simp add: units_ok_def) blast
  then have "clean (concat (map text_unit s))" using well_paired_string [OF assms] by (simp add: clean_def)
  moreover have "clean [0x22]" by (rule clean_plain) (simp add: plain_def)
  ultimately show ?thesis
    unfolding text_string_def by (rule clean_Cons [OF _ clean_append, rotated]) (simp_all add: plain_def)
qed

lemma clean_commas: "\<forall>s \<in> set xs. clean s \<Longrightarrow> clean (commas xs)"
proof (induction xs rule: commas.induct)
  case 1
  show ?case by (simp add: clean_def units_ok_def)
next
  case (3 x y ys)
  then have "clean (0x2C # commas (y # ys))" by (intro clean_Cons) (simp_all add: plain_def)
  then show ?case using 3(2) clean_append by simp
qed simp

lemma clean_int: "clean (text_int z)"
proof -
  have "list_all plain (text_nat n)" for n
    using text_nat_digits(1) [of n] by (auto simp: list_all_iff unit_digit_def plain_def)
  then show ?thesis by (intro clean_plain) (simp add: text_int_def plain_def)
qed

lemma clean_literals: "clean (units_of ''true'')" "clean (units_of ''false'')" "clean (units_of ''null'')"
  by (rule clean_plain, simp add: units_of_def plain_def)+

lemma clean_json: "json_ok d v \<Longrightarrow> has_text v \<Longrightarrow> clean (text_json v)"
proof (induction d v rule: json_ok.induct)
  case (5 d vs)
  then have "clean (commas (map text_json vs))" by (intro clean_commas) auto
  then have "clean (0x5B # commas (map text_json vs) @ [0x5D])"
    by (rule clean_Cons [OF _ clean_append [OF _ clean_plain], rotated]) (simp_all add: plain_def)
  then show ?case by simp
next
  case (6 d es)
  have "clean s" if s: "s \<in> set (map (\<lambda>(k, v). text_string k @ 0x3A # text_json v) es)" for s
  proof -
    obtain e where e: "e \<in> set es" "s = (\<lambda>(k, v). text_string k @ 0x3A # text_json v) e"
      using s unfolding set_map by blast
    obtain k v where "e = (k, v)" by (cases e)
    then have kv: "(k, v) \<in> set es" "s = text_string k @ 0x3A # text_json v" using e by simp_all
    have "units_ok k" "well_paired k" "json_ok (Suc d) v" "has_text v" using 6(2,3) kv(1) by auto
    moreover from this have "clean (text_json v)" using 6(1) [OF kv(1) refl] by blast
    ultimately show ?thesis unfolding kv(2) by (intro clean_append clean_Cons clean_string) (simp_all add: plain_def)
  qed
  then have "clean (commas (map (\<lambda>(k, v). text_string k @ 0x3A # text_json v) es))" by (intro clean_commas) blast
  then have "clean (0x7B # commas (map (\<lambda>(k, v). text_string k @ 0x3A # text_json v) es) @ [0x7D])"
    by (rule clean_Cons [OF _ clean_append [OF _ clean_plain], rotated]) (simp_all add: plain_def)
  then show ?case by simp
qed (simp_all add: clean_int clean_string clean_literals)

lemma no_byte_order_mark: "take 1 (code_points (text_json v)) \<noteq> [0xFEFF]"
proof -
  have u: "u \<noteq> 0xFEFF" if "text_json v = u # us" for u us
  proof (cases v)
    case (JsNum q)
    then show ?thesis
      using that text_nat_digits [of "nat \<lfloor>q\<rfloor>"] by (auto simp: text_int_def unit_digit_def split: if_splits)
  qed (use that in \<open>auto simp: units_of_def text_string_def split: if_splits\<close>)
  show ?thesis
  proof (cases "text_json v" rule: code_points.cases)
    case (3 a b us)
    then show ?thesis using u [of a "b # us"] by (auto simp: is_high_def is_low_def)
  qed (use u in auto)
qed

section \<open>Properties\<close>


definition sample_json :: json where
  "sample_json = JsObj [(units_of ''a b'', JsArr [JsNum (-120), JsStr [0x0A, 0xD83D, 0xDE00], JsNull])]"


end
