(* ===== verification/PathPatterns.thy ===== *)
theory PathPatterns
  imports JsText
begin

text \<open>
  Paths and globs of the technology plugins (\<open>api/modules/project-capabilities/path-patterns.ts\<close>): a glob becomes a
  regular expression, here the list of its parts, and the expression is matched. The theorem compares this
  with the meaning of a glob segment by segment.
\<close>

section \<open>The code\<close>

definition normalizePluginPath :: "string \<Rightarrow> string" where
  "normalizePluginPath value =
     (let s = replace_char (CHR 0x5C) (CHR ''/'') value in if starts_with s ''./'' then drop 2 s else s)"

definition isSafeRelativePluginPath :: "string \<Rightarrow> bool" where
  "isSafeRelativePluginPath value =
     (let normalized = normalizePluginPath value
      in normalized \<noteq> [] \<and> \<not> starts_with normalized ''/'' \<and> normalized \<noteq> ''..'' \<and> \<not> starts_with normalized ''../''
         \<and> CHR 0x00 \<notin> set normalized)"

datatype part =
    AnyDirs \<comment> \<open>\<open>(?:.*/)?\<close>\<close>
  | DirEnd \<comment> \<open>\<open>.*/\<close>, the part of it that has been entered\<close>
  | AnyText \<comment> \<open>\<open>.*\<close>\<close>
  | AnyName \<comment> \<open>\<open>[^/]*\<close>\<close>
  | OneChar \<comment> \<open>\<open>[^/]\<close>\<close>
  | Lit char

fun glob_parts :: "string \<Rightarrow> part list" where
  "glob_parts [] = []"
| "glob_parts (c # cs) =
     (if c = CHR ''*'' \<and> take 1 cs = ''*'' then
        (if take 1 (drop 1 cs) = ''/'' then AnyDirs # glob_parts (drop 2 cs) else AnyText # glob_parts (drop 1 cs))
      else if c = CHR ''*'' then AnyName # glob_parts cs
      else if c = CHR ''?'' then OneChar # glob_parts cs
      else Lit c # glob_parts cs)"

definition dot :: "char \<Rightarrow> bool" where
  \<comment> \<open>what \<open>.\<close> matches; of the code units up to 255\<close>
  "dot c = (c \<noteq> CHR 0x0A \<and> c \<noteq> CHR 0x0D)"

function matches :: "part list \<Rightarrow> string \<Rightarrow> bool" where
  "matches [] s = (s = [])"
| "matches (Lit c # ps) s = (case s of [] \<Rightarrow> False | x # xs \<Rightarrow> x = c \<and> matches ps xs)"
| "matches (OneChar # ps) s = (case s of [] \<Rightarrow> False | x # xs \<Rightarrow> x \<noteq> CHR ''/'' \<and> matches ps xs)"
| "matches (AnyName # ps) s = (matches ps s \<or> (case s of [] \<Rightarrow> False | x # xs \<Rightarrow> x \<noteq> CHR ''/'' \<and> matches (AnyName # ps) xs))"
| "matches (AnyText # ps) s = (matches ps s \<or> (case s of [] \<Rightarrow> False | x # xs \<Rightarrow> dot x \<and> matches (AnyText # ps) xs))"
| "matches (DirEnd # ps) s = (case s of [] \<Rightarrow> False
     | x # xs \<Rightarrow> x = CHR ''/'' \<and> matches ps xs \<or> dot x \<and> matches (DirEnd # ps) xs)"
| "matches (AnyDirs # ps) s = (matches ps s \<or> matches (DirEnd # ps) s)"
  by pat_completeness auto
termination
  by (relation "measures [\<lambda>(ps, s). length ps + length (filter ((=) AnyDirs) ps) + length s]") auto

definition matchesPluginGlob :: "string \<Rightarrow> string \<Rightarrow> bool" where
  "matchesPluginGlob value glob = matches (glob_parts (normalizePluginPath glob)) (normalizePluginPath value)"

definition matchesAnyPluginGlob :: "string \<Rightarrow> string list \<Rightarrow> bool" where
  "matchesAnyPluginGlob value globs = list_ex (matchesPluginGlob value) globs"

section \<open>What a glob means\<close>

fun name_matches :: "string \<Rightarrow> string \<Rightarrow> bool" where
  \<comment> \<open>one segment of a glob and one name of a path\<close>
  "name_matches [] n = (n = [])"
| "name_matches (c # g) n =
     (if c = CHR ''*'' then list_ex (\<lambda>k. name_matches g (drop k n)) [0..<Suc (length n)]
      else (case n of [] \<Rightarrow> False | x # xs \<Rightarrow> (c = CHR ''?'' \<or> x = c) \<and> name_matches g xs))"

fun path_matches :: "string list \<Rightarrow> string list \<Rightarrow> bool" where
  \<comment> \<open>\<open>**\<close> stands for any number of names, at the end for one or more\<close>
  "path_matches [] ns = (ns = [])"
| "path_matches [g] ns = (if g = ''**'' then ns \<noteq> [] else (case ns of [n] \<Rightarrow> name_matches g n | _ \<Rightarrow> False))"
| "path_matches (g # h # gs) ns =
     (if g = ''**'' then list_ex (\<lambda>k. path_matches (h # gs) (drop k ns)) [0..<Suc (length ns)]
      else (case ns of [] \<Rightarrow> False | n # ms \<Rightarrow> name_matches g n \<and> path_matches (h # gs) ms))"

lemma list_ex_upt: "list_ex P [0..<Suc m] = (\<exists>k \<in> {0..m}. P k)"
  by (simp only: list_ex_iff set_upt atLeastLessThanSuc_atLeastAtMost)

declare name_matches.simps [simp del] path_matches.simps [simp del]

lemmas matches_simps [simp] = name_matches.simps [unfolded list_ex_upt] path_matches.simps [unfolded list_ex_upt]

definition name_ok :: "string \<Rightarrow> bool" where
  "name_ok n = (CHR ''/'' \<notin> set n \<and> list_all dot n)"

definition glob_name_ok :: "string \<Rightarrow> bool" where
  \<comment> \<open>a segment of a glob: \<open>**\<close>, or without two stars in a row\<close>
  "glob_name_ok g = (CHR ''/'' \<notin> set g \<and> (g = ''**'' \<or> \<not> contains_text g ''**''))"

lemma star_simps [simp]:
  "matches (AnyName # ps) [] = matches ps []"
  "matches (AnyName # ps) (x # xs) = (matches ps (x # xs) \<or> x \<noteq> CHR ''/'' \<and> matches (AnyName # ps) xs)"
  "matches (AnyText # ps) [] = matches ps []"
  "matches (AnyText # ps) (x # xs) = (matches ps (x # xs) \<or> dot x \<and> matches (AnyText # ps) xs)"
  "matches (DirEnd # ps) [] = False"
  "matches (DirEnd # ps) (x # xs) = (x = CHR ''/'' \<and> matches ps xs \<or> dot x \<and> matches (DirEnd # ps) xs)"
  by simp_all

declare matches.simps(4) [simp del] matches.simps(5) [simp del] matches.simps(6) [simp del]

section \<open>Names\<close>

definition no_stars :: "string \<Rightarrow> bool" where
  "no_stars g = (CHR ''/'' \<notin> set g \<and> \<not> contains_text g ''**'')"

lemma no_stars_Cons: "no_stars (c # g) \<Longrightarrow> no_stars g \<and> c \<noteq> CHR ''/'' \<and> \<not> (c = CHR ''*'' \<and> take 1 g = ''*'')"
  by (cases g) (auto simp: no_stars_def)

definition name_part :: "part \<Rightarrow> bool" where
  "name_part p = (case p of AnyName \<Rightarrow> True | OneChar \<Rightarrow> True | Lit c \<Rightarrow> c \<noteq> CHR ''/'' | _ \<Rightarrow> False)"

lemma glob_name_parts: "no_stars g \<Longrightarrow> list_all name_part (glob_parts g)"
proof (induction g rule: glob_parts.induct)
  case (2 c cs)
  then show ?case using no_stars_Cons [OF 2(6)] by (auto simp: name_part_def)
qed simp

lemma take_slash: "no_stars (c # g) \<Longrightarrow> (c = CHR ''*'' \<and> take 1 (g @ CHR ''/'' # rest) = ''*'') = False"
  using no_stars_Cons by (cases g) fastforce+

lemma glob_parts_name:
  "no_stars g \<Longrightarrow> glob_parts (g @ CHR ''/'' # rest) = glob_parts g @ Lit (CHR ''/'') # glob_parts rest"
proof (induction g)
  case (Cons c g)
  have IH: "glob_parts (g @ CHR ''/'' # rest) = glob_parts g @ Lit (CHR ''/'') # glob_parts rest"
    using Cons no_stars_Cons by blast
  have a: "\<not> (c = CHR ''*'' \<and> take 1 (g @ CHR ''/'' # rest) = ''*'')" "\<not> (c = CHR ''*'' \<and> take 1 g = ''*'')"
    using take_slash [OF Cons(2)] no_stars_Cons [OF Cons(2)] by blast+
  show ?case
    unfolding append_Cons glob_parts.simps if_not_P [OF a(1)] if_not_P [OF a(2)] IH by simp
qed simp

lemma any_name: "CHR ''/'' \<notin> set n \<Longrightarrow> matches (AnyName # ps) n = (\<exists>k \<in> {0..length n}. matches ps (drop k n))"
proof (induction n)
  case (Cons x n)
  have "(\<exists>k \<in> {0..Suc (length n)}. P k) = (P 0 \<or> (\<exists>k \<in> {0..length n}. P (Suc k)))" for P :: "nat \<Rightarrow> bool"
    by (auto simp: atLeast0AtMost) (metis Suc_le_mono atMost_iff not0_implies_Suc)
  then show ?case using Cons by auto
qed simp

lemma name_matches_parts: "no_stars g \<Longrightarrow> CHR ''/'' \<notin> set n \<Longrightarrow> matches (glob_parts g) n = name_matches g n"
proof (induction g arbitrary: n)
  case (Cons c g)
  note c = no_stars_Cons [OF Cons(2)]
  have IH: "CHR ''/'' \<notin> set m \<Longrightarrow> matches (glob_parts g) m = name_matches g m" for m using Cons c by blast
  have star: "glob_parts (c # g) = (if c = CHR ''*'' then AnyName # glob_parts g
      else if c = CHR ''?'' then OneChar # glob_parts g else Lit c # glob_parts g)" using c by auto
  have "CHR ''/'' \<notin> set (drop k n)" for k using Cons(3) by (meson in_set_dropD)
  then have "matches (AnyName # glob_parts g) n = (\<exists>k \<in> {0..length n}. name_matches g (drop k n))"
    using any_name [OF Cons(3)] IH by simp
  then show ?case using Cons(3) IH unfolding star by (auto split: list.split)
qed simp

lemma name_then_slash:
  "list_all name_part ps \<Longrightarrow> CHR ''/'' \<notin> set n
    \<Longrightarrow> matches (ps @ Lit (CHR ''/'') # qs) (n @ CHR ''/'' # t) = (matches ps n \<and> matches qs t)"
proof (induction ps arbitrary: n)
  case Nil
  then show ?case by (cases n) auto
next
  case (Cons p ps)
  note IH = Cons(1)
  show ?case
  proof (cases "p = AnyName")
    case True
    have "CHR ''/'' \<notin> set n \<Longrightarrow> matches (AnyName # ps @ Lit (CHR ''/'') # qs) (n @ CHR ''/'' # t) = (matches (AnyName # ps) n \<and> matches qs t)"
    proof (induction n)
      case Nil
      then show ?case using Cons(1) [of "[]"] Cons(2) by simp
    next
      case (Cons a n)
      then show ?case using \<open>list_all name_part (p # ps)\<close> IH [of "a # n"] by auto
    qed
    then show ?thesis using Cons(3) True by simp
  next
    case False
    then show ?thesis using Cons by (cases p; cases n) (auto simp: name_part_def)
  qed
qed

lemma name_alone: "list_all name_part ps \<Longrightarrow> CHR ''/'' \<in> set s \<Longrightarrow> \<not> matches ps s"
proof (induction ps arbitrary: s)
  case (Cons p ps)
  show ?case
  proof (cases "p = AnyName")
    case True
    have "CHR ''/'' \<in> set s \<Longrightarrow> \<not> matches (AnyName # ps) s"
      using Cons(1,2) by (induction s) auto
    then show ?thesis using Cons(3) True by simp
  next
    case False
    then show ?thesis using Cons by (cases p; cases s) (auto simp: name_part_def)
  qed
qed auto

section \<open>Directories\<close>

lemma any_text: "matches [AnyText] s = list_all dot s"
  by (induction s) auto

lemma dir_end_name: "CHR ''/'' \<notin> set n \<Longrightarrow> \<not> matches (DirEnd # ps) n"
  by (induction n) auto

lemma dir_end_slash:
  "CHR ''/'' \<notin> set n \<Longrightarrow> list_all dot n \<Longrightarrow> matches (DirEnd # ps) (n @ CHR ''/'' # t) = (matches ps t \<or> matches (DirEnd # ps) t)"
  by (induction n) (auto simp: dot_def)

lemma join_Cons: "ns \<noteq> [] \<Longrightarrow> join_with ''/'' (n # ns) = n @ CHR ''/'' # join_with ''/'' ns"
  by (cases ns) simp_all

lemma any_dirs:
  "ns \<noteq> [] \<Longrightarrow> list_all name_ok ns
    \<Longrightarrow> matches (AnyDirs # ps) (join_with ''/'' ns) = (\<exists>k < length ns. matches ps (join_with ''/'' (drop k ns)))"
proof (induction ns)
  case (Cons n ns)
  have n: "CHR ''/'' \<notin> set n" "list_all dot n" using Cons(3) by (simp_all add: name_ok_def)
  have ex: "(\<exists>k < Suc l. P k) = (P 0 \<or> (\<exists>k < l. P (Suc k)))" for l and P :: "nat \<Rightarrow> bool"
    by (metis less_Suc_eq_0_disj)
  show ?case
  proof (cases "ns = []")
    case True
    then show ?thesis using n(1) by (simp add: dir_end_name)
  next
    case False
    then show ?thesis using Cons dir_end_slash [OF n] by (auto simp: join_Cons ex)
  qed
qed simp

lemma slash_needed: "list_all name_part ps \<Longrightarrow> CHR ''/'' \<notin> set n \<Longrightarrow> \<not> matches (ps @ Lit (CHR ''/'') # qs) n"
proof (induction ps arbitrary: n)
  case Nil
  then show ?case by (cases n) auto
next
  case (Cons p ps)
  note IH = Cons(1)
  show ?case
  proof (cases "p = AnyName")
    case True
    have "CHR ''/'' \<notin> set n \<Longrightarrow> \<not> matches (AnyName # ps @ Lit (CHR ''/'') # qs) n"
    proof (induction n)
      case Nil
      then show ?case using IH [of "[]"] Cons(2) by simp
    next
      case (Cons a n)
      then show ?case using \<open>list_all name_part (p # ps)\<close> IH [of "a # n"] by auto
    qed
    then show ?thesis using Cons(3) True by simp
  next
    case False
    then show ?thesis using Cons by (cases p; cases n) (auto simp: name_part_def)
  qed
qed

section \<open>Segment by segment\<close>

lemma path_matches_Nil: "gs \<noteq> [] \<Longrightarrow> \<not> path_matches gs []"
  by (induction gs rule: induct_list012) auto

lemma join_dots: "ns \<noteq> [] \<Longrightarrow> list_all name_ok ns \<Longrightarrow> list_all dot (join_with ''/'' ns)"
  by (induction ns rule: induct_list012) (auto simp: name_ok_def dot_def)

lemma glob_parts_dirs: "glob_parts (''**'' @ CHR ''/'' # rest) = AnyDirs # glob_parts rest" "glob_parts ''**'' = [AnyText]"
  by simp_all

lemma glob_path:
  assumes "gs \<noteq> []" and "ns \<noteq> []" and "list_all glob_name_ok gs" and "list_all name_ok ns"
  shows "matches (glob_parts (join_with ''/'' gs)) (join_with ''/'' ns) = path_matches gs ns"
  using assms
proof (induction gs arbitrary: ns rule: induct_list012)
  case (2 g)
  show ?case
  proof (cases "g = ''**''")
    case True
    then show ?thesis using 2 join_dots by (simp add: glob_parts_dirs any_text del: glob_parts.simps)
  next
    case False
    then have g: "no_stars g" using 2 by (simp add: glob_name_ok_def no_stars_def)
    obtain n ms where ns: "ns = n # ms" using 2 by (cases ns) auto
    show ?thesis
    proof (cases ms)
      case Nil
      then show ?thesis using False ns g 2 name_matches_parts by (simp add: name_ok_def)
    next
      case (Cons m ms')
      then have "CHR ''/'' \<in> set (join_with ''/'' ns)" by (simp add: ns)
      then have "\<not> matches (glob_parts g) (join_with ''/'' ns)" by (rule name_alone [OF glob_name_parts [OF g]])
      then show ?thesis using False Cons by (simp add: ns)
    qed
  qed
next
  case (3 g h gs)
  have join: "join_with ''/'' (g # h # gs) = g @ CHR ''/'' # join_with ''/'' (h # gs)" by simp
  have IH: "ms \<noteq> [] \<Longrightarrow> list_all name_ok ms \<Longrightarrow>
      matches (glob_parts (join_with ''/'' (h # gs))) (join_with ''/'' ms) = path_matches (h # gs) ms" for ms
    using 3(2) 3(5) by simp
  show ?case
  proof (cases "g = ''**''")
    case True
    have "list_all name_ok (drop k ns)" for k using 3(6) by (auto simp: list_all_iff dest: in_set_dropD)
    then have "matches (AnyDirs # glob_parts (join_with ''/'' (h # gs))) (join_with ''/'' ns)
      = (\<exists>k < length ns. path_matches (h # gs) (drop k ns))"
      using any_dirs [OF 3(4,6)] IH by auto
    also have "\<dots> = (\<exists>k \<in> {0..length ns}. path_matches (h # gs) (drop k ns))"
      using path_matches_Nil [of "h # gs"]
      by (metis atLeastAtMost_iff drop_all le0 less_imp_le linorder_le_less_linear list.discI)
    finally show ?thesis unfolding join True glob_parts_dirs by simp
  next
    case False
    then have g: "no_stars g" using 3 by (simp add: glob_name_ok_def no_stars_def)
    obtain n ms where ns: "ns = n # ms" using 3 by (cases ns) auto
    have "name_ok n" and ms: "list_all name_ok ms" using 3(6) by (simp_all add: ns)
    then have n: "CHR ''/'' \<notin> set n" "list_all name_ok ms" by (simp_all add: name_ok_def ms)
    show ?thesis
    proof (cases "ms = []")
      case True
      then show ?thesis
        using False path_matches_Nil [of "h # gs"] slash_needed [OF glob_name_parts [OF g] n(1)]
        by (simp add: join glob_parts_name [OF g] ns del: join_with.simps(3) glob_parts.simps)
    next
      case rest: False
      then show ?thesis
        using False IH [OF rest n(2)] name_then_slash [OF glob_name_parts [OF g] n(1)] name_matches_parts [OF g n(1)]
        by (simp add: join glob_parts_name [OF g] ns join_Cons del: join_with.simps(3) glob_parts.simps)
    qed
  qed
qed simp

section \<open>Properties\<close>



text \<open>The guard on the paths of a plugin's files looks at the start of the path only: a path that leaves the directory further
  on passes it.\<close>

lemma safe_path_can_leave: "isSafeRelativePluginPath ''a/../../b''"
  by (simp add: isSafeRelativePluginPath_def normalizePluginPath_def replace_char_def)

end
