(* ===== verification/PluginRegistry.thy ===== *)
theory PluginRegistry
  imports PathPatterns
begin

text \<open>
  The registry of the technology plugins (\<open>api/modules/project-capabilities/plugin-registry.ts\<close>): the checks on the
  plugins and their contributions, the order in which they are kept, and the check that their requirements can be
  met. What a detector, analyzer, extractor, provider or planner does is not part of the registry. The recursion
  that orders the plugins is given the number of plugins as fuel.
\<close>

section \<open>Plugins\<close>

datatype plugin_kind = Language | Build_system | Framework

datatype plugin_capability =
    Source_detection | Sast | Dependency_detection | Dependency_scan | Project_structure | Endpoint_extraction
  | Schema_discovery | Dast_start

datatype coverage = Covered | Partial | Gap

record manifest =
  mf_apiVersion :: string
  mf_id :: string
  mf_version :: string
  mf_kind :: plugin_kind
  mf_displayName :: string
  mf_allOf :: "string list"
  mf_oneOf :: "string list"
  mf_declaredCapabilities :: "plugin_capability list"

record detector =
  dt_id :: string
  dt_pluginId :: string
  dt_fileGlobs :: "string list"
  dt_exclusiveGroup :: "string option"
  dt_priority :: "int option"

record provider =
  dp_id :: string
  dp_pluginId :: string
  dp_primaryGlobs :: "string list"
  dp_companionGlobs :: "string list"

record contribution = \<comment> \<open>a source analyzer or an endpoint extractor\<close>
  cn_id :: string
  cn_pluginId :: string
  cn_coverageEffect :: "coverage option"
  cn_limitationCodes :: "string list"

record semgrep_rule =
  sr_pluginId :: string
  sr_rulesetId :: string
  sr_path :: string
  sr_digest :: string
  sr_language :: string

record planner =
  sp_id :: string
  sp_pluginId :: string

record plugin =
  pl_manifest :: manifest
  pl_detectors :: "detector list"
  pl_dependencyProviders :: "provider list"
  pl_sourceAnalyzers :: "contribution list"
  pl_endpointExtractors :: "contribution list"
  pl_semgrepRules :: "semgrep_rule list"
  pl_startPlanners :: "planner list"

datatype registry_error = Invalid_manifest | Thrown string | Out_of_fuel

abbreviation pid :: "plugin \<Rightarrow> string" where
  "pid p \<equiv> mf_id (pl_manifest p)"

abbreviation allOf :: "plugin \<Rightarrow> string list" where
  "allOf p \<equiv> mf_allOf (pl_manifest p)"

abbreviation oneOf :: "plugin \<Rightarrow> string list" where
  "oneOf p \<equiv> mf_oneOf (pl_manifest p)"

section \<open>The schema of a manifest\<close>

definition lower_alnum :: "char \<Rightarrow> bool" where
  "lower_alnum c = (is_lower c \<or> is_digit c)"

definition plugin_id_ok :: "string \<Rightarrow> bool" where
  \<comment> \<open>\<open>^[a-z][a-z0-9]*(?:[.-][a-z0-9]+)*$\<close>\<close>
  "plugin_id_ok s = (list_all (\<lambda>w. w \<noteq> [] \<and> list_all lower_alnum w) (split_at (CHR ''.'') (replace_char (CHR ''-'') (CHR ''.'') s))
     \<and> s \<noteq> [] \<and> is_lower (hd s))"

definition version_ok :: "string \<Rightarrow> bool" where
  \<comment> \<open>\<open>^\d+\.\d+\.\d+(?:-[0-9A-Za-z.-]+)?$\<close>\<close>
  "version_ok s =
     (let core = takeWhile (\<lambda>c. c \<noteq> CHR ''-'') s; rest = dropWhile (\<lambda>c. c \<noteq> CHR ''-'') s; ws = split_at (CHR ''.'') core
      in length ws = 3 \<and> list_all (\<lambda>w. w \<noteq> [] \<and> list_all is_digit w) ws
         \<and> (rest = [] \<or> tl rest \<noteq> [] \<and> list_all (\<lambda>c. is_digit c \<or> is_lower c \<or> is_upper c \<or> c = CHR ''.'' \<or> c = CHR ''-'') (tl rest)))"

definition manifest_ok :: "manifest \<Rightarrow> bool" where
  "manifest_ok m = (mf_apiVersion m = ''1'' \<and> plugin_id_ok (mf_id m) \<and> version_ok (mf_version m)
     \<and> mf_displayName m \<noteq> [] \<and> length (mf_displayName m) \<le> 120
     \<and> list_all plugin_id_ok (mf_allOf m) \<and> list_all plugin_id_ok (mf_oneOf m))"

section \<open>The checks\<close>

definition assertUnique :: "string list \<Rightarrow> string \<Rightarrow> string \<Rightarrow> (registry_error, string list) result" where
  "assertUnique values v errorCode =
     (if v \<in> set values then Inl (Thrown (errorCode @ '':'' @ v)) else Inr (v # values))"

definition validateContributionOwners :: "plugin \<Rightarrow> (registry_error, unit) result" where
  "validateContributionOwners p =
     (let owners = map dt_pluginId (pl_detectors p) @ map dp_pluginId (pl_dependencyProviders p) @ map cn_pluginId (pl_sourceAnalyzers p)
        @ map cn_pluginId (pl_endpointExtractors p) @ map sr_pluginId (pl_semgrepRules p) @ map sp_pluginId (pl_startPlanners p)
      in case List.find (\<lambda>owner. owner \<noteq> pid p) owners of
           None \<Rightarrow> Inr () | Some owner \<Rightarrow> Inl (Thrown (''plugin_contribution_owner_mismatch:'' @ pid p @ '':'' @ owner)))"

fun plugin_capability_text :: "plugin_capability \<Rightarrow> string" where
  "plugin_capability_text Source_detection = ''source_detection''"
| "plugin_capability_text Sast = ''sast''"
| "plugin_capability_text Dependency_detection = ''dependency_detection''"
| "plugin_capability_text Dependency_scan = ''dependency_scan''"
| "plugin_capability_text Project_structure = ''project_structure''"
| "plugin_capability_text Endpoint_extraction = ''endpoint_extraction''"
| "plugin_capability_text Schema_discovery = ''schema_discovery''"
| "plugin_capability_text Dast_start = ''dast_start''"

fun contributes :: "plugin \<Rightarrow> plugin_capability \<Rightarrow> bool" where
  \<comment> \<open>\<open>contributionByCapability\<close>; the code skips two of the capabilities\<close>
  "contributes p Source_detection = True"
| "contributes p Schema_discovery = True"
| "contributes p Sast = (pl_semgrepRules p \<noteq> [])"
| "contributes p Dependency_detection = (pl_dependencyProviders p \<noteq> [])"
| "contributes p Dependency_scan = (pl_dependencyProviders p \<noteq> [])"
| "contributes p Project_structure = (pl_sourceAnalyzers p \<noteq> [])"
| "contributes p Endpoint_extraction = (pl_endpointExtractors p \<noteq> [])"
| "contributes p Dast_start = (pl_startPlanners p \<noteq> [])"

definition required_capabilities :: "plugin \<Rightarrow> plugin_capability list" where
  "required_capabilities p =
     (if pl_dependencyProviders p \<noteq> [] then [Dependency_detection, Dependency_scan] else [])
     @ (if pl_sourceAnalyzers p \<noteq> [] then [Project_structure] else [])
     @ (if pl_endpointExtractors p \<noteq> [] then [Endpoint_extraction] else [])
     @ (if pl_semgrepRules p \<noteq> [] then [Sast] else [])
     @ (if pl_startPlanners p \<noteq> [] then [Dast_start] else [])"

definition validateDeclaredCapabilities :: "plugin \<Rightarrow> (registry_error, unit) result" where
  "validateDeclaredCapabilities p =
     (let declared = js_uniq (mf_declaredCapabilities (pl_manifest p))
      in case List.find (\<lambda>c. c \<notin> set declared) (required_capabilities p) of
           Some c \<Rightarrow> Inl (Thrown (''plugin_capability_not_declared:'' @ pid p @ '':'' @ plugin_capability_text c))
         | None \<Rightarrow> (case List.find (\<lambda>c. \<not> contributes p c) declared of
             Some c \<Rightarrow> Inl (Thrown (''plugin_capability_without_contribution:'' @ pid p @ '':'' @ plugin_capability_text c))
           | None \<Rightarrow> Inr ()))"

definition int_text :: "int \<Rightarrow> string" where
  "int_text z = (if z < 0 then CHR ''-'' # nat_str (nat (- z)) else nat_str (nat z))"

record claims =
  cl_byId :: "(string, plugin) jsmap"
  cl_detectors :: "string list"
  cl_providers :: "string list"
  cl_analyzers :: "string list"
  cl_primaries :: "string list"
  cl_extractors :: "string list"
  cl_assets :: "string list"
  cl_planners :: "string list"
  cl_priorities :: "string list"
  cl_contributions :: "string list"

definition claim :: "(claims \<Rightarrow> string list) \<Rightarrow> (string list \<Rightarrow> claims \<Rightarrow> claims) \<Rightarrow> string \<Rightarrow> string \<Rightarrow> claims \<Rightarrow> (registry_error, claims) result" where
  "claim get put v errorCode cl = (case assertUnique (get cl) v errorCode of Inl e \<Rightarrow> Inl e | Inr vs \<Rightarrow> Inr (put vs cl))"

definition claim_contribution :: "string \<Rightarrow> claims \<Rightarrow> (registry_error, claims) result" where
  "claim_contribution v = claim cl_contributions (\<lambda>vs. cl_contributions_update (\<lambda>_. vs)) v ''duplicate_contribution_id''"

definition index_detector :: "claims \<Rightarrow> detector \<Rightarrow> (registry_error, claims) result" where
  "index_detector cl d =
     then_do (claim cl_detectors (\<lambda>vs. cl_detectors_update (\<lambda>_. vs)) (dt_id d) ''duplicate_detector_id'' cl) (\<lambda>cl1.
       case dt_exclusiveGroup d of
         None \<Rightarrow> Inr cl1
       | Some g \<Rightarrow> (if g = [] then Inr cl1
           else claim cl_priorities (\<lambda>vs. cl_priorities_update (\<lambda>_. vs)) (g @ '':'' @ int_text (or_else (dt_priority d) 0))
             ''ambiguous_exclusive_detector'' cl1))"

definition index_analyzer :: "claims \<Rightarrow> contribution \<Rightarrow> (registry_error, claims) result" where
  "index_analyzer cl a =
     then_do (claim cl_analyzers (\<lambda>vs. cl_analyzers_update (\<lambda>_. vs)) (cn_id a) ''duplicate_analyzer_ownership'' cl)
       (claim_contribution (cn_id a))"

definition index_provider :: "claims \<Rightarrow> provider \<Rightarrow> (registry_error, claims) result" where
  "index_provider cl d =
     then_do (claim cl_providers (\<lambda>vs. cl_providers_update (\<lambda>_. vs)) (dp_id d) ''duplicate_dependency_provider_id'' cl) (\<lambda>cl1.
       then_do (claim_contribution (dp_id d) cl1) (\<lambda>cl2.
         fold_result (\<lambda>c glob. claim cl_primaries (\<lambda>vs. cl_primaries_update (\<lambda>_. vs)) glob ''duplicate_primary_manifest_claim'' c)
           cl2 (dp_primaryGlobs d)))"

definition index_extractor :: "claims \<Rightarrow> contribution \<Rightarrow> (registry_error, claims) result" where
  "index_extractor cl e =
     then_do (claim cl_extractors (\<lambda>vs. cl_extractors_update (\<lambda>_. vs)) (cn_id e) ''duplicate_endpoint_extractor_id'' cl)
       (claim_contribution (cn_id e))"

definition index_planner :: "claims \<Rightarrow> planner \<Rightarrow> (registry_error, claims) result" where
  "index_planner cl p =
     then_do (claim cl_planners (\<lambda>vs. cl_planners_update (\<lambda>_. vs)) (sp_id p) ''start_planner_id_collision'' cl)
       (claim_contribution (sp_id p))"

definition is_sha256 :: "string \<Rightarrow> bool" where
  \<comment> \<open>\<open>^sha256:[a-f0-9]{64}$\<close>\<close>
  "is_sha256 s = (starts_with s ''sha256:'' \<and> length s = 71
     \<and> list_all (\<lambda>c. is_digit c \<or> 97 \<le> code_of c \<and> code_of c \<le> 102) (drop 7 s))"

definition index_rule :: "string \<Rightarrow> claims \<Rightarrow> semgrep_rule \<Rightarrow> (registry_error, claims) result" where
  "index_rule i cl r =
     then_do (claim_contribution (sr_rulesetId r @ '':'' @ sr_language r) cl) (\<lambda>cl1.
       then_do (claim cl_assets (\<lambda>vs. cl_assets_update (\<lambda>_. vs)) (sr_path r) ''duplicate_semgrep_asset_claim'' cl1) (\<lambda>cl2.
         if \<not> is_sha256 (sr_digest r) then Inl (Thrown (''semgrep_rule_contribution_missing_digest:'' @ i))
         else if \<not> isSafeRelativePluginPath (sr_path r) then Inl (Thrown (''plugin_asset_path_invalid:'' @ i))
         else Inr cl2))"

definition index_plugin :: "claims \<Rightarrow> plugin \<Rightarrow> (registry_error, claims) result" where
  "index_plugin cl p =
     (if \<not> manifest_ok (pl_manifest p) then Inl Invalid_manifest
      else if mf_apiVersion (pl_manifest p) \<noteq> ''1'' then
        Inl (Thrown (''unsupported_plugin_api_version:'' @ pid p @ '':'' @ mf_apiVersion (pl_manifest p)))
      else if jm_has (cl_byId cl) (pid p) then Inl (Thrown (''duplicate_plugin_id:'' @ pid p))
      else then_do (validateContributionOwners p) (\<lambda>_. then_do (validateDeclaredCapabilities p) (\<lambda>_.
        then_do (fold_result index_detector (cl\<lparr>cl_byId := jm_set (pid p) p (cl_byId cl)\<rparr>) (pl_detectors p)) (\<lambda>cl1.
        then_do (fold_result index_analyzer cl1 (pl_sourceAnalyzers p)) (\<lambda>cl2.
        then_do (fold_result index_provider cl2 (pl_dependencyProviders p)) (\<lambda>cl3.
        then_do (fold_result index_extractor cl3 (pl_endpointExtractors p)) (\<lambda>cl4.
        then_do (fold_result index_planner cl4 (pl_startPlanners p)) (\<lambda>cl5.
          fold_result (index_rule (pid p)) cl5 (pl_semgrepRules p)))))))))"

definition no_claims :: claims where
  "no_claims = \<lparr>cl_byId = [], cl_detectors = [], cl_providers = [], cl_analyzers = [], cl_primaries = [], cl_extractors = [],
     cl_assets = [], cl_planners = [], cl_priorities = [], cl_contributions = []\<rparr>"

definition check_requirements :: "(string, plugin) jsmap \<Rightarrow> unit \<Rightarrow> plugin \<Rightarrow> (registry_error, unit) result" where
  "check_requirements byId u p =
     (case List.find (\<lambda>d. \<not> jm_has byId d) (allOf p) of
        Some d \<Rightarrow> Inl (Thrown (''missing_required_plugin:'' @ pid p @ '':'' @ d))
      | None \<Rightarrow> (if oneOf p \<noteq> [] \<and> \<not> list_ex (jm_has byId) (oneOf p) then Inl (Thrown (''missing_required_plugin:'' @ pid p @ '':one_of''))
          else Inr ()))"

definition validateAndIndexPlugins :: "plugin list \<Rightarrow> (registry_error, (string, plugin) jsmap) result" where
  "validateAndIndexPlugins plugins =
     then_do (fold_result index_plugin no_claims plugins) (\<lambda>cl.
       then_do (fold_result (check_requirements (cl_byId cl)) () plugins) (\<lambda>_. Inr (cl_byId cl)))"

section \<open>The order\<close>

primrec visit :: "nat \<Rightarrow> collation \<Rightarrow> (string, plugin) jsmap \<Rightarrow> string list \<Rightarrow> plugin list \<Rightarrow> string \<Rightarrow> (registry_error, plugin list) result" where
  \<comment> \<open>the plugins visited are those of \<open>out\<close>\<close>
  "visit 0 cmp m visiting out i = Inl Out_of_fuel"
| "visit (Suc n) cmp m visiting out i =
     (if i \<in> set (map pid out) then Inr out
      else if i \<in> set visiting then Inl (Thrown (''plugin_dependency_cycle:'' @ i))
      else (case jm_get m i of
          None \<Rightarrow> Inl (Thrown (''missing_required_plugin:'' @ i))
        | Some p \<Rightarrow> then_do (fold_result (visit n cmp m (i # visiting)) out (js_sort cmp (allOf p))) (\<lambda>out'. Inr (out' @ [p]))))"

definition resolvePluginOrder :: "collation \<Rightarrow> (string, plugin) jsmap \<Rightarrow> (registry_error, plugin list) result" where
  "resolvePluginOrder cmp m = fold_result (visit (Suc (length m)) cmp m []) [] (js_sort cmp (jm_keys m))"

section \<open>What indexing leaves\<close>

definition index_ok :: "(string, plugin) jsmap \<Rightarrow> bool" where
  "index_ok m = (jm_inv m \<and> (\<forall>i p. jm_get m i = Some p \<longrightarrow> pid p = i))"

lemma claim_byId:
  "claim get put v e cl = Inr cl' \<Longrightarrow> (\<And>vs c. cl_byId (put vs c) = cl_byId c) \<Longrightarrow> cl_byId cl' = cl_byId cl"
  by (auto simp: claim_def split: sum.splits)

lemma contribution_byId: "claim_contribution v cl = Inr cl' \<Longrightarrow> cl_byId cl' = cl_byId cl"
  by (simp add: claim_contribution_def claim_byId)

lemma index_byId:
  "index_detector cl d = Inr cl' \<Longrightarrow> cl_byId cl' = cl_byId cl"
  "index_analyzer cl a = Inr cl' \<Longrightarrow> cl_byId cl' = cl_byId cl"
  "index_extractor cl a = Inr cl' \<Longrightarrow> cl_byId cl' = cl_byId cl"
  "index_planner cl s = Inr cl' \<Longrightarrow> cl_byId cl' = cl_byId cl"
  "index_rule i cl r = Inr cl' \<Longrightarrow> cl_byId cl' = cl_byId cl"
  by (auto simp: index_detector_def index_analyzer_def index_extractor_def index_planner_def index_rule_def then_do_Inr
      dest!: claim_byId contribution_byId split: option.splits if_splits)

lemma fold_byId:
  assumes "fold_result f cl xs = Inr cl'" and "\<And>x cl cl'. f cl x = Inr cl' \<Longrightarrow> cl_byId cl' = cl_byId cl"
  shows "cl_byId cl' = cl_byId cl"
  by (rule fold_result_inv [OF assms(1), of "\<lambda>c. cl_byId c = cl_byId cl"]) (auto dest: assms(2))

lemma index_provider_byId: "index_provider cl d = Inr cl' \<Longrightarrow> cl_byId cl' = cl_byId cl"
  unfolding index_provider_def then_do_Inr
  by (auto dest!: claim_byId contribution_byId fold_byId)

lemma index_plugin_byId:
  assumes "index_plugin cl p = Inr cl'"
  shows "cl_byId cl' = jm_set (pid p) p (cl_byId cl) \<and> \<not> jm_has (cl_byId cl) (pid p)"
proof -
  obtain cl1 cl2 cl3 cl4 cl5 where f:
    "fold_result index_detector (cl\<lparr>cl_byId := jm_set (pid p) p (cl_byId cl)\<rparr>) (pl_detectors p) = Inr cl1"
    "fold_result index_analyzer cl1 (pl_sourceAnalyzers p) = Inr cl2" "fold_result index_provider cl2 (pl_dependencyProviders p) = Inr cl3"
    "fold_result index_extractor cl3 (pl_endpointExtractors p) = Inr cl4" "fold_result index_planner cl4 (pl_startPlanners p) = Inr cl5"
    "fold_result (index_rule (pid p)) cl5 (pl_semgrepRules p) = Inr cl'" "\<not> jm_has (cl_byId cl) (pid p)"
    using assms by (auto simp: index_plugin_def then_do_Inr split: if_splits)
  show ?thesis
    using fold_byId [OF f(1) index_byId(1)] fold_byId [OF f(2) index_byId(2)] fold_byId [OF f(3) index_provider_byId]
      fold_byId [OF f(4) index_byId(3)] fold_byId [OF f(5) index_byId(4)] fold_byId [OF f(6) index_byId(5)] f(7)
    by simp
qed

lemma validate_index_ok:
  assumes "validateAndIndexPlugins plugins = Inr m"
  shows "index_ok m"
proof -
  obtain cl where cl: "fold_result index_plugin no_claims plugins = Inr cl" "m = cl_byId cl"
    using assms by (auto simp: validateAndIndexPlugins_def then_do_Inr)
  have "index_ok (cl_byId cl)"
    by (rule fold_result_inv [OF cl(1)]) (auto simp: index_ok_def no_claims_def dest!: index_plugin_byId split: if_splits)
  then show ?thesis by (simp add: cl)
qed

lemma validate_keys:
  assumes "fold_result index_plugin cl plugins = Inr cl'"
  shows "jm_keys (cl_byId cl') = jm_keys (cl_byId cl) @ map pid plugins"
  using assms
proof (induction plugins arbitrary: cl)
  case (Cons p plugins)
  then obtain c where c: "index_plugin cl p = Inr c" "fold_result index_plugin c plugins = Inr cl'" by (auto split: sum.splits)
  have "jm_keys (cl_byId c) = jm_keys (cl_byId cl) @ [pid p]"
    using index_plugin_byId [OF c(1)] by (simp add: jm_keys_set jm_has_def)
  then show ?case using Cons.IH [OF c(2)] by simp
qed simp

lemma index_values:
  assumes "fold_result index_plugin no_claims plugins = Inr cl" and "jm_get (cl_byId cl) i = Some p"
  shows "p \<in> set plugins"
proof -
  have "\<forall>i p. jm_get (cl_byId cl) i = Some p \<longrightarrow> p \<in> set plugins"
    by (rule fold_result_inv [OF assms(1)]) (auto simp: no_claims_def dest!: index_plugin_byId split: if_splits)
  with assms(2) show ?thesis by blast
qed

lemma check_requirements_all:
  "fold_result (check_requirements m) u plugins = Inr w \<Longrightarrow> p \<in> set plugins \<Longrightarrow> check_requirements m () p = Inr ()"
  by (induction plugins arbitrary: u) (auto split: sum.splits)

definition closed_map :: "(string, plugin) jsmap \<Rightarrow> bool" where
  \<comment> \<open>every plugin that another one needs is there\<close>
  "closed_map m = (\<forall>i p. jm_get m i = Some p \<longrightarrow> (\<forall>d \<in> set (allOf p). jm_get m d \<noteq> None))"

lemma validate_closed: assumes "validateAndIndexPlugins plugins = Inr m" shows "closed_map m"
  unfolding closed_map_def
proof (intro allI impI ballI)
  fix i p d assume p: "jm_get m i = Some p" "d \<in> set (allOf p)"
  obtain cl where cl: "fold_result index_plugin no_claims plugins = Inr cl" "m = cl_byId cl"
    "fold_result (check_requirements (cl_byId cl)) () plugins = Inr ()"
    using assms by (auto simp: validateAndIndexPlugins_def then_do_Inr)
  have "check_requirements m () p = Inr ()"
    using check_requirements_all [OF cl(3)] index_values [OF cl(1)] p(1) cl(2) by blast
  then have "List.find (\<lambda>d. \<not> jm_has m d) (allOf p) = None"
    by (auto simp: check_requirements_def split: option.splits)
  then show "jm_get m d \<noteq> None" using p(2) by (auto simp: find_None_iff jm_has_get)
qed

section \<open>What the order is\<close>

definition needs :: "(string, plugin) jsmap \<Rightarrow> (string \<times> string) set" where
  "needs m = {(i, d). \<exists>p. jm_get m i = Some p \<and> d \<in> set (allOf p)}"

fun in_order :: "string set \<Rightarrow> plugin list \<Rightarrow> bool" where
  \<comment> \<open>each plugin comes after those it needs\<close>
  "in_order seen [] = True"
| "in_order seen (p # ps) = (set (allOf p) \<subseteq> seen \<and> in_order (insert (pid p) seen) ps)"

lemma in_order_snoc: "in_order seen (ps @ [p]) = (in_order seen ps \<and> set (allOf p) \<subseteq> seen \<union> pid ` set ps)"
  by (induction ps arbitrary: seen) auto

definition order_good :: "(string, plugin) jsmap \<Rightarrow> plugin list \<Rightarrow> bool" where
  "order_good m out = (distinct (map pid out) \<and> (\<forall>p \<in> set out. jm_get m (pid p) = Some p) \<and> in_order {} out)"

definition visited_from :: "(string, plugin) jsmap \<Rightarrow> string list \<Rightarrow> plugin list \<Rightarrow> plugin list \<Rightarrow> bool" where
  "visited_from m visiting out out' = (order_good m out' \<and> set out \<subseteq> set out'
     \<and> (\<forall>p \<in> set out' - set out. pid p \<notin> set visiting))"

lemma visited_from_trans:
  "visited_from m visiting out out1 \<Longrightarrow> visited_from m visiting out1 out2 \<Longrightarrow> visited_from m visiting out out2"
  by (auto simp: visited_from_def)

lemma fold_visited:
  assumes "fold_result f out ds = Inr out'" and "order_good m out"
    and "\<And>d out out'. order_good m out \<Longrightarrow> f out d = Inr out' \<Longrightarrow> visited_from m visiting out out' \<and> d \<in> pid ` set out'"
  shows "visited_from m visiting out out' \<and> set ds \<subseteq> pid ` set out'"
  using assms(1,2)
proof (induction ds arbitrary: out)
  case Nil
  then show ?case by (simp add: visited_from_def)
next
  case (Cons d ds)
  then obtain out1 where o1: "f out d = Inr out1" "fold_result f out1 ds = Inr out'" by (auto split: sum.splits)
  have d: "visited_from m visiting out out1" "d \<in> pid ` set out1" using assms(3) [OF Cons.prems(2) o1(1)] by auto
  then have "visited_from m visiting out1 out' \<and> set ds \<subseteq> pid ` set out'"
    by (intro Cons.IH [OF o1(2)]) (simp add: visited_from_def)
  then have "visited_from m visiting out out'" "set ds \<subseteq> pid ` set out'" "set out1 \<subseteq> set out'"
    using visited_from_trans [OF d(1)] by (auto simp: visited_from_def)
  then show ?case using d(2) by auto
qed

lemma visit_visited:
  assumes "index_ok m"
  shows "order_good m out \<Longrightarrow> visit n cmp m visiting out i = Inr out'
    \<Longrightarrow> visited_from m visiting out out' \<and> i \<in> pid ` set out'"
proof (induction n arbitrary: visiting out i out')
  case (Suc n)
  show ?case
  proof (cases "i \<in> set (map pid out)")
    case True
    then show ?thesis using Suc.prems by (auto simp: visited_from_def)
  next
    case False
    then obtain p out1 where p: "jm_get m i = Some p" "i \<notin> set visiting"
      "fold_result (visit n cmp m (i # visiting)) out (js_sort cmp (allOf p)) = Inr out1" "out' = out1 @ [p]"
      using Suc.prems(2) by (auto simp: then_do_Inr split: if_splits option.splits)
    have v: "visited_from m (i # visiting) out out1 \<and> set (js_sort cmp (allOf p)) \<subseteq> pid ` set out1"
      by (rule fold_visited [OF p(3) Suc.prems(1)]) (rule Suc.IH)
    have pid: "pid p = i" using assms p(1) by (simp add: index_ok_def)
    have "i \<notin> pid ` set out1" using v False by (auto simp: visited_from_def)
    then have good: "order_good m out'"
      using v p(1,4) pid unfolding visited_from_def order_good_def by (simp add: in_order_snoc)
    have sub: "set out \<subseteq> set out1" and new: "\<forall>q \<in> set out1 - set out. pid q \<notin> set (i # visiting)"
      using v unfolding visited_from_def by blast+
    have "\<forall>q \<in> set out' - set out. pid q \<notin> set visiting"
    proof
      fix q assume "q \<in> set out' - set out"
      then consider "q \<in> set out1 - set out" | "q = p" unfolding p(4) by auto
      then show "pid q \<notin> set visiting" by cases (use new p(2) pid in auto)
    qed
    then show ?thesis using good sub pid unfolding visited_from_def p(4) by auto
  qed
qed simp

definition order_error :: "(string, plugin) jsmap \<Rightarrow> registry_error \<Rightarrow> bool" where
  "order_error m e = (\<exists>x. e = Thrown (''plugin_dependency_cycle:'' @ x) \<and> (x, x) \<in> (needs m)\<^sup>+)"

lemma fold_error: "fold_result f out ds = Inl e \<Longrightarrow> \<exists>d \<in> set ds. \<exists>out'. f out' d = Inl e"
  by (induction ds arbitrary: out) (auto split: sum.splits)

lemma visit_error:
  assumes "closed_map m"
  shows "visit n cmp m visiting out i = Inl e \<Longrightarrow> distinct visiting \<Longrightarrow> set visiting \<subseteq> set (jm_keys m)
    \<Longrightarrow> length (jm_keys m) < n + length visiting \<Longrightarrow> (\<forall>v \<in> set visiting. (v, i) \<in> (needs m)\<^sup>+)
    \<Longrightarrow> jm_get m i \<noteq> None \<Longrightarrow> order_error m e"
proof (induction n arbitrary: visiting out i)
  case 0
  have "length visiting \<le> length (jm_keys m)"
    using card_mono [OF _ 0(3)] distinct_card [OF 0(2)] card_length [of "jm_keys m"] by simp
  then show ?case using 0(4) by simp
next
  case (Suc n)
  show ?case
  proof (cases "i \<in> set visiting")
    case True
    then show ?thesis using Suc.prems(1,5) by (auto simp: order_error_def split: if_splits)
  next
    case False
    obtain p where p: "jm_get m i = Some p" using Suc.prems(6) by auto
    then have "fold_result (visit n cmp m (i # visiting)) out (js_sort cmp (allOf p)) = Inl e"
      using False Suc.prems(1) by (auto simp: then_do_def split: if_splits sum.splits)
    then obtain d out1 where d: "d \<in> set (allOf p)" "visit n cmp m (i # visiting) out1 d = Inl e"
      using fold_error by fastforce
    have "(i, d) \<in> needs m" using p d(1) by (auto simp: needs_def)
    then have "\<forall>v \<in> set (i # visiting). (v, d) \<in> (needs m)\<^sup>+" using Suc.prems(5) by auto
    moreover have "i \<in> set (jm_keys m)" using p by (metis jm_has_def jm_has_get option.distinct(1))
    moreover have "jm_get m d \<noteq> None" using assms p d(1) by (simp add: closed_map_def)
    ultimately show ?thesis
      using Suc.IH [OF d(2)] False Suc.prems(2-4) by simp
  qed
qed

lemma get_keys: "jm_get m x \<noteq> None \<longleftrightarrow> x \<in> set (jm_keys m)"
  using jm_has_get [of m x] jm_has_def [of m x] by simp

definition place :: "plugin list \<Rightarrow> string \<Rightarrow> nat" where
  "place out x = length (takeWhile (\<lambda>p. pid p \<noteq> x) out)"

lemma place_Cons: "place (r # out) x = (if pid r = x then 0 else Suc (place out x))"
  by (simp add: place_def)

lemma in_order_place:
  "in_order seen out \<Longrightarrow> distinct (map pid out) \<Longrightarrow> pid ` set out \<inter> seen = {} \<Longrightarrow> p \<in> set out
    \<Longrightarrow> d \<in> set (allOf p) \<Longrightarrow> d \<in> pid ` set out \<Longrightarrow> place out d < place out (pid p)"
proof (induction out arbitrary: seen)
  case (Cons r out)
  show ?case
  proof (cases "p = r")
    case True
    then have "d \<in> seen" using Cons.prems(1,5) by auto
    then show ?thesis using Cons.prems(3,6) by auto
  next
    case False
    then have p: "p \<in> set out" using Cons.prems(4) by simp
    then have "pid p \<in> pid ` set out" by (rule imageI)
    then have ne: "pid p \<noteq> pid r" using Cons.prems(2) by auto
    show ?thesis
    proof (cases "pid r = d")
      case False
      have "place out d < place out (pid p)"
        by (rule Cons.IH [of "insert (pid r) seen"]) (use Cons.prems p False in auto)
      then show ?thesis using ne False by (simp add: place_Cons)
    qed (use ne in \<open>simp add: place_Cons\<close>)
  qed
qed simp

lemma order_acyclic:
  assumes "order_good m out" and "set (jm_keys m) \<subseteq> pid ` set out" and "closed_map m"
  shows "acyclic (needs m)"
proof -
  have "place out d < place out i" if nd: "(i, d) \<in> needs m" for i d
  proof -
    obtain p where p: "jm_get m i = Some p" "d \<in> set (allOf p)" using nd unfolding needs_def by blast
    have keys: "jm_get m x \<noteq> None \<Longrightarrow> x \<in> pid ` set out" for x
      unfolding get_keys by (rule subsetD [OF assms(2)])
    have i: "i \<in> pid ` set out" by (rule keys) (simp add: p(1))
    have "jm_get m d \<noteq> None" by (rule assms(3) [unfolded closed_map_def, rule_format, OF p])
    then have d: "d \<in> pid ` set out" by (rule keys)
    obtain q where q: "q \<in> set out" "pid q = i" using i by blast
    then have "jm_get m i = Some q" using assms(1) unfolding order_good_def by blast
    then have "q = p" using p(1) by simp
    then show ?thesis using in_order_place [of "{}" out p d] assms(1) p(2) q d by (simp add: order_good_def)
  qed
  then have "(needs m)\<inverse> \<subseteq> measure (place out)" by auto
  then have "wf ((needs m)\<inverse>)" by (rule wf_subset [OF wf_measure])
  then show ?thesis using wf_acyclic acyclic_converse by blast
qed

lemma resolve_good:
  assumes "validateAndIndexPlugins plugins = Inr m" and "resolvePluginOrder cmp m = Inr out"
  shows "order_good m out" and "set (jm_keys m) \<subseteq> pid ` set out" and "pid ` set out = pid ` set plugins"
proof -
  have "visited_from m [] [] out \<and> set (js_sort cmp (jm_keys m)) \<subseteq> pid ` set out"
    by (rule fold_visited [OF assms(2) [unfolded resolvePluginOrder_def]])
      (use visit_visited [OF validate_index_ok [OF assms(1)]] in \<open>blast | simp add: order_good_def\<close>)+
  then show good: "order_good m out" and keys: "set (jm_keys m) \<subseteq> pid ` set out" by (auto simp: visited_from_def)
  have "pid ` set out \<subseteq> set (jm_keys m)"
  proof
    fix x assume "x \<in> pid ` set out"
    then obtain p where "p \<in> set out" "pid p = x" by blast
    then have "jm_get m x = Some p" using good unfolding order_good_def by blast
    then show "x \<in> set (jm_keys m)" using get_keys by (metis option.distinct(1))
  qed
  moreover have "jm_keys m = map pid plugins"
    using assms(1) validate_keys by (fastforce simp: validateAndIndexPlugins_def then_do_Inr no_claims_def)
  ultimately show "pid ` set out = pid ` set plugins" using keys by auto
qed

section \<open>Properties\<close>

text \<open>The order of the plugins is decided: for plugins that pass the checks, either every plugin is listed once and each after
  those that it needs, and then no plugin needs itself through others, or the reported plugin does need itself
  through others; the recursion always ends.\<close>

theorem plugins_ordered:
  assumes "validateAndIndexPlugins plugins = Inr m"
  shows "case resolvePluginOrder cmp m of
      Inr out \<Rightarrow> distinct (map pid out) \<and> set (map pid out) = set (map pid plugins) \<and> in_order {} out \<and> acyclic (needs m)
    | Inl e \<Rightarrow> (\<exists>x. e = Thrown (''plugin_dependency_cycle:'' @ x) \<and> (x, x) \<in> (needs m)\<^sup>+)"
proof (cases "resolvePluginOrder cmp m")
  case (Inr out)
  note good = resolve_good [OF assms Inr]
  then show ?thesis
    using order_acyclic [OF good(1,2) validate_closed [OF assms]] by (simp add: Inr order_good_def)
next
  case (Inl e)
  obtain i out where i: "i \<in> set (jm_keys m)" "visit (Suc (length m)) cmp m [] out i = Inl e"
    using fold_error [OF Inl [unfolded resolvePluginOrder_def]] by auto
  have "order_error m e"
    by (rule visit_error [OF validate_closed [OF assms] i(2)]) (use i(1) get_keys [of m i] in \<open>simp_all add: jm_keys_def\<close>)
  then show ?thesis by (simp add: Inl order_error_def)
qed

definition sample_plugin :: "string \<Rightarrow> plugin_kind \<Rightarrow> string list \<Rightarrow> string list \<Rightarrow> plugin" where
  "sample_plugin i k ds os = \<lparr>pl_manifest = \<lparr>mf_apiVersion = ''1'', mf_id = i, mf_version = ''1.0.0'', mf_kind = k, mf_displayName = i,
       mf_allOf = ds, mf_oneOf = os, mf_declaredCapabilities = [Source_detection]\<rparr>,
     pl_detectors = [\<lparr>dt_id = i @ ''.d'', dt_pluginId = i, dt_fileGlobs = [''**/*.java''], dt_exclusiveGroup = None, dt_priority = None\<rparr>],
     pl_dependencyProviders = [], pl_sourceAnalyzers = [], pl_endpointExtractors = [], pl_semgrepRules = [], pl_startPlanners = []\<rparr>"

definition sample_plugins :: "plugin list" where
  "sample_plugins = [sample_plugin ''b.m'' Build_system [''l.j''] [], sample_plugin ''l.j'' Language [] []]"

lemma sample_plugins_valid: "\<exists>m. validateAndIndexPlugins sample_plugins = Inr m
    \<and> resolvePluginOrder code_unit_compare m = Inr (rev sample_plugins)"
proof -
  have "(case validateAndIndexPlugins sample_plugins of Inl e \<Rightarrow> False
    | Inr m \<Rightarrow> (case resolvePluginOrder code_unit_compare m of Inl e \<Rightarrow> False | Inr out \<Rightarrow> out = rev sample_plugins))"
    by code_simp
  then show ?thesis by (auto split: sum.splits)
qed

lemma plugins_ordered_witness:
  "\<exists>m out. validateAndIndexPlugins sample_plugins = Inr m \<and> resolvePluginOrder code_unit_compare m = Inr out
    \<and> in_order {} out \<and> acyclic (needs m)"
proof -
  obtain m where m: "validateAndIndexPlugins sample_plugins = Inr m" "resolvePluginOrder code_unit_compare m = Inr (rev sample_plugins)"
    using sample_plugins_valid by blast
  from plugins_ordered [OF m(1), of code_unit_compare] m show ?thesis by auto
qed

end
