(* ===== verification/PluginActivation.thy ===== *)
theory PluginActivation
  imports PluginRegistry
begin

text \<open>
  Which plugins are active for a project (\<open>api/modules/project-capabilities/plugin-detector.ts\<close>) and whether all the
  plugins of a registry can be (\<open>assertRequirementsSatisfiable\<close> and the constructor of \<open>plugin-registry.ts\<close>), and the
  capability plan (\<open>capability-plan-builder.ts\<close>, \<open>start-plan-selection.ts\<close>). What a detector finds, how a provider
  judges the coverage of the paths and what a planner proposes are arguments.
\<close>

section \<open>Activation\<close>

definition satisfied :: "string list \<Rightarrow> plugin \<Rightarrow> bool" where
  "satisfied active p = (list_all (\<lambda>d. d \<in> set active) (allOf p) \<and> (oneOf p = [] \<or> list_ex (\<lambda>d. d \<in> set active) (oneOf p)))"

definition activate_step :: "(string \<Rightarrow> bool) \<Rightarrow> string list \<Rightarrow> plugin \<Rightarrow> string list" where
  "activate_step allowed a p =
     (if pid p \<in> set a \<or> \<not> allowed (pid p) then a else if satisfied a p then pid p # a else a)"

definition activate_pass :: "(string \<Rightarrow> bool) \<Rightarrow> plugin list \<Rightarrow> string list \<Rightarrow> string list" where
  "activate_pass allowed plugins active = foldl (activate_step allowed) active plugins"

definition waiting :: "plugin list \<Rightarrow> string list \<Rightarrow> nat" where
  "waiting plugins active = length (filter (\<lambda>p. pid p \<notin> set active) plugins)"

lemma activate_step_grows: "\<exists>ext. activate_step allowed a p = ext @ a \<and> set ext \<subseteq> {pid p} - set a"
  by (auto simp: activate_step_def)

lemma activate_pass_grows: "\<exists>ext. activate_pass allowed ps a = ext @ a \<and> set ext \<subseteq> pid ` set ps - set a"
proof (induction ps arbitrary: a)
  case Nil
  then show ?case by (simp add: activate_pass_def)
next
  case (Cons p ps)
  obtain e1 where e1: "activate_step allowed a p = e1 @ a" "set e1 \<subseteq> {pid p} - set a" using activate_step_grows by blast
  obtain e2 where e2: "activate_pass allowed ps (e1 @ a) = e2 @ e1 @ a" "set e2 \<subseteq> pid ` set ps - set (e1 @ a)"
    using Cons [of "e1 @ a"] by blast
  have "activate_pass allowed (p # ps) a = (e2 @ e1) @ a" using e1 e2 by (simp add: activate_pass_def)
  moreover have "set (e2 @ e1) \<subseteq> pid ` set (p # ps) - set a" using e1(2) e2(2) by auto
  ultimately show ?case by blast
qed

lemma activate_pass_waiting: "activate_pass allowed ps a \<noteq> a \<Longrightarrow> waiting ps (activate_pass allowed ps a) < waiting ps a"
proof -
  assume ne: "activate_pass allowed ps a \<noteq> a"
  obtain ext where ext: "activate_pass allowed ps a = ext @ a" "set ext \<subseteq> pid ` set ps - set a" using activate_pass_grows by blast
  obtain x where "x \<in> set ext" using ext(1) ne by (cases ext) auto
  then obtain p where p: "p \<in> set ps" "pid p \<in> set ext" "pid p \<notin> set a" using ext(2) by auto
  have "filter (\<lambda>p. pid p \<notin> set (ext @ a)) ps = filter (\<lambda>p. pid p \<notin> set ext) (filter (\<lambda>p. pid p \<notin> set a) ps)"
    by (auto intro: filter_cong)
  moreover have "length (filter (\<lambda>p. pid p \<notin> set ext) (filter (\<lambda>p. pid p \<notin> set a) ps)) < length (filter (\<lambda>p. pid p \<notin> set a) ps)"
    by (rule length_filter_less [of p]) (use p in auto)
  ultimately show ?thesis by (simp add: waiting_def ext(1))
qed

function activate_loop :: "(string \<Rightarrow> bool) \<Rightarrow> plugin list \<Rightarrow> string list \<Rightarrow> string list" where
  \<comment> \<open>rounds until one adds nothing\<close>
  "activate_loop allowed plugins active =
     (let a = activate_pass allowed plugins active in if a = active then active else activate_loop allowed plugins a)"
  by pat_completeness auto
termination
  by (relation "measure (\<lambda>(allowed, plugins, active). waiting plugins active)") (auto intro: activate_pass_waiting)

declare activate_loop.simps [simp del]

text \<open>The activation that is meant: the least set of identifiers closed under the requirements.\<close>

inductive_set activated :: "(string \<Rightarrow> bool) \<Rightarrow> plugin list \<Rightarrow> string set"
  for allowed :: "string \<Rightarrow> bool" and plugins :: "plugin list" where
  active: "p \<in> set plugins \<Longrightarrow> allowed (pid p) \<Longrightarrow> (\<And>d. d \<in> set (allOf p) \<Longrightarrow> d \<in> activated allowed plugins)
    \<Longrightarrow> oneOf p = [] \<or> (\<exists>d \<in> set (oneOf p). d \<in> activated allowed plugins) \<Longrightarrow> pid p \<in> activated allowed plugins"

lemma satisfied_activated:
  "satisfied a p \<Longrightarrow> set a \<subseteq> activated allowed plugins \<Longrightarrow> p \<in> set plugins \<Longrightarrow> allowed (pid p) \<Longrightarrow> pid p \<in> activated allowed plugins"
  by (rule activated.active) (auto simp: satisfied_def list_all_iff list_ex_iff)

lemma activate_pass_sound:
  "set a \<subseteq> activated allowed plugins \<Longrightarrow> set ps \<subseteq> set plugins \<Longrightarrow> set (activate_pass allowed ps a) \<subseteq> activated allowed plugins"
proof (induction ps arbitrary: a)
  case (Cons p ps)
  have "set (activate_step allowed a p) \<subseteq> activated allowed plugins"
    using Cons.prems satisfied_activated [OF _ Cons.prems(1), of p] by (auto simp: activate_step_def)
  then show ?case using Cons by (simp add: activate_pass_def)
qed (simp add: activate_pass_def)

lemma activate_loop_sound: "set a \<subseteq> activated allowed plugins \<Longrightarrow> set (activate_loop allowed plugins a) \<subseteq> activated allowed plugins"
proof (induction allowed plugins a rule: activate_loop.induct)
  case (1 allowed plugins active)
  then show ?case
    using activate_pass_sound [OF 1(2), of plugins] by (subst activate_loop.simps) (auto simp: Let_def)
qed

lemma activate_loop_fixed: "activate_pass allowed plugins (activate_loop allowed plugins a) = activate_loop allowed plugins a"
proof (induction allowed plugins a rule: activate_loop.induct)
  case (1 allowed plugins active)
  then show ?case by (subst (1 2) activate_loop.simps) (auto simp: Let_def)
qed

lemma pass_fixed:
  assumes "activate_pass allowed ps a = a" and "p \<in> set ps"
  shows "activate_step allowed a p = a"
  using assms
proof (induction ps)
  case (Cons q ps)
  obtain e1 where e1: "activate_step allowed a q = e1 @ a" using activate_step_grows by blast
  obtain e2 where e2: "activate_pass allowed ps (e1 @ a) = e2 @ e1 @ a" using activate_pass_grows by blast
  have "e2 @ e1 @ a = a" using Cons.prems(1) e1 e2 by (simp add: activate_pass_def)
  then have "e1 = []" by (metis append_assoc append_self_conv2 append_is_Nil_conv)
  then have "activate_step allowed a q = a" "activate_pass allowed ps a = a" using e1 Cons.prems(1) by (simp_all add: activate_pass_def)
  then show ?case using Cons by auto
qed simp

lemma activate_loop_complete: "activated allowed plugins \<subseteq> set (activate_loop allowed plugins a)"
proof
  fix i assume "i \<in> activated allowed plugins"
  then show "i \<in> set (activate_loop allowed plugins a)"
  proof induction
    case (active p)
    let ?a = "activate_loop allowed plugins a"
    have "satisfied ?a p" using active by (auto simp: satisfied_def list_all_iff list_ex_iff)
    moreover have "activate_step allowed ?a p = ?a" by (rule pass_fixed [OF activate_loop_fixed active(1)])
    ultimately show ?case using active(2) by (auto simp: activate_step_def split: if_splits)
  qed
qed

lemma activate_loop_set: "set (activate_loop allowed plugins []) = activated allowed plugins"
  by (intro equalityI activate_loop_sound activate_loop_complete) simp

section \<open>The registry\<close>

definition assertRequirementsSatisfiable :: "plugin list \<Rightarrow> (registry_error, unit) result" where
  "assertRequirementsSatisfiable plugins =
     (let active = activate_loop (\<lambda>_. True) plugins [] in
      case List.find (\<lambda>p. pid p \<notin> set active) plugins of
        None \<Rightarrow> Inr () | Some p \<Rightarrow> Inl (Thrown (''plugin_dependency_cycle:'' @ pid p)))"

definition registry :: "collation \<Rightarrow> plugin list \<Rightarrow> (registry_error, plugin list) result" where
  \<comment> \<open>the constructor; its result is \<open>plugins()\<close>, the digest of the registry is left out\<close>
  "registry cmp plugins =
     then_do (validateAndIndexPlugins plugins) (\<lambda>m.
       then_do (resolvePluginOrder cmp m) (\<lambda>ordered.
         then_do (assertRequirementsSatisfiable ordered) (\<lambda>_. Inr ordered)))"

section \<open>Detection\<close>

datatype detection_confidence = Low | Medium | High

record evidence =
  ev_path :: string
  ev_kind :: string

record detection_result =
  dr_detected :: bool
  dr_confidence :: detection_confidence
  dr_evidence :: "evidence list"
  dr_limitations :: "string list"

record detection = detection_result +
  de_pluginId :: string

definition highestConfidence :: "detection_confidence list \<Rightarrow> detection_confidence" where
  "highestConfidence cs = (if High \<in> set cs then High else if Medium \<in> set cs then Medium else Low)"

definition uniqueEvidence :: "collation \<Rightarrow> evidence list \<Rightarrow> evidence list" where
  "uniqueEvidence cmp es =
     js_sort (\<lambda>a b. or_compare (cmp (ev_path a) (ev_path b)) (cmp (ev_kind a) (ev_kind b)))
       (jm_values (jm_of_list (map (\<lambda>e. (ev_kind e @ CHR 0x00 # ev_path e, e)) es)))"

definition detectProjectPlugins :: "collation \<Rightarrow> (detector \<Rightarrow> detection_result) \<Rightarrow> plugin list \<Rightarrow> detection list" where
  "detectProjectPlugins cmp detect plugins =
     map (\<lambda>p. let rs = map detect (pl_detectors p); found = list_ex dr_detected rs in
       \<lparr>dr_detected = found, dr_confidence = (if found then highestConfidence (map dr_confidence (filter dr_detected rs)) else Low),
        dr_evidence = uniqueEvidence cmp (concat (map dr_evidence rs)),
        dr_limitations = js_sort cmp (js_uniq (concat (map dr_limitations rs))), de_pluginId = pid p\<rparr>) plugins"

definition detectedIds :: "detection list \<Rightarrow> string \<Rightarrow> bool" where
  "detectedIds ds i = (i \<in> set (map de_pluginId (filter dr_detected ds)))"

definition activePluginsForDetections :: "detection list \<Rightarrow> plugin list \<Rightarrow> plugin list" where
  "activePluginsForDetections ds plugins =
     (let active = activate_loop (detectedIds ds) plugins [] in filter (\<lambda>p. pid p \<in> set active) plugins)"

definition detectAffectedPluginsFromPaths :: "string list \<Rightarrow> plugin list \<Rightarrow> string list" where
  "detectAffectedPluginsFromPaths paths plugins =
     (let normalized = map normalizePluginPath paths in
      map pid (filter (\<lambda>p. list_ex (\<lambda>d. list_ex (\<lambda>c. matchesAnyPluginGlob c (dt_fileGlobs d)) normalized) (pl_detectors p)) plugins))"

definition dependencyProvidersForPaths :: "string list \<Rightarrow> plugin list \<Rightarrow> provider list" where
  "dependencyProvidersForPaths paths plugins =
     (let normalized = map normalizePluginPath paths in
      filter (\<lambda>d. list_ex (\<lambda>c. matchesAnyPluginGlob c (dp_primaryGlobs d @ dp_companionGlobs d)) normalized)
        (concat (map pl_dependencyProviders plugins)))"

section \<open>The capability plan\<close>

definition worstCapabilityCoverage :: "coverage list \<Rightarrow> coverage" where
  "worstCapabilityCoverage cs = (if Gap \<in> set cs then Gap else if Partial \<in> set cs then Partial else Covered)"

record start_plan =
  st_pluginId :: string
  st_requiresProjectCodeConsent :: bool

definition startPlanPriority :: "string \<Rightarrow> nat" where
  "startPlanPriority i = (if starts_with i ''framework.'' then 200 else 100)"

definition preferredStartPlans :: "collation \<Rightarrow> start_plan list \<Rightarrow> start_plan list" where
  "preferredStartPlans cmp plans =
     (if plans = [] then []
      else (let highest = foldl max 0 (map (\<lambda>p. startPlanPriority (st_pluginId p)) plans)
            in js_sort (\<lambda>a b. cmp (st_pluginId a) (st_pluginId b)) (filter (\<lambda>p. startPlanPriority (st_pluginId p) = highest) plans)))"

record capability_step =
  cs_stepId :: string
  cs_pluginIds :: "string list"
  cs_applicable :: bool
  cs_reasonCode :: "string option"
  cs_coverageEffect :: coverage
  cs_limitationCodes :: "string list"

record capability_plan =
  cp_activePluginIds :: "string list"
  cp_languages :: "string list"
  cp_buildSystems :: "string list"
  cp_frameworks :: "string list"
  cp_steps :: "capability_step list"

definition of_kind :: "plugin_kind \<Rightarrow> plugin list \<Rightarrow> plugin list" where
  "of_kind k ps = filter (\<lambda>p. mf_kind (pl_manifest p) = k) ps"

definition language_steps :: "plugin list \<Rightarrow> capability_step list" where
  "language_steps languagePlugins =
     (let analyzers = concat (map pl_sourceAnalyzers languagePlugins); codes = concat (map cn_limitationCodes analyzers) in
      if languagePlugins = [] then []
      else [\<lparr>cs_stepId = ''semgrep'', cs_pluginIds = map pid (filter (\<lambda>p. pl_semgrepRules p \<noteq> []) languagePlugins), cs_applicable = True,
             cs_reasonCode = None, cs_coverageEffect = Covered, cs_limitationCodes = []\<rparr>,
            \<lparr>cs_stepId = ''project_structure'', cs_pluginIds = map pid languagePlugins, cs_applicable = True,
             cs_reasonCode = (case codes of [] \<Rightarrow> None | c # _ \<Rightarrow> Some c),
             cs_coverageEffect = worstCapabilityCoverage (map (\<lambda>a. or_else (cn_coverageEffect a) Covered) analyzers),
             cs_limitationCodes = sorted_set codes\<rparr>])"

definition dependency_steps :: "(provider \<Rightarrow> string list \<Rightarrow> coverage \<times> string option \<times> string list) \<Rightarrow> string list \<Rightarrow> plugin list \<Rightarrow> capability_step list" where
  "dependency_steps coverageOf paths buildPlugins =
     concat (map (\<lambda>p. map (\<lambda>d. case coverageOf d paths of (effect, reason, codes) \<Rightarrow>
       \<lparr>cs_stepId = ''dependency:'' @ dp_id d, cs_pluginIds = [pid p], cs_applicable = True, cs_reasonCode = reason,
        cs_coverageEffect = effect, cs_limitationCodes = codes\<rparr>) (pl_dependencyProviders p)) buildPlugins)"

definition framework_steps :: "detection list \<Rightarrow> plugin list \<Rightarrow> capability_step list" where
  "framework_steps ds frameworkPlugins =
     (let extractors = concat (map pl_endpointExtractors frameworkPlugins) in
      if frameworkPlugins = [] then []
      else [\<lparr>cs_stepId = ''endpoint_extraction'', cs_pluginIds = map pid frameworkPlugins, cs_applicable = True, cs_reasonCode = None,
        cs_coverageEffect = worstCapabilityCoverage (map (\<lambda>a. or_else (cn_coverageEffect a) Covered) extractors),
        cs_limitationCodes = sorted_set (concat (map dr_limitations (filter (\<lambda>d. list_ex (\<lambda>p. pid p = de_pluginId d) frameworkPlugins) ds))
          @ concat (map cn_limitationCodes extractors))\<rparr>])"

definition start_step :: "collation \<Rightarrow> start_plan list \<Rightarrow> capability_step" where
  "start_step cmp startPlans =
     (let preferred = preferredStartPlans cmp startPlans; ambiguous = (1 < length preferred);
          selected = (if ambiguous then [] else preferred); sandbox = list_ex st_requiresProjectCodeConsent selected
      in \<lparr>cs_stepId = ''dast_start'', cs_pluginIds = js_uniq (map st_pluginId (if ambiguous then preferred else selected)),
          cs_applicable = (selected \<noteq> []),
          cs_reasonCode = (if selected = [] then Some ''target_start_not_supported''
            else if sandbox then Some ''project_code_execution_sandbox_required'' else None),
          cs_coverageEffect = (if selected \<noteq> [] \<and> \<not> sandbox then Covered else Gap),
          cs_limitationCodes = (if ambiguous then [''target_start_ambiguous'']
            else if selected = [] then [''target_start_not_supported'']
            else if sandbox then [''project_code_execution_sandbox_required''] else [])\<rparr>)"

definition buildProjectCapabilityPlan ::
    "collation \<Rightarrow> (provider \<Rightarrow> string list \<Rightarrow> coverage \<times> string option \<times> string list) \<Rightarrow> (string list \<Rightarrow> planner \<Rightarrow> start_plan option)
      \<Rightarrow> string list \<Rightarrow> detection list \<Rightarrow> plugin list \<Rightarrow> capability_plan" where
  "buildProjectCapabilityPlan cmp coverageOf planOf paths ds activePlugins =
     (let activeIds = map pid activePlugins;
          startPlans = List.map_filter (planOf activeIds) (concat (map pl_startPlanners activePlugins))
      in \<lparr>cp_activePluginIds = activeIds, cp_languages = map (\<lambda>p. drop 9 (pid p)) (of_kind Language activePlugins),
          cp_buildSystems = map (\<lambda>p. drop 6 (pid p)) (of_kind Build_system activePlugins),
          cp_frameworks = map pid (of_kind Framework activePlugins),
          cp_steps = language_steps (of_kind Language activePlugins) @ dependency_steps coverageOf paths (of_kind Build_system activePlugins)
            @ framework_steps ds (of_kind Framework activePlugins) @ [start_step cmp startPlans]\<rparr>)"

section \<open>The summary of the execution\<close>

record step_execution =
  se_kind :: string
  se_status :: string
  se_toolId :: "string option"
  se_coverageEffect :: "string option"
  se_reasonCode :: "string option"
  se_error :: "string option"

datatype plugin_status = Completed | StatusFailed | Skipped

record plugin_result =
  pr_pluginId :: string
  pr_capability :: string
  pr_status :: plugin_status
  pr_coverageEffect :: coverage
  pr_limitationCodes :: "string list"

definition given_text :: "string option \<Rightarrow> bool" where
  "given_text x = (x \<noteq> None \<and> x \<noteq> Some [])"

definition execution_key :: "step_execution \<Rightarrow> string" where
  "execution_key r = (if se_kind r = ''static_tool'' \<and> given_text (se_toolId r) then the (se_toolId r) else se_kind r)"

definition scannerStepForCapabilityStep :: "string \<Rightarrow> string" where
  "scannerStepForCapabilityStep i =
     (if i = ''semgrep'' then ''semgrep'' else if starts_with i ''dependency:'' then ''osv''
      else if i = ''dast_start'' then ''dast'' else i)"

definition isExecutionBackedCapabilityStep :: "string \<Rightarrow> bool" where
  "isExecutionBackedCapabilityStep i = (i = ''semgrep'' \<or> starts_with i ''dependency:'' \<or> i = ''dast_start'')"

definition executionStatus :: "string option \<Rightarrow> plugin_status" where
  "executionStatus s = (case s of None \<Rightarrow> Skipped
     | Some t \<Rightarrow> (if t = ''completed'' then Completed else if t = ''skipped'' \<or> t = ''not_applicable'' then Skipped else StatusFailed))"

definition knownExecutionLimitations :: "string option \<Rightarrow> string list" where
  "knownExecutionLimitations e =
     (if \<not> given_text e then []
      else filter (contains_text (the e)) [''project_code_execution_consent_required'', ''project_code_execution_sandbox_required'',
        ''target_start_not_supported''])"

definition coverage_of_text :: "string option \<Rightarrow> coverage option" where
  "coverage_of_text t = (if t = Some ''gap'' then Some Gap else if t = Some ''partial'' then Some Partial
     else if t = Some ''covered'' then Some Covered else None)"

definition option_list :: "'a option \<Rightarrow> 'a list" where
  "option_list x = (case x of None \<Rightarrow> [] | Some v \<Rightarrow> [v])"

definition plugin_step_result :: "(string, step_execution) jsmap \<Rightarrow> capability_step \<Rightarrow> string \<Rightarrow> plugin_result" where
  "plugin_step_result resultByStep step pluginId =
     (let execution = jm_get resultByStep (scannerStepForCapabilityStep (cs_stepId step));
          missing = (cs_applicable step \<and> execution = None \<and> isExecutionBackedCapabilityStep (cs_stepId step));
          status = (if \<not> cs_applicable step then Skipped else executionStatus (map_option se_status execution));
          executionCoverage = coverage_of_text (Option.bind execution se_coverageEffect)
      in \<lparr>pr_pluginId = pluginId, pr_capability = cs_stepId step, pr_status = status,
          pr_coverageEffect = (if status = StatusFailed \<or> missing then Gap
            else worstCapabilityCoverage (cs_coverageEffect step # option_list executionCoverage)),
          pr_limitationCodes = sorted_set (cs_limitationCodes step @ (if missing then [''capability_step_not_executed''] else [])
            @ (if given_text (Option.bind execution se_reasonCode) then [the (Option.bind execution se_reasonCode)] else [])
            @ knownExecutionLimitations (Option.bind execution se_error))\<rparr>)"

definition buildPluginExecutionSummary :: "capability_plan \<Rightarrow> step_execution list \<Rightarrow> plugin_result list" where
  "buildPluginExecutionSummary plan stepResults =
     (let resultByStep = jm_of_list (map (\<lambda>r. (execution_key r, r)) stepResults)
      in concat (map (\<lambda>step. map (plugin_step_result resultByStep step) (cs_pluginIds step)) (cp_steps plan)))"

section \<open>Properties\<close>

lemma activated_mono: "i \<in> activated allowed plugins \<Longrightarrow> (\<And>p. p \<in> set plugins \<Longrightarrow> allowed' (pid p)) \<Longrightarrow> i \<in> activated allowed' plugins"
  by (induction rule: activated.induct) (rule activated.active; blast)

text \<open>C33. The active plugins are the least choice: the loop over the plugins ends, and a plugin is active exactly when it belongs to
  the least set of detected plugins in which all that a plugin requires, and one of its alternatives when it has any,
  are in the set; so the answer does not depend on the order of the registry.\<close>

theorem active_plugins_least:
  "activePluginsForDetections ds plugins = filter (\<lambda>p. pid p \<in> activated (detectedIds ds) plugins) plugins"
  by (simp add: activePluginsForDetections_def activate_loop_set)

text \<open>A registry that was constructed can be used in full: its plugins are those given, each after those that it needs, and
  when all of them are detected all of them are active.\<close>

theorem registry_all_active:
  assumes "registry cmp plugins = Inr ordered" and "\<forall>p \<in> set plugins. detectedIds ds (pid p)"
  shows "in_order {} ordered \<and> pid ` set ordered = pid ` set plugins \<and> activePluginsForDetections ds ordered = ordered"
proof -
  obtain m where m: "validateAndIndexPlugins plugins = Inr m" "resolvePluginOrder cmp m = Inr ordered"
    "assertRequirementsSatisfiable ordered = Inr ()"
    using assms(1) by (auto simp: registry_def then_do_Inr)
  note good = resolve_good [OF m(1,2)]
  have "pid p \<in> activated (detectedIds ds) ordered" if p: "p \<in> set ordered" for p
  proof (rule activated_mono)
    have "List.find (\<lambda>p. pid p \<notin> set (activate_loop (\<lambda>_. True) ordered [])) ordered = None"
      using m(3) by (auto simp: assertRequirementsSatisfiable_def Let_def split: option.splits)
    then show "pid p \<in> activated (\<lambda>_. True) ordered" using p by (auto simp: find_None_iff activate_loop_set)
    fix q assume "q \<in> set ordered"
    then have "pid q \<in> pid ` set plugins" using good(3) by blast
    then show "detectedIds ds (pid q)" using assms(2) by auto
  qed
  then have "activePluginsForDetections ds ordered = ordered"
    by (simp add: activePluginsForDetections_def activate_loop_set)
  then show ?thesis using good by (simp add: order_good_def)
qed

definition sample_detections :: "detection list" where
  "sample_detections = map (\<lambda>i. \<lparr>dr_detected = True, dr_confidence = High, dr_evidence = [], dr_limitations = [], de_pluginId = i\<rparr>) [''b.m'', ''l.j'']"

lemma registry_all_active_witness:
  "\<exists>ordered. registry code_unit_compare sample_plugins = Inr ordered \<and> activePluginsForDetections sample_detections ordered = ordered"
proof -
  have "(case registry code_unit_compare sample_plugins of Inl e \<Rightarrow> False | Inr out \<Rightarrow> out = rev sample_plugins)" by code_simp
  then have r: "registry code_unit_compare sample_plugins = Inr (rev sample_plugins)" by (auto split: sum.splits)
  have "\<forall>p \<in> set sample_plugins. detectedIds sample_detections (pid p)"
    by (simp add: sample_plugins_def sample_plugin_def sample_detections_def detectedIds_def)
  from registry_all_active [OF r this] r show ?thesis by blast
qed

text \<open>No coverage without an execution: a plugin's result counts as covered only for a step that the plan counts as covered,
  and, when the step is applicable and done by a scanner, only if that scanner reported a result that neither failed
  nor was itself a gap or partial.\<close>

theorem covered_needs_execution:
  assumes "r \<in> set (buildPluginExecutionSummary plan stepResults)" and "pr_coverageEffect r = Covered"
  shows "\<exists>step \<in> set (cp_steps plan). pr_capability r = cs_stepId step \<and> pr_pluginId r \<in> set (cs_pluginIds step)
    \<and> cs_coverageEffect step = Covered
    \<and> (cs_applicable step \<and> isExecutionBackedCapabilityStep (cs_stepId step) \<longrightarrow>
        (\<exists>e \<in> set stepResults. execution_key e = scannerStepForCapabilityStep (cs_stepId step)
          \<and> executionStatus (Some (se_status e)) \<noteq> StatusFailed \<and> se_coverageEffect e \<notin> {Some ''gap'', Some ''partial''}))"
proof -
  let ?m = "jm_of_list (map (\<lambda>r. (execution_key r, r)) stepResults)"
  obtain step i where step: "step \<in> set (cp_steps plan)" "i \<in> set (cs_pluginIds step)" "r = plugin_step_result ?m step i"
    using assms(1) by (auto simp: buildPluginExecutionSummary_def)
  note cov = assms(2) [unfolded step(3) plugin_step_result_def Let_def, simplified]
  have "cs_coverageEffect step = Covered"
    using cov by (cases "cs_coverageEffect step") (auto simp: worstCapabilityCoverage_def split: if_splits)
  moreover have "\<exists>e \<in> set stepResults. execution_key e = scannerStepForCapabilityStep (cs_stepId step)
      \<and> executionStatus (Some (se_status e)) \<noteq> StatusFailed \<and> se_coverageEffect e \<notin> {Some ''gap'', Some ''partial''}"
    if a: "cs_applicable step" "isExecutionBackedCapabilityStep (cs_stepId step)"
  proof -
    obtain e where e: "jm_get ?m (scannerStepForCapabilityStep (cs_stepId step)) = Some e"
      using cov a by (auto split: if_splits)
    then have "e \<in> set stepResults" "execution_key e = scannerStepForCapabilityStep (cs_stepId step)"
      by (auto dest!: jm_get_of_list_in)
    moreover have "executionStatus (Some (se_status e)) \<noteq> StatusFailed" using cov a e by (auto split: if_splits)
    moreover have "se_coverageEffect e \<notin> {Some ''gap'', Some ''partial''}"
      using cov a e by (auto simp: worstCapabilityCoverage_def coverage_of_text_def option_list_def split: if_splits)
    ultimately show ?thesis by blast
  qed
  ultimately show ?thesis using step by (auto simp: plugin_step_result_def Let_def)
qed

definition sample_capability_plan :: capability_plan where
  "sample_capability_plan = \<lparr>cp_activePluginIds = [''l.j''], cp_languages = [], cp_buildSystems = [], cp_frameworks = [],
     cp_steps = [\<lparr>cs_stepId = ''semgrep'', cs_pluginIds = [''l.j''], cs_applicable = True, cs_reasonCode = None,
       cs_coverageEffect = Covered, cs_limitationCodes = []\<rparr>]\<rparr>"

definition sample_executions :: "step_execution list" where
  "sample_executions = [\<lparr>se_kind = ''static_tool'', se_status = ''completed'', se_toolId = Some ''semgrep'', se_coverageEffect = None,
     se_reasonCode = None, se_error = None\<rparr>]"

lemma covered_needs_execution_witness:
  "\<exists>e \<in> set sample_executions. execution_key e = ''semgrep''"
proof -
  have "map pr_coverageEffect (buildPluginExecutionSummary sample_capability_plan sample_executions) = [Covered]" by code_simp
  then obtain r where r: "buildPluginExecutionSummary sample_capability_plan sample_executions = [r]" "pr_coverageEffect r = Covered"
    by auto
  have "\<exists>step \<in> set (cp_steps sample_capability_plan). cs_applicable step \<and> isExecutionBackedCapabilityStep (cs_stepId step)
      \<and> scannerStepForCapabilityStep (cs_stepId step) = ''semgrep''"
    by (simp add: sample_capability_plan_def isExecutionBackedCapabilityStep_def scannerStepForCapabilityStep_def)
  then show ?thesis
    using covered_needs_execution [of r sample_capability_plan sample_executions] r
    by (auto simp: sample_capability_plan_def isExecutionBackedCapabilityStep_def scannerStepForCapabilityStep_def)
qed

end
