(* ===== verification/DastScope.thy ===== *)
theory DastScope
  imports StrictJsonBytes
begin

text \<open>
  Paths of HTTP targets and the scope they are checked against (\<open>shared/schemas/http-target.schema.ts\<close>, \<open>isPathAllowed\<close>
  of \<open>api/modules/dast/target-validator.ts\<close>). Paths are lists of 16-bit code units; \<open>decodeURIComponent\<close> and the path of
  a parsed URL are modelled as far as a path that starts with one slash needs them.
\<close>

section \<open>\<open>decodeURIComponent\<close>\<close>

definition escaped_byte :: "units \<Rightarrow> int option" where
  \<comment> \<open>the byte of the escape that the text starts with\<close>
  "escaped_byte s = (if length s < 3 \<or> hd s \<noteq> 0x25 then None
     else (case (hex_value (s ! 1), hex_value (s ! 2)) of (Some a, Some b) \<Rightarrow> Some (a * 16 + b) | _ \<Rightarrow> None))"

definition sequence_length :: "int \<Rightarrow> nat" where
  "sequence_length b = (if b < 0x80 then 1 else if b < 0xE0 then 2 else if b < 0xF0 then 3 else 4)"

primrec escaped_bytes :: "nat \<Rightarrow> units \<Rightarrow> int list option" where
  "escaped_bytes 0 s = Some []"
| "escaped_bytes (Suc n) s = (case escaped_byte s of None \<Rightarrow> None
     | Some b \<Rightarrow> map_option (Cons b) (escaped_bytes n (drop 3 s)))"

function decodeURIComponent :: "units \<Rightarrow> units option" where
  "decodeURIComponent [] = Some []"
| "decodeURIComponent (c # cs) =
     (if c \<noteq> 0x25 then map_option (Cons c) (decodeURIComponent cs)
      else (case escaped_byte (c # cs) of None \<Rightarrow> None
        | Some b \<Rightarrow>
            (case escaped_bytes (sequence_length b) (c # cs) of None \<Rightarrow> None
             | Some bs \<Rightarrow> (case utf8_points bs of
                 Some [p] \<Rightarrow> map_option (append (point_units p)) (decodeURIComponent (drop (3 * length bs) (c # cs)))
               | _ \<Rightarrow> None))))"
  by pat_completeness auto
termination
proof (relation "measure length")
  fix c :: int and cs b bs ps p and qs :: "int list"
  assume "utf8_points bs = Some ps" "ps = p # qs" "qs = []"
  then have "bs \<noteq> []" by auto
  then show "(drop (3 * length bs) (c # cs), c # cs) \<in> measure length" by (cases bs) auto
qed auto

section \<open>The path of a URL\<close>

definition path_encoded :: "int \<Rightarrow> bool" where
  \<comment> \<open>the units of the path percent-encode set of the URL standard\<close>
  "path_encoded u = (u < 0x20 \<or> 0x7E < u \<or> u \<in> {0x20, 0x22, 0x23, 0x3C, 0x3E, 0x3F, 0x5E, 0x60, 0x7B, 0x7D})"

definition upper_hex :: "int \<Rightarrow> int" where
  "upper_hex d = (if d < 10 then 0x30 + d else 0x37 + d)"

definition escape_byte :: "int \<Rightarrow> units" where
  "escape_byte b = [0x25, upper_hex (b div 16), upper_hex (b mod 16)]"

definition url_pathname :: "units \<Rightarrow> units" where
  \<comment> \<open>of a path without dot segments, query, fragment and backslash; blanks at the end are dropped\<close>
  "url_pathname s =
     concat (map (\<lambda>p. if path_encoded p then concat (map escape_byte (encode_point p)) else [p])
       (code_points (rev (dropWhile (\<lambda>u. u \<le> 0x20) (rev s)))))"

section \<open>The code\<close>

definition hasControlOrDelimiter :: "units \<Rightarrow> bool" where
  "hasControlOrDelimiter s = list_ex (\<lambda>u. u \<le> 0x1F \<or> u = 0x7F \<or> u = 0x5C \<or> u = 0x3F \<or> u = 0x23) s"

fun segments :: "units \<Rightarrow> units list" where
  \<comment> \<open>\<open>split("/")\<close>\<close>
  "segments [] = [[]]"
| "segments (c # cs) = (if c = 0x2F then [] # segments cs else (case segments cs of [] \<Rightarrow> [[c]] | w # ws \<Rightarrow> (c # w) # ws))"

fun occurs :: "units \<Rightarrow> units \<Rightarrow> bool" where
  "occurs p [] = (p = [])"
| "occurs p (c # cs) = (take (length p) (c # cs) = p \<or> occurs p cs)"

definition normalizeRelativeHttpPath :: "units \<Rightarrow> units option" where
  \<comment> \<open>without a placeholder for the object\<close>
  "normalizeRelativeHttpPath value =
     (if value = [] \<or> hd value \<noteq> 0x2F \<or> take 2 value = [0x2F, 0x2F] \<or> hasControlOrDelimiter value then None
      else if occurs (units_of ''{objectId}'') value then None
      else (case decodeURIComponent value of None \<Rightarrow> None
        | Some decoded \<Rightarrow>
            (if take 2 decoded = [0x2F, 0x2F] \<or> hasControlOrDelimiter decoded
                \<or> list_ex (\<lambda>seg. seg = units_of ''.'' \<or> seg = units_of ''..'') (segments decoded) then None
             else if decodeURIComponent (url_pathname value) \<noteq> Some decoded then None
             else Some (url_pathname value))))"

definition relativePathMatchesPrefix :: "units \<Rightarrow> units \<Rightarrow> bool" where
  "relativePathMatchesPrefix path prefix =
     (case (normalizeRelativeHttpPath path, normalizeRelativeHttpPath prefix) of
        (Some p, Some q) \<Rightarrow>
          (if q = [0x2F] then True
           else p = q \<or> (let r = (if last q = 0x2F then q else q @ [0x2F]) in take (length r) p = r))
      | _ \<Rightarrow> False)"

definition isPathAllowed :: "units \<Rightarrow> units list \<Rightarrow> units list \<Rightarrow> bool" where
  "isPathAllowed path0 allowedPaths excludedPaths =
     (case normalizeRelativeHttpPath path0 of None \<Rightarrow> False
      | Some path \<Rightarrow> list_ex (relativePathMatchesPrefix path) allowedPaths \<and> \<not> list_ex (relativePathMatchesPrefix path) excludedPaths)"

section \<open>Segments\<close>

lemma segments_nonempty [simp]: "segments s \<noteq> []"
  by (cases s) (auto split: list.splits)

lemma segments_append: "segments (s @ 0x2F # t) = segments s @ segments t"
  by (induction s) (auto split: list.splits)

fun join_segments :: "units list \<Rightarrow> units" where
  "join_segments [] = []"
| "join_segments [w] = w"
| "join_segments (w # v # ws) = w @ 0x2F # join_segments (v # ws)"

lemma join_segments: "join_segments (segments s) = s"
proof (induction s)
  case (Cons c s)
  then show ?case by (cases "segments s" rule: join_segments.cases) auto
qed simp

lemma segments_inject: "segments s = segments t \<longleftrightarrow> s = t"
  by (metis join_segments)

lemma segments_prefix: "(\<exists>t. p = q @ 0x2F # t) \<longleftrightarrow> (\<exists>ws. ws \<noteq> [] \<and> segments p = segments q @ ws)"
proof
  assume "\<exists>t. p = q @ 0x2F # t"
  then show "\<exists>ws. ws \<noteq> [] \<and> segments p = segments q @ ws" by (auto simp: segments_append)
next
  assume "\<exists>ws. ws \<noteq> [] \<and> segments p = segments q @ ws"
  then obtain ws where ws: "ws \<noteq> []" "segments p = segments q @ ws" by blast
  have join: "vs \<noteq> [] \<Longrightarrow> ws \<noteq> [] \<Longrightarrow> join_segments (vs @ ws) = join_segments vs @ 0x2F # join_segments ws" for vs ws
    by (induction vs rule: join_segments.induct) (auto simp: neq_Nil_conv)
  have "p = join_segments (segments q @ ws)" using join_segments [of p] ws(2) by simp
  also have "\<dots> = q @ 0x2F # join_segments ws" using join [of "segments q" ws] ws(1) by (simp add: join_segments)
  finally show "\<exists>t. p = q @ 0x2F # t" by blast
qed

definition directory :: "units \<Rightarrow> units list" where
  \<comment> \<open>the segments of a prefix, without the empty one after a slash at its end\<close>
  "directory q = (if last (segments q) = [] then butlast (segments q) else segments q)"

lemma last_segment_slash: "q \<noteq> [] \<Longrightarrow> last (segments q) = [] \<longleftrightarrow> last q = 0x2F"
proof (induction q)
  case (Cons c q)
  show ?case
  proof (cases "q = []")
    case False
    obtain w ws where ws: "segments q = w # ws" by (cases "segments q") auto
    have "ws = [] \<Longrightarrow> w \<noteq> []" using False join_segments [of q] ws by auto
    then show ?thesis using Cons.IH False ws by auto
  qed auto
qed simp

lemma normalized_slash: "normalizeRelativeHttpPath path = Some p \<Longrightarrow> \<exists>t. p = 0x2F # t"
proof -
  assume a: "normalizeRelativeHttpPath path = Some p"
  then obtain s where s: "path = 0x2F # s" and p: "p = url_pathname path"
    by (cases path) (auto simp: normalizeRelativeHttpPath_def split: if_splits option.splits)
  have "\<exists>t. rev (dropWhile (\<lambda>u. u \<le> 0x20) (rev path)) = 0x2F # t"
    unfolding s by (simp add: dropWhile_append) (metis rev_rev_ident)
  then obtain t where t: "rev (dropWhile (\<lambda>u. u \<le> 0x20) (rev path)) = 0x2F # t" by blast
  have "\<exists>ps. code_points (0x2F # t) = 0x2F # ps" by (cases t) (auto simp: is_high_def is_low_def)
  then show ?thesis by (auto simp: p url_pathname_def t path_encoded_def)
qed

section \<open>Properties\<close>

text \<open>A prefix bounds whole segments: a path matches a prefix of the scope exactly when, after both have been normalised, it is
  the prefix itself or the segments of the prefix, a slash at its end aside, begin those of the path; so a prefix
  never matches a longer name that starts alike.\<close>

theorem prefix_by_segments:
  assumes "normalizeRelativeHttpPath path = Some p" and "normalizeRelativeHttpPath prefix = Some q"
  shows "relativePathMatchesPrefix path prefix
    \<longleftrightarrow> p = q \<or> (\<exists>ws. ws \<noteq> [] \<and> segments p = directory q @ ws)"
proof -
  obtain t where t: "p = 0x2F # t" using normalized_slash [OF assms(1)] by blast
  have ne: "q \<noteq> []" using normalized_slash [OF assms(2)] by auto
  have pre: "take (length r) p = r \<longleftrightarrow> (\<exists>u. p = r @ u)" for r
    by (metis append_eq_conv_conj append_take_drop_id)
  show ?thesis
  proof (cases "last q = 0x2F")
    case True
    then obtain q' where q': "q = q' @ [0x2F]" using ne by (metis append_butlast_last_id)
    then have "directory q = segments q'" using segments_append [of q' "[]"] by (simp add: directory_def)
    then have "relativePathMatchesPrefix path prefix \<longleftrightarrow> q = [0x2F] \<or> p = q \<or> (\<exists>ws. ws \<noteq> [] \<and> segments p = directory q @ ws)"
      using True segments_prefix [of p q'] pre [of q] assms by (simp add: relativePathMatchesPrefix_def Let_def q')
    moreover have "q = [0x2F] \<Longrightarrow> \<exists>ws. ws \<noteq> [] \<and> segments p = directory q @ ws"
      by (simp add: t directory_def)
    ultimately show ?thesis by blast
  next
    case False
    then have "directory q = segments q" using last_segment_slash [OF ne] by (simp add: directory_def)
    then show ?thesis
      using False segments_prefix [of p q] pre [of "q @ [0x2F]"] assms ne by (auto simp: relativePathMatchesPrefix_def)
  qed
qed

lemma prefix_by_segments_witness:
  "\<not> relativePathMatchesPrefix (units_of ''/admin2'') (units_of ''/admin/'')"
proof -
  have n: "normalizeRelativeHttpPath (units_of ''/admin2'') = Some (units_of ''/admin2'')"
    "normalizeRelativeHttpPath (units_of ''/admin/'') = Some (units_of ''/admin/'')" by code_simp+
  from prefix_by_segments [OF this] show ?thesis
    by (simp add: units_of_def directory_def)
qed

text \<open>An excluded path is not excluded when it is written with an escape: the normalisation keeps the escape of a letter, and
  the comparison is with the text as it is, so a request to the same resource is allowed.\<close>

theorem escaped_path_not_excluded:
  "isPathAllowed (units_of ''/%61dmin/users'') [units_of ''/''] [units_of ''/admin'']
    \<and> decodeURIComponent (units_of ''/%61dmin/users'') = Some (units_of ''/admin/users'')
    \<and> \<not> isPathAllowed (units_of ''/admin/users'') [units_of ''/''] [units_of ''/admin'']"
  by code_simp

end
