(* ===== verification/DastTarget.thy ===== *)
theory DastTarget
  imports DastScope "HOL-Library.Word"
begin

unbundle bit_operations_syntax

text \<open>
  The targets of dynamic tests (\<open>api/modules/dast/target-validator.ts\<close>): which origins, paths, headers and addresses a
  target may have. IPv4 addresses are 32-bit words as in the code. The parsing of a URL and the resolution of a
  host are arguments.
\<close>

section \<open>IPv4 addresses\<close>

definition octet :: "string \<Rightarrow> nat option" where
  "octet part = (if part \<noteq> [] \<and> list_all is_digit part \<and> digits_value part \<le> 255 then Some (digits_value part) else None)"

definition octets :: "string \<Rightarrow> nat list option" where
  "octets ip = (let parts = split_at (CHR ''.'') ip in
     if length parts = 4 \<and> list_all (\<lambda>p. octet p \<noteq> None) parts then Some (map (the \<circ> octet) parts) else None)"

definition word_of_octets :: "nat list \<Rightarrow> 32 word" where
  "word_of_octets os = foldl (\<lambda>v n. v * 256 + of_nat n) 0 os"

definition ipv4ToNumber :: "string \<Rightarrow> 32 word option" where
  "ipv4ToNumber ip = map_option word_of_octets (octets ip)"

definition cidr_mask :: "nat \<Rightarrow> 32 word" where
  \<comment> \<open>\<open>bits === 0 ? 0 : (0xffffffff << (32 - bits)) >>> 0\<close>\<close>
  "cidr_mask bits = (if bits = 0 then 0 else push_bit (32 - bits) (- 1))"

definition isIpv4InCidr :: "string \<Rightarrow> string \<Rightarrow> nat \<Rightarrow> bool" where
  "isIpv4InCidr ip cidrBase bits = (case (ipv4ToNumber ip, ipv4ToNumber cidrBase) of
     (Some a, Some b) \<Rightarrow> a AND cidr_mask bits = b AND cidr_mask bits | _ \<Rightarrow> False)"

definition stripIpv6Brackets :: "string \<Rightarrow> string" where
  "stripIpv6Brackets host = (if starts_with host ''['' \<and> ends_with host '']'' then butlast (drop 1 host) else host)"

definition isLoopbackAddress :: "string \<Rightarrow> bool" where
  "isLoopbackAddress address = (let s = js_lower (stripIpv6Brackets address) in
     s = ''localhost'' \<or> s = ''::1'' \<or> s = ''127.0.0.1'' \<or> isIpv4InCidr s ''127.0.0.0'' 8 \<or> s = ''::ffff:127.0.0.1'')"

definition isPrivateAddress :: "string \<Rightarrow> bool" where
  "isPrivateAddress address = (let s = js_lower (stripIpv6Brackets address) in
     isIpv4InCidr s ''10.0.0.0'' 8 \<or> isIpv4InCidr s ''172.16.0.0'' 12 \<or> isIpv4InCidr s ''192.168.0.0'' 16
     \<or> starts_with s ''fc'' \<or> starts_with s ''fd'')"

definition isMetadataOrLinkLocalAddress :: "string \<Rightarrow> bool" where
  "isMetadataOrLinkLocalAddress address = (let s = js_lower (stripIpv6Brackets address) in
     s = ''169.254.169.254'' \<or> isIpv4InCidr s ''169.254.0.0'' 16 \<or> starts_with s ''fe80:'' \<or> s = ''::ffff:169.254.169.254'')"

definition isLiteralAddress :: "string \<Rightarrow> bool" where
  "isLiteralAddress host = (let s = stripIpv6Brackets host in ipv4ToNumber s \<noteq> None \<or> contains_text s '':'')"

section \<open>Addresses by their octets\<close>

lemma mask_eq_iff:
  fixes a b :: "32 word"
  assumes "bits \<le> 32"
  shows "a AND cidr_mask bits = b AND cidr_mask bits \<longleftrightarrow> drop_bit (32 - bits) a = drop_bit (32 - bits) b"
proof
  assume e: "a AND cidr_mask bits = b AND cidr_mask bits"
  show "drop_bit (32 - bits) a = drop_bit (32 - bits) b"
  proof (rule bit_word_eqI)
    fix n assume "n < LENGTH(32)"
    have "bit (a AND cidr_mask bits) (32 - bits + n) = bit (b AND cidr_mask bits) (32 - bits + n)" using e by simp
    then show "bit (drop_bit (32 - bits) a) n = bit (drop_bit (32 - bits) b) n"
      using assms by (cases "bits = 0") (auto simp: cidr_mask_def bit_simps dest: bit_imp_le_length)
  qed
next
  assume e: "drop_bit (32 - bits) a = drop_bit (32 - bits) b"
  show "a AND cidr_mask bits = b AND cidr_mask bits"
  proof (rule bit_word_eqI)
    fix n assume n: "n < LENGTH(32)"
    have "32 - bits \<le> n \<Longrightarrow> bit (drop_bit (32 - bits) a) (n - (32 - bits)) = bit (drop_bit (32 - bits) b) (n - (32 - bits))"
      using e by simp
    then show "bit (a AND cidr_mask bits) n = bit (b AND cidr_mask bits) n"
      using n assms by (cases "bits = 0") (auto simp: cidr_mask_def bit_simps)
  qed
qed

lemma unat_octets:
  assumes "a \<le> 255" "b \<le> 255" "c \<le> 255" "d \<le> 255"
  shows "unat (word_of_octets [a, b, c, d]) = ((a * 256 + b) * 256 + c) * 256 + d"
proof -
  have "word_of_octets [a, b, c, d] = of_nat (((a * 256 + b) * 256 + c) * 256 + d)"
    by (simp add: word_of_octets_def)
  moreover have "((a * 256 + b) * 256 + c) * 256 + d < 2 ^ 32" using assms by simp
  ultimately show ?thesis by (simp only: unat_of_nat take_bit_nat_eq_self) (simp add: take_bit_nat_eq_self)
qed

lemma octets_four:
  assumes "octets ip = Some os"
  obtains a b c d where "os = [a, b, c, d]" "a \<le> 255" "b \<le> 255" "c \<le> 255" "d \<le> 255"
proof -
  have len: "length os = 4" and le: "\<forall>n \<in> set os. n \<le> 255"
    using assms by (auto simp: octets_def Let_def octet_def list_all_iff split: if_splits)
  obtain a b c d where "os = [a, b, c, d]" using len by (auto simp: numeral_eq_Suc length_Suc_conv)
  then show thesis using that le by simp
qed

lemma in_cidr_octets:
  assumes "octets ip = Some [a, b, c, d]" and "octets base = Some [e, f, g, h]" and "bits \<le> 32"
  shows "isIpv4InCidr ip base bits
    \<longleftrightarrow> (((a * 256 + b) * 256 + c) * 256 + d) div 2 ^ (32 - bits) = (((e * 256 + f) * 256 + g) * 256 + h) div 2 ^ (32 - bits)"
proof -
  have ip: "unat (word_of_octets [a, b, c, d]) = ((a * 256 + b) * 256 + c) * 256 + d"
    by (rule octets_four [OF assms(1)]) (auto simp only: list.inject intro!: unat_octets)
  have base: "unat (word_of_octets [e, f, g, h]) = ((e * 256 + f) * 256 + g) * 256 + h"
    by (rule octets_four [OF assms(2)]) (auto simp only: list.inject intro!: unat_octets)
  have "isIpv4InCidr ip base bits
      \<longleftrightarrow> drop_bit (32 - bits) (word_of_octets [a, b, c, d]) = drop_bit (32 - bits) (word_of_octets [e, f, g, h])"
    by (simp add: isIpv4InCidr_def ipv4ToNumber_def assms(1,2) mask_eq_iff [OF assms(3)])
  also have "\<dots> \<longleftrightarrow> drop_bit (32 - bits) (unat (word_of_octets [a, b, c, d])) = drop_bit (32 - bits) (unat (word_of_octets [e, f, g, h]))"
    by (simp only: word_unat_eq_iff unat_drop_bit_eq)
  finally show ?thesis unfolding ip base by (simp only: drop_bit_eq_div)
qed

lemma known_bases:
  "octets ''127.0.0.0'' = Some [127, 0, 0, 0]" "octets ''10.0.0.0'' = Some [10, 0, 0, 0]"
  "octets ''172.16.0.0'' = Some [172, 16, 0, 0]" "octets ''192.168.0.0'' = Some [192, 168, 0, 0]"
  "octets ''169.254.0.0'' = Some [169, 254, 0, 0]" "octets ''169.254.169.254'' = Some [169, 254, 169, 254]"
  "octets ''127.0.0.1'' = Some [127, 0, 0, 1]"
  by code_simp+

lemma digit_eq: "b \<le> 255 \<Longrightarrow> a * 256 + b = n \<longleftrightarrow> a = n div 256 \<and> b = n mod (256::nat)"
  by auto

lemma cidr_class:
  assumes "octets ip = Some [a, b, c, d]"
  shows "isIpv4InCidr ip ''127.0.0.0'' 8 \<longleftrightarrow> a = 127" "isIpv4InCidr ip ''10.0.0.0'' 8 \<longleftrightarrow> a = 10"
    "isIpv4InCidr ip ''172.16.0.0'' 12 \<longleftrightarrow> a = 172 \<and> 16 \<le> b \<and> b \<le> 31"
    "isIpv4InCidr ip ''192.168.0.0'' 16 \<longleftrightarrow> a = 192 \<and> b = 168" "isIpv4InCidr ip ''169.254.0.0'' 16 \<longleftrightarrow> a = 169 \<and> b = 254"
proof -
  have le: "b \<le> 255" "c \<le> 255" "d \<le> 255" by (rule octets_four [OF assms]; simp)+
  note bases = known_bases [THEN in_cidr_octets [OF assms]]
  have v8: "(((a * 256 + b) * 256 + c) * 256 + d) div 2 ^ 24 = a" using le by simp
  have v16: "(((a * 256 + b) * 256 + c) * 256 + d) div 2 ^ 16 = a * 256 + b" using le by simp
  have v12: "(((a * 256 + b) * 256 + c) * 256 + d) div 2 ^ 20 = a * 16 + b div 16" using le by simp
  have parts: "(a * 256 + b) div 256 = a" "(a * 256 + b) mod 256 = b" "(a * 16 + b div 16) div 16 = a" "(a * 16 + b div 16) mod 16 = b div 16"
    using le(1) by simp_all
  have two: "a * 256 + b = 49320 \<longleftrightarrow> a = 192 \<and> b = 168" "a * 256 + b = 43518 \<longleftrightarrow> a = 169 \<and> b = 254"
    using digit_eq [OF le(1)] by simp_all
  have twelve: "a * 16 + b div 16 = 2753 \<longleftrightarrow> a = 172 \<and> 16 \<le> b \<and> b \<le> 31"
  proof
    assume "a * 16 + b div 16 = 2753"
    then have "a = 172" "b div 16 = 1" using parts(3,4) by simp_all
    then show "a = 172 \<and> 16 \<le> b \<and> b \<le> 31" by (simp add: div_nat_eqI) linarith
  next
    assume a: "a = 172 \<and> 16 \<le> b \<and> b \<le> 31"
    then have "b div 16 = 1" by (intro div_nat_eqI) simp_all
    then show "a * 16 + b div 16 = 2753" using a by simp
  qed
  show "isIpv4InCidr ip ''127.0.0.0'' 8 \<longleftrightarrow> a = 127" "isIpv4InCidr ip ''10.0.0.0'' 8 \<longleftrightarrow> a = 10"
    using bases(1,2) [of 8] v8 by simp_all
  show "isIpv4InCidr ip ''192.168.0.0'' 16 \<longleftrightarrow> a = 192 \<and> b = 168" "isIpv4InCidr ip ''169.254.0.0'' 16 \<longleftrightarrow> a = 169 \<and> b = 254"
    using bases(4,5) [of 16] v16 two by simp_all
  show "isIpv4InCidr ip ''172.16.0.0'' 12 \<longleftrightarrow> a = 172 \<and> 16 \<le> b \<and> b \<le> 31"
    using bases(3) [of 12] v12 twelve by simp
qed

section \<open>The validation\<close>

record url =
  ur_protocol :: string
  ur_username :: string
  ur_password :: string
  ur_search :: string
  ur_hash :: string
  ur_pathname :: string
  ur_hostname :: string
  ur_port :: string

record target_config =
  tc_id :: string
  tc_enabled :: bool
  tc_origin :: string
  tc_allowLoopback :: bool
  tc_allowPrivateNetwork :: bool
  tc_allowedPaths :: "units list"
  tc_excludedPaths :: "units list"
  tc_headers :: "(string \<times> string) list"
  tc_maxDepth :: int
  tc_maxRequests :: int
  tc_rateLimitPerSec :: int
  tc_timeoutSec :: int

record target =
  tg_targetConfigId :: string
  tg_normalizedOrigin :: string
  tg_runnerOrigin :: string
  tg_allowedPaths :: "units list"
  tg_excludedPaths :: "units list"
  tg_defaultHeaders :: "(string \<times> string) list"
  tg_maxDepth :: int
  tg_maxRequests :: int
  tg_rateLimitPerSec :: int
  tg_timeoutSec :: int
  tg_resolvedAddresses :: "string list"
  tg_warnings :: "string list"

record rejection =
  rj_reason :: string
  rj_resolvedAddresses :: "string list"

definition rejected :: "string \<Rightarrow> string list \<Rightarrow> (rejection, 'a) result" where
  "rejected reason addresses = Inl \<lparr>rj_reason = reason, rj_resolvedAddresses = addresses\<rparr>"

definition url_origin :: "url \<Rightarrow> string" where
  "url_origin u = ur_protocol u @ ''//'' @ ur_hostname u @ (if ur_port u = [] then [] else CHR '':'' # ur_port u)"

definition normalizeDastOrigin :: "(string \<Rightarrow> url option) \<Rightarrow> string \<Rightarrow> (string, url) result" where
  \<comment> \<open>the parsed origin; its text is \<open>url_origin\<close>\<close>
  "normalizeDastOrigin parse origin = (case parse origin of
     None \<Rightarrow> Inl ''Invalid URL''
   | Some u \<Rightarrow>
       (if ur_protocol u \<noteq> ''http:'' \<and> ur_protocol u \<noteq> ''https:'' then Inl ''unsupported_scheme''
        else if ur_username u \<noteq> [] \<or> ur_password u \<noteq> [] then Inl ''url_credentials_rejected''
        else if ur_search u \<noteq> [] \<or> ur_hash u \<noteq> [] then Inl ''url_query_or_fragment_rejected''
        else if ur_pathname u \<noteq> ''/'' \<and> ur_pathname u \<noteq> [] then Inl ''url_path_rejected''
        else if contains_text (ur_hostname u) ''*'' then Inl ''wildcard_host_rejected''
        else Inr u))"

definition normalizePathList :: "units list \<Rightarrow> units list \<Rightarrow> units list option" where
  "normalizePathList paths fallback =
     (let normalized = map normalizeRelativeHttpPath (if paths \<noteq> [] then paths else fallback)
      in if None \<in> set normalized then None else Some (js_uniq (map the normalized)))"

definition SECRET_HEADER_NAMES :: "string set" where
  "SECRET_HEADER_NAMES = {''authorization'', ''cookie'', ''proxy-authorization'', ''x-api-key'', ''x-auth-token'', ''x-csrf-token''}"

definition TRANSPORT_CONTROLLED_HEADER_NAMES :: "string set" where
  "TRANSPORT_CONTROLLED_HEADER_NAMES = {''host'', ''content-length'', ''transfer-encoding'', ''connection'', ''upgrade'', ''te'', ''trailer''}"

definition LOOPBACK_HOSTS :: "string set" where
  "LOOPBACK_HOSTS = {''localhost'', ''127.0.0.1'', ''::1'', ''[::1]''}"

definition LOCALHOST_ALIASES :: "string set" where
  "LOCALHOST_ALIASES = {''0.0.0.0'', ''::'', ''[::]''}"

definition header_reason :: "(string \<times> string) list \<Rightarrow> string option" where
  \<comment> \<open>the first header that is refused\<close>
  "header_reason headers =
     (case List.find (\<lambda>n. n \<in> SECRET_HEADER_NAMES \<or> n \<in> TRANSPORT_CONTROLLED_HEADER_NAMES) (map (js_lower \<circ> fst) headers) of
        None \<Rightarrow> None
      | Some n \<Rightarrow> Some (if n \<in> SECRET_HEADER_NAMES then ''secret_header_rejected'' else ''unsafe_header_rejected''))"

definition resolve :: "(string \<Rightarrow> string list option) \<Rightarrow> string \<Rightarrow> string list option" where
  "resolve resolveHost host =
     (if host \<in> LOOPBACK_HOSTS then Some [if host = ''localhost'' then ''127.0.0.1'' else host]
      else if isLiteralAddress host then Some [host] else resolveHost host)"

definition address_step :: "target_config \<Rightarrow> string list \<Rightarrow> string list \<Rightarrow> string \<Rightarrow> (rejection, string list) result" where
  \<comment> \<open>one turn of the loop over the addresses; the state is the warnings\<close>
  "address_step tc addresses warnings address =
     (if isMetadataOrLinkLocalAddress address then rejected ''metadata_service_target_rejected'' addresses
      else if isLoopbackAddress address then
        (if \<not> tc_allowLoopback tc then rejected ''private_network_target_not_allowed'' addresses else Inr warnings)
      else if isPrivateAddress address then
        (if \<not> tc_allowPrivateNetwork tc then rejected ''private_network_target_not_allowed'' addresses
         else Inr (warnings @ [''private network target allowed by explicit config'']))
      else rejected ''public_internet_target_rejected'' addresses)"

definition buildRunnerOrigin :: "url \<Rightarrow> bool \<Rightarrow> string" where
  "buildRunnerOrigin u docker =
     (if docker \<and> ur_hostname u \<in> {''localhost'', ''127.0.0.1'', ''::1''} then url_origin (u\<lparr>ur_hostname := ''host.docker.internal''\<rparr>)
      else url_origin u)"

definition validateDastTargetConfig ::
    "(string \<Rightarrow> url option) \<Rightarrow> (string \<Rightarrow> string list option) \<Rightarrow> bool \<Rightarrow> units option \<Rightarrow> target_config \<Rightarrow> (rejection, target) result" where
  "validateDastTargetConfig parse resolveHost docker requestedPath tc =
     (if \<not> tc_enabled tc then rejected ''target_disabled'' []
      else (case normalizeDastOrigin parse (tc_origin tc) of
        Inl reason \<Rightarrow> rejected reason []
      | Inr u \<Rightarrow> (let host = js_lower (ur_hostname u) in
          if host \<in> LOCALHOST_ALIASES then rejected ''localhost_alias_not_allowed'' []
          else if contains_text host ''*'' then rejected ''wildcard_host_rejected'' []
          else (case (normalizePathList (tc_allowedPaths tc) [[0x2F]], normalizePathList (tc_excludedPaths tc) []) of
            (Some allowed, Some excluded) \<Rightarrow>
              (if (case requestedPath of None \<Rightarrow> False | Some p \<Rightarrow> p \<noteq> [] \<and> \<not> isPathAllowed p allowed excluded)
               then rejected ''path_out_of_scope'' []
               else (case header_reason (tc_headers tc) of Some reason \<Rightarrow> rejected reason []
                 | None \<Rightarrow> (case resolve resolveHost host of
                     None \<Rightarrow> rejected ''target_resolution_failed'' []
                   | Some addresses \<Rightarrow> (case fold_result (address_step tc addresses) [] addresses of
                       Inl e \<Rightarrow> Inl e
                     | Inr warnings \<Rightarrow> Inr \<lparr>tg_targetConfigId = tc_id tc, tg_normalizedOrigin = url_origin u,
                         tg_runnerOrigin = buildRunnerOrigin u docker, tg_allowedPaths = allowed, tg_excludedPaths = excluded,
                         tg_defaultHeaders = tc_headers tc, tg_maxDepth = tc_maxDepth tc, tg_maxRequests = tc_maxRequests tc,
                         tg_rateLimitPerSec = tc_rateLimitPerSec tc, tg_timeoutSec = tc_timeoutSec tc,
                         tg_resolvedAddresses = addresses, tg_warnings = warnings\<rparr>))))
          | _ \<Rightarrow> rejected ''invalid_path_config'' []))))"

end
