(* ===== verification/RulesOfEngagement.thy ===== *)
theory RulesOfEngagement
  imports DastTarget
begin

text \<open>
  The authorisation of a request of an active test (\<open>api/modules/dast/rules-of-engagement.ts\<close>), and how it fits the
  validation of the target (theory DastTarget). Times are milliseconds, None for a date that is not valid; the
  scope and the rules are given parsed, None when they do not match their schema. Whether a text is an IPv6
  address is an argument.
\<close>

section \<open>Public addresses\<close>

definition is_ipv4 :: "string \<Rightarrow> bool" where
  \<comment> \<open>\<open>isIP(address) === 4\<close>: four decimal numbers up to 255 without leading zeros\<close>
  "is_ipv4 address = (octets address \<noteq> None \<and> list_all (\<lambda>p. length p = 1 \<or> take 1 p \<noteq> ''0'') (split_at (CHR ''.'') address))"

definition isPublicAddress :: "(string \<Rightarrow> bool) \<Rightarrow> string \<Rightarrow> bool" where
  "isPublicAddress is_ipv6 address =
     (if is_ipv4 address then
        (let a = the (octets address) ! 0; b = the (octets address) ! 1
         in \<not> (a = 10 \<or> a = 127 \<or> (a = 169 \<and> b = 254) \<or> (a = 172 \<and> 16 \<le> b \<and> b \<le> 31) \<or> (a = 192 \<and> b = 168)))
      else if is_ipv6 address then
        (let lower = js_lower address
         in \<not> (lower = ''::1'' \<or> list_ex (starts_with lower) [''fc'', ''fd'', ''fe8'', ''fe9'', ''fea'', ''feb'']))
      else True)"

section \<open>The authorisation\<close>

record scope =
  sc_origins :: "string list"
  sc_paths :: "units list"
  sc_methods :: "string list"

record rules =
  ru_allowedPaths :: "units list"
  ru_allowedMethods :: "string list"
  ru_requestBudget :: int
  ru_rateLimitPerSec :: rat
  ru_expiresAt :: "int option"

record engagement =
  en_engagementId :: string
  en_status :: string
  en_environment :: string
  en_startsAt :: "int option"
  en_expiresAt :: "int option"
  en_scope :: "scope option"
  en_rulesOfEngagement :: "rules option"

record authorization =
  gr_engagementId :: string
  gr_method :: string
  gr_path :: units
  gr_remainingRequestBudget :: int
  gr_rateLimitPerSec :: rat

definition READ_ONLY_METHODS :: "string set" where
  "READ_ONLY_METHODS = {''GET'', ''HEAD'', ''OPTIONS''}"

definition after_now :: "int option \<Rightarrow> int \<Rightarrow> bool" where
  \<comment> \<open>\<open>time > now\<close>, false for an invalid date\<close>
  "after_now t now = (case t of None \<Rightarrow> False | Some v \<Rightarrow> now < v)"

definition not_after_now :: "int option \<Rightarrow> int \<Rightarrow> bool" where
  \<comment> \<open>\<open>time <= now\<close>, false for an invalid date\<close>
  "not_after_now t now = (case t of None \<Rightarrow> False | Some v \<Rightarrow> v \<le> now)"

definition pathAllowed :: "units \<Rightarrow> units list \<Rightarrow> bool" where
  "pathAllowed path allowedPaths = list_ex (relativePathMatchesPrefix path) allowedPaths"

definition authorizeRulesOfEngagement ::
    "(string \<Rightarrow> bool) \<Rightarrow> engagement \<Rightarrow> target \<Rightarrow> string \<Rightarrow> units \<Rightarrow> int \<Rightarrow> bool \<Rightarrow> int \<Rightarrow> (string, authorization) result" where
  "authorizeRulesOfEngagement is_ipv6 en tg method0 path requestCount requireStateChanging now =
     (if en_status en \<noteq> ''active'' then Inl ''roe_not_active''
      else if after_now (en_startsAt en) now \<or> not_after_now (en_expiresAt en) now then Inl ''roe_engagement_expired''
      else if en_environment en = ''production'' then Inl ''active_scan_production_rejected''
      else if en_environment en \<notin> {''local'', ''ephemeral'', ''staging''} then Inl ''active_scan_environment_rejected''
      else if list_ex (isPublicAddress is_ipv6) (tg_resolvedAddresses tg) then Inl ''active_scan_public_target_rejected''
      else (case en_rulesOfEngagement en of None \<Rightarrow> Inl ''rules_schema''
        | Some roe \<Rightarrow> (case en_scope en of None \<Rightarrow> Inl ''scope_schema''
          | Some sc \<Rightarrow>
              (if not_after_now (ru_expiresAt roe) now then Inl ''roe_expired''
               else if tg_normalizedOrigin tg \<notin> set (sc_origins sc) then Inl ''engagement_scope_origin_not_allowed''
               else (let method = js_upper method0 in
                 if requireStateChanging \<and> method \<in> READ_ONLY_METHODS then Inl ''active_policy_requires_state_changing_method''
                 else if method \<notin> set (ru_allowedMethods roe) then Inl ''roe_method_not_allowed''
                 else if method \<notin> set (sc_methods sc) then Inl ''engagement_scope_method_not_allowed''
                 else if \<not> pathAllowed path (sc_paths sc) then Inl ''engagement_scope_path_not_allowed''
                 else if \<not> pathAllowed path (ru_allowedPaths roe) then Inl ''roe_path_not_allowed''
                 else if requestCount \<ge> ru_requestBudget roe then Inl ''roe_request_budget_exhausted''
                 else Inr \<lparr>gr_engagementId = en_engagementId en, gr_method = method, gr_path = path,
                   gr_remainingRequestBudget = ru_requestBudget roe - requestCount - 1, gr_rateLimitPerSec = ru_rateLimitPerSec roe\<rparr>)))))"

section \<open>Validated addresses\<close>

lemma split_at_chars: "c \<in> set s \<Longrightarrow> c = a \<or> (\<exists>w \<in> set (split_at a s). c \<in> set w)"
  by (induction s) (auto split: list.splits)

lemma octets_chars: "octets s \<noteq> None \<Longrightarrow> c \<in> set s \<Longrightarrow> is_digit c \<or> c = CHR ''.''"
  using split_at_chars [of c s "CHR ''.''"]
  by (fastforce simp: octets_def octet_def Let_def list_all_iff split: if_splits)

lemma octets_plain:
  assumes "octets s \<noteq> None"
  shows "js_lower (stripIpv6Brackets s) = s"
proof -
  have dig: "\<not> is_upper c" "c \<noteq> CHR ''[''" if "c \<in> set s" for c
    using octets_chars [OF assms that] by (auto simp: char_defs)
  have "js_lower s = s" using dig by (induction s) (auto simp: js_lower_def lower_char_def)
  moreover have "\<not> starts_with s ''[''" using dig(2) by (cases s) auto
  ultimately show ?thesis by (simp add: stripIpv6Brackets_def)
qed

lemma not_addresses: "octets ''localhost'' = None" "octets ''::1'' = None" "octets ''::ffff:127.0.0.1'' = None"
  by code_simp+

lemma octets_not_word: "octets s \<noteq> None \<Longrightarrow> \<not> starts_with s (c # p) \<or> is_digit c \<or> c = CHR ''.''"
  using octets_chars [of s c] by (cases s) auto

lemma step_not_public:
  assumes "address_step tc addresses warnings address = Inr w" and "is_ipv4 address"
  shows "\<not> isPublicAddress is_ipv6 address"
proof -
  have some: "octets address \<noteq> None" using assms(2) by (simp add: is_ipv4_def)
  then obtain os where os: "octets address = Some os" by auto
  obtain a b c d where abcd: "os = [a, b, c, d]" by (rule octets_four [OF os])
  note o = os [unfolded abcd]
  note plain = octets_plain [OF some]
  have word: "\<not> starts_with address ''fc''" "\<not> starts_with address ''fd''"
    using octets_not_word [OF some, of "CHR ''f''" "''c''"] octets_not_word [OF some, of "CHR ''f''" "''d''"] by (auto simp: char_defs)
  have loop: "isLoopbackAddress address \<Longrightarrow> a = 127"
    using o not_addresses known_bases(7) cidr_class(1) [OF o] by (auto simp: isLoopbackAddress_def Let_def plain)
  have priv: "isPrivateAddress address \<Longrightarrow> a = 10 \<or> (a = 172 \<and> 16 \<le> b \<and> b \<le> 31) \<or> (a = 192 \<and> b = 168)"
    using word cidr_class [OF o] by (auto simp: isPrivateAddress_def Let_def plain)
  have "isLoopbackAddress address \<or> isPrivateAddress address"
    using assms(1) by (auto simp: address_step_def rejected_def split: if_splits)
  then show ?thesis using loop priv assms(2) by (auto simp: isPublicAddress_def o)
qed

lemma fold_result_each: "fold_result f s xs = Inr t \<Longrightarrow> x \<in> set xs \<Longrightarrow> \<exists>s s'. f s x = Inr s'"
  by (induction xs arbitrary: s) (auto split: sum.splits)

section \<open>Properties\<close>

text \<open>A request of an active test is granted exactly when everything allows it: the engagement is active, begun and not over,
  its environment is local, ephemeral or staging, no address of the target is public, the rules have not expired,
  the origin is in the scope, the method and the path are allowed by the scope and by the rules, a method that only
  reads is wanted, and the budget is not used up; the grant then leaves one request less.\<close>

theorem request_granted_iff:
  "(\<exists>g. authorizeRulesOfEngagement is_ipv6 en tg method path requestCount requireStateChanging now = Inr g
      \<and> gr_remainingRequestBudget g = remaining) \<longleftrightarrow>
    (\<exists>roe sc. en_status en = ''active'' \<and> \<not> after_now (en_startsAt en) now \<and> \<not> not_after_now (en_expiresAt en) now
      \<and> en_environment en \<in> {''local'', ''ephemeral'', ''staging''} \<and> list_all (\<lambda>a. \<not> isPublicAddress is_ipv6 a) (tg_resolvedAddresses tg)
      \<and> en_rulesOfEngagement en = Some roe \<and> en_scope en = Some sc \<and> \<not> not_after_now (ru_expiresAt roe) now
      \<and> tg_normalizedOrigin tg \<in> set (sc_origins sc)
      \<and> js_upper method \<in> set (ru_allowedMethods roe) \<inter> set (sc_methods sc) \<and> \<not> (requireStateChanging \<and> js_upper method \<in> READ_ONLY_METHODS)
      \<and> pathAllowed path (sc_paths sc) \<and> pathAllowed path (ru_allowedPaths roe)
      \<and> requestCount < ru_requestBudget roe \<and> remaining = ru_requestBudget roe - requestCount - 1)"
  by (cases "en_rulesOfEngagement en"; cases "en_scope en")
    (auto simp: authorizeRulesOfEngagement_def Let_def list_all_iff list_ex_iff)

text \<open>The two rules on addresses agree: when the validation of a target accepts it and its addresses are IPv4 addresses, none of
  them counts as public for the rules of engagement, so an active test is never refused for it.\<close>

theorem validated_target_not_public:
  assumes "validateDastTargetConfig parse resolveHost docker requestedPath tc = Inr tg" and "list_all is_ipv4 (tg_resolvedAddresses tg)"
  shows "\<not> list_ex (isPublicAddress is_ipv6) (tg_resolvedAddresses tg)"
proof -
  obtain u warnings where f: "fold_result (address_step tc (tg_resolvedAddresses tg)) [] (tg_resolvedAddresses tg) = Inr warnings"
    using assms(1) by (auto simp: validateDastTargetConfig_def rejected_def Let_def split: if_splits sum.splits option.splits)
  have "\<not> isPublicAddress is_ipv6 a" if a: "a \<in> set (tg_resolvedAddresses tg)" for a
  proof -
    obtain w w' where "address_step tc (tg_resolvedAddresses tg) w a = Inr w'" using fold_result_each [OF f a] by blast
    then show ?thesis using step_not_public assms(2) a by (auto simp: list_all_iff)
  qed
  then show ?thesis by (auto simp: list_ex_iff)
qed

definition sample_url :: url where
  "sample_url = \<lparr>ur_protocol = ''http:'', ur_username = [], ur_password = [], ur_search = [], ur_hash = [], ur_pathname = ''/'',
     ur_hostname = ''app.test'', ur_port = ''8080''\<rparr>"

definition sample_target_config :: target_config where
  "sample_target_config = \<lparr>tc_id = ''t'', tc_enabled = True, tc_origin = ''http://app.test:8080'', tc_allowLoopback = True, tc_allowPrivateNetwork = True,
     tc_allowedPaths = [], tc_excludedPaths = [units_of ''/admin''], tc_headers = [(''Accept'', ''*/*'')], tc_maxDepth = 2, tc_maxRequests = 10,
     tc_rateLimitPerSec = 1, tc_timeoutSec = 5\<rparr>"

lemma validated_target_not_public_witness:
  "\<exists>tg. validateDastTargetConfig (\<lambda>s. Some sample_url) (\<lambda>h. Some [''10.1.2.3'', ''127.0.0.1'']) True None sample_target_config = Inr tg
    \<and> tg_resolvedAddresses tg = [''10.1.2.3'', ''127.0.0.1''] \<and> \<not> list_ex (isPublicAddress (\<lambda>_. False)) (tg_resolvedAddresses tg)"
proof -
  have "(case validateDastTargetConfig (\<lambda>s. Some sample_url) (\<lambda>h. Some [''10.1.2.3'', ''127.0.0.1'']) True None sample_target_config of
      Inl e \<Rightarrow> False | Inr tg \<Rightarrow> tg_resolvedAddresses tg = [''10.1.2.3'', ''127.0.0.1''])"
    by code_simp
  then obtain tg where tg: "validateDastTargetConfig (\<lambda>s. Some sample_url) (\<lambda>h. Some [''10.1.2.3'', ''127.0.0.1'']) True None sample_target_config = Inr tg"
    "tg_resolvedAddresses tg = [''10.1.2.3'', ''127.0.0.1'']"
    by (auto split: sum.splits)
  have "list_all is_ipv4 [''10.1.2.3'', ''127.0.0.1'']" by code_simp
  then show ?thesis using validated_target_not_public [OF tg(1)] tg by auto
qed

text \<open>An IPv6 loopback target cannot be tested: the host of its URL keeps the brackets, the validation accepts it, and the rules
  of engagement, for which a text in brackets is not an address, count it as public.\<close>

lemma bracketed_loopback_public:
  assumes "\<not> is_ipv6 ''[::1]''"
  shows "address_step (sample_target_config\<lparr>tc_allowLoopback := True\<rparr>) [''[::1]''] [] ''[::1]'' = Inr [] \<and> isPublicAddress is_ipv6 ''[::1]''"
proof -
  have "address_step (sample_target_config\<lparr>tc_allowLoopback := True\<rparr>) [''[::1]''] [] ''[::1]'' = Inr []" by code_simp
  moreover have "\<not> is_ipv4 ''[::1]''" by code_simp
  ultimately show ?thesis using assms by (simp add: isPublicAddress_def)
qed

end
