(* ===== verification/DastCoverage.thy ===== *)
theory DastCoverage
  imports DastScope StepMachine
begin

text \<open>
  What a dynamic test has covered: the request budget (\<open>api/modules/dast/request-budget.ts\<close>), the inventory of the routes
  (\<open>route-inventory.ts\<close>) and the evaluation of the coverage (\<open>coverage-evaluator.ts\<close>). The parsing of a URL, the
  hash and the collation are arguments. An entry of the inventory is referred to by its key.
\<close>

section \<open>The request budget\<close>

record budget =
  bu_maxRequests :: nat
  bu_maxResponseBytes :: nat
  bu_usedRequests :: nat
  bu_usedResponseBytes :: nat

definition MAX_SAFE_INTEGER :: int where
  "MAX_SAFE_INTEGER = 2 ^ 53 - 1"

definition new_budget :: "int \<Rightarrow> int \<Rightarrow> (string, budget) result" where
  "new_budget maxRequests maxResponseBytes =
     (if \<bar>maxRequests\<bar> > MAX_SAFE_INTEGER \<or> maxRequests < 1 then Inl ''dast_request_budget_invalid''
      else if \<bar>maxResponseBytes\<bar> > MAX_SAFE_INTEGER \<or> maxResponseBytes < 1 then Inl ''dast_response_budget_invalid''
      else Inr \<lparr>bu_maxRequests = nat maxRequests, bu_maxResponseBytes = nat maxResponseBytes, bu_usedRequests = 0, bu_usedResponseBytes = 0\<rparr>)"

definition tryReserveRequest :: "budget \<Rightarrow> bool \<times> budget" where
  "tryReserveRequest b =
     (if bu_maxRequests b \<le> bu_usedRequests b then (False, b) else (True, b\<lparr>bu_usedRequests := Suc (bu_usedRequests b)\<rparr>))"

definition remainingResponseBytes :: "int \<Rightarrow> budget \<Rightarrow> int" where
  "remainingResponseBytes perResponseLimit b =
     max 0 (min perResponseLimit (int (bu_maxResponseBytes b) - int (bu_usedResponseBytes b)))"

definition recordResponseBytes :: "int \<Rightarrow> budget \<Rightarrow> (string, budget) result" where
  "recordResponseBytes bytes b =
     (if \<bar>bytes\<bar> > MAX_SAFE_INTEGER \<or> bytes < 0 then Inl ''dast_response_byte_count_invalid''
      else Inr (b\<lparr>bu_usedResponseBytes := bu_usedResponseBytes b + nat bytes\<rparr>))"

definition budget_exhausted :: "budget \<Rightarrow> bool" where
  "budget_exhausted b = (bu_maxRequests b \<le> bu_usedRequests b \<or> bu_maxResponseBytes b \<le> bu_usedResponseBytes b)"

section \<open>Routes\<close>

datatype route_source =
  Configured | Readiness | Openapi | Application_model | Html_link | Browser_network | Redirect | Html_form | Common_probe

datatype route_state =
  Discovered | Planned | Attempted | Succeeded | Denied_expected | Denied_unexpected | Blocked | RouteFailed | Not_tested

record route =
  rt_method :: string
  rt_path :: units
  rt_queryKeys :: "string list"
  rt_queryShapeHash :: string
  rt_sources :: "route_source list"
  rt_depth :: nat
  rt_required :: bool
  rt_authMode :: string
  rt_state :: route_state
  rt_statusCode :: "int option"
  rt_limitationCode :: "string option"

record route_seed =
  sd_method :: "string option"
  sd_path :: units
  sd_source :: route_source
  sd_depth :: "nat option"
  sd_required :: "bool option"
  sd_authMode :: "string option"

record route_scope =
  rs_normalizedOrigin :: string
  rs_runnerOrigin :: string
  rs_allowedPaths :: "units list"
  rs_excludedPaths :: "units list"

record parsed_url =
  pu_origin :: string
  pu_pathname :: units
  pu_queryKeys :: "string list"

definition isTrackingQueryKey :: "string \<Rightarrow> bool" where
  "isTrackingQueryKey key = (let lower = js_lower key in
     starts_with lower ''utm_'' \<or> lower \<in> {''gclid'', ''fbclid'', ''mc_cid'', ''mc_eid''})"

definition redactQueryKey :: "string \<Rightarrow> string" where
  "redactQueryKey key =
     (if list_ex (contains_text (js_lower key)) [''token'', ''secret'', ''password'', ''passwd'', ''authorization'', ''apikey'', ''api_key'',
         ''api-key'', ''session''] then ''[secret-key]'' else take 200 key)"

definition queryShapeHash :: "(string \<Rightarrow> string) \<Rightarrow> string list \<Rightarrow> string" where
  "queryShapeHash sha256 queryKeys = sha256 (join_with [CHR 0x00] (sort_strings queryKeys))"

definition canonicalizeRoute ::
    "(string \<Rightarrow> string) \<Rightarrow> (units \<Rightarrow> string \<Rightarrow> parsed_url option) \<Rightarrow> units \<Rightarrow> route_scope \<Rightarrow> (units \<times> string list \<times> string) option" where
  "canonicalizeRoute sha256 parse_url value target =
     (case parse_url value (rs_normalizedOrigin target) of None \<Rightarrow> None
      | Some u \<Rightarrow>
          (if pu_origin u \<noteq> rs_normalizedOrigin target \<and> pu_origin u \<noteq> rs_runnerOrigin target then None
           else (case normalizeRelativeHttpPath (pu_pathname u) of None \<Rightarrow> None
             | Some path \<Rightarrow>
                 (if path = [] \<or> \<not> isPathAllowed path (rs_allowedPaths target) (rs_excludedPaths target) then None
                  else (let queryKeys = sorted_set (map redactQueryKey (filter (\<lambda>k. \<not> isTrackingQueryKey k) (pu_queryKeys u)))
                        in if [] \<in> set queryKeys then None else Some (path, queryKeys, queryShapeHash sha256 queryKeys))))))"

section \<open>The inventory\<close>

record inventory =
  iv_target :: route_scope
  iv_maxDiscoveredUrls :: nat
  iv_maxQueryShapesPerPath :: nat
  iv_entriesByKey :: "(units, route) jsmap"
  iv_queryShapesByRoute :: "(units, string list) jsmap"
  iv_discoveryLimitReached :: bool
  iv_queryShapeLimitReached :: bool

definition new_inventory :: "route_scope \<Rightarrow> nat \<Rightarrow> nat \<Rightarrow> inventory" where
  "new_inventory target maxUrls maxShapes = \<lparr>iv_target = target, iv_maxDiscoveredUrls = maxUrls, iv_maxQueryShapesPerPath = maxShapes,
     iv_entriesByKey = [], iv_queryShapesByRoute = [], iv_discoveryLimitReached = False, iv_queryShapeLimitReached = False\<rparr>"

fun source_text :: "route_source \<Rightarrow> string" where
  "source_text Configured = ''configured''"
| "source_text Readiness = ''readiness''"
| "source_text Openapi = ''openapi''"
| "source_text Application_model = ''application_model''"
| "source_text Html_link = ''html_link''"
| "source_text Browser_network = ''browser_network''"
| "source_text Redirect = ''redirect''"
| "source_text Html_form = ''html_form''"
| "source_text Common_probe = ''common_probe''"

fun source_rank :: "route_source \<Rightarrow> nat" where
  \<comment> \<open>\<open>priority.indexOf(source)\<close>\<close>
  "source_rank Configured = 0"
| "source_rank Readiness = 1"
| "source_rank Openapi = 2"
| "source_rank Application_model = 3"
| "source_rank Html_link = 4"
| "source_rank Browser_network = 5"
| "source_rank Redirect = 6"
| "source_rank Html_form = 7"
| "source_rank Common_probe = 8"

definition sourcePriority :: "route_source list \<Rightarrow> nat" where
  "sourcePriority ss = (case map source_rank ss of [] \<Rightarrow> 9 | r # rs \<Rightarrow> foldl min r rs)"

definition join_nul :: "units list \<Rightarrow> units" where
  "join_nul ws = concat (map (\<lambda>w. w @ [0]) (butlast ws)) @ last ws"

definition route_key :: "string \<Rightarrow> units \<Rightarrow> string \<Rightarrow> units" where
  "route_key method path authMode = join_nul [units_of method, path, units_of authMode]"

definition entry_key :: "string \<Rightarrow> units \<Rightarrow> string \<Rightarrow> string \<Rightarrow> units" where
  "entry_key method path shape authMode = join_nul [units_of method, path, units_of shape, units_of authMode]"

definition add_route ::
    "(string \<Rightarrow> string) \<Rightarrow> (units \<Rightarrow> string \<Rightarrow> parsed_url option) \<Rightarrow> route_seed \<Rightarrow> inventory \<Rightarrow> units option \<times> inventory" where
  \<comment> \<open>\<open>add\<close>; it returns the key of the entry\<close>
  "add_route sha256 parse_url seed iv =
     (case canonicalizeRoute sha256 parse_url (sd_path seed) (iv_target iv) of None \<Rightarrow> (None, iv)
      | Some (path, queryKeys, shape) \<Rightarrow>
          (let method = or_else (sd_method seed) ''GET''; authMode = or_else (sd_authMode seed) ''anonymous'';
               key = entry_key method path shape authMode
           in case jm_get (iv_entriesByKey iv) key of
             Some existing \<Rightarrow>
               (Some key, iv\<lparr>iv_entriesByKey := jm_set key (existing\<lparr>
                  rt_sources := js_sort (\<lambda>a b. code_unit_compare (source_text a) (source_text b)) (js_uniq (rt_sources existing @ [sd_source seed])),
                  rt_required := rt_required existing \<or> sd_required seed = Some True,
                  rt_depth := min (rt_depth existing) (or_else (sd_depth seed) 0)\<rparr>) (iv_entriesByKey iv)\<rparr>)
           | None \<Rightarrow>
               (if iv_maxDiscoveredUrls iv \<le> jm_size (iv_entriesByKey iv) then (None, iv\<lparr>iv_discoveryLimitReached := True\<rparr>)
                else (let rkey = route_key method path authMode; shapes = or_else (jm_get (iv_queryShapesByRoute iv) rkey) []
                  in if shape \<notin> set shapes \<and> iv_maxQueryShapesPerPath iv \<le> length shapes then (None, iv\<lparr>iv_queryShapeLimitReached := True\<rparr>)
                     else (Some key, iv\<lparr>iv_entriesByKey := jm_set key \<lparr>rt_method = method, rt_path = path, rt_queryKeys = queryKeys,
                         rt_queryShapeHash = shape, rt_sources = [sd_source seed], rt_depth = or_else (sd_depth seed) 0,
                         rt_required = or_else (sd_required seed) False, rt_authMode = authMode, rt_state = Discovered,
                         rt_statusCode = None, rt_limitationCode = None\<rparr> (iv_entriesByKey iv),
                       iv_queryShapesByRoute := jm_set rkey (if shape \<in> set shapes then shapes else shapes @ [shape])
                         (iv_queryShapesByRoute iv)\<rparr>)))))"

definition mark :: "units \<Rightarrow> route_state \<Rightarrow> int option option \<Rightarrow> string option option \<Rightarrow> inventory \<Rightarrow> inventory" where
  \<comment> \<open>the options that are given; None stands for undefined\<close>
  "mark key state statusCode limitationCode iv = (case jm_get (iv_entriesByKey iv) key of None \<Rightarrow> iv
     | Some e \<Rightarrow> iv\<lparr>iv_entriesByKey := jm_set key (e\<lparr>rt_state := state, rt_statusCode := or_else statusCode (rt_statusCode e),
         rt_limitationCode := or_else limitationCode (rt_limitationCode e)\<rparr>) (iv_entriesByKey iv)\<rparr>)"

definition list_routes :: "(units \<Rightarrow> units \<Rightarrow> int) \<Rightarrow> collation \<Rightarrow> inventory \<Rightarrow> route list" where
  "list_routes cmp_path cmp iv =
     js_sort (\<lambda>l r. or_compare (of_bool (rt_required r) - of_bool (rt_required l))
       (or_compare (int (rt_depth l) - int (rt_depth r))
         (or_compare (int (sourcePriority (rt_sources l)) - int (sourcePriority (rt_sources r)))
           (or_compare (cmp_path (rt_path l) (rt_path r)) (cmp (rt_method l) (rt_method r))))))
       (jm_values (iv_entriesByKey iv))"

definition inventory_codes :: "inventory \<Rightarrow> string list" where
  "inventory_codes iv = (if iv_discoveryLimitReached iv then [''route_inventory_limit_reached''] else [])
     @ (if iv_queryShapeLimitReached iv then [''query_shape_limit_reached''] else [])"

datatype inventory_event = Add route_seed | Mark units route_state "int option option" "string option option"

fun inventory_move ::
    "(string \<Rightarrow> string) \<Rightarrow> (units \<Rightarrow> string \<Rightarrow> parsed_url option) \<Rightarrow> inventory_event \<Rightarrow> inventory \<Rightarrow> inventory option" where
  "inventory_move sha256 parse_url (Add seed) iv = Some (snd (add_route sha256 parse_url seed iv))"
| "inventory_move sha256 parse_url (Mark key state status code) iv = Some (mark key state status code iv)"

section \<open>The evaluation\<close>

datatype coverage_status = Cov_covered | Cov_partial | Cov_gap

datatype dast_verdict = V_findings | V_no_findings_observed | V_inconclusive | V_not_tested | V_unknown_legacy

datatype dast_outcome = O_findings | O_passed | O_inconclusive

record route_coverage_summary =
  cm_knownRouteCount :: nat
  cm_actionableKnownRouteCount :: nat
  cm_plannedRouteCount :: nat
  cm_attemptedRouteCount :: nat
  cm_successfulRouteCount :: nat
  cm_failedRouteCount :: nat
  cm_blockedRouteCount :: nat
  cm_notTestedRouteCount :: nat
  cm_requiredSeedCoverage :: rat
  cm_actionableRouteCoverage :: rat
  cm_requestCount :: int
  cm_responseBytesRead :: int
  cm_maxDepthReached :: nat
  cm_transportErrorCount :: nat
  cm_timeoutCount :: nat
  cm_authFailureCount :: nat
  cm_budgetExhausted :: bool
  cm_limitationCodes :: "string list"

record coverage_evaluation =
  ce_coverageStatus :: coverage_status
  ce_coverageSummary :: route_coverage_summary
  ce_verdict :: dast_verdict
  ce_outcome :: dast_outcome
  ce_limitationCodes :: "string list"

record coverage_params =
  cv_routeInventory :: "route list"
  cv_requestCount :: int
  cv_responseBytesRead :: "int option"
  cv_findingCount :: int
  cv_budgetExhausted :: "bool option"
  cv_authRequired :: "bool option"
  cv_authSucceeded :: "bool option"
  cv_limitationCodes :: "string list option"

definition is_attempted :: "route \<Rightarrow> bool" where
  "is_attempted e = (rt_state e \<in> {Attempted, Succeeded, Denied_expected, Denied_unexpected, RouteFailed})"

definition is_successful :: "route \<Rightarrow> bool" where
  "is_successful e = (rt_state e \<in> {Succeeded, Denied_expected})"

definition is_failed :: "route \<Rightarrow> bool" where
  "is_failed e = (rt_state e \<in> {RouteFailed, Denied_unexpected})"

definition is_not_tested :: "route \<Rightarrow> bool" where
  "is_not_tested e = (rt_state e \<in> {Discovered, Planned, Not_tested})"

definition is_actionable :: "route \<Rightarrow> bool" where
  "is_actionable e = (rt_limitationCode e \<noteq> Some ''parameter_example_missing'')"

definition is_transport_error :: "route \<Rightarrow> bool" where
  "is_transport_error e = (rt_state e = RouteFailed
     \<and> or_else (rt_limitationCode e) [] \<in> {''target_unreachable'', ''browser_unavailable'', ''browser_route_failed''})"

definition is_timeout :: "route \<Rightarrow> bool" where
  "is_timeout e = (rt_limitationCode e = Some ''http_timeout'' \<or> rt_limitationCode e = Some ''browser_timeout'')"

definition is_auth_failure :: "route \<Rightarrow> bool" where
  "is_auth_failure e = (rt_limitationCode e = Some ''authentication_failed'' \<or> rt_limitationCode e = Some ''session_expired'')"

definition how_many :: "(route \<Rightarrow> bool) \<Rightarrow> route list \<Rightarrow> nat" where
  "how_many P es = length (filter P es)"

definition share_of :: "nat \<Rightarrow> nat \<Rightarrow> rat" where
  "share_of part whole = (if whole = 0 then 0 else of_nat part / of_nat whole)"

definition evaluateDastCoverage :: "coverage_params \<Rightarrow> coverage_evaluation" where
  "evaluateDastCoverage p =
     (let entries = cv_routeInventory p;
          exhausted = (cv_budgetExhausted p = Some True);
          authGap = (cv_authRequired p = Some True \<and> cv_authSucceeded p \<noteq> Some True);
          codes = sorted_set (or_else (cv_limitationCodes p) []
            @ concat (map (\<lambda>e. case rt_limitationCode e of None \<Rightarrow> [] | Some c \<Rightarrow> (if c = [] then [] else [c])) entries)
            @ (if exhausted then [''request_budget_exhausted''] else []) @ (if authGap then [''authentication_failed''] else []));
          seedCoverage = share_of (how_many (\<lambda>e. rt_required e \<and> is_attempted e) entries) (how_many rt_required entries);
          routeCoverage = share_of (how_many (\<lambda>e. is_actionable e \<and> is_successful e) entries) (how_many is_actionable entries);
          requestless = (cv_requestCount p = 0);
          covered = (\<not> requestless \<and> \<not> authGap \<and> seedCoverage = 1 \<and> 9 / 10 \<le> routeCoverage
            \<and> how_many is_transport_error entries = 0 \<and> how_many is_timeout entries = 0 \<and> \<not> exhausted
            \<and> how_many is_not_tested entries = 0 \<and> codes = []);
          verdict = (if 0 < cv_findingCount p then V_findings else if requestless then V_not_tested
            else if covered then V_no_findings_observed else V_inconclusive)
      in \<lparr>ce_coverageStatus = (if covered then Cov_covered else if requestless \<or> authGap then Cov_gap else Cov_partial),
          ce_coverageSummary = \<lparr>cm_knownRouteCount = length entries, cm_actionableKnownRouteCount = how_many is_actionable entries,
            cm_plannedRouteCount = how_many (\<lambda>e. rt_state e \<noteq> Discovered) entries, cm_attemptedRouteCount = how_many is_attempted entries,
            cm_successfulRouteCount = how_many is_successful entries, cm_failedRouteCount = how_many is_failed entries,
            cm_blockedRouteCount = how_many (\<lambda>e. rt_state e = Blocked) entries, cm_notTestedRouteCount = how_many is_not_tested entries,
            cm_requiredSeedCoverage = seedCoverage, cm_actionableRouteCoverage = routeCoverage,
            cm_requestCount = cv_requestCount p, cm_responseBytesRead = or_else (cv_responseBytesRead p) 0,
            cm_maxDepthReached = foldl (\<lambda>m e. if is_attempted e then max m (rt_depth e) else m) 0 entries,
            cm_transportErrorCount = how_many is_transport_error entries, cm_timeoutCount = how_many is_timeout entries,
            cm_authFailureCount = how_many is_auth_failure entries + (if authGap then 1 else 0),
            cm_budgetExhausted = or_else (cv_budgetExhausted p) False, cm_limitationCodes = codes\<rparr>,
          ce_verdict = verdict,
          ce_outcome = (case verdict of V_findings \<Rightarrow> O_findings | V_no_findings_observed \<Rightarrow> O_passed | _ \<Rightarrow> O_inconclusive),
          ce_limitationCodes = codes\<rparr>)"

section \<open>Counting\<close>

lemma how_many_zero: "how_many P es = 0 \<longleftrightarrow> (\<forall>e \<in> set es. \<not> P e)"
  by (auto simp: how_many_def filter_empty_conv)

lemma how_many_all: "how_many P es = length es \<longleftrightarrow> (\<forall>e \<in> set es. P e)"
  by (auto simp: how_many_def filter_True intro: filter_True) (metis length_filter_less less_irrefl)

lemma how_many_le: "(\<And>e. e \<in> set es \<Longrightarrow> P e \<Longrightarrow> Q e) \<Longrightarrow> how_many P es \<le> how_many Q es"
  by (induction es) (auto simp: how_many_def)

lemma how_many_conj: "how_many (\<lambda>e. P e \<and> Q e) es = how_many Q (filter P es)"
  by (simp add: how_many_def conj_commute)

lemma share_one: "part \<le> whole \<Longrightarrow> share_of part whole = 1 \<longleftrightarrow> 0 < whole \<and> part = whole"
  by (auto simp: share_of_def)

lemma share_bounds: "part \<le> whole \<Longrightarrow> 0 \<le> share_of part whole \<and> share_of part whole \<le> 1"
  by (simp add: share_of_def divide_le_eq_1)

lemma share_nine_tenths: "9 / 10 \<le> share_of part whole \<longleftrightarrow> 0 < whole \<and> 9 * whole \<le> 10 * part"
proof (cases "whole = 0")
  case False
  have "(9 / 10 \<le> (of_nat part / of_nat whole :: rat)) = ((of_nat (9 * whole) :: rat) \<le> of_nat (10 * part))"
    using False by (simp add: field_simps)
  also have "\<dots> = (9 * whole \<le> 10 * part)" by (simp only: of_nat_le_iff)
  finally show ?thesis using False by (simp add: share_of_def)
qed (simp add: share_of_def)

section \<open>The inventory's invariant\<close>

definition route_entry_ok :: "route_scope \<Rightarrow> (units, string list) jsmap \<Rightarrow> units \<Rightarrow> route \<Rightarrow> bool" where
  "route_entry_ok target shapesByRoute k e =
     (isPathAllowed (rt_path e) (rs_allowedPaths target) (rs_excludedPaths target)
      \<and> k = entry_key (rt_method e) (rt_path e) (rt_queryShapeHash e) (rt_authMode e)
      \<and> (\<exists>shapes. jm_get shapesByRoute (route_key (rt_method e) (rt_path e) (rt_authMode e)) = Some shapes
          \<and> rt_queryShapeHash e \<in> set shapes))"

definition inventory_ok :: "route_scope \<Rightarrow> nat \<Rightarrow> nat \<Rightarrow> inventory \<Rightarrow> bool" where
  "inventory_ok target maxUrls maxShapes iv =
     (iv_target iv = target \<and> iv_maxDiscoveredUrls iv = maxUrls \<and> iv_maxQueryShapesPerPath iv = maxShapes
      \<and> jm_inv (iv_entriesByKey iv) \<and> jm_size (iv_entriesByKey iv) \<le> maxUrls
      \<and> (\<forall>k shapes. jm_get (iv_queryShapesByRoute iv) k = Some shapes \<longrightarrow> distinct shapes \<and> length shapes \<le> maxShapes)
      \<and> (\<forall>k e. jm_get (iv_entriesByKey iv) k = Some e \<longrightarrow> route_entry_ok target (iv_queryShapesByRoute iv) k e))"

lemma jm_size_update: "jm_get m k = Some v \<Longrightarrow> jm_size (jm_set k w m) = jm_size m"
  by (simp add: jm_size_set jm_has_get)

lemma entry_update_ok:
  assumes "inventory_ok target n k iv" and "jm_get (iv_entriesByKey iv) key = Some e"
    and "rt_method e' = rt_method e" "rt_path e' = rt_path e" "rt_queryShapeHash e' = rt_queryShapeHash e" "rt_authMode e' = rt_authMode e"
  shows "inventory_ok target n k (iv\<lparr>iv_entriesByKey := jm_set key e' (iv_entriesByKey iv)\<rparr>)"
proof -
  have "route_entry_ok target (iv_queryShapesByRoute iv) key e" using assms(1,2) by (simp add: inventory_ok_def)
  then have "route_entry_ok target (iv_queryShapesByRoute iv) key e'" unfolding route_entry_ok_def assms(3-6) .
  then show ?thesis using assms(1,2) by (simp add: inventory_ok_def jm_size_update)
qed

lemma canonical_allowed:
  "canonicalizeRoute sha256 parse_url v target = Some (path, keys, shape) \<Longrightarrow> isPathAllowed path (rs_allowedPaths target) (rs_excludedPaths target)"
  by (auto simp: canonicalizeRoute_def Let_def split: option.splits if_splits)

lemma new_route_entry_ok:
  assumes "inventory_ok target n k iv" and "jm_get (iv_entriesByKey iv) key = None" and "jm_size (iv_entriesByKey iv) < n"
    and "key = entry_key (rt_method e) (rt_path e) (rt_queryShapeHash e) (rt_authMode e)"
    and "rkey = route_key (rt_method e) (rt_path e) (rt_authMode e)"
    and "isPathAllowed (rt_path e) (rs_allowedPaths target) (rs_excludedPaths target)"
    and "shapes = or_else (jm_get (iv_queryShapesByRoute iv) rkey) []" and "set shapes' = insert (rt_queryShapeHash e) (set shapes)"
    and "distinct shapes'" and "length shapes' \<le> k"
  shows "inventory_ok target n k (iv\<lparr>iv_entriesByKey := jm_set key e (iv_entriesByKey iv),
    iv_queryShapesByRoute := jm_set rkey shapes' (iv_queryShapesByRoute iv)\<rparr>)"
proof -
  have sub: "route_entry_ok target (jm_set rkey shapes' (iv_queryShapesByRoute iv)) j d" if old: "route_entry_ok target (iv_queryShapesByRoute iv) j d" for j d
  proof -
    obtain ss where ss: "jm_get (iv_queryShapesByRoute iv) (route_key (rt_method d) (rt_path d) (rt_authMode d)) = Some ss"
      "rt_queryShapeHash d \<in> set ss" using old unfolding route_entry_ok_def by blast
    have "\<exists>ss'. jm_get (jm_set rkey shapes' (iv_queryShapesByRoute iv)) (route_key (rt_method d) (rt_path d) (rt_authMode d)) = Some ss'
      \<and> rt_queryShapeHash d \<in> set ss'"
      using ss assms(7,8) by (cases "route_key (rt_method d) (rt_path d) (rt_authMode d) = rkey") (simp_all add: or_else_def)
    then show ?thesis using old unfolding route_entry_ok_def by blast
  qed
  have new: "route_entry_ok target (jm_set rkey shapes' (iv_queryShapesByRoute iv)) key e"
    unfolding route_entry_ok_def assms(5) [symmetric] using assms(4,6,8) by simp
  have size: "jm_size (jm_set key e (iv_entriesByKey iv)) \<le> n" using assms(2,3) by (simp add: jm_size_set jm_has_get)
  have entries: "route_entry_ok target (jm_set rkey shapes' (iv_queryShapesByRoute iv)) j d"
    if "jm_get (jm_set key e (iv_entriesByKey iv)) j = Some d" for j d
  proof (cases "j = key")
    case False
    then have "route_entry_ok target (iv_queryShapesByRoute iv) j d" using that assms(1) by (simp add: inventory_ok_def)
    then show ?thesis by (rule sub)
  qed (use that new in simp)
  have lists: "distinct ss \<and> length ss \<le> k" if "jm_get (jm_set rkey shapes' (iv_queryShapesByRoute iv)) j = Some ss" for j ss
    using that assms(1,9,10) by (cases "j = rkey") (auto simp: inventory_ok_def)
  show ?thesis
    using assms(1) entries lists size unfolding inventory_ok_def by simp
qed

lemma add_route_ok: assumes "inventory_ok target n k iv" shows "inventory_ok target n k (snd (add_route sha256 parse_url seed iv))"
proof (cases "canonicalizeRoute sha256 parse_url (sd_path seed) (iv_target iv)")
  case None
  then show ?thesis using assms by (simp add: add_route_def)
next
  case (Some c)
  obtain path queryKeys shape where c: "c = (path, queryKeys, shape)" by (cases c)
  have target: "iv_target iv = target" using assms by (simp add: inventory_ok_def)
  note canon = Some [unfolded c]
  define verb where "verb = or_else (sd_method seed) ''GET''"
  define authMode where "authMode = or_else (sd_authMode seed) ''anonymous''"
  define key where "key = entry_key verb path shape authMode"
  define rkey where "rkey = route_key verb path authMode"
  define shapes where "shapes = or_else (jm_get (iv_queryShapesByRoute iv) rkey) []"
  note defs = verb_def [symmetric] authMode_def [symmetric] key_def [symmetric] rkey_def [symmetric] shapes_def [symmetric]
  have flags: "inventory_ok target n k (iv\<lparr>iv_discoveryLimitReached := b\<rparr>)" "inventory_ok target n k (iv\<lparr>iv_queryShapeLimitReached := b\<rparr>)" for b
    using assms by (simp_all add: inventory_ok_def)
  show ?thesis
  proof (cases "jm_get (iv_entriesByKey iv) key")
    case (Some existing)
    then show ?thesis
      unfolding add_route_def canon option.case prod.case Let_def defs Some snd_conv
      by (intro entry_update_ok [OF assms Some]) simp_all
  next
    case None
    have ok: "distinct shapes \<and> length shapes \<le> k"
      using assms by (cases "jm_get (iv_queryShapesByRoute iv) rkey") (auto simp: shapes_def inventory_ok_def)
    have limits: "iv_maxDiscoveredUrls iv = n" "iv_maxQueryShapesPerPath iv = k" using assms by (simp_all add: inventory_ok_def)
    have "snd (add_route sha256 parse_url seed iv) = iv\<lparr>iv_discoveryLimitReached := True\<rparr> \<or>
      snd (add_route sha256 parse_url seed iv) = iv\<lparr>iv_queryShapeLimitReached := True\<rparr> \<or>
      jm_size (iv_entriesByKey iv) < n \<and> (shape \<notin> set shapes \<longrightarrow> length shapes < k) \<and>
      snd (add_route sha256 parse_url seed iv) = iv\<lparr>iv_entriesByKey := jm_set key \<lparr>rt_method = verb, rt_path = path, rt_queryKeys = queryKeys,
          rt_queryShapeHash = shape, rt_sources = [sd_source seed], rt_depth = or_else (sd_depth seed) 0,
          rt_required = or_else (sd_required seed) False, rt_authMode = authMode, rt_state = Discovered,
          rt_statusCode = None, rt_limitationCode = None\<rparr> (iv_entriesByKey iv),
        iv_queryShapesByRoute := jm_set rkey (if shape \<in> set shapes then shapes else shapes @ [shape]) (iv_queryShapesByRoute iv)\<rparr>"
      (is "_ \<or> _ \<or> _ \<and> _ \<and> _ = ?added")
      unfolding add_route_def canon option.case prod.case Let_def defs None limits by auto
    then show ?thesis
    proof (elim disjE conjE)
      assume room: "jm_size (iv_entriesByKey iv) < n" and fits: "shape \<notin> set shapes \<longrightarrow> length shapes < k"
        and added: "snd (add_route sha256 parse_url seed iv) = ?added"
      have fit: "distinct (if shape \<in> set shapes then shapes else shapes @ [shape])"
        "length (if shape \<in> set shapes then shapes else shapes @ [shape]) \<le> k" using ok fits by auto
      show ?thesis
        unfolding added
        by (rule new_route_entry_ok [OF assms None room _ _ _ shapes_def _ fit])
          (use canonical_allowed [OF canon] in \<open>simp_all add: key_def rkey_def target insert_absorb\<close>)
    qed (simp_all add: flags)
  qed
qed

lemma inventory_ok_move: "inventory_ok target n k iv \<Longrightarrow> inventory_move sha256 parse_url e iv = Some iv' \<Longrightarrow> inventory_ok target n k iv'"
proof (cases e)
  case (Mark key state status code)
  assume ok: "inventory_ok target n k iv" and move: "inventory_move sha256 parse_url e iv = Some iv'"
  show ?thesis
  proof (cases "jm_get (iv_entriesByKey iv) key")
    case (Some d)
    have moved: "iv' = iv\<lparr>iv_entriesByKey := jm_set key (d\<lparr>rt_state := state, rt_statusCode := or_else status (rt_statusCode d),
        rt_limitationCode := or_else code (rt_limitationCode d)\<rparr>) (iv_entriesByKey iv)\<rparr>"
      using move by (simp add: Mark mark_def Some)
    show ?thesis unfolding moved by (rule entry_update_ok [OF ok Some]) simp_all
  qed (use ok move in \<open>simp add: Mark mark_def\<close>)
qed (auto simp: add_route_ok)

interpretation routes: machine "inventory_move sha256 parse_url" "new_inventory target n k" "inventory_ok target n k"
proof
  show "inventory_ok target n k (new_inventory target n k)" by (simp add: inventory_ok_def new_inventory_def jm_size_def)
qed (rule inventory_ok_move)

section \<open>Properties\<close>

definition route_identity :: "route \<Rightarrow> string \<times> units \<times> string" where
  "route_identity e = (rt_method e, rt_path e, rt_authMode e)"

lemma listed_entry:
  assumes "inventory_ok target n k iv" and "e \<in> set (list_routes cmp_path cmp iv)"
  shows "\<exists>key. route_entry_ok target (iv_queryShapesByRoute iv) key e"
proof -
  have inv: "jm_inv (iv_entriesByKey iv)" using assms(1) by (simp add: inventory_ok_def)
  have "e \<in> set (jm_values (iv_entriesByKey iv))" using assms(2) by (simp add: list_routes_def)
  then obtain key where "jm_get (iv_entriesByKey iv) key = Some e" using jm_values_get [OF inv] by blast
  then show ?thesis using assms(1) unfolding inventory_ok_def by blast
qed

lemma shapes_of_route:
  assumes "inventory_ok target n k iv"
  shows "card (rt_queryShapeHash ` {e \<in> set (list_routes cmp_path cmp iv). route_identity e = r}) \<le> k"
proof -
  obtain m p a where r: "r = (m, p, a)" by (cases r)
  let ?S = "rt_queryShapeHash ` {e \<in> set (list_routes cmp_path cmp iv). route_identity e = r}"
  have found: "\<exists>ss. jm_get (iv_queryShapesByRoute iv) (route_key m p a) = Some ss \<and> h \<in> set ss" if h: "h \<in> ?S" for h
  proof -
    obtain e where e: "e \<in> set (list_routes cmp_path cmp iv)" "route_identity e = r" "h = rt_queryShapeHash e" using h by blast
    obtain key where "route_entry_ok target (iv_queryShapesByRoute iv) key e" using listed_entry [OF assms e(1)] by blast
    then show ?thesis using e(2,3) unfolding route_entry_ok_def r route_identity_def by auto
  qed
  show ?thesis
  proof (cases "jm_get (iv_queryShapesByRoute iv) (route_key m p a)")
    case None
    then have "?S = {}" using found by auto
    then show ?thesis by (simp only: card.empty)
  next
    case (Some ss)
    then have "?S \<subseteq> set ss" using found by auto
    then have "card ?S \<le> card (set ss)" by (rule card_mono [OF finite_set])
    also have "\<dots> \<le> length ss" by (rule card_length)
    also have "\<dots> \<le> k" using assms Some by (simp add: inventory_ok_def)
    finally show ?thesis .
  qed
qed

text \<open>Whatever is added to the inventory and whatever is marked in it, in any order: it holds at most as many routes as the
  limit, every route it lists is allowed by the scope of the target, and a method and path has at most the given number of
  different query shapes for a mode of authentication.\<close>

theorem inventory_bounded_in_scope:
  assumes "run_events (inventory_move sha256 parse_url) es (new_inventory target n k) = Some iv"
  shows "length (list_routes cmp_path cmp iv) \<le> n
    \<and> (\<forall>e. e \<notin> set (list_routes cmp_path cmp iv) \<or> isPathAllowed (rt_path e) (rs_allowedPaths target) (rs_excludedPaths target))
    \<and> (\<forall>r. card (rt_queryShapeHash ` {e \<in> set (list_routes cmp_path cmp iv). route_identity e = r}) \<le> k)"
proof -
  have ok: "inventory_ok target n k iv" by (rule routes.inv_reached [OF assms])
  have "length (list_routes cmp_path cmp iv) \<le> n" using ok by (simp add: list_routes_def inventory_ok_def jm_size_def jm_values_def)
  moreover have "isPathAllowed (rt_path e) (rs_allowedPaths target) (rs_excludedPaths target)" if "e \<in> set (list_routes cmp_path cmp iv)" for e
    using listed_entry [OF ok that] unfolding route_entry_ok_def by blast
  ultimately show ?thesis using shapes_of_route [OF ok] by blast
qed

definition sample_scope :: route_scope where
  "sample_scope = \<lparr>rs_normalizedOrigin = ''http://a'', rs_runnerOrigin = ''http://a'', rs_allowedPaths = [units_of ''/''],
     rs_excludedPaths = [units_of ''/admin'']\<rparr>"

definition sample_parse :: "units \<Rightarrow> string \<Rightarrow> parsed_url option" where
  "sample_parse v base = Some \<lparr>pu_origin = base, pu_pathname = v, pu_queryKeys = []\<rparr>"

definition sample_seed :: "string \<Rightarrow> route_seed" where
  "sample_seed path = \<lparr>sd_method = None, sd_path = units_of path, sd_source = Html_link, sd_depth = Some 1, sd_required = None, sd_authMode = None\<rparr>"

definition sample_events :: "inventory_event list" where
  "sample_events = [Add (sample_seed ''/a''), Add (sample_seed ''/admin/x''), Add (sample_seed ''/b'')]"

definition sample_inventory :: "inventory option" where
  "sample_inventory = run_events (inventory_move (\<lambda>t. t) sample_parse) sample_events (new_inventory sample_scope 1 1)"

lemma sample_inventory_entries: "map_option (\<lambda>iv. map rt_path (jm_values (iv_entriesByKey iv))) sample_inventory = Some [units_of ''/a'']"
  by code_simp

lemma inventory_bounded_in_scope_witness:
  "\<exists>iv. run_events (inventory_move (\<lambda>t. t) sample_parse) sample_events (new_inventory sample_scope 1 1) = Some iv
    \<and> length (list_routes (\<lambda>_ _. 0) (\<lambda>_ _. 0) iv) \<le> 1"
proof -
  obtain iv where iv: "sample_inventory = Some iv" using sample_inventory_entries by auto
  show ?thesis using inventory_bounded_in_scope [OF iv [unfolded sample_inventory_def]] iv [unfolded sample_inventory_def] by blast
qed

subsection \<open>The evaluation\<close>

definition limitation_free :: "coverage_params \<Rightarrow> bool" where
  "limitation_free p = (or_else (cv_limitationCodes p) [] = [] \<and> list_all (\<lambda>e. or_else (rt_limitationCode e) [] = []) (cv_routeInventory p))"

definition thorough :: "coverage_params \<Rightarrow> bool" where
  \<comment> \<open>what a passed dynamic test has shown\<close>
  "thorough p = (let es = cv_routeInventory p in
     cv_requestCount p \<noteq> 0 \<and> cv_budgetExhausted p \<noteq> Some True \<and> (cv_authRequired p = Some True \<longrightarrow> cv_authSucceeded p = Some True)
     \<and> limitation_free p \<and> list_ex rt_required es
     \<and> list_all (\<lambda>e. (rt_required e \<longrightarrow> is_attempted e) \<and> \<not> is_not_tested e) es
     \<and> 9 * length es \<le> 10 * how_many is_successful es)"

definition codes_of :: "coverage_params \<Rightarrow> string list" where
  "codes_of p = sorted_set (or_else (cv_limitationCodes p) []
     @ concat (map (\<lambda>e. case rt_limitationCode e of None \<Rightarrow> [] | Some c \<Rightarrow> (if c = [] then [] else [c])) (cv_routeInventory p))
     @ (if cv_budgetExhausted p = Some True then [''request_budget_exhausted''] else [])
     @ (if cv_authRequired p = Some True \<and> cv_authSucceeded p \<noteq> Some True then [''authentication_failed''] else []))"

lemma codes_of_Nil: "codes_of p = [] \<longleftrightarrow> limitation_free p \<and> cv_budgetExhausted p \<noteq> Some True
    \<and> (cv_authRequired p = Some True \<longrightarrow> cv_authSucceeded p = Some True)"
  by (auto simp: codes_of_def limitation_free_def list_all_iff or_else_def split: option.split if_splits)

lemma codes_of_evaluation: "ce_limitationCodes (evaluateDastCoverage p) = codes_of p"
  by (simp add: evaluateDastCoverage_def Let_def codes_of_def)

lemma limitation_free_entry:
  assumes "limitation_free p" and "e \<in> set (cv_routeInventory p)"
  shows "is_actionable e" and "\<not> is_transport_error e" and "\<not> is_timeout e"
proof -
  have c: "or_else (rt_limitationCode e) [] = []" using assms by (simp add: limitation_free_def list_all_iff)
  show "is_actionable e" "\<not> is_transport_error e" "\<not> is_timeout e"
    using c by (auto simp: is_actionable_def is_transport_error_def is_timeout_def)
qed

definition thorough_shares :: "coverage_params \<Rightarrow> bool" where
  "thorough_shares p = (let es = cv_routeInventory p in
     share_of (how_many (\<lambda>e. rt_required e \<and> is_attempted e) es) (how_many rt_required es) = 1
     \<and> 9 / 10 \<le> share_of (how_many (\<lambda>e. is_actionable e \<and> is_successful e) es) (how_many is_actionable es))"

lemma status_of_flags:
  assumes "c \<Longrightarrow> \<not> g \<and> \<not> x"
  shows "(if \<not> r \<and> \<not> g \<and> s \<and> t \<and> e \<and> m \<and> \<not> x \<and> n \<and> c then Cov_covered else if r \<or> g then Cov_gap else Cov_partial) = Cov_covered
    \<longleftrightarrow> \<not> r \<and> c \<and> (s \<and> t) \<and> e \<and> m \<and> n"
  using assms by auto

lemma covered_unfold:
  "ce_coverageStatus (evaluateDastCoverage p) = Cov_covered \<longleftrightarrow>
     cv_requestCount p \<noteq> 0 \<and> codes_of p = [] \<and> thorough_shares p
     \<and> how_many is_transport_error (cv_routeInventory p) = 0 \<and> how_many is_timeout (cv_routeInventory p) = 0
     \<and> how_many is_not_tested (cv_routeInventory p) = 0"
proof -
  have "\<not> (cv_authRequired p = Some True \<and> cv_authSucceeded p \<noteq> Some True) \<and> cv_budgetExhausted p \<noteq> Some True" if "codes_of p = []"
    using that unfolding codes_of_Nil by blast
  from status_of_flags [OF this] show ?thesis
    unfolding evaluateDastCoverage_def Let_def coverage_evaluation.simps codes_of_def [symmetric] thorough_shares_def .
qed

lemma required_share:
  "share_of (how_many (\<lambda>e. rt_required e \<and> is_attempted e) es) (how_many rt_required es) = 1
    \<longleftrightarrow> list_ex rt_required es \<and> list_all (\<lambda>e. rt_required e \<longrightarrow> is_attempted e) es"
proof -
  have le: "how_many (\<lambda>e. rt_required e \<and> is_attempted e) es \<le> how_many rt_required es" by (rule how_many_le) simp
  have split: "how_many (\<lambda>e. rt_required e \<and> is_attempted e) es = how_many is_attempted (filter rt_required es)"
    by (simp add: how_many_def conj_commute)
  have "how_many (\<lambda>e. rt_required e \<and> is_attempted e) es = how_many rt_required es \<longleftrightarrow> (\<forall>e \<in> set (filter rt_required es). is_attempted e)"
    unfolding split how_many_all [symmetric] by (simp add: how_many_def)
  moreover have "0 < how_many rt_required es \<longleftrightarrow> list_ex rt_required es"
    using how_many_zero [of rt_required es] by (auto simp: list_ex_iff)
  ultimately show ?thesis unfolding share_one [OF le] by (auto simp: list_all_iff)
qed

lemma actionable_share:
  assumes "limitation_free p" and "cv_routeInventory p \<noteq> []"
  shows "9 / 10 \<le> share_of (how_many (\<lambda>e. is_actionable e \<and> is_successful e) (cv_routeInventory p)) (how_many is_actionable (cv_routeInventory p))
    \<longleftrightarrow> 9 * length (cv_routeInventory p) \<le> 10 * how_many is_successful (cv_routeInventory p)"
proof -
  let ?es = "cv_routeInventory p"
  have all: "how_many is_actionable ?es = length ?es" using limitation_free_entry(1) [OF assms(1)] by (simp add: how_many_all)
  have "how_many (\<lambda>e. is_actionable e \<and> is_successful e) ?es = how_many is_successful ?es"
    unfolding how_many_def using limitation_free_entry(1) [OF assms(1)] by (auto intro!: arg_cong [where f = length] filter_cong)
  then show ?thesis using assms(2) unfolding share_nine_tenths all by simp
qed

lemma covered_iff: "ce_coverageStatus (evaluateDastCoverage p) = Cov_covered \<longleftrightarrow> thorough p"
proof (cases "codes_of p = []")
  case False
  then show ?thesis by (auto simp: covered_unfold thorough_def Let_def codes_of_Nil)
next
  case True
  then have free: "limitation_free p" by (simp add: codes_of_Nil)
  have zero: "how_many is_transport_error (cv_routeInventory p) = 0" "how_many is_timeout (cv_routeInventory p) = 0"
    using limitation_free_entry(2,3) [OF free] by (simp_all add: how_many_zero)
  have tested: "how_many is_not_tested (cv_routeInventory p) = 0 \<longleftrightarrow> list_all (\<lambda>e. \<not> is_not_tested e) (cv_routeInventory p)"
    by (simp add: how_many_zero list_all_iff)
  show ?thesis
  proof (cases "cv_routeInventory p")
    case Nil
    then show ?thesis by (simp add: covered_unfold thorough_def Let_def thorough_shares_def share_of_def how_many_def)
  next
    case (Cons e es)
    then have "cv_routeInventory p \<noteq> []" by simp
    note share = actionable_share [OF free this]
    show ?thesis
      unfolding covered_unfold thorough_shares_def Let_def zero tested required_share share thorough_def
      using True by (auto simp: codes_of_Nil list_all_iff)
  qed
qed

lemma outcome_of_flags:
  "(case (if 0 < f then V_findings else if r then V_not_tested else if C then V_no_findings_observed else V_inconclusive) of
      V_findings \<Rightarrow> O_findings | V_no_findings_observed \<Rightarrow> O_passed | _ \<Rightarrow> O_inconclusive) = O_passed
    \<longleftrightarrow> f \<le> (0 :: int) \<and> \<not> r \<and> (if C then Cov_covered else if r \<or> g then Cov_gap else Cov_partial) = Cov_covered"
  by auto

text \<open>A dynamic test passes exactly when it has no findings and was thorough: requests were made, the budget was not
  exhausted, a required authentication succeeded, there is no limitation, some route is required and every required route was
  attempted, no route is left untested, and at least nine in ten of the known routes were visited with success.\<close>

theorem passed_iff_thorough:
  "ce_outcome (evaluateDastCoverage p) = O_passed \<longleftrightarrow> cv_findingCount p \<le> 0 \<and> thorough p"
proof -
  have "ce_outcome (evaluateDastCoverage p) = O_passed \<longleftrightarrow>
      cv_findingCount p \<le> 0 \<and> cv_requestCount p \<noteq> 0 \<and> ce_coverageStatus (evaluateDastCoverage p) = Cov_covered"
    unfolding evaluateDastCoverage_def Let_def coverage_evaluation.simps by (rule outcome_of_flags)
  then show ?thesis unfolding covered_iff by (auto simp: thorough_def Let_def)
qed

lemma how_many_split:
  assumes "\<And>e. of_bool (P e) + of_bool (Q e) + of_bool (R e) = (1 :: nat)"
  shows "how_many P es + how_many Q es + how_many R es = length es"
proof (induction es)
  case (Cons e es)
  have "how_many S (e # es) = of_bool (S e) + how_many S es" for S by (simp add: how_many_def)
  then show ?case using Cons assms [of e] by simp
qed (simp add: how_many_def)

lemma depth_bound: "m \<le> d \<Longrightarrow> list_all (\<lambda>e. rt_depth e \<le> d) es \<Longrightarrow> foldl (\<lambda>m e. if is_attempted e then max m (rt_depth e) else m) m es \<le> d"
  by (induction es arbitrary: m) auto

text \<open>The summary of the coverage is consistent: every known route was attempted, blocked or left untested, and is counted
  once; what succeeded and what failed was attempted; the two shares lie between zero and one; and the depth is at most the
  depth of the deepest route.\<close>

theorem summary_consistent:
  assumes "list_all (\<lambda>e. rt_depth e \<le> d) (cv_routeInventory p)"
  shows "let s = ce_coverageSummary (evaluateDastCoverage p) in
      cm_attemptedRouteCount s + cm_blockedRouteCount s + cm_notTestedRouteCount s = cm_knownRouteCount s
      \<and> cm_successfulRouteCount s + cm_failedRouteCount s \<le> cm_attemptedRouteCount s
      \<and> 0 \<le> cm_requiredSeedCoverage s \<and> cm_requiredSeedCoverage s \<le> 1
      \<and> 0 \<le> cm_actionableRouteCoverage s \<and> cm_actionableRouteCoverage s \<le> 1
      \<and> cm_maxDepthReached s \<le> d"
proof -
  let ?es = "cv_routeInventory p"
  have count: "how_many is_attempted ?es + how_many (\<lambda>e. rt_state e = Blocked) ?es + how_many is_not_tested ?es = length ?es"
  proof (rule how_many_split)
    show "of_bool (is_attempted e) + of_bool (rt_state e = Blocked) + of_bool (is_not_tested e) = (1 :: nat)" for e
      by (cases "rt_state e") (simp_all add: is_attempted_def is_not_tested_def)
  qed
  have part: "how_many is_successful es + how_many is_failed es \<le> how_many is_attempted es" for es
  proof (induction es)
    case (Cons e es)
    then show ?case by (cases "rt_state e") (simp_all add: how_many_def is_successful_def is_failed_def is_attempted_def)
  qed (simp add: how_many_def)
  have le: "how_many (\<lambda>e. rt_required e \<and> is_attempted e) ?es \<le> how_many rt_required ?es"
    "how_many (\<lambda>e. is_actionable e \<and> is_successful e) ?es \<le> how_many is_actionable ?es"
    by (rule how_many_le; simp)+
  note fields = evaluateDastCoverage_def Let_def coverage_evaluation.simps route_coverage_summary.simps
  show ?thesis
    unfolding fields
    using count part [of ?es] share_bounds [OF le(1)] share_bounds [OF le(2)] depth_bound [OF le0 assms] by blast
qed

lemma summary_consistent_witness:
  "cm_maxDepthReached (ce_coverageSummary (evaluateDastCoverage \<lparr>cv_routeInventory = [], cv_requestCount = 1, cv_responseBytesRead = None,
    cv_findingCount = 0, cv_budgetExhausted = None, cv_authRequired = None, cv_authSucceeded = None, cv_limitationCodes = None\<rparr>)) \<le> 0"
  using summary_consistent [of 0 "\<lparr>cv_routeInventory = [], cv_requestCount = 1, cv_responseBytesRead = None,
    cv_findingCount = 0, cv_budgetExhausted = None, cv_authRequired = None, cv_authSucceeded = None, cv_limitationCodes = None\<rparr>"]
  by (simp add: Let_def)

end
