(* ===== verification/AuthorizationDiff.thy ===== *)
theory AuthorizationDiff
  imports StableJson
begin

text \<open>
  The comparison of two snapshots of the authorization boundaries of a project
  (\<open>api/modules/security-intelligence/authorization-boundary-diff.ts\<close>) with the checks between fields of
  \<open>shared/schemas/security-intelligence-authorization.schema.ts\<close>. The snapshots enter after the schema has read
  them; the formats of single texts, the digests of a snapshot and of the diff are not part of the model. SHA-256
  and the collation are arguments.
\<close>

section \<open>Snapshots\<close>

datatype support_level = Supported | Unsupported | Ambiguous_support

datatype guard_state = Guarded | Unguarded | Guard_unknown

datatype evidence_kind = Application_model_evidence | Source_location

record boundary_evidence =
  be_ref :: string
  be_kind :: evidence_kind
  be_path :: "string option"
  be_line :: "nat option"

record boundary =
  ab_boundaryRef :: string
  ab_framework :: string
  ab_supportLevel :: support_level
  ab_method :: string
  ab_routePattern :: string
  ab_handlerIdentity :: "string option"
  ab_stable :: bool \<comment> \<open>\<open>identityConfidence === "stable"\<close>\<close>
  ab_guardState :: guard_state
  ab_guardRefs :: "string list"
  ab_evidenceRefs :: "boundary_evidence list"
  ab_limitationCodes :: "string list"

datatype analyzer_status = Analyzer_ready | Analyzer_degraded | Analyzer_unavailable

record snapshot =
  sn_projectRef :: string
  sn_version :: string
  sn_status :: analyzer_status
  sn_boundaries :: "boundary list"
  sn_limitationCodes :: "string list"

fun canonical_order :: "string list \<Rightarrow> bool" where
  \<comment> \<open>\<open>isCanonicalSecurityIntelligenceOrder\<close>\<close>
  "canonical_order (x # y # xs) = (x < y \<and> canonical_order (y # xs))"
| "canonical_order xs = True"

definition evidence_ok :: "boundary_evidence \<Rightarrow> bool" where
  "evidence_ok e = (case be_kind e of
     Source_location \<Rightarrow> be_path e \<noteq> None \<and> be_line e \<noteq> None
   | Application_model_evidence \<Rightarrow> be_path e = None \<and> be_line e = None)"

definition canonical_refs :: "string list \<Rightarrow> bool" where
  "canonical_refs xs = (canonical_order xs \<and> length xs \<le> 500)"

definition canonical_codes :: "string list \<Rightarrow> bool" where
  "canonical_codes xs = (canonical_order xs \<and> length xs \<le> 200)"

definition boundary_ok :: "boundary \<Rightarrow> bool" where
  "boundary_ok b =
     (ab_evidenceRefs b \<noteq> [] \<and> length (ab_evidenceRefs b) \<le> 100 \<and> list_all evidence_ok (ab_evidenceRefs b) \<and> canonical_refs (ab_guardRefs b) \<and> canonical_order (map be_ref (ab_evidenceRefs b)) \<and> canonical_codes (ab_limitationCodes b)
      \<and> (ab_stable b \<longrightarrow> or_else (ab_handlerIdentity b) [] \<noteq> [])
      \<and> (ab_guardState b = Guarded \<longrightarrow> ab_guardRefs b \<noteq> [])
      \<and> (ab_guardState b = Unguarded \<longrightarrow> ab_guardRefs b = [])
      \<and> (ab_guardState b = Guard_unknown \<longrightarrow> ab_limitationCodes b \<noteq> []))"

definition snapshot_ok :: "snapshot \<Rightarrow> bool" where
  "snapshot_ok s =
     (list_all boundary_ok (sn_boundaries s) \<and> length (sn_boundaries s) \<le> 5000 \<and> canonical_order (map ab_boundaryRef (sn_boundaries s))
      \<and> canonical_codes (sn_limitationCodes s)
      \<and> (sn_status s = Analyzer_unavailable \<longrightarrow> sn_boundaries s = [] \<and> sn_limitationCodes s \<noteq> [])
      \<and> (sn_status s = Analyzer_degraded \<longrightarrow> sn_limitationCodes s \<noteq> []))"

section \<open>Changes\<close>

datatype classification = Introduced | Worsened | Unchanged | Resolved | Removed | Coverage_lost | Unknown_change

fun classification_text :: "classification \<Rightarrow> string" where
  "classification_text Introduced = ''introduced''"
| "classification_text Worsened = ''worsened''"
| "classification_text Unchanged = ''unchanged''"
| "classification_text Resolved = ''resolved''"
| "classification_text Removed = ''removed''"
| "classification_text Coverage_lost = ''coverage_lost''"
| "classification_text Unknown_change = ''unknown''"

record change =
  ch_changeRef :: string
  ch_classification :: classification
  ch_framework :: string
  ch_method :: string
  ch_routePattern :: string
  ch_beforeBoundaryRef :: "string option"
  ch_afterBoundaryRef :: "string option"
  ch_beforeGuardState :: "guard_state option"
  ch_afterGuardState :: "guard_state option"
  ch_beforeEvidenceRefs :: "string list"
  ch_afterEvidenceRefs :: "string list"
  ch_limitationCodes :: "string list"

definition change_listed :: "change \<Rightarrow> bool" where
  "change_listed c = (canonical_refs (ch_beforeEvidenceRefs c) \<and> canonical_refs (ch_afterEvidenceRefs c) \<and> canonical_codes (ch_limitationCodes c))"

definition change_shaped :: "change \<Rightarrow> bool" where
  "change_shaped c = (let before = (ch_beforeBoundaryRef c \<noteq> None); after = (ch_afterBoundaryRef c \<noteq> None) in
     (before \<or> after)
     \<and> (ch_classification c = Introduced \<longrightarrow> \<not> before \<and> after \<and> ch_afterGuardState c \<noteq> Some Guard_unknown)
     \<and> (ch_classification c \<in> {Removed, Coverage_lost} \<longrightarrow> before \<and> \<not> after)
     \<and> (ch_classification c \<in> {Worsened, Unchanged, Resolved} \<longrightarrow> before \<and> after)
     \<and> before = (ch_beforeGuardState c \<noteq> None) \<and> after = (ch_afterGuardState c \<noteq> None)
     \<and> (\<not> before \<longrightarrow> ch_beforeEvidenceRefs c = []) \<and> (\<not> after \<longrightarrow> ch_afterEvidenceRefs c = [])
     \<and> (ch_classification c = Worsened \<longrightarrow> ch_beforeGuardState c = Some Guarded \<and> ch_afterGuardState c = Some Unguarded
          \<and> ch_beforeEvidenceRefs c \<noteq> [] \<and> ch_afterEvidenceRefs c \<noteq> [])
     \<and> (ch_classification c = Resolved \<longrightarrow> ch_beforeGuardState c = Some Unguarded \<and> ch_afterGuardState c = Some Guarded)
     \<and> (ch_classification c = Unchanged \<longrightarrow> ch_beforeGuardState c \<noteq> Some Guard_unknown \<and> ch_beforeGuardState c = ch_afterGuardState c)
     \<and> (ch_classification c \<in> {Unknown_change, Coverage_lost} \<longrightarrow> ch_limitationCodes c \<noteq> []))"

definition change_ok :: "change \<Rightarrow> bool" where
  "change_ok c = (change_listed c \<and> change_shaped c)"

definition canonicalStrings :: "string list \<Rightarrow> string list" where
  "canonicalStrings values = sorted_set values"

definition renameKey :: "boundary \<Rightarrow> string option" where
  "renameKey b = (case ab_handlerIdentity b of None \<Rightarrow> None
     | Some h \<Rightarrow> (if h = [] then None else Some (ab_framework b @ '':'' @ h)))"

definition sourceEvidence :: "boundary \<Rightarrow> string list" where
  "sourceEvidence b = canonicalStrings (map be_ref (filter (\<lambda>e. be_kind e = Source_location) (ab_evidenceRefs b)))"

definition nullable_text_value :: "string option \<Rightarrow> jsval" where
  "nullable_text_value x = (case x of None \<Rightarrow> JNull | Some t \<Rightarrow> JStr t)"

definition evidence_of :: "boundary option \<Rightarrow> string list" where
  "evidence_of b = (case b of None \<Rightarrow> [] | Some b \<Rightarrow> sourceEvidence b)"

definition change_for ::
    "(string \<Rightarrow> string) \<Rightarrow> collation \<Rightarrow> classification \<Rightarrow> boundary option \<Rightarrow> boundary option \<Rightarrow> string list \<Rightarrow> change" where
  \<comment> \<open>\<open>change\<close>; one of the boundaries is always given\<close>
  "change_for sha lc cls before after limitations =
     (let r = (case after of Some b \<Rightarrow> b | None \<Rightarrow> the before)
      in \<lparr>ch_changeRef = ''auth-change:v1:'' @ sha (canonicalJson lc (JObj
            [(''classification'', JStr (classification_text cls)),
             (''beforeBoundaryRef'', nullable_text_value (map_option ab_boundaryRef before)),
             (''afterBoundaryRef'', nullable_text_value (map_option ab_boundaryRef after))])),
          ch_classification = cls, ch_framework = ab_framework r, ch_method = ab_method r, ch_routePattern = ab_routePattern r,
          ch_beforeBoundaryRef = map_option ab_boundaryRef before, ch_afterBoundaryRef = map_option ab_boundaryRef after,
          ch_beforeGuardState = map_option ab_guardState before, ch_afterGuardState = map_option ab_guardState after,
          ch_beforeEvidenceRefs = evidence_of before, ch_afterEvidenceRefs = evidence_of after,
          ch_limitationCodes = canonicalStrings limitations\<rparr>)"

section \<open>Comparing\<close>

record comparison =
  cx_comparable :: bool
  cx_limitations :: "string list"

definition comparably_stable :: "comparison \<Rightarrow> boundary \<Rightarrow> boundary \<Rightarrow> bool" where
  "comparably_stable cx b a = (cx_comparable cx \<and> ab_stable b \<and> ab_stable a \<and> ab_supportLevel b = Supported \<and> ab_supportLevel a = Supported)"

definition classify :: "comparison \<Rightarrow> boundary \<Rightarrow> boundary \<Rightarrow> classification" where
  "classify cx b a =
     (if comparably_stable cx b a \<and> sourceEvidence b \<noteq> [] \<and> sourceEvidence a \<noteq> [] \<and> ab_guardState b = Guarded \<and> ab_guardState a = Unguarded
      then Worsened
      else if comparably_stable cx b a \<and> ab_guardState b = Unguarded \<and> ab_guardState a = Guarded then Resolved
      else if comparably_stable cx b a \<and> ab_guardState b = ab_guardState a \<and> ab_guardState b \<noteq> Guard_unknown then Unchanged
      else Unknown_change)"

definition classifyPair :: "(string \<Rightarrow> string) \<Rightarrow> collation \<Rightarrow> comparison \<Rightarrow> boundary \<Rightarrow> boundary \<Rightarrow> change" where
  "classifyPair sha lc cx b a = change_for sha lc (classify cx b a) (Some b) (Some a)
     (if classify cx b a = Unknown_change
      then canonicalStrings (cx_limitations cx @ ab_limitationCodes b @ ab_limitationCodes a
        @ (if sourceEvidence b \<noteq> [] \<and> sourceEvidence a \<noteq> [] then [] else [''authorization_source_evidence_incomplete'']))
      else [])"

record compare_state =
  ct_changes :: "change list"
  ct_consumedBefore :: "string list"
  ct_consumedAfter :: "string list"

definition pair_step ::
    "(string \<Rightarrow> string) \<Rightarrow> collation \<Rightarrow> comparison \<Rightarrow> (string, boundary) jsmap \<Rightarrow> compare_state \<Rightarrow> string \<times> boundary \<Rightarrow> compare_state" where
  "pair_step sha lc cx afterByRef st e = (case jm_get afterByRef (fst e) of None \<Rightarrow> st
     | Some a \<Rightarrow> st\<lparr>ct_changes := ct_changes st @ [classifyPair sha lc cx (snd e) a],
         ct_consumedBefore := ct_consumedBefore st @ [fst e], ct_consumedAfter := ct_consumedAfter st @ [fst e]\<rparr>)"

definition candidates :: "boundary list \<Rightarrow> string \<Rightarrow> boundary list" where
  "candidates bs key = filter (\<lambda>b. renameKey b = Some key) bs"

definition rename_step ::
    "(string \<Rightarrow> string) \<Rightarrow> collation \<Rightarrow> comparison \<Rightarrow> boundary list \<Rightarrow> boundary list \<Rightarrow> compare_state \<Rightarrow> string \<Rightarrow> compare_state" where
  "rename_step sha lc cx unmatchedBefore unmatchedAfter st key =
     (let bc = candidates unmatchedBefore key; ac = candidates unmatchedAfter key
      in if bc = [] \<or> ac = [] then st
         else (let unique = (length bc = 1 \<and> length ac = 1);
                   limits = canonicalStrings (cx_limitations cx @ [if unique then ''authorization_boundary_identity_changed''
                     else ''authorization_boundary_identity_ambiguous''])
           in st\<lparr>ct_changes := ct_changes st
                @ map (\<lambda>b. change_for sha lc Unknown_change (Some b) (if unique then Some (hd ac) else None) limits) bc
                @ (if unique then [] else map (\<lambda>a. change_for sha lc Unknown_change None (Some a) limits) ac),
              ct_consumedBefore := ct_consumedBefore st @ map ab_boundaryRef bc,
              ct_consumedAfter := ct_consumedAfter st @ map ab_boundaryRef ac\<rparr>))"

definition observable :: "comparison \<Rightarrow> boundary \<Rightarrow> bool" where
  "observable cx a = (cx_comparable cx \<and> ab_stable a \<and> ab_supportLevel a = Supported \<and> ab_guardState a \<noteq> Guard_unknown)"

definition removed_change :: "(string \<Rightarrow> string) \<Rightarrow> collation \<Rightarrow> comparison \<Rightarrow> boundary \<Rightarrow> change" where
  "removed_change sha lc cx b = change_for sha lc (if cx_comparable cx then Removed else Unknown_change) (Some b) None
     (if cx_comparable cx then [] else cx_limitations cx)"

definition added_change :: "(string \<Rightarrow> string) \<Rightarrow> collation \<Rightarrow> comparison \<Rightarrow> boundary \<Rightarrow> change" where
  "added_change sha lc cx a = change_for sha lc (if observable cx a then Introduced else Unknown_change) None (Some a)
     (if observable cx a then ab_limitationCodes a
      else canonicalStrings (cx_limitations cx @ ab_limitationCodes a @ [''authorization_introduced_boundary_not_observable'']))"

definition compareBoundaries ::
    "(string \<Rightarrow> string) \<Rightarrow> collation \<Rightarrow> boundary list \<Rightarrow> boundary list \<Rightarrow> comparison \<Rightarrow> change list" where
  "compareBoundaries sha lc before after cx =
     (let beforeByRef = jm_of_list (map (\<lambda>b. (ab_boundaryRef b, b)) before);
          afterByRef = jm_of_list (map (\<lambda>b. (ab_boundaryRef b, b)) after);
          st1 = foldl (pair_step sha lc cx afterByRef) \<lparr>ct_changes = [], ct_consumedBefore = [], ct_consumedAfter = []\<rparr> beforeByRef;
          unmatchedBefore = filter (\<lambda>b. ab_boundaryRef b \<notin> set (ct_consumedBefore st1)) before;
          unmatchedAfter = filter (\<lambda>b. ab_boundaryRef b \<notin> set (ct_consumedAfter st1)) after;
          renameKeys = canonicalStrings (List.map_filter renameKey unmatchedBefore @ List.map_filter renameKey unmatchedAfter);
          st2 = foldl (rename_step sha lc cx unmatchedBefore unmatchedAfter) st1 renameKeys
      in ct_changes st2
         @ map (removed_change sha lc cx) (filter (\<lambda>b. ab_boundaryRef b \<notin> set (ct_consumedBefore st2)) unmatchedBefore)
         @ map (added_change sha lc cx) (filter (\<lambda>b. ab_boundaryRef b \<notin> set (ct_consumedAfter st2)) unmatchedAfter))"

section \<open>The diff\<close>

record authorization_diff =
  ad_projectRef :: string
  ad_beforeVersion :: string
  ad_afterVersion :: string
  ad_status :: analyzer_status
  ad_changes :: "change list"
  ad_limitationCodes :: "string list"

definition diff_ok :: "authorization_diff \<Rightarrow> bool" where
  "diff_ok d =
     (list_all change_ok (ad_changes d) \<and> length (ad_changes d) \<le> 10000 \<and> canonical_order (map ch_changeRef (ad_changes d)) \<and> canonical_codes (ad_limitationCodes d)
      \<and> (ad_status d = Analyzer_ready \<longrightarrow> ad_beforeVersion d = ad_afterVersion d)
      \<and> (ad_status d \<noteq> Analyzer_ready \<longrightarrow> ad_limitationCodes d \<noteq> [] \<and> \<not> list_ex (\<lambda>c. ch_classification c = Worsened) (ad_changes d))
      \<and> (ad_status d = Analyzer_ready \<longrightarrow> \<not> list_ex (\<lambda>c. ch_classification c = Coverage_lost) (ad_changes d)))"

definition both_ready :: "snapshot \<Rightarrow> snapshot \<Rightarrow> bool" where
  "both_ready b a = (sn_status b = Analyzer_ready \<and> sn_status a = Analyzer_ready \<and> sn_version b = sn_version a)"

definition coverage_lost :: "snapshot \<Rightarrow> snapshot \<Rightarrow> bool" where
  "coverage_lost b a = (sn_status b = Analyzer_ready \<and> sn_status a \<noteq> Analyzer_ready)"

definition diff_limitations :: "snapshot \<Rightarrow> snapshot \<Rightarrow> string list" where
  "diff_limitations b a = canonicalStrings (sn_limitationCodes b @ sn_limitationCodes a
     @ (if sn_version b \<noteq> sn_version a then [''authorization_analyzer_contract_changed''] else [])
     @ (if coverage_lost b a then [''authorization_after_coverage_lost''] else []))"

definition diff_changes :: "(string \<Rightarrow> string) \<Rightarrow> collation \<Rightarrow> snapshot \<Rightarrow> snapshot \<Rightarrow> change list" where
  "diff_changes sha lc b a =
     (if coverage_lost b a
      then map (\<lambda>x. change_for sha lc Coverage_lost (Some x) None
             (canonicalStrings (ab_limitationCodes x @ [''authorization_after_coverage_lost'']))) (sn_boundaries b)
      else compareBoundaries sha lc (sn_boundaries b) (sn_boundaries a)
             \<lparr>cx_comparable = both_ready b a, cx_limitations = diff_limitations b a\<rparr>)"

definition diffAuthorizationBoundaries ::
    "(string \<Rightarrow> string) \<Rightarrow> collation \<Rightarrow> snapshot \<Rightarrow> snapshot \<Rightarrow> (string, authorization_diff) result" where
  "diffAuthorizationBoundaries sha lc b a =
     (if sn_projectRef b \<noteq> sn_projectRef a then Inl ''security_intelligence:authorization_diff_project_mismatch''
      else (let d = \<lparr>ad_projectRef = sn_projectRef b, ad_beforeVersion = sn_version b, ad_afterVersion = sn_version a,
                  ad_status = (if sn_status a = Analyzer_unavailable then Analyzer_unavailable
                    else if both_ready b a then Analyzer_ready else Analyzer_degraded),
                  ad_changes = js_sort (\<lambda>l r. code_unit_compare (ch_changeRef l) (ch_changeRef r)) (diff_changes sha lc b a),
                  ad_limitationCodes = diff_limitations b a\<rparr>
            in if diff_ok d then Inr d else Inl ''schema''))"

section \<open>Every boundary once\<close>

definition befores :: "change list \<Rightarrow> string list" where
  "befores cs = List.map_filter ch_beforeBoundaryRef cs"

definition afters :: "change list \<Rightarrow> string list" where
  "afters cs = List.map_filter ch_afterBoundaryRef cs"

lemma change_for_simps [simp]:
  "ch_classification (change_for sha lc cls b a ls) = cls"
  "ch_beforeBoundaryRef (change_for sha lc cls b a ls) = map_option ab_boundaryRef b"
  "ch_afterBoundaryRef (change_for sha lc cls b a ls) = map_option ab_boundaryRef a"
  "ch_beforeGuardState (change_for sha lc cls b a ls) = map_option ab_guardState b"
  "ch_afterGuardState (change_for sha lc cls b a ls) = map_option ab_guardState a"
  "ch_beforeEvidenceRefs (change_for sha lc cls b a ls) = evidence_of b"
  "ch_afterEvidenceRefs (change_for sha lc cls b a ls) = evidence_of a"
  "ch_limitationCodes (change_for sha lc cls b a ls) = canonicalStrings ls"
  by (simp_all add: change_for_def Let_def)

lemma listed_append [simp]:
  "befores (cs @ ds) = befores cs @ befores ds" "afters (cs @ ds) = afters cs @ afters ds" "befores [] = []" "afters [] = []"
  by (simp_all add: befores_def afters_def map_filter_def)

lemma listed_map:
  "(\<And>x. x \<in> set xs \<Longrightarrow> ch_beforeBoundaryRef (f x) = Some (r x)) \<Longrightarrow> befores (map f xs) = map r xs"
  "(\<And>x. x \<in> set xs \<Longrightarrow> ch_beforeBoundaryRef (f x) = None) \<Longrightarrow> befores (map f xs) = []"
  "(\<And>x. x \<in> set xs \<Longrightarrow> ch_afterBoundaryRef (f x) = Some (r x)) \<Longrightarrow> afters (map f xs) = map r xs"
  "(\<And>x. x \<in> set xs \<Longrightarrow> ch_afterBoundaryRef (f x) = None) \<Longrightarrow> afters (map f xs) = []"
  by (induction xs) (auto simp: befores_def afters_def map_filter_def)

lemma mset_listed: "mset cs = mset ds \<Longrightarrow> mset (befores cs) = mset (befores ds) \<and> mset (afters cs) = mset (afters ds)"
  by (simp add: befores_def afters_def map_filter_def)

definition in_common :: "(string, boundary) jsmap \<Rightarrow> (string, boundary) jsmap \<Rightarrow> (string \<times> boundary) list" where
  "in_common afterByRef es = filter (\<lambda>e. jm_get afterByRef (fst e) \<noteq> None) es"

lemma pair_fold:
  "foldl (pair_step sha lc cx m) st es = st\<lparr>
     ct_changes := ct_changes st @ map (\<lambda>e. classifyPair sha lc cx (snd e) (the (jm_get m (fst e)))) (in_common m es),
     ct_consumedBefore := ct_consumedBefore st @ map fst (in_common m es),
     ct_consumedAfter := ct_consumedAfter st @ map fst (in_common m es)\<rparr>"
proof (induction es arbitrary: st)
  case (Cons e es)
  show ?case
  proof (cases "jm_get m (fst e)")
    case None
    then have "pair_step sha lc cx m st e = st" by (simp add: pair_step_def)
    then show ?thesis using None by (simp add: Cons in_common_def)
  next
    case (Some a)
    have "pair_step sha lc cx m st e = st\<lparr>ct_changes := ct_changes st @ [classifyPair sha lc cx (snd e) a],
        ct_consumedBefore := ct_consumedBefore st @ [fst e], ct_consumedAfter := ct_consumedAfter st @ [fst e]\<rparr>"
      by (simp add: pair_step_def Some)
    then show ?thesis using Some by (simp add: Cons in_common_def)
  qed
qed (simp add: in_common_def)

definition matched_keys :: "boundary list \<Rightarrow> boundary list \<Rightarrow> string list \<Rightarrow> string list" where
  "matched_keys ub ua ks = filter (\<lambda>k. candidates ub k \<noteq> [] \<and> candidates ua k \<noteq> []) ks"

definition keyed_refs :: "boundary list \<Rightarrow> string list \<Rightarrow> string list" where
  "keyed_refs us ks = concat (map (\<lambda>k. map ab_boundaryRef (candidates us k)) ks)"

definition extended :: "boundary list \<Rightarrow> boundary list \<Rightarrow> compare_state \<Rightarrow> string list \<Rightarrow> compare_state \<Rightarrow> bool" where
  "extended ub ua st ks st' =
     (befores (ct_changes st') = befores (ct_changes st) @ keyed_refs ub (matched_keys ub ua ks)
      \<and> afters (ct_changes st') = afters (ct_changes st) @ keyed_refs ua (matched_keys ub ua ks)
      \<and> ct_consumedBefore st' = ct_consumedBefore st @ keyed_refs ub (matched_keys ub ua ks)
      \<and> ct_consumedAfter st' = ct_consumedAfter st @ keyed_refs ua (matched_keys ub ua ks))"

lemma rename_step_extends: "extended ub ua st [k] (rename_step sha lc cx ub ua st k)"
proof (cases "candidates ub k = [] \<or> candidates ua k = []")
  case True
  then show ?thesis by (auto simp: extended_def rename_step_def Let_def matched_keys_def keyed_refs_def)
next
  case False
  have one: "afters (map (\<lambda>b. change_for sha lc Unknown_change (Some b) (Some (hd ac)) ls) bc) = map ab_boundaryRef ac"
    if "length bc = 1" "length ac = 1" for bc ac :: "boundary list" and ls
    using that by (cases bc; cases ac) (auto simp: afters_def map_filter_def)
  show ?thesis
  proof (cases "length (candidates ub k) = 1 \<and> length (candidates ua k) = 1")
    case True
    then show ?thesis using False
      by (simp add: extended_def rename_step_def Let_def matched_keys_def keyed_refs_def listed_map(1,2) one del: One_nat_def)
  next
    case many: False
    then show ?thesis using False
      by (simp add: extended_def rename_step_def Let_def matched_keys_def keyed_refs_def listed_map del: One_nat_def)
  qed
qed

lemma extended_trans: "extended ub ua st ks st' \<Longrightarrow> extended ub ua st' js st'' \<Longrightarrow> extended ub ua st (ks @ js) st''"
  by (simp add: extended_def matched_keys_def keyed_refs_def)

lemma rename_fold: "extended ub ua st ks (foldl (rename_step sha lc cx ub ua) st ks)"
proof (induction ks rule: rev_induct)
  case Nil
  show ?case by (simp add: extended_def matched_keys_def keyed_refs_def)
next
  case (snoc k ks)
  show ?case using extended_trans [OF snoc rename_step_extends] by simp
qed

lemma keyed_refs_in: "r \<in> set (keyed_refs us ks) \<longleftrightarrow> (\<exists>b \<in> set us. ab_boundaryRef b = r \<and> (\<exists>k \<in> set ks. renameKey b = Some k))"
  by (auto simp: keyed_refs_def candidates_def)

lemma keyed_refs_distinct:
  assumes "distinct (map ab_boundaryRef us)"
  shows "distinct ks \<Longrightarrow> distinct (keyed_refs us ks)"
proof (induction ks)
  case (Cons k ks)
  have "distinct (map ab_boundaryRef (candidates us k))"
    using assms by (simp add: candidates_def distinct_map_filter)
  moreover have "r \<notin> set (keyed_refs us ks)" if r: "r \<in> set (map ab_boundaryRef (candidates us k))" for r
  proof
    assume "r \<in> set (keyed_refs us ks)"
    then obtain b k' where b: "b \<in> set us" "ab_boundaryRef b = r" "k' \<in> set ks" "renameKey b = Some k'" by (auto simp: keyed_refs_in)
    obtain b' where b': "b' \<in> set us" "ab_boundaryRef b' = r" "renameKey b' = Some k" using r by (auto simp: candidates_def)
    have "b = b'" using assms b(1,2) b'(1,2) by (auto simp: distinct_map inj_on_def)
    then show False using b(3,4) b'(3) Cons.prems by simp
  qed
  ultimately show ?case using Cons by (auto simp: keyed_refs_def)
qed (simp add: keyed_refs_def)

lemma covers_once:
  assumes "distinct (map ab_boundaryRef bs)" and "distinct common" and "set common \<subseteq> ab_boundaryRef ` set bs" and "distinct ks"
    and us_def: "us = filter (\<lambda>b. ab_boundaryRef b \<notin> set common) bs" and xs_def: "xs = common @ keyed_refs us ks"
  shows "distinct (xs @ map ab_boundaryRef (filter (\<lambda>b. ab_boundaryRef b \<notin> set xs) us))
    \<and> set (xs @ map ab_boundaryRef (filter (\<lambda>b. ab_boundaryRef b \<notin> set xs) us)) = ab_boundaryRef ` set bs"
proof -
  have us: "distinct (map ab_boundaryRef us)" using assms(1) by (simp add: us_def distinct_map_filter)
  have keyed: "set (keyed_refs us ks) \<subseteq> ab_boundaryRef ` set us" by (auto simp: keyed_refs_in)
  have apart: "ab_boundaryRef ` set us \<inter> set common = {}" by (auto simp: us_def)
  have d1: "distinct xs" using assms(2) keyed_refs_distinct [OF us assms(4)] keyed apart by (auto simp: xs_def)
  have d2: "distinct (map ab_boundaryRef (filter (\<lambda>b. ab_boundaryRef b \<notin> set xs) us))" using us by (simp add: distinct_map_filter)
  have part1: "set xs \<subseteq> ab_boundaryRef ` set bs" using assms(3) keyed by (auto simp: xs_def us_def)
  have part2: "ab_boundaryRef ` set bs \<subseteq> set (xs @ map ab_boundaryRef (filter (\<lambda>b. ab_boundaryRef b \<notin> set xs) us))"
    by (auto simp: us_def xs_def)
  have part3: "set (map ab_boundaryRef (filter (\<lambda>b. ab_boundaryRef b \<notin> set xs) us)) \<subseteq> ab_boundaryRef ` set bs" by (auto simp: us_def)
  show ?thesis
  proof (intro conjI)
    show "distinct (xs @ map ab_boundaryRef (filter (\<lambda>b. ab_boundaryRef b \<notin> set xs) us))" using d1 d2 by auto
    show "set (xs @ map ab_boundaryRef (filter (\<lambda>b. ab_boundaryRef b \<notin> set xs) us)) = ab_boundaryRef ` set bs"
      using part1 part2 part3 unfolding set_append by blast
  qed
qed

definition by_ref :: "boundary list \<Rightarrow> (string, boundary) jsmap" where
  "by_ref bs = map (\<lambda>b. (ab_boundaryRef b, b)) bs"

lemma by_ref_map: "distinct (map ab_boundaryRef bs) \<Longrightarrow> jm_of_list (map (\<lambda>b. (ab_boundaryRef b, b)) bs) = by_ref bs"
  by (simp add: by_ref_def jm_of_list_fresh comp_def)

lemma by_ref_get: "distinct (map ab_boundaryRef bs) \<Longrightarrow> jm_get (by_ref bs) r = Some b \<longleftrightarrow> b \<in> set bs \<and> ab_boundaryRef b = r"
  by (subst jm_get_iff) (auto simp: by_ref_def jm_inv_def jm_keys_def comp_def)

lemma common_refs:
  assumes "distinct (map ab_boundaryRef before)" and "distinct (map ab_boundaryRef after)"
    and common_def: "common = map fst (in_common (by_ref after) (by_ref before))"
  shows "distinct common" and "set common = ab_boundaryRef ` set before \<inter> ab_boundaryRef ` set after"
proof -
  have "common = filter (\<lambda>r. jm_get (by_ref after) r \<noteq> None) (map ab_boundaryRef before)"
    by (simp add: common_def in_common_def by_ref_def filter_map comp_def)
  moreover have "jm_get (by_ref after) r \<noteq> None \<longleftrightarrow> r \<in> ab_boundaryRef ` set after" for r
    using by_ref_get [OF assms(2)] by (metis image_iff option.exhaust option.distinct(1))
  ultimately show "distinct common" "set common = ab_boundaryRef ` set before \<inter> ab_boundaryRef ` set after"
    using assms(1) by auto
qed

lemma compare_once:
  assumes "distinct (map ab_boundaryRef before)" and "distinct (map ab_boundaryRef after)"
    and cs_def: "cs = compareBoundaries sha lc before after cx"
  shows "distinct (befores cs) \<and> set (befores cs) = ab_boundaryRef ` set before"
    and "distinct (afters cs) \<and> set (afters cs) = ab_boundaryRef ` set after"
proof -
  let ?common = "map fst (in_common (by_ref after) (by_ref before))"
  let ?ub = "filter (\<lambda>b. ab_boundaryRef b \<notin> set ?common) before"
  let ?ua = "filter (\<lambda>b. ab_boundaryRef b \<notin> set ?common) after"
  let ?keys = "canonicalStrings (List.map_filter renameKey ?ub @ List.map_filter renameKey ?ua)"
  let ?ks = "matched_keys ?ub ?ua ?keys"
  let ?xb = "?common @ keyed_refs ?ub ?ks" and ?xa = "?common @ keyed_refs ?ua ?ks"
  have keys: "distinct ?ks" by (simp add: matched_keys_def canonicalStrings_def)
  note common = common_refs [OF assms(1,2) refl]
  have pairs: "befores (map (\<lambda>e. classifyPair sha lc cx (snd e) (the (jm_get (by_ref after) (fst e)))) (in_common (by_ref after) (by_ref before))) = ?common"
    "afters (map (\<lambda>e. classifyPair sha lc cx (snd e) (the (jm_get (by_ref after) (fst e)))) (in_common (by_ref after) (by_ref before))) = ?common"
    using by_ref_get [OF assms(2)]
    by (auto intro!: listed_map simp: classifyPair_def in_common_def by_ref_def)
  have cs: "befores cs = ?xb @ map ab_boundaryRef (filter (\<lambda>b. ab_boundaryRef b \<notin> set ?xb) ?ub)"
    "afters cs = ?xa @ map ab_boundaryRef (filter (\<lambda>b. ab_boundaryRef b \<notin> set ?xa) ?ua)"
    unfolding cs_def compareBoundaries_def Let_def by_ref_map [OF assms(1)] by_ref_map [OF assms(2)] pair_fold
    using rename_fold [of ?ub ?ua] by (simp_all add: extended_def pairs listed_map removed_change_def added_change_def)
  show "distinct (befores cs) \<and> set (befores cs) = ab_boundaryRef ` set before"
    unfolding cs by (rule covers_once [OF assms(1) common(1) _ keys refl refl]) (unfold common(2), blast)
  show "distinct (afters cs) \<and> set (afters cs) = ab_boundaryRef ` set after"
    unfolding cs by (rule covers_once [OF assms(2) common(1) _ keys refl refl]) (unfold common(2), blast)
qed

lemma canonical_order_bound: "canonical_order (x # xs) \<Longrightarrow> y \<in> set xs \<Longrightarrow> x < y"
  by (induction xs arbitrary: x) (auto dest: order_less_trans)

lemma canonical_order_distinct: "canonical_order xs \<Longrightarrow> distinct xs"
proof (induction xs)
  case (Cons x xs)
  then have "canonical_order xs" by (cases xs) auto
  then show ?case using Cons canonical_order_bound [of x xs] by auto
qed simp

lemma diff_cases:
  assumes "diffAuthorizationBoundaries sha lc b a = Inr d"
  shows "diff_ok d" and "mset (ad_changes d) = mset (diff_changes sha lc b a)" and "sn_projectRef b = sn_projectRef a"
    and "ad_status d = (if sn_status a = Analyzer_unavailable then Analyzer_unavailable
      else if both_ready b a then Analyzer_ready else Analyzer_degraded)"
  using assms by (auto simp: diffAuthorizationBoundaries_def Let_def split: if_splits)

text \<open>C19. Nothing is lost and nothing is counted twice: while the analyzer has not lost its coverage, every boundary of the snapshot
  before and every boundary of the snapshot after occurs in exactly one change of the diff, whatever was renamed; and when the
  coverage is lost, every boundary that was known is reported as lost.\<close>

theorem boundaries_accounted:
  assumes "diffAuthorizationBoundaries sha lc b a = Inr d" and "snapshot_ok b" and "snapshot_ok a"
  shows "distinct (befores (ad_changes d)) \<and> set (befores (ad_changes d)) = ab_boundaryRef ` set (sn_boundaries b)
    \<and> (if coverage_lost b a then \<forall>c. c \<notin> set (ad_changes d) \<or> ch_classification c = Coverage_lost
       else distinct (afters (ad_changes d)) \<and> set (afters (ad_changes d)) = ab_boundaryRef ` set (sn_boundaries a))"
proof -
  have refs: "distinct (map ab_boundaryRef (sn_boundaries b))" "distinct (map ab_boundaryRef (sn_boundaries a))"
    using assms(2,3) canonical_order_distinct by (auto simp: snapshot_ok_def)
  note perm = diff_cases(2) [OF assms(1)]
  have same: "distinct (befores (ad_changes d)) = distinct (befores (diff_changes sha lc b a))"
    "set (befores (ad_changes d)) = set (befores (diff_changes sha lc b a))"
    "distinct (afters (ad_changes d)) = distinct (afters (diff_changes sha lc b a))"
    "set (afters (ad_changes d)) = set (afters (diff_changes sha lc b a))"
    "set (ad_changes d) = set (diff_changes sha lc b a)"
    using mset_listed [OF perm] perm by (metis mset_eq_imp_distinct_iff, metis mset_eq_setD, metis mset_eq_imp_distinct_iff,
      metis mset_eq_setD, metis mset_eq_setD)
  show ?thesis
  proof (cases "coverage_lost b a")
    case True
    then show ?thesis using refs(1) by (auto simp: same diff_changes_def listed_map)
  next
    case False
    then show ?thesis unfolding same using compare_once [OF refs refl] by (simp add: diff_changes_def)
  qed
qed

lemma compare_origin:
  assumes "c \<in> set (compareBoundaries sha lc before after cx)" and "distinct (map ab_boundaryRef before)" and "distinct (map ab_boundaryRef after)"
  obtains (pair) x y where "x \<in> set before" "y \<in> set after" "ab_boundaryRef x = ab_boundaryRef y" "c = classifyPair sha lc cx x y"
  | (renamed) x y limits where "c = change_for sha lc Unknown_change x y (canonicalStrings (cx_limitations cx @ [limits]))" "x \<noteq> None \<or> y \<noteq> None"
      "set_option x \<subseteq> set before" "set_option y \<subseteq> set after"
  | (gone) x where "x \<in> set before" "c = removed_change sha lc cx x"
  | (added) y where "y \<in> set after" "c = added_change sha lc cx y"
proof -
  define renamed_changes where "renamed_changes = {c. \<exists>x y l. c = change_for sha lc Unknown_change x y (canonicalStrings (cx_limitations cx @ [l])) \<and> (x \<noteq> None \<or> y \<noteq> None)
      \<and> set_option x \<subseteq> set before \<and> set_option y \<subseteq> set after}"
  have member: "change_for sha lc Unknown_change x y (canonicalStrings (cx_limitations cx @ [l])) \<in> renamed_changes"
    if "x \<noteq> None \<or> y \<noteq> None" "set_option x \<subseteq> set before" "set_option y \<subseteq> set after" for x y l
    using that unfolding renamed_changes_def by blast
  have step: "set (ct_changes (rename_step sha lc cx ub ua st k)) \<subseteq> set (ct_changes st) \<union> renamed_changes"
    if "set ub \<subseteq> set before" "set ua \<subseteq> set after" for ub ua st k
  proof -
    have c: "\<And>x. x \<in> set (candidates ub k) \<Longrightarrow> x \<in> set before" "\<And>x. x \<in> set (candidates ua k) \<Longrightarrow> x \<in> set after"
      using that by (auto simp: candidates_def)
    have "hd (candidates ua k) \<in> set after" if "candidates ua k \<noteq> []" using c(2) hd_in_set [OF that] .
    then show ?thesis using c by (auto simp: rename_step_def Let_def intro!: member)
  qed
  have fold: "set (ct_changes (foldl (rename_step sha lc cx ub ua) st ks)) \<subseteq> set (ct_changes st) \<union> renamed_changes"
    if "set ub \<subseteq> set before" "set ua \<subseteq> set after" for ub ua st ks
  proof (induction ks arbitrary: st)
    case (Cons k ks)
    show ?case using Cons [of "rename_step sha lc cx ub ua st k"] step [OF that, of st k] unfolding foldl.simps by blast
  qed simp
  define st where "st = foldl (pair_step sha lc cx (by_ref after)) \<lparr>ct_changes = [], ct_consumedBefore = [], ct_consumedAfter = []\<rparr> (by_ref before)"
  let ?ub = "filter (\<lambda>b. ab_boundaryRef b \<notin> set (ct_consumedBefore st)) before"
  let ?ua = "filter (\<lambda>b. ab_boundaryRef b \<notin> set (ct_consumedAfter st)) after"
  let ?ks = "canonicalStrings (List.map_filter renameKey ?ub @ List.map_filter renameKey ?ua)"
  have "c \<in> set (ct_changes (foldl (rename_step sha lc cx ?ub ?ua) st ?ks))
      \<or> c \<in> removed_change sha lc cx ` set before \<or> c \<in> added_change sha lc cx ` set after"
    using assms(1) unfolding compareBoundaries_def Let_def by_ref_map [OF assms(2)] by_ref_map [OF assms(3)] st_def [symmetric]
    by auto
  then have "c \<in> set (ct_changes st) \<or> c \<in> renamed_changes
      \<or> c \<in> removed_change sha lc cx ` set before \<or> c \<in> added_change sha lc cx ` set after"
    using fold [OF filter_is_subset filter_is_subset] by blast
  moreover have thesis if st: "c \<in> set (ct_changes st)"
  proof -
    obtain e where e: "e \<in> set (by_ref before)" "jm_get (by_ref after) (fst e) \<noteq> None"
      "c = classifyPair sha lc cx (snd e) (the (jm_get (by_ref after) (fst e)))"
      using st by (auto simp: st_def pair_fold in_common_def)
    obtain y where y: "jm_get (by_ref after) (fst e) = Some y" using e(2) by blast
    have "y \<in> set after" "ab_boundaryRef y = fst e" using by_ref_get [OF assms(3)] y by auto
    moreover have "snd e \<in> set before" "ab_boundaryRef (snd e) = fst e" using e(1) by (auto simp: by_ref_def)
    ultimately show thesis using pair [of "snd e" y] e(3) y by simp
  qed
  ultimately show thesis using renamed gone added unfolding renamed_changes_def by blast
qed

text \<open>C28. A worsened boundary is real: a change is reported as worsened only if both snapshots come from ready analyzers of the same
  version and both hold this boundary, under a stable identity and in a supported framework, guarded before and unguarded
  after, with a source location as evidence on both sides.\<close>

theorem worsened_grounded:
  assumes "diffAuthorizationBoundaries sha lc b a = Inr d" and "snapshot_ok b" and "snapshot_ok a"
    and "c \<in> set (ad_changes d)" and "ch_classification c = Worsened"
  shows "both_ready b a \<and> ad_status d = Analyzer_ready
    \<and> (\<exists>x y. x \<in> set (sn_boundaries b) \<and> y \<in> set (sn_boundaries a)
        \<and> ch_beforeBoundaryRef c = Some (ab_boundaryRef x) \<and> ch_afterBoundaryRef c = Some (ab_boundaryRef y) \<and> ab_boundaryRef x = ab_boundaryRef y
        \<and> ab_stable x \<and> ab_stable y \<and> ab_supportLevel x = Supported \<and> ab_supportLevel y = Supported
        \<and> ab_guardState x = Guarded \<and> ab_guardState y = Unguarded \<and> sourceEvidence x \<noteq> [] \<and> sourceEvidence y \<noteq> [])"
proof -
  have refs: "distinct (map ab_boundaryRef (sn_boundaries b))" "distinct (map ab_boundaryRef (sn_boundaries a))"
    using assms(2,3) canonical_order_distinct by (auto simp: snapshot_ok_def)
  have c: "c \<in> set (diff_changes sha lc b a)" using assms(4) diff_cases(2) [OF assms(1)] by (metis mset_eq_setD)
  have kept: "\<not> coverage_lost b a" using c assms(5) by (auto simp: diff_changes_def)
  let ?cx = "\<lparr>cx_comparable = both_ready b a, cx_limitations = diff_limitations b a\<rparr>"
  have "c \<in> set (compareBoundaries sha lc (sn_boundaries b) (sn_boundaries a) ?cx)" using c kept by (simp add: diff_changes_def)
  then show ?thesis
  proof (rule compare_origin [OF _ refs])
    fix x y
    assume xy: "x \<in> set (sn_boundaries b)" "y \<in> set (sn_boundaries a)" "ab_boundaryRef x = ab_boundaryRef y" "c = classifyPair sha lc ?cx x y"
    have "classify ?cx x y = Worsened" using assms(5) xy(4) by (simp add: classifyPair_def)
    then have w: "comparably_stable ?cx x y" "sourceEvidence x \<noteq> []" "sourceEvidence y \<noteq> []" "ab_guardState x = Guarded" "ab_guardState y = Unguarded"
      by (auto simp: classify_def split: if_splits)
    have ready: "both_ready b a" using w(1) by (simp add: comparably_stable_def)
    then have "ad_status d = Analyzer_ready" using diff_cases(4) [OF assms(1)] by (simp add: both_ready_def)
    moreover have "ch_beforeBoundaryRef c = Some (ab_boundaryRef x)" "ch_afterBoundaryRef c = Some (ab_boundaryRef y)"
      using xy(4) by (simp_all add: classifyPair_def)
    ultimately show ?thesis using ready w xy(1-3) unfolding comparably_stable_def by blast
  qed (use assms(5) in \<open>auto simp: removed_change_def added_change_def split: if_splits\<close>)
qed

lemma canonical_order_sorted:
  "sorted_wrt (\<lambda>x y. code_unit_compare x y \<le> 0) xs \<Longrightarrow> distinct xs \<Longrightarrow> canonical_order xs"
  by (induction xs rule: canonical_order.induct) (auto simp: code_unit_compare_def split: if_splits)

lemma canonicalStrings_order [simp]: "canonical_order (canonicalStrings xs)"
  by (rule canonical_order_sorted) (simp_all add: canonicalStrings_def sorted_set_def sort_strings_def code_unit.sorted_js_sort)

definition explained :: "boundary \<Rightarrow> bool" where
  "explained b = (ab_stable b \<and> ab_supportLevel b = Supported \<or> ab_limitationCodes b \<noteq> [])"

lemma canonicalStrings_Nil [simp]: "canonicalStrings xs = [] \<longleftrightarrow> xs = []"
  by (simp add: canonicalStrings_def)

lemma evidence_simps [simp]: "evidence_of None = []" "evidence_of (Some b) = sourceEvidence b"
  by (simp_all add: evidence_of_def)

lemma change_for_shaped:
  assumes "cls = Unknown_change" "x \<noteq> None \<or> y \<noteq> None" "ls \<noteq> []"
  shows "change_shaped (change_for sha lc cls x y ls)"
  using assms by (cases x; cases y) (auto simp: change_shaped_def Let_def)

lemma limitations_given:
  assumes "snapshot_ok b" and "snapshot_ok a" and "\<not> both_ready b a"
  shows "diff_limitations b a \<noteq> []"
  using assms by (cases "sn_status b"; cases "sn_status a") (auto simp: diff_limitations_def both_ready_def snapshot_ok_def)

lemma classify_shaped:
  assumes "boundary_ok x" "boundary_ok y" "explained x" "explained y" "cx_comparable cx \<or> cx_limitations cx \<noteq> []"
  shows "change_shaped (classifyPair sha lc cx x y)"
proof (cases "classify cx x y = Unknown_change")
  case True
  have "cx_limitations cx @ ab_limitationCodes x @ ab_limitationCodes y
      @ (if sourceEvidence x \<noteq> [] \<and> sourceEvidence y \<noteq> [] then [] else [''authorization_source_evidence_incomplete'']) \<noteq> []"
  proof (rule ccontr)
    assume "\<not> ?thesis"
    then have none: "cx_limitations cx = []" "ab_limitationCodes x = []" "ab_limitationCodes y = []"
      "sourceEvidence x \<noteq> []" "sourceEvidence y \<noteq> []" by (auto split: if_splits)
    have "comparably_stable cx x y" using assms(3-5) none by (auto simp: comparably_stable_def explained_def)
    moreover have "ab_guardState x \<noteq> Guard_unknown" "ab_guardState y \<noteq> Guard_unknown" using assms(1,2) none by (auto simp: boundary_ok_def)
    ultimately show False using True none(4,5) by (cases "ab_guardState x"; cases "ab_guardState y") (auto simp: classify_def)
  qed
  then show ?thesis unfolding classifyPair_def True by (intro change_for_shaped) simp_all
next
  case False
  then have "classify cx x y \<in> {Worsened, Resolved, Unchanged}" by (auto simp: classify_def split: if_splits)
  then show ?thesis
    by (auto simp: classifyPair_def change_shaped_def Let_def) (auto simp: classify_def split: if_splits)
qed

lemma diff_changes_shaped:
  assumes "snapshot_ok b" and "snapshot_ok a" and "list_all explained (sn_boundaries b)" and "list_all explained (sn_boundaries a)"
    and "c \<in> set (diff_changes sha lc b a)"
  shows "change_shaped c"
proof (cases "coverage_lost b a")
  case True
  then show ?thesis using assms(5) by (auto simp: diff_changes_def change_shaped_def Let_def)
next
  case False
  let ?cx = "\<lparr>cx_comparable = both_ready b a, cx_limitations = diff_limitations b a\<rparr>"
  have refs: "distinct (map ab_boundaryRef (sn_boundaries b))" "distinct (map ab_boundaryRef (sn_boundaries a))"
    using assms(1,2) canonical_order_distinct by (auto simp: snapshot_ok_def)
  have limits: "cx_comparable ?cx \<or> cx_limitations ?cx \<noteq> []" using limitations_given [OF assms(1,2)] by auto
  have "c \<in> set (compareBoundaries sha lc (sn_boundaries b) (sn_boundaries a) ?cx)" using assms(5) False by (simp add: diff_changes_def)
  then show ?thesis
  proof (rule compare_origin [OF _ refs])
    fix x y
    assume "x \<in> set (sn_boundaries b)" "y \<in> set (sn_boundaries a)" "c = classifyPair sha lc ?cx x y"
    then show ?thesis using classify_shaped [OF _ _ _ _ limits] assms(1-4) by (auto simp: snapshot_ok_def list_all_iff)
  next
    fix x y l
    assume "c = change_for sha lc Unknown_change x y (canonicalStrings (cx_limitations ?cx @ [l]))" "x \<noteq> None \<or> y \<noteq> None"
    then show ?thesis using change_for_shaped by simp
  next
    fix x
    assume "c = removed_change sha lc ?cx x"
    then show ?thesis using limits by (auto simp: removed_change_def change_shaped_def Let_def)
  next
    fix y
    assume "c = added_change sha lc ?cx y"
    then show ?thesis by (auto simp: added_change_def change_shaped_def Let_def observable_def)
  qed
qed

lemma sourceEvidence_refs:
  assumes "boundary_ok x"
  shows "canonical_refs (sourceEvidence x)"
proof -
  have "length (sourceEvidence x) = card (set (map be_ref (filter (\<lambda>e. be_kind e = Source_location) (ab_evidenceRefs x))))"
    using distinct_card [of "sourceEvidence x"] by (simp add: sourceEvidence_def canonicalStrings_def)
  also have "\<dots> \<le> length (ab_evidenceRefs x)"
    using card_length [of "map be_ref (filter (\<lambda>e. be_kind e = Source_location) (ab_evidenceRefs x))"] by (metis length_filter_le length_map order_trans)
  finally show ?thesis using assms by (simp add: canonical_refs_def boundary_ok_def sourceEvidence_def)
qed

lemma change_origin:
  assumes "snapshot_ok b" and "snapshot_ok a" and "c \<in> set (diff_changes sha lc b a)"
  obtains cls x y ls where "c = change_for sha lc cls x y ls" "x \<noteq> None \<or> y \<noteq> None"
    "set_option x \<subseteq> set (sn_boundaries b)" "set_option y \<subseteq> set (sn_boundaries a)"
proof (cases "coverage_lost b a")
  case True
  then show ?thesis using assms(3) that by (fastforce simp: diff_changes_def)
next
  case False
  let ?cx = "\<lparr>cx_comparable = both_ready b a, cx_limitations = diff_limitations b a\<rparr>"
  have refs: "distinct (map ab_boundaryRef (sn_boundaries b))" "distinct (map ab_boundaryRef (sn_boundaries a))"
    using assms(1,2) canonical_order_distinct by (auto simp: snapshot_ok_def)
  have "c \<in> set (compareBoundaries sha lc (sn_boundaries b) (sn_boundaries a) ?cx)" using assms(3) False by (simp add: diff_changes_def)
  then show ?thesis
  proof (rule compare_origin [OF _ refs])
    fix x y
    assume "x \<in> set (sn_boundaries b)" "y \<in> set (sn_boundaries a)" "c = classifyPair sha lc ?cx x y"
    then show ?thesis using that [of _ "Some x" "Some y"] unfolding classifyPair_def by simp
  next
    fix x
    assume "x \<in> set (sn_boundaries b)" "c = removed_change sha lc ?cx x"
    then show ?thesis using that [of _ "Some x" None] unfolding removed_change_def by simp
  next
    fix y
    assume "y \<in> set (sn_boundaries a)" "c = added_change sha lc ?cx y"
    then show ?thesis using that [of _ None "Some y"] unfolding added_change_def by simp
  qed (use that in blast)
qed

lemma diff_changes_listed:
  assumes "snapshot_ok b" and "snapshot_ok a" and "c \<in> set (diff_changes sha lc b a)" and "length (ch_limitationCodes c) \<le> 200"
  shows "change_listed c"
proof -
  obtain cls x y ls where c: "c = change_for sha lc cls x y ls"
    and xy: "set_option x \<subseteq> set (sn_boundaries b)" "set_option y \<subseteq> set (sn_boundaries a)"
    using change_origin [OF assms(1-3)] by metis
  have "canonical_refs (evidence_of z)" if "set_option z \<subseteq> set (sn_boundaries s)" "snapshot_ok s" for z s
    using that sourceEvidence_refs by (cases z) (auto simp: canonical_refs_def snapshot_ok_def list_all_iff)
  then show ?thesis using c xy assms(1,2,4) by (simp add: change_listed_def canonical_codes_def)
qed

lemma listed_both: "(\<And>c. c \<in> set cs \<Longrightarrow> ch_beforeBoundaryRef c \<noteq> None \<or> ch_afterBoundaryRef c \<noteq> None)
    \<Longrightarrow> length cs \<le> length (befores cs) + length (afters cs)"
proof (induction cs)
  case (Cons c cs)
  then have "length cs \<le> length (befores cs) + length (afters cs)" "ch_beforeBoundaryRef c \<noteq> None \<or> ch_afterBoundaryRef c \<noteq> None" by auto
  then show ?case by (auto simp: befores_def afters_def map_filter_def)
qed simp

lemma diff_changes_bounded:
  assumes "snapshot_ok b" and "snapshot_ok a"
  shows "length (diff_changes sha lc b a) \<le> 10000"
proof (cases "coverage_lost b a")
  case True
  then show ?thesis using assms(1) by (simp add: diff_changes_def snapshot_ok_def)
next
  case False
  let ?cs = "diff_changes sha lc b a"
  have refs: "distinct (map ab_boundaryRef (sn_boundaries b))" "distinct (map ab_boundaryRef (sn_boundaries a))"
    using assms canonical_order_distinct by (auto simp: snapshot_ok_def)
  note once = compare_once [OF refs refl, of sha lc "\<lparr>cx_comparable = both_ready b a, cx_limitations = diff_limitations b a\<rparr>"]
  have "length (befores ?cs) \<le> length (sn_boundaries b)" "length (afters ?cs) \<le> length (sn_boundaries a)"
    using once False by (simp_all add: diff_changes_def) (metis card_length distinct_card length_map list.set_map)+
  moreover have "length ?cs \<le> length (befores ?cs) + length (afters ?cs)"
    by (rule listed_both) (use change_origin [OF assms] in \<open>metis change_for_simps(2,3) option.map_disc_iff\<close>)
  ultimately show ?thesis using assms by (simp add: snapshot_ok_def)
qed

lemma sorted_changes_order:
  assumes "distinct (map ch_changeRef cs)"
  shows "canonical_order (map ch_changeRef (js_sort (\<lambda>l r. code_unit_compare (ch_changeRef l) (ch_changeRef r)) cs))" (is "canonical_order (map _ ?s)")
proof (rule canonical_order_sorted)
  have "comparator (\<lambda>l r. code_unit_compare (ch_changeRef l) (ch_changeRef r))" by (rule comparator_on) (rule code_unit.comparator_axioms)
  from comparator.sorted_js_sort [OF this] show "sorted_wrt (\<lambda>x y. code_unit_compare x y \<le> 0) (map ch_changeRef ?s)"
    by (simp add: sorted_wrt_map)
  have "mset (map ch_changeRef ?s) = mset (map ch_changeRef cs)" by simp
  then show "distinct (map ch_changeRef ?s)" using assms by (metis mset_eq_imp_distinct_iff)
qed

lemma compare_classes:
  assumes "snapshot_ok b" and "snapshot_ok a" and "c \<in> set (diff_changes sha lc b a)"
  shows "ch_classification c = Worsened \<Longrightarrow> both_ready b a" and "ch_classification c = Coverage_lost \<Longrightarrow> coverage_lost b a"
proof -
  let ?cx = "\<lparr>cx_comparable = both_ready b a, cx_limitations = diff_limitations b a\<rparr>"
  have refs: "distinct (map ab_boundaryRef (sn_boundaries b))" "distinct (map ab_boundaryRef (sn_boundaries a))"
    using assms(1,2) canonical_order_distinct by (auto simp: snapshot_ok_def)
  have "(ch_classification c = Worsened \<longrightarrow> both_ready b a) \<and> ch_classification c \<noteq> Coverage_lost" if "\<not> coverage_lost b a"
  proof -
    have "c \<in> set (compareBoundaries sha lc (sn_boundaries b) (sn_boundaries a) ?cx)" using assms(3) that by (simp add: diff_changes_def)
    then show ?thesis
      by (rule compare_origin [OF _ refs])
        (auto simp: classifyPair_def classify_def comparably_stable_def removed_change_def added_change_def split: if_splits)
  qed
  then show "ch_classification c = Worsened \<Longrightarrow> both_ready b a" and "ch_classification c = Coverage_lost \<Longrightarrow> coverage_lost b a"
    using assms(3) by (auto simp: diff_changes_def split: if_splits)
qed

lemma diff_made_if:
  assumes "snapshot_ok b" and "snapshot_ok a" and "sn_projectRef b = sn_projectRef a"
    and "list_all explained (sn_boundaries b)" and "list_all explained (sn_boundaries a)"
    and "distinct (map ch_changeRef (diff_changes sha lc b a))"
    and "length (diff_limitations b a) \<le> 200" and "\<forall>c \<in> set (diff_changes sha lc b a). length (ch_limitationCodes c) \<le> 200"
  shows "\<exists>d. diffAuthorizationBoundaries sha lc b a = Inr d"
proof -
  let ?cs = "js_sort (\<lambda>l r. code_unit_compare (ch_changeRef l) (ch_changeRef r)) (diff_changes sha lc b a)"
  let ?status = "if sn_status a = Analyzer_unavailable then Analyzer_unavailable else if both_ready b a then Analyzer_ready else Analyzer_degraded"
  have ready: "?status = Analyzer_ready \<longleftrightarrow> both_ready b a" by (auto simp: both_ready_def)
  have changes: "list_all change_ok ?cs" "length ?cs \<le> 10000"
    using diff_changes_shaped [OF assms(1,2,4,5)] diff_changes_listed [OF assms(1,2)] diff_changes_bounded [OF assms(1,2)] assms(8)
    by (simp_all add: list_all_iff change_ok_def)
  note classes = compare_classes [OF assms(1,2)]
  have worsened: "\<not> list_ex (\<lambda>c. ch_classification c = Worsened) ?cs" if "\<not> both_ready b a"
    using classes(1) that by (auto simp: list_ex_iff)
  have lost: "\<not> list_ex (\<lambda>c. ch_classification c = Coverage_lost) ?cs" if "both_ready b a"
    using classes(2) that by (auto simp: list_ex_iff coverage_lost_def both_ready_def)
  have "diff_ok \<lparr>ad_projectRef = sn_projectRef b, ad_beforeVersion = sn_version b, ad_afterVersion = sn_version a, ad_status = ?status,
      ad_changes = ?cs, ad_limitationCodes = diff_limitations b a\<rparr>"
    unfolding diff_ok_def authorization_diff.simps ready
    using changes sorted_changes_order [OF assms(6)] worsened lost limitations_given [OF assms(1,2)]
    assms(7)
    by (simp add: diff_limitations_def both_ready_def canonical_codes_def)
  then show ?thesis unfolding diffAuthorizationBoundaries_def Let_def using assms(3) by (simp only: if_True simp_thms) simp
qed

text \<open>No diff of explained snapshots is refused: when every boundary whose identity is not stable or whose framework is not supported
  carries a limitation, as the projector makes them, the references of the changes are distinct and no more than 200 reasons
  come together in one list, the diff satisfies every rule of its schema; the number of its changes and of their pieces
  of evidence never exceeds what the schema allows.\<close>

theorem diff_accepted:
  assumes "snapshot_ok b" and "snapshot_ok a" and "sn_projectRef b = sn_projectRef a"
    and "list_all explained (sn_boundaries b)" and "list_all explained (sn_boundaries a)"
    and "distinct (map ch_changeRef (diff_changes sha lc b a))"
    and "length (diff_limitations b a) \<le> 200" and "\<forall>c \<in> set (diff_changes sha lc b a). length (ch_limitationCodes c) \<le> 200"
  shows "\<exists>d. diffAuthorizationBoundaries sha lc b a = Inr d"
  by (rule diff_made_if [OF assms])

section \<open>An example\<close>

definition sample_boundary :: "string \<Rightarrow> guard_state \<Rightarrow> boundary" where
  "sample_boundary r g = \<lparr>ab_boundaryRef = r, ab_framework = ''hono'', ab_supportLevel = Supported, ab_method = ''GET'', ab_routePattern = ''/a'',
     ab_handlerIdentity = Some ''h'', ab_stable = True, ab_guardState = g, ab_guardRefs = (if g = Guarded then [''auth''] else []),
     ab_evidenceRefs = [\<lparr>be_ref = ''e1'', be_kind = Source_location, be_path = Some ''a.ts'', be_line = Some 1\<rparr>], ab_limitationCodes = []\<rparr>"

definition sample_snapshot :: "boundary list \<Rightarrow> snapshot" where
  "sample_snapshot bs = \<lparr>sn_projectRef = ''p'', sn_version = ''1'', sn_status = Analyzer_ready, sn_boundaries = bs, sn_limitationCodes = []\<rparr>"

definition sample_before :: snapshot where
  "sample_before = sample_snapshot [sample_boundary ''r1'' Guarded]"

definition sample_after :: snapshot where
  "sample_after = sample_snapshot [sample_boundary ''r1'' Unguarded]"

lemma sample_snapshots_ok: "snapshot_ok sample_before" "snapshot_ok sample_after" "sn_projectRef sample_before = sn_projectRef sample_after"
  "list_all explained (sn_boundaries sample_before)" "list_all explained (sn_boundaries sample_after)"
  by code_simp+

lemma sample_changes:
  "map ch_classification (diff_changes (\<lambda>t. t) code_unit_compare sample_before sample_after) = [Worsened]"
  by code_simp

lemma sample_refs: "distinct (map ch_changeRef (diff_changes (\<lambda>t. t) code_unit_compare sample_before sample_after))"
  using sample_changes by (cases "diff_changes (\<lambda>t. t) code_unit_compare sample_before sample_after") auto

lemma sample_limits: "length (diff_limitations sample_before sample_after) \<le> 200"
  "\<forall>c \<in> set (diff_changes (\<lambda>t. t) code_unit_compare sample_before sample_after). length (ch_limitationCodes c) \<le> 200"
  by code_simp+

lemma diff_made: "\<exists>d. diffAuthorizationBoundaries (\<lambda>t. t) code_unit_compare sample_before sample_after = Inr d"
  by (rule diff_made_if [OF sample_snapshots_ok sample_refs sample_limits])

lemma boundaries_accounted_witness:
  "\<exists>d. diffAuthorizationBoundaries (\<lambda>t. t) code_unit_compare sample_before sample_after = Inr d
     \<and> set (befores (ad_changes d)) = {''r1''}"
proof -
  obtain d where d: "diffAuthorizationBoundaries (\<lambda>t. t) code_unit_compare sample_before sample_after = Inr d"
    using diff_made by blast
  show ?thesis
    using boundaries_accounted [OF d sample_snapshots_ok(1,2)] d
    by (auto simp: sample_before_def sample_snapshot_def sample_boundary_def)
qed

lemma worsened_grounded_witness: "both_ready sample_before sample_after"
proof -
  obtain d where d: "diffAuthorizationBoundaries (\<lambda>t. t) code_unit_compare sample_before sample_after = Inr d"
    using diff_made by blast
  obtain c where "c \<in> set (diff_changes (\<lambda>t. t) code_unit_compare sample_before sample_after)" "ch_classification c = Worsened"
    using sample_changes by (cases "diff_changes (\<lambda>t. t) code_unit_compare sample_before sample_after") auto
  moreover have "set (ad_changes d) = set (diff_changes (\<lambda>t. t) code_unit_compare sample_before sample_after)"
    using diff_cases(2) [OF d] by (metis mset_eq_setD)
  ultimately show ?thesis using worsened_grounded [OF d sample_snapshots_ok(1,2)] by blast
qed

lemma diff_accepted_witness: "\<exists>d. diffAuthorizationBoundaries (\<lambda>t. t) code_unit_compare sample_before sample_after = Inr d"
  by (rule diff_accepted [OF sample_snapshots_ok sample_refs sample_limits])

end
