(* ===== verification/TargetScope.thy ===== *)
theory TargetScope
  imports PathPatterns
begin

text \<open>
  The scope of a scan (\<open>api/modules/scans/target-scope.ts\<close>): which files of a repository a profile sees. A directory
  is a tree of entries; the copy into a scan workspace and the digest of the scope walk over it. Reading and
  writing files, the resolution of links and the hash are arguments or left out; an entry is a file with its content, a
  directory, a link, or something else. Theorems: the two walks see the same files, they see exactly the files in
  scope when the exclusions name whole trees, and the mandatory exclusions cannot be taken back.
\<close>

section \<open>Scopes\<close>

datatype scope_intent = Source_intent | Dependency_manifest | Artifact | Full_deep

record scan_scope =
  sc_intent :: scope_intent
  sc_includeGlobs :: "string list"
  sc_excludeGlobs :: "string list"
  sc_includeGenerated :: bool
  sc_includeInstalledDependencies :: bool
  sc_includeVendoredDependencies :: bool

definition always_excluded_globs :: "string list" where
  "always_excluded_globs = [''.git/**'', ''artifacts/**'']"

definition default_source_scope :: scan_scope where
  "default_source_scope = \<lparr>sc_intent = Source_intent, sc_includeGlobs = [''**/*''],
     sc_excludeGlobs = [''node_modules/**'', ''dist/**'', ''dist-web/**'', ''build/**'', ''coverage/**'', ''artifacts/**''],
     sc_includeGenerated = False, sc_includeInstalledDependencies = False, sc_includeVendoredDependencies = False\<rparr>"

definition dedupeStrings :: "string list \<Rightarrow> string list" where
  "dedupeStrings values = filter (\<lambda>v. v \<noteq> []) (js_uniq values)"

definition withMandatoryExcludes :: "scan_scope option \<Rightarrow> scan_scope" where
  "withMandatoryExcludes scope = (let base = or_else scope default_source_scope
     in base\<lparr>sc_includeGlobs := dedupeStrings (sc_includeGlobs base),
             sc_excludeGlobs := dedupeStrings (sc_excludeGlobs base @ always_excluded_globs)\<rparr>)"

definition toPosixPath :: "string \<Rightarrow> string" where
  "toPosixPath value =
     (let s = replace_char (CHR 0x5C) (CHR ''/'') value;
          t = (if starts_with s ''./'' then drop 2 s else s)
      in if ends_with t ''/'' then butlast t else t)"

definition matchesAnyGlob :: "string \<Rightarrow> string list \<Rightarrow> bool" where
  "matchesAnyGlob relativePath globs = list_ex (matchesPluginGlob relativePath) globs"

definition matchesScopePath :: "string \<Rightarrow> scan_scope option \<Rightarrow> bool" where
  "matchesScopePath relativePath scope =
     (let s = withMandatoryExcludes scope; p = toPosixPath relativePath
      in if matchesAnyGlob p (sc_excludeGlobs s) then False
         else if sc_includeGlobs s = [] then True
         else matchesAnyGlob p (sc_includeGlobs s))"

definition rootFromGlob :: "string \<Rightarrow> string" where
  "rootFromGlob glob = (let first = hd (split_at (CHR ''/'') (toPosixPath glob))
     in if first = [] \<or> first = ''**'' then [] else first)"

definition roots :: "string list \<Rightarrow> string list" where
  "roots globs = filter (\<lambda>r. r \<noteq> []) (map rootFromGlob globs)"

definition getScopeExcludeGlobs :: "scan_scope option \<Rightarrow> string list" where
  "getScopeExcludeGlobs scope = sc_excludeGlobs (withMandatoryExcludes scope)"

definition getScopeIncludeGlobs :: "scan_scope option \<Rightarrow> string list" where
  "getScopeIncludeGlobs scope = sc_includeGlobs (withMandatoryExcludes scope)"

definition has_extension :: "string \<Rightarrow> bool" where
  \<comment> \<open>\<open>path.extname\<close> of a name without a slash is not empty\<close>
  "has_extension name = (CHR ''.'' \<in> set (tl name) \<and> name \<noteq> ''..'')"

definition getScopeSkipDirs :: "scan_scope option \<Rightarrow> string list" where
  "getScopeSkipDirs scope =
     sort_strings (filter (\<lambda>r. CHR ''*'' \<notin> set r \<and> \<not> has_extension r) (roots (sc_excludeGlobs (withMandatoryExcludes scope))))"

section \<open>The roots of a scope\<close>

datatype entry =
    File string string
  | Dir string "entry list"
  | Link string
  | Special string

fun entry_name :: "entry \<Rightarrow> string" where
  "entry_name (File n c) = n"
| "entry_name (Dir n es) = n"
| "entry_name (Link n) = n"
| "entry_name (Special n) = n"

fun is_dir :: "entry \<Rightarrow> bool" where
  "is_dir (Dir n es) = True"
| "is_dir _ = False"

fun is_link :: "entry \<Rightarrow> bool" where
  "is_link (Link n) = True"
| "is_link _ = False"

record root_sets =
  rs_included :: "string list"
  rs_excluded :: "string list"
  rs_escapes :: "string list"

definition root_step :: "(string \<Rightarrow> bool) \<Rightarrow> scan_scope \<Rightarrow> root_sets \<Rightarrow> entry \<Rightarrow> root_sets" where
  \<comment> \<open>one top level entry; \<open>inside\<close> tells whether a link resolves to a path in the repository\<close>
  "root_step inside scope st e = (let p = toPosixPath (entry_name e) in
     if is_link e \<and> \<not> inside (entry_name e)
     then st\<lparr>rs_excluded := rs_excluded st @ [p], rs_escapes := rs_escapes st @ [p]\<rparr>
     else if matchesAnyGlob p (sc_excludeGlobs scope) then st\<lparr>rs_excluded := rs_excluded st @ [p]\<rparr>
     else if sc_includeGlobs scope = [] \<or> matchesAnyGlob p (sc_includeGlobs scope) \<or> matchesAnyGlob (p @ ''/index'') (sc_includeGlobs scope)
     then st\<lparr>rs_included := rs_included st @ [p]\<rparr>
     else st)"

fun describeScope :: "scope_intent \<Rightarrow> string" where
  "describeScope Dependency_manifest = ''dependency manifest scope excludes installed dependency trees''"
| "describeScope Artifact = ''artifact scope includes generated deployable output''"
| "describeScope Full_deep = ''full deep scope includes generated output and installed dependencies''"
| "describeScope Source_intent = ''source scope excludes generated output and installed dependencies''"

record resolved_scope =
  rv_scope :: scan_scope
  rv_includedRoots :: "string list"
  rv_excludedRoots :: "string list"
  rv_alwaysExcludedRoots :: "string list"
  rv_symlinkEscapes :: "string list"
  rv_reason :: string

definition resolveScanScope :: "(string \<Rightarrow> bool) \<Rightarrow> entry list \<Rightarrow> scan_scope option \<Rightarrow> resolved_scope" where
  "resolveScanScope inside entries given =
     (let scope = withMandatoryExcludes given;
          st = foldl (root_step inside scope) \<lparr>rs_included = [], rs_excluded = [], rs_escapes = []\<rparr> entries
      in \<lparr>rv_scope = scope,
          rv_includedRoots = sorted_set (rs_included st
            @ filter (\<lambda>r. \<not> matchesAnyGlob r (sc_excludeGlobs scope)) (roots (sc_includeGlobs scope))),
          rv_excludedRoots = sorted_set (rs_excluded st @ roots (sc_excludeGlobs scope)),
          rv_alwaysExcludedRoots = sort_strings (roots always_excluded_globs),
          rv_symlinkEscapes = sort_strings (rs_escapes st),
          rv_reason = describeScope (sc_intent scope)\<rparr>)"

section \<open>The walks\<close>

definition pruned :: "scan_scope \<Rightarrow> string \<Rightarrow> bool \<Rightarrow> bool" where
  "pruned scope relative dir = (matchesAnyGlob relative (sc_excludeGlobs scope)
     \<or> dir \<and> matchesAnyGlob (relative @ ''/__scope_probe__'') (sc_excludeGlobs scope))"

definition relative_path :: "string list \<Rightarrow> string" where
  \<comment> \<open>\<open>toPosixPath(path.relative(root, path))\<close>, where the path is given by the names below the root\<close>
  "relative_path names = toPosixPath (join_with ''/'' names)"

definition pruned_opt :: "scan_scope option \<Rightarrow> string \<Rightarrow> bool \<Rightarrow> bool" where
  "pruned_opt scope relative dir = (case scope of None \<Rightarrow> False | Some s \<Rightarrow> pruned s relative dir)"

definition wanted :: "scan_scope \<Rightarrow> scan_scope option \<Rightarrow> string \<Rightarrow> bool" where
  "wanted scope additional relative = (matchesScopePath relative (Some scope)
     \<and> (case additional of None \<Rightarrow> True | Some s \<Rightarrow> matchesScopePath relative (Some s)))"

fun copyScopedEntries :: "scan_scope \<Rightarrow> scan_scope option \<Rightarrow> string list \<Rightarrow> entry list \<Rightarrow> (string \<times> string) list" where
  \<comment> \<open>the files that are copied, with their path in the workspace; a link is never copied, wherever it points\<close>
  "copyScopedEntries scope additional current [] = []"
| "copyScopedEntries scope additional current (e # es) =
     (let names = current @ [entry_name e]; relative = relative_path names
      in if relative = [] \<or> pruned scope relative (is_dir e) \<or> pruned_opt additional relative (is_dir e) then []
         else (case e of
             Dir n sub \<Rightarrow> copyScopedEntries scope additional names sub
           | File n content \<Rightarrow> (if wanted scope additional relative then [(relative, content)] else [])
           | _ \<Rightarrow> []))
     @ copyScopedEntries scope additional current es"

definition createScopedWorkspace :: "entry list \<Rightarrow> scan_scope option \<Rightarrow> scan_scope option \<Rightarrow> (string \<times> string) list \<times> nat" where
  "createScopedWorkspace repo scope additional =
     (let copied = copyScopedEntries (withMandatoryExcludes scope)
            (map_option (\<lambda>s. withMandatoryExcludes (Some s)) additional) [] repo
      in (copied, length copied))"

fun sort_entries :: "collation \<Rightarrow> entry list \<Rightarrow> entry list" where
  "sort_entries lc [] = []"
| "sort_entries lc (e # es) = insert_by (\<lambda>l r. lc (entry_name l) (entry_name r))
     (case e of Dir n sub \<Rightarrow> Dir n (sort_entries lc sub) | e \<Rightarrow> e) (sort_entries lc es)"

fun walk_sorted :: "scan_scope \<Rightarrow> string list \<Rightarrow> entry list \<Rightarrow> (string \<times> string) list" where
  \<comment> \<open>the files the digest reads, the entries of every directory being sorted already\<close>
  "walk_sorted scope current [] = []"
| "walk_sorted scope current (e # es) =
     (let names = current @ [entry_name e]; relative = relative_path names
      in if relative = [] \<or> pruned scope relative (is_dir e) then []
         else (case e of
             Link n \<Rightarrow> []
           | Dir n sub \<Rightarrow> walk_sorted scope names sub
           | File n content \<Rightarrow> (if matchesScopePath relative (Some scope) then [(relative, content)] else [])
           | Special n \<Rightarrow> []))
     @ walk_sorted scope current es"

definition inspected :: "collation \<Rightarrow> entry list \<Rightarrow> scan_scope option \<Rightarrow> (string \<times> string) list" where
  "inspected lc repo scope = walk_sorted (withMandatoryExcludes scope) [] (sort_entries lc repo)"

definition inspectScopedFiles ::
    "(string \<Rightarrow> string) \<Rightarrow> (string \<Rightarrow> string) \<Rightarrow> collation \<Rightarrow> entry list \<Rightarrow> scan_scope option \<Rightarrow> string \<times> nat" where
  \<comment> \<open>\<open>utf8\<close> encodes a text, \<open>sha\<close> hashes bytes\<close>
  "inspectScopedFiles sha utf8 lc repo scope =
     (let files = inspected lc repo scope
      in (sha (concat (map (\<lambda>(p, content). utf8 (''f:'' @ p @ [CHR 0x00]) @ content) files)), length files))"

definition digestScopedFiles :: "(string \<Rightarrow> string) \<Rightarrow> (string \<Rightarrow> string) \<Rightarrow> collation \<Rightarrow> entry list \<Rightarrow> scan_scope option \<Rightarrow> string" where
  "digestScopedFiles sha utf8 lc repo scope = fst (inspectScopedFiles sha utf8 lc repo scope)"

section \<open>Both walks over the list of files\<close>

fun files :: "entry list \<Rightarrow> (string list \<times> string) list" where
  \<comment> \<open>the regular files with the names on the way to them\<close>
  "files [] = []"
| "files (e # es) = (case e of
       File n content \<Rightarrow> [([n], content)]
     | Dir n sub \<Rightarrow> map (\<lambda>(ns, c). (n # ns, c)) (files sub)
     | _ \<Rightarrow> []) @ files es"

definition passes :: "scan_scope \<Rightarrow> scan_scope option \<Rightarrow> string list \<Rightarrow> bool \<Rightarrow> bool" where
  "passes scope additional names dir = (let relative = relative_path names
     in relative \<noteq> [] \<and> \<not> pruned scope relative dir \<and> \<not> pruned_opt additional relative dir)"

fun reached :: "scan_scope \<Rightarrow> scan_scope option \<Rightarrow> string list \<Rightarrow> string list \<Rightarrow> bool" where
  \<comment> \<open>every directory on the way below \<open>current\<close> is entered, and the file itself is not excluded\<close>
  "reached s a current [] = False"
| "reached s a current [n] = passes s a (current @ [n]) False"
| "reached s a current (n # m # ns) = (passes s a (current @ [n]) True \<and> reached s a (current @ [n]) (m # ns))"

lemma files_named: "(ns, c) \<in> set (files es) \<Longrightarrow> ns \<noteq> []"
  by (induction es rule: files.induct) (auto split: entry.splits)

lemma reached_Cons: "ns \<noteq> [] \<Longrightarrow> reached s a current (n # ns) = (passes s a (current @ [n]) True \<and> reached s a (current @ [n]) ns)"
  by (cases ns) auto

definition copied_of :: "scan_scope \<Rightarrow> scan_scope option \<Rightarrow> string list \<Rightarrow> (string list \<times> string) list \<Rightarrow> (string \<times> string) list" where
  "copied_of s a current fs = map (\<lambda>(ns, c). (relative_path (current @ ns), c))
     (filter (\<lambda>(ns, c). reached s a current ns \<and> wanted s a (relative_path (current @ ns))) fs)"

lemma copied_of_append [simp]: "copied_of s a current (fs @ gs) = copied_of s a current fs @ copied_of s a current gs"
  by (simp add: copied_of_def)

lemma copied_below:
  assumes "\<And>ns c. (ns, c) \<in> set fs \<Longrightarrow> ns \<noteq> []"
  shows "copied_of s a current (map (\<lambda>(ns, c). (n # ns, c)) fs)
    = (if passes s a (current @ [n]) True then copied_of s a (current @ [n]) fs else [])"
  using assms
proof (induction fs)
  case (Cons f fs)
  obtain ns c where f: "f = (ns, c)" by fastforce
  have ns: "ns \<noteq> []" using Cons(2) f by auto
  have IH: "copied_of s a current (map (\<lambda>(ns, c). (n # ns, c)) fs)
      = (if passes s a (current @ [n]) True then copied_of s a (current @ [n]) fs else [])"
    by (rule Cons(1)) (use Cons(2) in auto)
  have one: "copied_of s a current [(n # ns, c)] = (if passes s a (current @ [n]) True then copied_of s a (current @ [n]) [(ns, c)] else [])"
    using ns by (simp add: copied_of_def reached_Cons)
  show ?case
    using copied_of_append [of s a current "[(n # ns, c)]"] copied_of_append [of s a "current @ [n]" "[(ns, c)]" fs] IH one f by simp
qed (simp add: copied_of_def)

lemma copy_files: "copyScopedEntries s a current es = copied_of s a current (files es)"
proof (induction s a current es rule: copyScopedEntries.induct)
  case (1 s a current)
  then show ?case by (simp add: copied_of_def)
next
  case (2 s a current e es)
  let ?names = "current @ [entry_name e]"
  have open_iff: "(relative_path ?names = [] \<or> pruned s (relative_path ?names) (is_dir e) \<or> pruned_opt a (relative_path ?names) (is_dir e))
      = (\<not> passes s a ?names (is_dir e))" by (simp add: passes_def Let_def)
  show ?case
  proof (cases e)
    case (Dir n sub)
    have "copied_of s a current (map (\<lambda>(ns, c). (n # ns, c)) (files sub))
        = (if passes s a (current @ [n]) True then copied_of s a (current @ [n]) (files sub) else [])"
      by (rule copied_below) (rule files_named)
    moreover have "copyScopedEntries s a (current @ [n]) sub = copied_of s a (current @ [n]) (files sub)" if "passes s a (current @ [n]) True"
      using 2(1) [OF refl refl _ Dir] that Dir by (simp add: passes_def Let_def)
    ultimately show ?thesis using 2(2) open_iff Dir by (simp add: Let_def)
  next
    case (File n c)
    then show ?thesis using 2 open_iff by (simp add: Let_def copied_of_def)
  qed (use 2 in \<open>simp_all add: Let_def copied_of_def\<close>)
qed

lemma walk_as_copy: "walk_sorted s current es = copyScopedEntries s None current es"
  by (induction s current es rule: walk_sorted.induct) (auto simp: Let_def pruned_opt_def wanted_def split: entry.splits)

lemma files_insert: "mset (files (insert_by cmp e es)) = mset (files (e # es))"
  by (induction es) auto

lemma files_sorted: "mset (files (sort_entries lc es)) = mset (files es)"
proof (induction es rule: files.induct)
  case (2 e es)
  show ?case by (cases e) (use 2 in \<open>simp_all add: files_insert\<close>)
qed simp

lemma copied_mset: "mset fs = mset gs \<Longrightarrow> mset (copied_of s a current fs) = mset (copied_of s a current gs)"
  by (simp add: copied_of_def)

text \<open>C18. What is digested is what is scanned: the digest of a scope reads exactly the files that the workspace of the scope
  receives, each with the same path and content, whatever the order in which the directories are listed; only the
  order of the files differs, and the two counts agree.\<close>

theorem digest_covers_workspace:
  "mset (inspected lc repo scope) = mset (fst (createScopedWorkspace repo scope None))
   \<and> snd (inspectScopedFiles sha utf8 lc repo scope) = snd (createScopedWorkspace repo scope None)"
proof -
  have same: "mset (inspected lc repo scope) = mset (fst (createScopedWorkspace repo scope None))"
    unfolding inspected_def createScopedWorkspace_def walk_as_copy copy_files Let_def
    by (simp add: copied_mset [OF files_sorted])
  then show ?thesis by (simp add: inspectScopedFiles_def createScopedWorkspace_def Let_def) (metis mset_eq_length)
qed

section \<open>Exclusions of whole trees\<close>

definition plain_name :: "string \<Rightarrow> bool" where
  "plain_name n = (n \<noteq> [] \<and> n \<noteq> ''.'' \<and> CHR 0x5C \<notin> set n \<and> name_ok n)"

definition tree_glob :: "string \<Rightarrow> bool" where
  \<comment> \<open>a glob that ends with the segment \<open>**\<close>\<close>
  "tree_glob g = (let gs = split_at (CHR ''/'') (normalizePluginPath g) in list_all glob_name_ok gs \<and> last gs = ''**'')"

lemma join_split: "join_with ''/'' (split_at (CHR ''/'') s) = s"
proof (induction s)
  case (Cons c s)
  then show ?case
  proof (cases "split_at (CHR ''/'') s")
    case (Cons w ws)
    then show ?thesis using \<open>join_with ''/'' (split_at (CHR ''/'') s) = s\<close> by (cases ws) auto
  qed (use split_at_nonempty in blast)
qed simp

lemma tree_matches_append:
  "last gs = ''**'' \<Longrightarrow> gs \<noteq> [] \<Longrightarrow> path_matches gs ns \<Longrightarrow> path_matches gs (ns @ ms)"
proof (induction gs ns rule: path_matches.induct)
  case (3 g h gs ns)
  show ?case
  proof (cases "g = ''**''")
    case True
    then obtain k where k: "k \<le> length ns" "path_matches (h # gs) (drop k ns)" using 3(5) by auto
    have l: "last (h # gs) = ''**''" using 3(3) by simp
    have "path_matches (h # gs) (drop k ns @ ms)" by (rule 3(1) [OF True _ l]) (use k in auto)
    then have "path_matches (h # gs) (drop k (ns @ ms))" using k(1) by simp
    then show ?thesis using True k(1) by (auto intro!: bexI [of _ k])
  next
    case False
    then show ?thesis using 3 by (cases ns) auto
  qed
qed auto

lemma tree_matches_probe:
  "last gs = ''**'' \<Longrightarrow> gs \<noteq> [] \<Longrightarrow> ms \<noteq> [] \<Longrightarrow> path_matches gs (ns @ [p]) \<Longrightarrow> path_matches gs (ns @ ms)"
proof (induction gs ns rule: path_matches.induct)
  case (3 g h gs ns)
  show ?case
  proof (cases "g = ''**''")
    case True
    then obtain k where k: "k \<le> Suc (length ns)" "path_matches (h # gs) (drop k (ns @ [p]))" using 3(6) by auto
    have "k \<le> length ns" using k path_matches_Nil [of "h # gs"] by (cases "k = Suc (length ns)") auto
    moreover have l: "last (h # gs) = ''**''" using 3(3) by simp
    ultimately have "path_matches (h # gs) (drop k ns @ ms)" by (intro 3(1) [OF True _ l _ 3(5)]) (use k in auto)
    then have "path_matches (h # gs) (drop k (ns @ ms))" using \<open>k \<le> length ns\<close> by simp
    then show ?thesis using True \<open>k \<le> length ns\<close> by (auto intro!: bexI [of _ k])
  next
    case False
    then show ?thesis using 3 path_matches_Nil [of "h # gs"] by (cases ns) auto
  qed
qed auto

lemma plain_join_set: "list_all plain_name ns \<Longrightarrow> CHR 0x5C \<notin> set (join_with ''/'' ns)"
  by (induction "''/''" ns rule: join_with.induct) (auto simp: plain_name_def)

lemma plain_join_last: "ns \<noteq> [] \<Longrightarrow> list_all plain_name ns \<Longrightarrow> join_with ''/'' ns \<noteq> [] \<and> last (join_with ''/'' ns) \<noteq> CHR ''/''"
proof (induction "''/''" ns rule: join_with.induct)
  case (2 x)
  then show ?case by (auto simp: plain_name_def name_ok_def) (metis last_in_set)
qed auto

lemma plain_join_first: "ns \<noteq> [] \<Longrightarrow> list_all plain_name ns \<Longrightarrow> \<not> starts_with (join_with ''/'' ns) ''./''"
proof (cases ns)
  case (Cons n ms)
  assume "list_all plain_name ns"
  then have n: "n \<noteq> []" "n \<noteq> ''.''" "CHR ''/'' \<notin> set n" using Cons by (auto simp: plain_name_def name_ok_def)
  then obtain c cs where "n = c # cs" by (cases n) auto
  then show ?thesis using n Cons by (cases cs; cases ms) auto
qed simp

lemma replace_none: "a \<notin> set s \<Longrightarrow> replace_char a b s = s"
  by (induction s) (auto simp: replace_char_def)

lemma plain_paths:
  assumes "ns \<noteq> []" and "list_all plain_name ns"
  shows "normalizePluginPath (join_with ''/'' ns) = join_with ''/'' ns" and "relative_path ns = join_with ''/'' ns"
    and "toPosixPath (join_with ''/'' ns) = join_with ''/'' ns" and "join_with ''/'' ns \<noteq> []"
proof -
  let ?p = "join_with ''/'' ns"
  have p: "replace_char (CHR 0x5C) (CHR ''/'') ?p = ?p" using plain_join_set assms(2) by (simp add: replace_none)
  have "\<not> ends_with ?p ''/''"
    using plain_join_last [OF assms] by (cases "rev ?p") (auto simp: ends_with_def last_rev hd_rev [symmetric])
  then show "toPosixPath ?p = ?p" "normalizePluginPath ?p = ?p" "relative_path ns = ?p" "?p \<noteq> []"
    using p plain_join_first [OF assms] plain_join_last [OF assms] by (simp_all add: toPosixPath_def normalizePluginPath_def relative_path_def)
qed

lemma tree_glob_path:
  assumes "tree_glob g" and "ns \<noteq> []" and "list_all plain_name ns" and gs_def: "gs = split_at (CHR ''/'') (normalizePluginPath g)"
  shows "matchesPluginGlob (join_with ''/'' ns) g = path_matches gs ns" and "gs \<noteq> []" and "last gs = ''**''"
proof -
  have "list_all name_ok ns" using assms(3) by (auto simp: plain_name_def list_all_iff)
  moreover have gs: "list_all glob_name_ok gs" "last gs = ''**''" "gs \<noteq> []" using assms(1) by (simp_all add: tree_glob_def gs_def Let_def)
  ultimately have "matches (glob_parts (join_with ''/'' gs)) (join_with ''/'' ns) = path_matches gs ns"
    using assms(2) by (intro glob_path)
  then show "matchesPluginGlob (join_with ''/'' ns) g = path_matches gs ns"
    unfolding matchesPluginGlob_def gs_def join_split using plain_paths(1) [OF assms(2,3)] by simp
  show "gs \<noteq> []" "last gs = ''**''" using gs by simp_all
qed

lemma tree_not_pruned:
  assumes "list_all tree_glob (sc_excludeGlobs s)" and "ds \<noteq> []" and "ms \<noteq> []" and "list_all plain_name (ds @ ms)"
    and "\<not> matchesAnyGlob (join_with ''/'' (ds @ ms)) (sc_excludeGlobs s)"
  shows "\<not> pruned s (join_with ''/'' ds) True"
proof
  let ?probe = "''__scope_probe__''"
  assume "pruned s (join_with ''/'' ds) True"
  moreover have "join_with ''/'' ds @ ''/__scope_probe__'' = join_with ''/'' (ds @ [?probe])"
    using assms(2) by (induction "''/''" ds rule: join_with.induct) auto
  ultimately obtain g where g: "g \<in> set (sc_excludeGlobs s)"
    "matchesPluginGlob (join_with ''/'' ds) g \<or> matchesPluginGlob (join_with ''/'' (ds @ [?probe])) g"
    by (auto simp: pruned_def matchesAnyGlob_def list_ex_iff)
  have t: "tree_glob g" using g(1) assms(1) by (simp add: list_all_iff)
  have plain: "list_all plain_name ds" "list_all plain_name (ds @ [?probe])"
    using assms(4) by (auto simp: plain_name_def name_ok_def dot_def)
  define gs where "gs = split_at (CHR ''/'') (normalizePluginPath g)"
  have "path_matches gs ds \<or> path_matches gs (ds @ [?probe])"
    using g(2) tree_glob_path(1) [OF t assms(2) plain(1) gs_def] tree_glob_path(1) [OF t _ plain(2) gs_def] by auto
  then have "path_matches gs (ds @ ms)"
    using tree_matches_append tree_matches_probe [OF _ _ assms(3)] tree_glob_path(2,3) [OF t assms(2) plain(1) gs_def] by blast
  then have "matchesPluginGlob (join_with ''/'' (ds @ ms)) g"
    using tree_glob_path(1) [OF t _ assms(4) gs_def] assms(2) by simp
  then show False using g(1) assms(5) by (auto simp: matchesAnyGlob_def list_ex_iff)
qed

lemma tree_reached:
  assumes "list_all tree_glob (sc_excludeGlobs s)" and "ns \<noteq> []" and "list_all plain_name (current @ ns)"
    and "\<not> matchesAnyGlob (join_with ''/'' (current @ ns)) (sc_excludeGlobs s)"
  shows "reached s None current ns"
  using assms(2-4)
proof (induction ns arbitrary: current)
  case (Cons n ns)
  have plain: "list_all plain_name (current @ [n])" using Cons(3) by simp
  note paths = plain_paths [of "current @ [n]", OF _ plain]
  show ?case
  proof (cases "ns = []")
    case True
    then show ?thesis using Cons(4) paths by (simp add: passes_def pruned_def pruned_opt_def)
  next
    case False
    have "\<not> pruned s (join_with ''/'' (current @ [n])) True"
      using tree_not_pruned [OF assms(1), of "current @ [n]" ns] False Cons(3,4) by simp
    then have "passes s None (current @ [n]) True" using paths by (simp add: passes_def pruned_opt_def)
    moreover have "reached s None (current @ [n]) ns" using Cons(1) [of "current @ [n]"] False Cons(3,4) by simp
    ultimately show ?thesis by (simp add: reached_Cons [OF False])
  qed
qed simp

lemma mandatory_globs:
  "set (sc_excludeGlobs (withMandatoryExcludes (Some (withMandatoryExcludes scope)))) = set (sc_excludeGlobs (withMandatoryExcludes scope))"
  "set (sc_includeGlobs (withMandatoryExcludes (Some (withMandatoryExcludes scope)))) = set (sc_includeGlobs (withMandatoryExcludes scope))"
  by (auto simp: withMandatoryExcludes_def Let_def or_else_def dedupeStrings_def)

lemma matches_scope_again: "matchesScopePath p (Some (withMandatoryExcludes scope)) = matchesScopePath p scope"
proof -
  have any: "matchesAnyGlob q xs = matchesAnyGlob q ys" if "set xs = set ys" for q xs ys
    using that by (simp add: matchesAnyGlob_def list_ex_iff)
  have "(sc_includeGlobs (withMandatoryExcludes (Some (withMandatoryExcludes scope))) = []) = (sc_includeGlobs (withMandatoryExcludes scope) = [])"
    using mandatory_globs(2) [of scope] by (metis set_empty)
  then show ?thesis using any [OF mandatory_globs(1)] any [OF mandatory_globs(2)] by (simp add: matchesScopePath_def Let_def)
qed

text \<open>C17. No file in scope is missed: when every exclusion of the scope names whole trees, as those of the built-in profiles do,
  and the names below the repository are plain, then the workspace receives exactly the regular files whose path the
  scope matches, in the order of the walk; leaving out whole directories never loses a file of the scope.\<close>

theorem files_in_scope_copied:
  assumes "list_all tree_glob (getScopeExcludeGlobs scope)"
    and "\<forall>f \<in> set (files repo). list_all plain_name (fst f)"
  shows "fst (createScopedWorkspace repo scope None)
    = filter (\<lambda>(p, content). matchesScopePath p scope) (map (\<lambda>(ns, content). (join_with ''/'' ns, content)) (files repo))"
proof -
  let ?s = "withMandatoryExcludes scope"
  have trees: "list_all tree_glob (sc_excludeGlobs ?s)" using assms(1) by (simp add: getScopeExcludeGlobs_def)
  have same: "relative_path ns = join_with ''/'' ns \<and> (reached ?s None [] ns \<and> wanted ?s None (relative_path ns)) = matchesScopePath (join_with ''/'' ns) scope"
    if f: "(ns, c) \<in> set (files repo)" for ns c
  proof -
    have ns: "ns \<noteq> []" "list_all plain_name ns" using f files_named assms(2) by force+
    note p = plain_paths [OF ns]
    have "reached ?s None [] ns" if m: "matchesScopePath (join_with ''/'' ns) scope"
      using tree_reached [OF trees, of ns "[]"] ns m p by (simp add: matchesScopePath_def Let_def split: if_splits)
    then show ?thesis using p by (auto simp: wanted_def matches_scope_again)
  qed
  have "fst (createScopedWorkspace repo scope None) = map (\<lambda>(ns, c). (relative_path ns, c))
      (filter (\<lambda>(ns, c). reached ?s None [] ns \<and> wanted ?s None (relative_path ns)) (files repo))"
    by (simp add: createScopedWorkspace_def copy_files copied_of_def)
  also have "\<dots> = map (\<lambda>(ns, c). (join_with ''/'' ns, c)) (filter (\<lambda>(ns, c). matchesScopePath (join_with ''/'' ns) scope) (files repo))"
    using same by (intro map_cong filter_cong) (auto split: prod.splits)
  also have "\<dots> = filter (\<lambda>(p, c). matchesScopePath p scope) (map (\<lambda>(ns, c). (join_with ''/'' ns, c)) (files repo))"
    by (simp add: filter_map comp_def case_prod_unfold)
  finally show ?thesis .
qed

definition sample_repo :: "entry list" where
  "sample_repo = [Dir ''src'' [File ''a.ts'' ''x'', Link ''b.ts''], Dir ''dist'' [File ''a.js'' ''y'']]"

lemma files_in_scope_copied_witness: "fst (createScopedWorkspace sample_repo None None) = [(''src/a.ts'', ''x'')]"
proof -
  have trees: "list_all tree_glob (getScopeExcludeGlobs None)" by code_simp
  have plain: "\<forall>f \<in> set (files sample_repo). list_all plain_name (fst f)" by code_simp
  have "filter (\<lambda>(p, content). matchesScopePath p None) (map (\<lambda>(ns, content). (join_with ''/'' ns, content)) (files sample_repo)) = [(''src/a.ts'', ''x'')]"
    by code_simp
  then show ?thesis using files_in_scope_copied [OF trees plain] by simp
qed

lemma always_excluded_kept: "always_excluded_globs \<noteq> [] \<and> set always_excluded_globs \<subseteq> set (sc_excludeGlobs (withMandatoryExcludes scope))"
  by (auto simp: withMandatoryExcludes_def Let_def dedupeStrings_def always_excluded_globs_def)

lemma always_pruned: "n \<in> {''.git'', ''artifacts''} \<Longrightarrow> \<not> passes (withMandatoryExcludes scope) a [n] True"
proof -
  assume n: "n \<in> {''.git'', ''artifacts''}"
  have "\<forall>n \<in> {''.git'', ''artifacts''}. \<exists>g \<in> set always_excluded_globs. matchesPluginGlob (relative_path [n] @ ''/__scope_probe__'') g"
    by code_simp
  then obtain g where "g \<in> set always_excluded_globs" "matchesPluginGlob (relative_path [n] @ ''/__scope_probe__'') g" using n by blast
  moreover have "g \<in> set (sc_excludeGlobs (withMandatoryExcludes scope))" using always_excluded_kept calculation(1) by blast
  ultimately have "pruned (withMandatoryExcludes scope) (relative_path [n]) True" by (auto simp: pruned_def matchesAnyGlob_def list_ex_iff)
  then show ?thesis by (simp add: passes_def Let_def)
qed

text \<open>C32. The mandatory exclusions cannot be taken back: whatever a profile includes, every file that reaches the workspace of a
  scan is a regular file of the repository, never behind a link, that lies outside the top level directories
  \<open>.git\<close> and \<open>artifacts\<close> and that the scope and the additional scope match.\<close>

theorem workspace_files_allowed:
  assumes "(p, content) \<in> set (fst (createScopedWorkspace repo scope additional))"
  shows "matchesScopePath p scope \<and> (additional \<noteq> None \<longrightarrow> matchesScopePath p additional)
    \<and> (\<exists>ns. (ns, content) \<in> set (files repo) \<and> p = relative_path ns \<and> (length ns = 1 \<or> hd ns \<notin> {''.git'', ''artifacts''}))"
proof -
  let ?s = "withMandatoryExcludes scope" and ?a = "map_option (\<lambda>s. withMandatoryExcludes (Some s)) additional"
  obtain ns where ns: "(ns, content) \<in> set (files repo)" "p = relative_path ns" "reached ?s ?a [] ns" "wanted ?s ?a (relative_path ns)"
    using assms by (auto simp: createScopedWorkspace_def copy_files copied_of_def Let_def)
  have "length ns = 1 \<or> hd ns \<notin> {''.git'', ''artifacts''}"
  proof (cases ns)
    case (Cons n ms)
    then show ?thesis using ns(3) always_pruned [of n scope ?a] by (cases "ms = []") (auto simp: reached_Cons)
  qed (use files_named [OF ns(1)] in simp)
  moreover have "matchesScopePath p scope \<and> (additional \<noteq> None \<longrightarrow> matchesScopePath p additional)"
    using ns(2,4) by (cases additional) (auto simp: wanted_def matches_scope_again)
  ultimately show ?thesis using ns(1,2) by blast
qed

lemma workspace_files_allowed_witness: "matchesScopePath ''src/a.ts'' None"
proof -
  have "(''src/a.ts'', ''x'') \<in> set (fst (createScopedWorkspace sample_repo None None))" by code_simp
  from workspace_files_allowed [OF this] show ?thesis by blast
qed

section \<open>Names that change the scope\<close>

text \<open>Defect. The scope works on texts in which a backslash stands for a slash and \<open>.\<close> does not match a line break. So a file
  of the repository itself that is named \<open>dist\x.ts\<close> is taken for a file of the excluded directory, and a directory
  whose name contains a line break is not matched by \<open>**/*\<close>: neither is ever copied for a scan.\<close>

theorem odd_names_escape_scan:
  "fst (createScopedWorkspace [File (''dist'' @ [CHR 0x5C] @ ''x.ts'') c, Dir (''a'' @ [CHR 0x0A]) [File ''b.ts'' d]] None None) = []"
proof -
  let ?files = "[([''dist'' @ [CHR 0x5C] @ ''x.ts''], c), ([''a'' @ [CHR 0x0A], ''b.ts''], d)]"
  have "list_all (\<lambda>ns. \<not> wanted (withMandatoryExcludes None) None (relative_path ns))
      [[''dist'' @ [CHR 0x5C] @ ''x.ts''], [''a'' @ [CHR 0x0A], ''b.ts'']]"
    by code_simp
  then show ?thesis by (simp add: createScopedWorkspace_def copy_files copied_of_def)
qed

text \<open>Defect. A directory is handed to the scanner as one to skip when any exclusion starts with its name, so excluding
  a part of a directory skips all of it.\<close>

lemma skipped_directory_in_scope:
  "''src'' \<in> set (getScopeSkipDirs (Some (default_source_scope\<lparr>sc_excludeGlobs := [''src/generated/**'']\<rparr>)))
    \<and> matchesScopePath ''src/a.ts'' (Some (default_source_scope\<lparr>sc_excludeGlobs := [''src/generated/**'']\<rparr>))"
  by code_simp

end
