(* ===== verification/GitDiff.thy ===== *)
theory GitDiff
  imports TargetScope
begin

text \<open>
  What a diff scan looks at (\<open>api/modules/scans/execution/diff/git-diff-resolver.ts\<close>, \<open>git-diff-entry-utils.ts\<close>,
  \<open>git-diff-content-resolver.ts\<close>): the answer of \<open>git diff --name-status\<close> becomes a list of changed paths, and every
  path gets a disposition with its reason. Git, the file system, SHA-256 and the decoding of UTF-8 are arguments;
  texts of messages are left out. Paths are those of a POSIX system.
\<close>

section \<open>Paths\<close>

datatype diff_error_code = Not_a_git_repository | Git_ref_not_found | Ambiguous_commit_parent | Merge_base_not_found
  | Unmerged_worktree | Target_changed | Diff_target_too_large | Snapshot_materialization_failed
  | Snapshot_digest_mismatch | Invalid_diff_path

datatype diff_failure =
    Resolution diff_error_code \<comment> \<open>\<open>GitDiffResolutionError\<close>\<close>
  | Git_command string \<comment> \<open>\<open>GitCommandError\<close> with its standard error\<close>
  | Other_failure

definition strip_ends :: "string \<Rightarrow> string" where
  \<comment> \<open>\<open>replace(/^\.\/|\/$/g, "")\<close>\<close>
  "strip_ends s = (let t = (if starts_with s ''./'' then drop 2 s else s) in if ends_with t ''/'' then butlast t else t)"

definition normalizeRelativePath :: "string \<Rightarrow> (diff_failure, string) result" where
  "normalizeRelativePath value = (let n = strip_ends value
     in if n = [] \<or> CHR 0x00 \<in> set n \<or> starts_with n ''/'' \<or> ''..'' \<in> set (split_at (CHR ''/'') n)
        then Inl (Resolution Invalid_diff_path) else Inr n)"

definition normalizeProjectPrefix :: "string \<Rightarrow> string" where
  "normalizeProjectPrefix value = (if value = [] \<or> value = ''.'' then [] else strip_ends value)"

definition inside_prefix :: "string \<Rightarrow> string \<Rightarrow> bool" where
  "inside_prefix normalized projectPrefix =
     (projectPrefix = [] \<or> normalized = projectPrefix \<or> starts_with normalized (projectPrefix @ ''/''))"

definition isGitPathInsideProject :: "string \<Rightarrow> string \<Rightarrow> (diff_failure, bool) result" where
  "isGitPathInsideProject gitPath projectPrefix =
     then_do (normalizeRelativePath gitPath) (\<lambda>n. Inr (inside_prefix n projectPrefix))"

definition toProjectPath :: "string \<Rightarrow> string \<Rightarrow> (diff_failure, string) result" where
  "toProjectPath gitPath projectPrefix =
     then_do (normalizeRelativePath gitPath) (\<lambda>n.
       if projectPrefix = [] then Inr n
       else if \<not> inside_prefix n projectPrefix then Inl (Resolution Invalid_diff_path)
       else (let rest = drop (length projectPrefix) n
             in normalizeRelativePath (if starts_with rest ''/'' then drop 1 rest else rest)))"

definition fromProjectPath :: "string \<Rightarrow> string \<Rightarrow> (diff_failure, string) result" where
  "fromProjectPath projectPath projectPrefix =
     then_do (normalizeRelativePath projectPath) (\<lambda>n. Inr (if projectPrefix = [] then n else projectPrefix @ ''/'' @ n))"

fun posix_segments :: "bool \<Rightarrow> string list \<Rightarrow> string list \<Rightarrow> string list" where
  \<comment> \<open>the loop of \<open>path.posix.normalize\<close>; the segments kept so far are in reverse order\<close>
  "posix_segments up kept [] = rev kept"
| "posix_segments up kept (s # ss) =
     (if s = [] \<or> s = ''.'' then posix_segments up kept ss
      else if s = ''..'' then
        (case kept of k # ks \<Rightarrow> (if k \<noteq> ''..'' then posix_segments up ks ss
                                else posix_segments up (if up then s # kept else kept) ss)
         | [] \<Rightarrow> posix_segments up (if up then [s] else []) ss)
      else posix_segments up (s # kept) ss)"

definition posix_normalize :: "string \<Rightarrow> string" where
  "posix_normalize p =
     (if p = [] then ''.''
      else (let absolute = starts_with p ''/''; trailing = ends_with p ''/'';
                body = join_with ''/'' (posix_segments (\<not> absolute) [] (split_at (CHR ''/'') p));
                text = (if body = [] then (if absolute then [] else if trailing then ''./'' else ''.'')
                        else if trailing then body @ ''/'' else body)
            in if absolute then ''/'' @ text else text))"

definition posix_join :: "string \<Rightarrow> string \<Rightarrow> string" where
  "posix_join a b = (if a = [] then (if b = [] then ''.'' else posix_normalize b)
     else if b = [] then posix_normalize a else posix_normalize (a @ ''/'' @ b))"

definition posix_dirname :: "string \<Rightarrow> string" where
  "posix_dirname p =
     (if p = [] then ''.''
      else (let kept = length (dropWhile (\<lambda>c. c \<noteq> CHR ''/'') (dropWhile (\<lambda>c. c = CHR ''/'') (rev (tl p)))); rooted = starts_with p ''/''
            in if kept = 0 then (if rooted then ''/'' else ''.'')
               else if rooted \<and> kept = 1 then ''//'' else take kept p))"

definition win32_absolute :: "string \<Rightarrow> bool" where
  "win32_absolute p = (case p of [] \<Rightarrow> False
     | c # cs \<Rightarrow> c = CHR ''/'' \<or> c = CHR 0x5C
         \<or> ((is_lower c \<or> is_upper c) \<and> (case cs of d # e # _ \<Rightarrow> d = CHR '':'' \<and> (e = CHR ''/'' \<or> e = CHR 0x5C) | _ \<Rightarrow> False)))"

definition leaves_project :: "string \<Rightarrow> bool" where
  "leaves_project p = (p = ''..'' \<or> starts_with p ''../'')"

definition link_destination :: "string \<Rightarrow> string \<Rightarrow> string" where
  "link_destination entryPath linkTarget = posix_normalize (posix_join (posix_dirname entryPath) linkTarget)"

definition symlinkTargetEscapesProject :: "string \<Rightarrow> string \<Rightarrow> bool" where
  "symlinkTargetEscapesProject entryPath linkTarget =
     (starts_with linkTarget ''/'' \<or> win32_absolute linkTarget \<or> leaves_project (link_destination entryPath linkTarget))"

definition pathspec :: "string \<Rightarrow> string list" where
  "pathspec projectPrefix = (if projectPrefix = [] then [] else ['':(top,literal)'' @ projectPrefix])"

section \<open>The list of changed paths\<close>

datatype path_status = Added | Modified | Deleted | Renamed | Copied | Type_changed | Unmerged | Untracked | Gitlink

fun status_text :: "path_status \<Rightarrow> string" where
  "status_text Added = ''added''"
| "status_text Modified = ''modified''"
| "status_text Deleted = ''deleted''"
| "status_text Renamed = ''renamed''"
| "status_text Copied = ''copied''"
| "status_text Type_changed = ''type_changed''"
| "status_text Unmerged = ''unmerged''"
| "status_text Untracked = ''untracked''"
| "status_text Gitlink = ''gitlink''"

record raw_entry =
  rw_status :: path_status
  rw_path :: string
  rw_oldPath :: "string option"

definition raw :: "path_status \<Rightarrow> string \<Rightarrow> raw_entry" where
  "raw st p = \<lparr>rw_status = st, rw_path = p, rw_oldPath = None\<rparr>"

definition splitNul :: "(string \<Rightarrow> string option) \<Rightarrow> string \<Rightarrow> (diff_failure, string list) result" where
  "splitNul decode output = (case decode output of None \<Rightarrow> Inl (Resolution Invalid_diff_path)
     | Some text \<Rightarrow> Inr (filter (\<lambda>t. t \<noteq> []) (split_at (CHR 0x00) text)))"

definition mapStatus :: "char \<Rightarrow> (diff_failure, path_status) result" where
  "mapStatus c =
     (if c = CHR ''A'' then Inr Added else if c = CHR ''M'' then Inr Modified else if c = CHR ''D'' then Inr Deleted
      else if c = CHR ''T'' then Inr Type_changed else if c = CHR ''U'' then Inr Unmerged else Inl (Resolution Invalid_diff_path))"

definition moved_entry :: "string \<Rightarrow> bool \<Rightarrow> string \<Rightarrow> string \<Rightarrow> (diff_failure, raw_entry list) result" where
  \<comment> \<open>a record of a rename or of a copy\<close>
  "moved_entry projectPrefix rename oldGitPath gitPath =
     then_do (isGitPathInsideProject oldGitPath projectPrefix) (\<lambda>oldInside.
     then_do (isGitPathInsideProject gitPath projectPrefix) (\<lambda>newInside.
       if oldInside \<and> newInside then
         then_do (toProjectPath oldGitPath projectPrefix) (\<lambda>old.
         then_do (toProjectPath gitPath projectPrefix) (\<lambda>new.
           Inr [\<lparr>rw_status = (if rename then Renamed else Copied), rw_path = new, rw_oldPath = Some old\<rparr>]))
       else if newInside then then_do (toProjectPath gitPath projectPrefix) (\<lambda>new. Inr [raw Added new])
       else if oldInside \<and> rename then then_do (toProjectPath oldGitPath projectPrefix) (\<lambda>old. Inr [raw Deleted old])
       else Inr []))"

fun parse_records :: "string \<Rightarrow> string list \<Rightarrow> (diff_failure, raw_entry list) result" where
  "parse_records projectPrefix [] = Inr []"
| "parse_records projectPrefix (st # ts) =
     (if st = [] then Inl (Resolution Invalid_diff_path)
      else if hd st = CHR ''R'' \<or> hd st = CHR ''C'' then
        (case ts of
           old # new # rest \<Rightarrow> then_do (moved_entry projectPrefix (hd st = CHR ''R'') old new) (\<lambda>es.
             then_do (parse_records projectPrefix rest) (\<lambda>fs. Inr (es @ fs)))
         | _ \<Rightarrow> Inl (Resolution Invalid_diff_path))
      else
        (case ts of
           p # rest \<Rightarrow> then_do (mapStatus (hd st)) (\<lambda>s. then_do (toProjectPath p projectPrefix) (\<lambda>new.
             then_do (parse_records projectPrefix rest) (\<lambda>fs. Inr (raw s new # fs))))
         | [] \<Rightarrow> Inl (Resolution Invalid_diff_path)))"

definition compareRawEntries :: "collation \<Rightarrow> raw_entry \<Rightarrow> raw_entry \<Rightarrow> int" where
  "compareRawEntries lc l r = or_compare (lc (rw_path l) (rw_path r)) (lc (or_else (rw_oldPath l) []) (or_else (rw_oldPath r) []))"

definition dedupeRawEntries :: "collation \<Rightarrow> raw_entry list \<Rightarrow> raw_entry list" where
  "dedupeRawEntries lc entries = js_sort (compareRawEntries lc) (jm_values (jm_of_list (map (\<lambda>e. (rw_path e, e)) entries)))"

definition parseNameStatus ::
    "(string \<Rightarrow> string option) \<Rightarrow> collation \<Rightarrow> string \<Rightarrow> string \<Rightarrow> (diff_failure, raw_entry list) result" where
  "parseNameStatus decode lc output projectPrefix =
     then_do (splitNul decode output) (\<lambda>tokens.
     then_do (parse_records projectPrefix tokens) (\<lambda>es. Inr (dedupeRawEntries lc es)))"

section \<open>Dispositions\<close>

datatype disposition = Scan | Deleted_path | Excluded | Unsupported_path | Too_large

datatype coverage_reason = Reason_deleted_path | Profile_excluded | Binary_not_supported | Gitlink_not_materialized
  | Symlink_escape | Symlink_target_not_materialized | Path_not_materialized | Unmerged_path | Unsupported_file_type | File_too_large

fun reason_text :: "coverage_reason \<Rightarrow> string" where
  "reason_text Reason_deleted_path = ''deleted_path''"
| "reason_text Profile_excluded = ''profile_excluded''"
| "reason_text Binary_not_supported = ''binary_not_supported''"
| "reason_text Gitlink_not_materialized = ''gitlink_not_materialized''"
| "reason_text Symlink_escape = ''symlink_escape''"
| "reason_text Symlink_target_not_materialized = ''symlink_target_not_materialized''"
| "reason_text Path_not_materialized = ''path_not_materialized''"
| "reason_text Unmerged_path = ''unmerged_path''"
| "reason_text Unsupported_file_type = ''unsupported_file_type''"
| "reason_text File_too_large = ''file_too_large''"

fun disposition_text :: "disposition \<Rightarrow> string" where
  "disposition_text Scan = ''scan''"
| "disposition_text Deleted_path = ''deleted''"
| "disposition_text Excluded = ''excluded''"
| "disposition_text Unsupported_path = ''unsupported''"
| "disposition_text Too_large = ''too_large''"

record manifest_entry =
  me_status :: path_status
  me_path :: string
  me_oldPath :: "string option"
  me_contentSha256 :: "string option"
  me_sizeBytes :: "nat option"
  me_binary :: bool
  me_inProfileScope :: bool
  me_disposition :: disposition
  me_reasonCode :: "coverage_reason option"

definition entry_with :: "scan_scope option \<Rightarrow> raw_entry \<Rightarrow> disposition \<Rightarrow> coverage_reason \<Rightarrow> nat option \<Rightarrow> manifest_entry" where
  \<comment> \<open>\<open>baseEntry\<close> with a disposition; no content has been read\<close>
  "entry_with scope e d r bytes = \<lparr>me_status = rw_status e, me_path = rw_path e,
     me_oldPath = (case rw_oldPath e of Some [] \<Rightarrow> None | old \<Rightarrow> old), me_contentSha256 = None, me_sizeBytes = bytes, me_binary = False,
     me_inProfileScope = matchesScopePath (rw_path e) scope, me_disposition = d, me_reasonCode = Some r\<rparr>"

definition baseDeletedEntry :: "scan_scope option \<Rightarrow> raw_entry \<Rightarrow> manifest_entry" where
  "baseDeletedEntry scope e = entry_with scope e Deleted_path Reason_deleted_path None"

definition excludedEntry :: "scan_scope option \<Rightarrow> raw_entry \<Rightarrow> nat option \<Rightarrow> manifest_entry" where
  "excludedEntry scope e bytes = entry_with scope e Excluded Profile_excluded bytes"

definition unsupportedEntry :: "scan_scope option \<Rightarrow> raw_entry \<Rightarrow> coverage_reason \<Rightarrow> manifest_entry" where
  "unsupportedEntry scope e reason = entry_with scope e Unsupported_path reason None"

definition tooLargeEntry :: "scan_scope option \<Rightarrow> raw_entry \<Rightarrow> nat \<Rightarrow> manifest_entry" where
  "tooLargeEntry scope e bytes = entry_with scope e Too_large File_too_large (Some bytes)"

definition gitlinkEntry :: "scan_scope option \<Rightarrow> raw_entry \<Rightarrow> manifest_entry" where
  "gitlinkEntry scope e = (unsupportedEntry scope e Gitlink_not_materialized)\<lparr>me_status := Gitlink\<rparr>"

definition is_binary :: "string \<Rightarrow> bool" where
  "is_binary content = (CHR 0x00 \<in> set (take 8192 content))"

definition contentEntry :: "(string \<Rightarrow> string) \<Rightarrow> scan_scope option \<Rightarrow> raw_entry \<Rightarrow> string \<Rightarrow> manifest_entry" where
  "contentEntry sha scope e content =
     (let scoped = matchesScopePath (rw_path e) scope; binary = is_binary content
      in (entry_with scope e (if \<not> scoped then Excluded else if binary then Unsupported_path else Scan) Profile_excluded (Some (length content)))
           \<lparr>me_contentSha256 := Some (sha content), me_binary := binary,
            me_reasonCode := (if \<not> scoped then Some Profile_excluded else if binary then Some Binary_not_supported else None)\<rparr>)"

definition max_files :: nat where "max_files = 5000"
definition max_total_bytes :: nat where "max_total_bytes = 512 * 1024 * 1024"
definition max_single_file_bytes :: nat where "max_single_file_bytes = 20 * 1024 * 1024"

definition over_files :: "nat \<Rightarrow> bool" where
  "over_files n = (n > max_files)"

definition over_total :: "nat \<Rightarrow> bool" where
  "over_total n = (n > max_total_bytes)"

definition over_single :: "nat \<Rightarrow> bool" where
  "over_single n = (n > max_single_file_bytes)"

lemma over_code [code]: "over_files n = (int n > 5000)" "over_total n = (int n > 536870912)" "over_single n = (int n > 20971520)"
  by (auto simp: over_files_def over_total_def over_single_def max_files_def max_total_bytes_def max_single_file_bytes_def)

section \<open>Committed entries\<close>

record tree_entry =
  te_mode :: string
  te_type :: string
  te_objectId :: string
  te_size :: "nat option"

record git_env =
  ge_blob :: "string \<Rightarrow> (diff_failure, string) result" \<comment> \<open>\<open>git cat-file blob\<close>\<close>
  ge_decode :: "string \<Rightarrow> string option" \<comment> \<open>\<open>TextDecoder\<close> with \<open>fatal\<close>\<close>
  ge_sha :: "string \<Rightarrow> string"

datatype committed_content =
    Content string
  | Content_too_large nat
  | Content_excluded "nat option"
  | Content_unsupported coverage_reason

fun readCommittedContent ::
    "git_env \<Rightarrow> scan_scope option \<Rightarrow> string \<Rightarrow> (string, tree_entry) jsmap \<Rightarrow> string \<Rightarrow> nat
      \<Rightarrow> (string \<times> string) list \<Rightarrow> string \<Rightarrow> tree_entry \<Rightarrow> (diff_failure, committed_content) result" where
  \<comment> \<open>the number is how many links may still be followed, 32 at first; then what was visited, the current path and entry\<close>
  "readCommittedContent env scope prefix tree entryPath 0 visited path e = Inr (Content_unsupported Symlink_target_not_materialized)"
| "readCommittedContent env scope prefix tree entryPath (Suc n) visited path e =
     (if path \<noteq> entryPath \<and> \<not> matchesScopePath path scope then Inr (Content_excluded (te_size e))
      else if te_mode e = ''160000'' \<or> te_type e \<noteq> ''blob'' then Inr (Content_unsupported Unsupported_file_type)
      else if te_size e \<noteq> None \<and> over_single (the (te_size e)) then Inr (Content_too_large (the (te_size e)))
      else if (path, te_objectId e) \<in> set visited then Inr (Content_unsupported Symlink_target_not_materialized)
      else then_do (ge_blob env (te_objectId e)) (\<lambda>content.
        if te_mode e \<noteq> ''120000'' then Inr (Content content)
        else (case ge_decode env content of
            None \<Rightarrow> Inr (Content_unsupported Symlink_target_not_materialized)
          | Some linkTarget \<Rightarrow>
              (if symlinkTargetEscapesProject path linkTarget then Inr (Content_unsupported Symlink_escape)
               else then_do (fromProjectPath (link_destination path linkTarget) prefix) (\<lambda>gitPath.
                 case jm_get tree gitPath of
                   None \<Rightarrow> Inr (Content_unsupported Symlink_target_not_materialized)
                 | Some target \<Rightarrow> readCommittedContent env scope prefix tree entryPath n ((path, te_objectId e) # visited)
                     (link_destination path linkTarget) target)))))"

definition accountBytes :: "nat \<Rightarrow> nat \<Rightarrow> (diff_failure, nat) result" where
  "accountBytes account bytes = (if over_total (account + bytes) then Inl (Resolution Diff_target_too_large) else Inr (account + bytes))"

definition account_later :: "bool \<Rightarrow> nat \<Rightarrow> nat \<Rightarrow> (diff_failure, nat) result" where
  \<comment> \<open>\<open>if (!sizePreAccounted) accountBytes(bytes)\<close>\<close>
  "account_later before account bytes = (if before then Inr account else accountBytes account bytes)"

type_synonym enriched = "manifest_entry list \<times> nat"

definition resolved_entry ::
    "git_env \<Rightarrow> scan_scope option \<Rightarrow> raw_entry \<Rightarrow> bool \<Rightarrow> enriched \<Rightarrow> committed_content \<Rightarrow> (diff_failure, enriched) result" where
  "resolved_entry env scope e before st c = (case c of
       Content_too_large bytes \<Rightarrow> then_do (account_later before (snd st) bytes) (\<lambda>t. Inr (fst st @ [tooLargeEntry scope e bytes], t))
     | Content_unsupported reason \<Rightarrow> Inr (fst st @ [unsupportedEntry scope e reason], snd st)
     | Content_excluded bytes \<Rightarrow> then_do (account_later before (snd st) (or_else bytes 0)) (\<lambda>t. Inr (fst st @ [excludedEntry scope e bytes], t))
     | Content content \<Rightarrow> then_do (account_later before (snd st) (length content)) (\<lambda>t.
         Inr (fst st @ [contentEntry (ge_sha env) scope e content], t)))"

definition committed_step ::
    "git_env \<Rightarrow> scan_scope option \<Rightarrow> string \<Rightarrow> (string, tree_entry) jsmap \<Rightarrow> enriched \<Rightarrow> raw_entry \<Rightarrow> (diff_failure, enriched) result" where
  "committed_step env scope prefix tree st e =
     (if rw_status e = Deleted then Inr (fst st @ [baseDeletedEntry scope e], snd st)
      else if rw_status e = Unmerged then Inr (fst st @ [unsupportedEntry scope e Unmerged_path], snd st)
      else then_do (fromProjectPath (rw_path e) prefix) (\<lambda>gitPath. case jm_get tree gitPath of
          None \<Rightarrow> Inr (fst st @ [unsupportedEntry scope e Unsupported_file_type], snd st)
        | Some te \<Rightarrow>
            (if te_mode te = ''160000'' \<or> te_type te = ''commit'' then Inr (fst st @ [gitlinkEntry scope e], snd st)
             else (let before = (te_mode te \<noteq> ''120000'' \<and> te_size te \<noteq> None)
                   in then_do (if before then accountBytes (snd st) (the (te_size te)) else Inr (snd st)) (\<lambda>t.
                      then_do (readCommittedContent env scope prefix tree (rw_path e) 32 [] (rw_path e) te) (\<lambda>c.
                        resolved_entry env scope e before (fst st, t) c))))))"

definition enrichCommittedEntries ::
    "git_env \<Rightarrow> scan_scope option \<Rightarrow> string \<Rightarrow> (string, tree_entry) jsmap \<Rightarrow> raw_entry list \<Rightarrow> (diff_failure, manifest_entry list) result" where
  \<comment> \<open>\<open>tree\<close> is what \<open>readTreeEntries\<close> reads from \<open>git ls-tree\<close>\<close>
  "enrichCommittedEntries env scope prefix tree rawEntries =
     then_do (fold_result (committed_step env scope prefix tree) ([], 0) rawEntries) (\<lambda>st. Inr (fst st))"

section \<open>Entries of the working tree\<close>

datatype file_kind = Regular_file | Symbolic_link | Other_kind

record file_stat =
  fs_kind :: file_kind
  fs_size :: nat

record work_env =
  we_indexMode :: "string \<Rightarrow> string option" \<comment> \<open>\<open>git ls-files --stage\<close>\<close>
  we_lstat :: "string \<Rightarrow> file_stat option"
  we_stat :: "string \<Rightarrow> file_stat option"
  we_realpath :: "string \<Rightarrow> string option option" \<comment> \<open>none if it fails; the path relative to the project, if it lies in it\<close>
  we_read :: "string \<Rightarrow> (diff_failure, string) result"
  we_sha :: "string \<Rightarrow> string"

definition sized_entry :: "work_env \<Rightarrow> scan_scope option \<Rightarrow> raw_entry \<Rightarrow> nat \<Rightarrow> enriched \<Rightarrow> (diff_failure, enriched) result" where
  "sized_entry env scope e bytes st =
     (if over_single bytes then Inr (fst st @ [tooLargeEntry scope e bytes], snd st)
      else then_do (we_read env (rw_path e)) (\<lambda>content. Inr (fst st @ [contentEntry (we_sha env) scope e content], snd st)))"

definition linked_entry :: "work_env \<Rightarrow> scan_scope option \<Rightarrow> raw_entry \<Rightarrow> nat \<Rightarrow> enriched \<Rightarrow> (diff_failure, enriched) result" where
  \<comment> \<open>the path is a symbolic link, itself of the given bytes\<close>
  "linked_entry env scope e bytes st = (case we_realpath env (rw_path e) of
       None \<Rightarrow> Inr (fst st @ [unsupportedEntry scope e Symlink_target_not_materialized], snd st)
     | Some None \<Rightarrow> then_do (accountBytes (snd st) bytes) (\<lambda>t.
         Inr (fst st @ [entry_with scope e Unsupported_path Symlink_escape (Some bytes)], t))
     | Some (Some relative) \<Rightarrow> (case we_stat env (rw_path e) of
           Some target \<Rightarrow>
             (if fs_kind target = Regular_file
              then then_do (accountBytes (snd st) (fs_size target)) (\<lambda>t.
                if \<not> matchesScopePath (normalizeProjectPrefix relative) scope
                then Inr (fst st @ [excludedEntry scope e (Some (fs_size target))], t)
                else sized_entry env scope e (fs_size target) (fst st, t))
              else Inr (fst st @ [unsupportedEntry scope e Unsupported_file_type], snd st))
         | None \<Rightarrow> Inr (fst st @ [unsupportedEntry scope e Unsupported_file_type], snd st)))"

definition stays_inside :: "string \<Rightarrow> bool" where
  \<comment> \<open>\<open>isInside(path.resolve(root, p), root)\<close> of a relative path\<close>
  "stays_inside p = (\<not> starts_with p ''/'' \<and> \<not> leaves_project (posix_normalize p))"

definition working_step ::
    "work_env \<Rightarrow> scan_scope option \<Rightarrow> string \<Rightarrow> enriched \<Rightarrow> raw_entry \<Rightarrow> (diff_failure, enriched) result" where
  "working_step env scope prefix st e =
     (if rw_status e = Deleted then Inr (fst st @ [baseDeletedEntry scope e], snd st)
      else if rw_status e = Unmerged then Inr (fst st @ [unsupportedEntry scope e Unmerged_path], snd st)
      else then_do (fromProjectPath (rw_path e) prefix) (\<lambda>gitPath.
        if we_indexMode env gitPath = Some ''160000'' then Inr (fst st @ [gitlinkEntry scope e], snd st)
        else if \<not> stays_inside (rw_path e) then Inl (Resolution Invalid_diff_path)
        else (case we_lstat env (rw_path e) of
            None \<Rightarrow> Inr (fst st @ [unsupportedEntry scope e Path_not_materialized], snd st)
          | Some stat \<Rightarrow> (case fs_kind stat of
                Symbolic_link \<Rightarrow> linked_entry env scope e (fs_size stat) st
              | Other_kind \<Rightarrow> Inr (fst st @ [unsupportedEntry scope e Unsupported_file_type], snd st)
              | Regular_file \<Rightarrow> then_do (accountBytes (snd st) (fs_size stat)) (\<lambda>t.
                  sized_entry env scope e (fs_size stat) (fst st, t))))))"

definition enrichWorkingTreeEntries ::
    "work_env \<Rightarrow> scan_scope option \<Rightarrow> string \<Rightarrow> raw_entry list \<Rightarrow> (diff_failure, manifest_entry list) result" where
  "enrichWorkingTreeEntries env scope prefix rawEntries =
     then_do (fold_result (working_step env scope prefix) ([], 0) rawEntries) (\<lambda>st. Inr (fst st))"

section \<open>The diff\<close>

datatype scan_target =
    Commit_target string "string option" \<comment> \<open>head and base\<close>
  | Range_target string string \<comment> \<open>base and head\<close>
  | Working_tree_target "string option" bool \<comment> \<open>base and \<open>includeUntracked\<close>\<close>

record resolver_env =
  rv_git :: "string list \<Rightarrow> (diff_failure, string) result" \<comment> \<open>\<open>runGitCommand\<close>: the standard output\<close>
  rv_text :: "string \<Rightarrow> string" \<comment> \<open>\<open>toString("utf8")\<close>\<close>
  rv_realpath :: "string \<Rightarrow> (diff_failure, string) result"
  rv_relative :: "string \<Rightarrow> string" \<comment> \<open>\<open>path.relative\<close> from a Git root to the project\<close>
  rv_tree :: "string \<Rightarrow> string \<Rightarrow> (diff_failure, (string, tree_entry) jsmap) result" \<comment> \<open>\<open>readTreeEntries\<close> of a commit\<close>
  rv_blobs :: git_env
  rv_work :: work_env

definition runGitText :: "resolver_env \<Rightarrow> string list \<Rightarrow> (diff_failure, string) result" where
  "runGitText env args = then_do (rv_git env args) (\<lambda>out. Inr (rv_text env out))"

definition catch :: "(diff_failure, 'a) result \<Rightarrow> diff_failure \<Rightarrow> (diff_failure, 'a) result" where
  "catch r f = (case r of Inl e \<Rightarrow> Inl f | Inr x \<Rightarrow> Inr x)"

definition control_char :: "char \<Rightarrow> bool" where
  "control_char c = (code_of c \<le> 0x1F \<or> code_of c = 0x7F)"

definition object_id :: "string \<Rightarrow> bool" where
  "object_id s = (40 \<le> length s \<and> length s \<le> 64 \<and> list_all (\<lambda>c. is_digit c \<or> js_lower [c] \<in> {''a'', ''b'', ''c'', ''d'', ''e'', ''f''}) s)"

definition resolveCommit :: "resolver_env \<Rightarrow> string \<Rightarrow> (diff_failure, string) result" where
  "resolveCommit env ref =
     (if ref = [] \<or> length ref > 1024 \<or> starts_with ref ''-'' \<or> list_ex control_char ref then Inl (Resolution Git_ref_not_found)
      else catch (then_do (runGitText env [''rev-parse'', ''--verify'', ref @ ''^{commit}'']) (\<lambda>out.
        if object_id (js_trim out) then Inr (js_trim out) else Inl Other_failure)) (Resolution Git_ref_not_found))"

definition space_words :: "string \<Rightarrow> string list" where
  \<comment> \<open>\<open>split(/\s+/).filter(Boolean)\<close>\<close>
  "space_words s = filter (\<lambda>w. w \<noteq> []) (split_at (CHR '' '') (map (\<lambda>c. if is_space c then CHR '' '' else c) s))"

definition resolveEmptyTree :: "resolver_env \<Rightarrow> (diff_failure, string) result" where
  "resolveEmptyTree env = then_do (runGitText env [''hash-object'', ''-t'', ''tree'', ''--stdin'']) (\<lambda>out. Inr (js_trim out))"

record revisions =
  rev_baseSha :: string
  rev_headSha :: "string option"
  rev_mergeBaseSha :: "string option"

definition resolveRevisions :: "resolver_env \<Rightarrow> scan_target \<Rightarrow> (diff_failure, revisions) result" where
  "resolveRevisions env target = (case target of
       Working_tree_target base untracked \<Rightarrow> then_do (resolveCommit env (or_else base ''HEAD'')) (\<lambda>b.
         Inr \<lparr>rev_baseSha = b, rev_headSha = None, rev_mergeBaseSha = None\<rparr>)
     | Range_target base head \<Rightarrow> then_do (resolveCommit env head) (\<lambda>h. then_do (resolveCommit env base) (\<lambda>b.
         catch (then_do (runGitText env [''merge-base'', b, h]) (\<lambda>out.
           if js_trim out = [] then Inl Other_failure
           else Inr \<lparr>rev_baseSha = js_trim out, rev_headSha = Some h, rev_mergeBaseSha = Some (js_trim out)\<rparr>))
           (Resolution Merge_base_not_found)))
     | Commit_target head base \<Rightarrow> then_do (resolveCommit env head) (\<lambda>h.
         if or_else base [] \<noteq> [] then then_do (resolveCommit env (the base)) (\<lambda>b.
           Inr \<lparr>rev_baseSha = b, rev_headSha = Some h, rev_mergeBaseSha = None\<rparr>)
         else then_do (runGitText env [''rev-list'', ''--parents'', ''-n'', ''1'', h]) (\<lambda>out.
           let parents = drop 1 (space_words out) in
           if length parents > 1 then Inl (Resolution Ambiguous_commit_parent)
           else then_do (case parents of [] \<Rightarrow> resolveEmptyTree env | p # ps \<Rightarrow> Inr p) (\<lambda>b.
             Inr \<lparr>rev_baseSha = b, rev_headSha = Some h, rev_mergeBaseSha = None\<rparr>))))"

definition diff_args :: "string list \<Rightarrow> string \<Rightarrow> string list" where
  "diff_args shas prefix = [''diff'', ''--name-status'', ''-z'', ''--find-renames'', ''--find-copies'', ''--find-copies-harder'', ''--no-ext-diff'']
     @ shas @ [''--''] @ pathspec prefix"

definition resolveCommittedEntries ::
    "resolver_env \<Rightarrow> collation \<Rightarrow> string \<Rightarrow> string \<Rightarrow> string \<Rightarrow> (diff_failure, raw_entry list) result" where
  "resolveCommittedEntries env lc prefix baseSha headSha =
     then_do (rv_git env (diff_args [baseSha, headSha] prefix)) (\<lambda>out. parseNameStatus (ge_decode (rv_blobs env)) lc out prefix)"

definition unmerged_entry :: "string \<Rightarrow> string \<Rightarrow> (diff_failure, raw_entry) result" where
  "unmerged_entry prefix line =
     (if CHR 0x09 \<notin> set line then Inl (Resolution Invalid_diff_path)
      else then_do (toProjectPath (drop 1 (dropWhile (\<lambda>c. c \<noteq> CHR 0x09) line)) prefix) (\<lambda>p. Inr (raw Unmerged p)))"

definition resolveWorkingTreeEntries ::
    "resolver_env \<Rightarrow> collation \<Rightarrow> string \<Rightarrow> string \<Rightarrow> bool \<Rightarrow> (diff_failure, raw_entry list) result" where
  "resolveWorkingTreeEntries env lc prefix baseSha includeUntracked =
     (let decode = ge_decode (rv_blobs env) in
      then_do (rv_git env (diff_args [baseSha] prefix)) (\<lambda>out. then_do (parseNameStatus decode lc out prefix) (\<lambda>tracked.
      then_do (rv_git env ([''ls-files'', ''--unmerged'', ''-z'', ''--''] @ pathspec prefix)) (\<lambda>out.
      then_do (splitNul decode out) (\<lambda>lines. then_do (map_result (unmerged_entry prefix) lines) (\<lambda>unmerged.
        let conflicts = dedupeRawEntries lc (tracked @ unmerged) in
        if \<not> includeUntracked then Inr conflicts
        else then_do (rv_git env ([''ls-files'', ''--others'', ''--exclude-standard'', ''-z'', ''--''] @ pathspec prefix)) (\<lambda>out.
          then_do (splitNul decode out) (\<lambda>paths.
          then_do (map_result (\<lambda>p. then_do (toProjectPath p prefix) (\<lambda>q. Inr (raw Untracked q))) paths) (\<lambda>untracked.
            Inr (dedupeRawEntries lc (conflicts @ untracked)))))))))))"

definition sortEntries :: "collation \<Rightarrow> manifest_entry list \<Rightarrow> manifest_entry list" where
  "sortEntries lc entries = js_sort (\<lambda>l r. or_compare (lc (me_path l) (me_path r))
     (or_compare (lc (or_else (me_oldPath l) []) (or_else (me_oldPath r) [])) (lc (status_text (me_status l)) (status_text (me_status r))))) entries"

record resolved_diff =
  rd_projectPrefix :: string
  rd_requested :: scan_target
  rd_revisions :: revisions
  rd_includeUntracked :: bool
  rd_entries :: "manifest_entry list"

definition resolveGitRoot :: "resolver_env \<Rightarrow> (diff_failure, string) result" where
  "resolveGitRoot env =
     (case then_do (runGitText env [''rev-parse'', ''--show-toplevel'']) (\<lambda>out. rv_realpath env (js_trim out)) of
        Inr path \<Rightarrow> Inr path
      | Inl (Git_command err) \<Rightarrow>
          Inl (if contains_text (js_lower err) ''not a git repository'' \<or> contains_text (js_lower err) ''must be run in a work tree''
               then Resolution Not_a_git_repository else Git_command err)
      | Inl f \<Rightarrow> Inl f)"

definition changed_entries ::
    "resolver_env \<Rightarrow> collation \<Rightarrow> scan_target \<Rightarrow> string \<Rightarrow> revisions \<Rightarrow> (diff_failure, raw_entry list) result" where
  "changed_entries env lc target prefix revs = (case target of
       Working_tree_target base untracked \<Rightarrow> resolveWorkingTreeEntries env lc prefix (rev_baseSha revs) untracked
     | _ \<Rightarrow> resolveCommittedEntries env lc prefix (rev_baseSha revs) (or_else (rev_headSha revs) []))"

definition enriched_entries ::
    "resolver_env \<Rightarrow> scan_scope option \<Rightarrow> scan_target \<Rightarrow> string \<Rightarrow> revisions \<Rightarrow> raw_entry list \<Rightarrow> (diff_failure, manifest_entry list) result" where
  "enriched_entries env scope target prefix revs rawEntries = (case target of
       Working_tree_target base untracked \<Rightarrow> enrichWorkingTreeEntries (rv_work env) scope prefix rawEntries
     | _ \<Rightarrow> then_do (rv_tree env (or_else (rev_headSha revs) []) prefix) (\<lambda>tree.
         enrichCommittedEntries (rv_blobs env) scope prefix tree rawEntries))"

definition resolveGitDiff ::
    "resolver_env \<Rightarrow> collation \<Rightarrow> string option \<Rightarrow> scan_target \<Rightarrow> scan_scope option \<Rightarrow> (diff_failure, resolved_diff) result" where
  \<comment> \<open>\<open>projectRoot\<close> is the real path of the project, if it can be read\<close>
  "resolveGitDiff env lc projectRoot target scope =
     (if projectRoot = None then Inl (Resolution Not_a_git_repository)
      else then_do (resolveGitRoot env) (\<lambda>gitRoot.
        let prefix = normalizeProjectPrefix (rv_relative env gitRoot) in
        if starts_with prefix ''../'' \<or> starts_with prefix ''/'' then Inl (Resolution Not_a_git_repository)
        else if prefix = ''.git'' \<or> starts_with prefix ''.git/'' then Inl (Resolution Not_a_git_repository)
        else then_do (resolveRevisions env target) (\<lambda>revs.
          then_do (changed_entries env lc target prefix revs) (\<lambda>rawEntries.
            if over_files (length rawEntries) then Inl (Resolution Diff_target_too_large)
            else then_do (enriched_entries env scope target prefix revs rawEntries) (\<lambda>entries.
              if over_total (sum_list (map (\<lambda>e. or_else (me_sizeBytes e) 0) entries)) then Inl (Resolution Diff_target_too_large)
              else Inr \<lparr>rd_projectPrefix = prefix, rd_requested = target, rd_revisions = revs,
                rd_includeUntracked = (case target of Working_tree_target b u \<Rightarrow> u | _ \<Rightarrow> False),
                rd_entries = sortEntries lc entries\<rparr>)))))"

definition mapGitError :: "diff_failure \<Rightarrow> diff_failure" where
  "mapGitError f = (case f of Resolution c \<Rightarrow> f | _ \<Rightarrow> Resolution Snapshot_materialization_failed)"

lemmas limit_defs = over_files_def over_total_def over_single_def

section \<open>Safe paths\<close>

definition safe_relative :: "string \<Rightarrow> bool" where
  "safe_relative p = (p \<noteq> [] \<and> CHR 0x00 \<notin> set p \<and> \<not> starts_with p ''/'' \<and> ''..'' \<notin> set (split_at (CHR ''/'') p))"

lemma normalized_safe: "normalizeRelativePath v = Inr p \<Longrightarrow> safe_relative p"
  by (auto simp: normalizeRelativePath_def safe_relative_def Let_def split: if_splits)

lemma project_path_safe: "toProjectPath v prefix = Inr p \<Longrightarrow> safe_relative p"
  by (auto simp: toProjectPath_def then_do_Inr Let_def dest: normalized_safe split: if_splits)

lemma moved_safe: "moved_entry prefix r old new = Inr es \<Longrightarrow> e \<in> set es \<Longrightarrow> safe_relative (rw_path e)"
  by (auto simp: moved_entry_def then_do_Inr raw_def dest: project_path_safe split: if_splits)

lemma parsed_safe: "parse_records prefix ts = Inr es \<Longrightarrow> e \<in> set es \<Longrightarrow> safe_relative (rw_path e)"
proof (induction prefix ts arbitrary: es rule: parse_records.induct)
  case (2 prefix st ts)
  show ?case
  proof (cases "hd st = CHR ''R'' \<or> hd st = CHR ''C''")
    case True
    then obtain old new rest es1 es2 where "ts = old # new # rest" "moved_entry prefix (hd st = CHR ''R'') old new = Inr es1"
      "parse_records prefix rest = Inr es2" "es = es1 @ es2"
      using 2(3) by (auto simp: then_do_Inr split: if_splits list.splits)
    then show ?thesis using 2 True moved_safe by (auto split: if_splits)
  next
    case False
    then obtain p rest s new es2 where "ts = p # rest" "toProjectPath p prefix = Inr new" "parse_records prefix rest = Inr es2" "es = raw s new # es2"
      using 2(3) by (auto simp: then_do_Inr split: if_splits list.splits)
    then show ?thesis using 2 False project_path_safe by (auto simp: raw_def split: if_splits)
  qed
qed simp

lemma deduped:
  "distinct (map rw_path (dedupeRawEntries lc es))" "set (dedupeRawEntries lc es) \<subseteq> set es"
  "set (map rw_path (dedupeRawEntries lc es)) = set (map rw_path es)"
proof -
  let ?m = "jm_of_list (map (\<lambda>e. (rw_path e, e)) es)"
  have in_es: "(k, v) \<in> set ?m \<Longrightarrow> v \<in> set es \<and> rw_path v = k" for k v
    using jm_get_of_list_in [of "map (\<lambda>e. (rw_path e, e)) es" k v] jm_inv_of_list [of "map (\<lambda>e. (rw_path e, e)) es"]
    by (auto simp: jm_inv_def jm_get_def jm_keys_def)
  have keys: "map rw_path (jm_values ?m) = jm_keys ?m" using in_es by (auto simp: jm_values_def jm_keys_def)
  have "mset (map rw_path (dedupeRawEntries lc es)) = mset (jm_keys ?m)" unfolding dedupeRawEntries_def by (simp flip: keys)
  moreover have "distinct (jm_keys ?m)" using jm_inv_of_list by (simp add: jm_inv_def)
  ultimately show "distinct (map rw_path (dedupeRawEntries lc es))" by (metis mset_eq_imp_distinct_iff)
  show "set (dedupeRawEntries lc es) \<subseteq> set es" using in_es by (auto simp: dedupeRawEntries_def jm_values_def)
  have "k \<in> set (jm_keys ?m) \<longleftrightarrow> k \<in> set (map rw_path es)" for k
    using jm_get_of_list_None [of "map (\<lambda>e. (rw_path e, e)) es" k]
    by (simp add: jm_get_def jm_keys_def map_of_eq_None_iff image_image)
  then have "set (jm_keys ?m) = set (map rw_path es)" by blast
  then show "set (map rw_path (dedupeRawEntries lc es)) = set (map rw_path es)"
    using \<open>mset (map rw_path (dedupeRawEntries lc es)) = mset (jm_keys ?m)\<close> by (metis mset_eq_setD)
qed

lemma name_status_paths:
  assumes "parseNameStatus decode lc out prefix = Inr es"
  shows "distinct (map rw_path es)" and "list_all (\<lambda>e. safe_relative (rw_path e)) es"
  using assms deduped parsed_safe by (auto simp: parseNameStatus_def then_do_Inr list_all_iff) blast

section \<open>Every path once\<close>

definition disposition_ok :: "manifest_entry \<Rightarrow> bool" where
  \<comment> \<open>a disposition and its reason belong together, and only a text in scope is scanned\<close>
  "disposition_ok m =
     ((case me_disposition m of
         Scan \<Rightarrow> me_reasonCode m = None \<and> me_inProfileScope m \<and> \<not> me_binary m \<and> me_contentSha256 m \<noteq> None \<and> me_sizeBytes m \<noteq> None
       | Deleted_path \<Rightarrow> me_reasonCode m = Some Reason_deleted_path \<and> me_status m = Deleted
       | Excluded \<Rightarrow> me_reasonCode m = Some Profile_excluded
       | Unsupported_path \<Rightarrow> me_reasonCode m \<notin> {None, Some Reason_deleted_path, Some Profile_excluded, Some File_too_large}
       | Too_large \<Rightarrow> me_reasonCode m = Some File_too_large \<and> (\<exists>n > max_single_file_bytes. me_sizeBytes m = Some n)))"

definition entry_of :: "scan_scope option \<Rightarrow> raw_entry \<Rightarrow> manifest_entry \<Rightarrow> bool" where
  "entry_of scope e m = (me_path m = rw_path e \<and> me_inProfileScope m = matchesScopePath (rw_path e) scope
     \<and> (me_status m = rw_status e \<or> me_status m = Gitlink) \<and> disposition_ok m)"

lemma entry_kinds:
  "rw_status e = Deleted \<Longrightarrow> entry_of scope e (baseDeletedEntry scope e)"
  "entry_of scope e (excludedEntry scope e n)"
  "r \<notin> {Reason_deleted_path, Profile_excluded, File_too_large} \<Longrightarrow> entry_of scope e (unsupportedEntry scope e r)"
  "entry_of scope e (entry_with scope e Unsupported_path Symlink_escape n)"
  "b > max_single_file_bytes \<Longrightarrow> entry_of scope e (tooLargeEntry scope e b)"
  "entry_of scope e (gitlinkEntry scope e)"
  "entry_of scope e (contentEntry sha scope e content)"
  by (auto simp: entry_of_def disposition_ok_def baseDeletedEntry_def excludedEntry_def unsupportedEntry_def tooLargeEntry_def
      gitlinkEntry_def contentEntry_def entry_with_def Let_def)

definition appends :: "scan_scope option \<Rightarrow> raw_entry \<Rightarrow> enriched \<Rightarrow> enriched \<Rightarrow> bool" where
  "appends scope e st st' = (\<exists>m t. st' = (fst st @ [m], t) \<and> entry_of scope e m)"

lemma appendsI: "entry_of scope e m \<Longrightarrow> fst st = ms \<Longrightarrow> appends scope e st (ms @ [m], t)"
  by (auto simp: appends_def)

definition content_ok :: "committed_content \<Rightarrow> bool" where
  "content_ok c = (case c of Content_too_large b \<Rightarrow> b > max_single_file_bytes
     | Content_unsupported r \<Rightarrow> r \<notin> {Reason_deleted_path, Profile_excluded, File_too_large} | _ \<Rightarrow> True)"

lemma read_cases:
  assumes "readCommittedContent env scope prefix tree p0 (Suc n) visited path e = Inr c"
  obtains (none) "content_ok c" "\<forall>x. c \<noteq> Content x"
  | (blob) x where "c = Content x" "ge_blob env (te_objectId e) = Inr x" "te_type e = ''blob''" "te_mode e \<notin> {''120000'', ''160000''}"
      "path = p0 \<or> matchesScopePath path scope" "\<forall>b. te_size e = Some b \<longrightarrow> b \<le> max_single_file_bytes"
  | (link) l gitPath target where "\<not> symlinkTargetEscapesProject path l" "fromProjectPath (link_destination path l) prefix = Inr gitPath"
      "jm_get tree gitPath = Some target"
      "readCommittedContent env scope prefix tree p0 n ((path, te_objectId e) # visited) (link_destination path l) target = Inr c"
proof (cases "path \<noteq> p0 \<and> \<not> matchesScopePath path scope \<or> te_mode e = ''160000'' \<or> te_type e \<noteq> ''blob''
    \<or> te_size e \<noteq> None \<and> over_single (the (te_size e)) \<or> (path, te_objectId e) \<in> set visited")
  case True
  then show ?thesis using assms none by (auto simp: content_ok_def over_single_def split: if_splits)
next
  case False
  then obtain x where x: "ge_blob env (te_objectId e) = Inr x" using assms by (auto simp: then_do_Inr)
  show ?thesis
  proof (cases "te_mode e = ''120000''")
    case False
    then have "c = Content x" using assms \<open>\<not> (path \<noteq> p0 \<and> _ \<or> _)\<close> x by (auto simp: then_do_Inr)
    then show ?thesis using blob [OF _ x] False \<open>\<not> (path \<noteq> p0 \<and> _ \<or> _)\<close> by (cases "te_size e") (auto simp: over_single_def)
  next
    case True
    note step = assms [unfolded readCommittedContent.simps]
    show ?thesis
    proof (cases "ge_decode env x")
      case None
      then show ?thesis using assms True \<open>\<not> (path \<noteq> p0 \<and> _ \<or> _)\<close> x none by (auto simp: then_do_def content_ok_def)
    next
      case (Some l)
      then have rest: "(if symlinkTargetEscapesProject path l then Inr (Content_unsupported Symlink_escape)
          else then_do (fromProjectPath (link_destination path l) prefix) (\<lambda>gitPath.
            case jm_get tree gitPath of None \<Rightarrow> Inr (Content_unsupported Symlink_target_not_materialized)
            | Some target \<Rightarrow> readCommittedContent env scope prefix tree p0 n ((path, te_objectId e) # visited) (link_destination path l) target)) = Inr c"
        using assms True \<open>\<not> (path \<noteq> p0 \<and> _ \<or> _)\<close> x by (cases "te_size e") (auto simp: then_do_def)
      then show ?thesis using none link [of l] by (auto simp: then_do_Inr content_ok_def split: if_splits option.splits)
    qed
  qed
qed

lemma readCommittedContent_ok: "readCommittedContent env scope prefix tree p0 n visited path e = Inr c \<Longrightarrow> content_ok c"
proof (induction n arbitrary: visited path e)
  case (Suc n)
  from Suc(2) show ?case by (rule read_cases) (use Suc(1) in \<open>auto simp: content_ok_def\<close>)
qed (auto simp: content_ok_def)

lemma resolved_entry_appends:
  "resolved_entry env scope e before st c = Inr st' \<Longrightarrow> content_ok c \<Longrightarrow> appends scope e st st'"
  by (auto simp: resolved_entry_def then_do_Inr content_ok_def intro!: appendsI entry_kinds split: committed_content.splits)

lemma committed_step_appends:
  assumes "committed_step env scope prefix tree st e = Inr st'"
  shows "appends scope e st st'"
proof (cases "rw_status e = Deleted \<or> rw_status e = Unmerged")
  case True
  then show ?thesis using assms by (auto simp: committed_step_def intro!: appendsI entry_kinds)
next
  case False
  then obtain gitPath where rest: "(case jm_get tree gitPath of
        None \<Rightarrow> Inr (fst st @ [unsupportedEntry scope e Unsupported_file_type], snd st)
      | Some te \<Rightarrow> (if te_mode te = ''160000'' \<or> te_type te = ''commit'' then Inr (fst st @ [gitlinkEntry scope e], snd st)
          else (let before = (te_mode te \<noteq> ''120000'' \<and> te_size te \<noteq> None)
                in then_do (if before then accountBytes (snd st) (the (te_size te)) else Inr (snd st)) (\<lambda>t.
                   then_do (readCommittedContent env scope prefix tree (rw_path e) 32 [] (rw_path e) te) (\<lambda>c.
                     resolved_entry env scope e before (fst st, t) c))))) = Inr st'"
    using assms unfolding committed_step_def then_do_Inr by (simp add: then_do_Inr) blast
  show ?thesis
  proof (cases "jm_get tree gitPath")
    case None
    then show ?thesis using rest by (auto intro!: appendsI entry_kinds)
  next
    case (Some te)
    show ?thesis
    proof (cases "te_mode te = ''160000'' \<or> te_type te = ''commit''")
      case True
      then show ?thesis using rest Some by (auto intro!: appendsI entry_kinds)
    next
      case False
      then obtain before t c where "readCommittedContent env scope prefix tree (rw_path e) 32 [] (rw_path e) te = Inr c"
        "resolved_entry env scope e before (fst st, t) c = Inr st'"
        using rest Some unfolding Let_def by (simp only: option.case if_False then_do_Inr) blast
      then show ?thesis using resolved_entry_appends [OF _ readCommittedContent_ok] by (fastforce simp: appends_def)
    qed
  qed
qed

lemma sized_entry_appends: "sized_entry env scope e b st = Inr st' \<Longrightarrow> appends scope e st st'"
  by (auto simp: sized_entry_def over_single_def then_do_Inr intro!: appendsI entry_kinds split: if_splits)

lemma linked_entry_appends: "linked_entry env scope e b st = Inr st' \<Longrightarrow> appends scope e st st'"
  by (auto simp: linked_entry_def then_do_Inr intro!: appendsI entry_kinds split: if_splits option.splits
      dest!: sized_entry_appends) (auto simp: appends_def)

lemma working_step_appends: "working_step env scope prefix st e = Inr st' \<Longrightarrow> appends scope e st st'"
  by (auto simp: working_step_def then_do_Inr intro!: appendsI entry_kinds split: if_splits option.splits file_kind.splits
      dest!: sized_entry_appends linked_entry_appends) (auto simp: appends_def)

lemma enriched_all:
  assumes "fold_result step st es = Inr st'" and "\<And>e st st'. step st e = Inr st' \<Longrightarrow> appends scope e st st'"
  shows "\<exists>ms. fst st' = fst st @ ms \<and> list_all2 (entry_of scope) es ms"
  using assms(1)
proof (induction es arbitrary: st)
  case (Cons e es)
  then obtain s1 where s1: "step st e = Inr s1" "fold_result step s1 es = Inr st'" by (auto split: sum.splits)
  obtain m t where m: "s1 = (fst st @ [m], t)" "entry_of scope e m" using assms(2) [OF s1(1)] by (auto simp: appends_def)
  obtain ms where "fst st' = fst s1 @ ms" "list_all2 (entry_of scope) es ms" using Cons(1) [OF s1(2)] by blast
  then show ?case using m by (intro exI [of _ "m # ms"]) simp
qed simp

lemma enriched_entries_all:
  assumes "enriched_entries env scope target prefix revs es = Inr ms"
  shows "list_all2 (entry_of scope) es ms"
  using assms enriched_all [OF _ committed_step_appends] enriched_all [OF _ working_step_appends]
  by (fastforce simp: enriched_entries_def enrichCommittedEntries_def enrichWorkingTreeEntries_def then_do_Inr split: scan_target.splits)

lemma untracked_safe:
  assumes "map_result f xs = Inr es" and "\<And>x e. f x = Inr e \<Longrightarrow> safe_relative (rw_path e)"
  shows "list_all (\<lambda>e. safe_relative (rw_path e)) es"
  using map_result_dest [OF assms(1)] assms(2) by (auto simp: list_all2_conv_all_nth list_all_length)

lemma changed_paths:
  assumes "changed_entries env lc target prefix revs = Inr es"
  shows "distinct (map rw_path es)" and "list_all (\<lambda>e. safe_relative (rw_path e)) es"
proof -
  have "distinct (map rw_path es) \<and> list_all (\<lambda>e. safe_relative (rw_path e)) es"
  proof (cases "\<exists>base untracked. target = Working_tree_target base untracked")
    case False
    then show ?thesis using assms name_status_paths
      by (auto simp: changed_entries_def resolveCommittedEntries_def then_do_Inr split: scan_target.splits)
  next
    case True
    then obtain base untracked where t: "target = Working_tree_target base untracked" by blast
    obtain out tracked lines unmerged where
      u: "parseNameStatus (ge_decode (rv_blobs env)) lc out prefix = Inr tracked" "map_result (unmerged_entry prefix) lines = Inr unmerged"
      and rest: "es = dedupeRawEntries lc (tracked @ unmerged)
        \<or> (\<exists>paths new. map_result (\<lambda>p. then_do (toProjectPath p prefix) (\<lambda>q. Inr (raw Untracked q))) paths = Inr new
            \<and> es = dedupeRawEntries lc (dedupeRawEntries lc (tracked @ unmerged) @ new))"
      using assms unfolding t changed_entries_def resolveWorkingTreeEntries_def Let_def
      by (auto simp: then_do_Inr split: if_splits) blast+
    have new: "list_all (\<lambda>e. safe_relative (rw_path e)) new"
      if "map_result (\<lambda>p. then_do (toProjectPath p prefix) (\<lambda>q. Inr (raw Untracked q))) paths = Inr new" for paths new
      by (rule untracked_safe [OF that]) (auto simp: then_do_Inr raw_def dest: project_path_safe)
    have "list_all (\<lambda>e. safe_relative (rw_path e)) unmerged"
      by (rule untracked_safe [OF u(2)]) (auto simp: unmerged_entry_def then_do_Inr raw_def dest: project_path_safe split: if_splits)
    then have known: "list_all (\<lambda>e. safe_relative (rw_path e)) (tracked @ unmerged)" using name_status_paths(2) [OF u(1)] by simp
    have sub: "list_all P xs \<Longrightarrow> list_all P (dedupeRawEntries lc xs)" for P xs
      using deduped(2) [of lc xs] by (auto simp: list_all_iff)
    from rest show ?thesis using sub [OF known] new deduped(1) sub by (auto intro!: sub)
  qed
  then show "distinct (map rw_path es)" and "list_all (\<lambda>e. safe_relative (rw_path e)) es" by simp_all
qed

lemma resolve_cases:
  assumes "resolveGitDiff env lc projectRoot target scope = Inr d"
  obtains rawEntries entries where
    "changed_entries env lc target (rd_projectPrefix d) (rd_revisions d) = Inr rawEntries"
    "enriched_entries env scope target (rd_projectPrefix d) (rd_revisions d) rawEntries = Inr entries"
    "length rawEntries \<le> max_files" "sum_list (map (\<lambda>e. or_else (me_sizeBytes e) 0) entries) \<le> max_total_bytes"
    "rd_entries d = sortEntries lc entries"
  using assms by (auto simp: resolveGitDiff_def limit_defs then_do_Inr Let_def not_less split: if_splits)


text \<open>C29. A link never smuggles content into a diff scan: the content that is read for a changed path of a commit is that of
  the path's own blob, or of the blob that a chain of links reaches inside the project and inside the scope of the
  profile; it is never the text of a link, and a blob of known size is at most the limit for one file.\<close>

theorem linked_content_in_scope:
  assumes "readCommittedContent env scope prefix tree p 32 [] p e = Inr (Content c)"
  shows "\<exists>q t. ge_blob env (te_objectId t) = Inr c \<and> te_type t = ''blob'' \<and> te_mode t \<notin> {''120000'', ''160000''}
    \<and> (\<forall>b. te_size t = Some b \<longrightarrow> b \<le> 20 * 1024 * 1024)
    \<and> (q = p \<and> t = e \<or> (q = p \<or> matchesScopePath q scope) \<and> \<not> leaves_project q
        \<and> (\<exists>g. fromProjectPath q prefix = Inr g \<and> jm_get tree g = Some t))"
proof -
  define reached_by where "reached_by q t \<longleftrightarrow> (q = p \<and> t = e) \<or> (\<not> leaves_project q \<and> (\<exists>g. fromProjectPath q prefix = Inr g \<and> jm_get tree g = Some t))" for q t
  have "\<exists>q t. ge_blob env (te_objectId t) = Inr c \<and> te_type t = ''blob'' \<and> te_mode t \<notin> {''120000'', ''160000''}
      \<and> (\<forall>b. te_size t = Some b \<longrightarrow> b \<le> max_single_file_bytes) \<and> (q = p \<or> matchesScopePath q scope) \<and> reached_by q t"
    if "readCommittedContent env scope prefix tree p n visited q t = Inr (Content c)" "reached_by q t" for n visited q t
    using that
  proof (induction n arbitrary: visited q t)
    case (Suc n)
    from Suc(2) show ?case
    proof (rule read_cases)
      fix l gitPath target
      assume "\<not> symlinkTargetEscapesProject q l" "fromProjectPath (link_destination q l) prefix = Inr gitPath" "jm_get tree gitPath = Some target"
        and "readCommittedContent env scope prefix tree p n ((q, te_objectId t) # visited) (link_destination q l) target = Inr (Content c)"
      then show ?case by (intro Suc(1)) (auto simp: reached_by_def symlinkTargetEscapesProject_def)
    qed (use Suc(3) in auto)
  qed simp
  from this [OF assms] show ?thesis by (auto simp: reached_by_def max_single_file_bytes_def)
qed

text \<open>Defect. A committed link at the top of the project to its own directory, written \<open>./\<close>, stops the whole diff: the
  destination is normalised to \<open>./\<close>, which is refused as an invalid path instead of being entered as unsupported.
  The same link written as a single dot is entered as unsupported.\<close>

theorem link_to_own_directory_refused:
  assumes "te_mode e = ''120000''" and "te_type e = ''blob''" and "te_size e = Some (length target)" and "length target \<le> 2"
    and "ge_blob env (te_objectId e) = Inr target" and "ge_decode env target = Some target" and "jm_get tree ''link'' = Some e"
    and "jm_get tree ''.'' = None"
  shows "target = ''./'' \<Longrightarrow> enrichCommittedEntries env scope [] tree [raw Added ''link''] = Inl (Resolution Invalid_diff_path)"
    and "target = ''.'' \<Longrightarrow> enrichCommittedEntries env scope [] tree [raw Added ''link'']
      = Inr [unsupportedEntry scope (raw Added ''link'') Symlink_target_not_materialized]"
proof -
  have path: "fromProjectPath ''link'' [] = Inr ''link''" by code_simp
  have steps: "readCommittedContent env scope [] tree ''link'' 32 [] ''link'' e
      = readCommittedContent env scope [] tree ''link'' (Suc 31) [] ''link'' e" by simp
  have small: "\<not> over_single (length target)" using assms(4) by (simp add: over_single_def max_single_file_bytes_def)
  {
    assume t: "target = ''./''"
    have "\<not> symlinkTargetEscapesProject ''link'' ''./''"
      "fromProjectPath (link_destination ''link'' ''./'') [] = Inl (Resolution Invalid_diff_path)" by code_simp+
    then have "readCommittedContent env scope [] tree ''link'' 32 [] ''link'' e = Inl (Resolution Invalid_diff_path)"
      unfolding steps readCommittedContent.simps(2) using assms(1-6) small by (simp add: t then_do_def)
    then show "enrichCommittedEntries env scope [] tree [raw Added ''link''] = Inl (Resolution Invalid_diff_path)"
      using assms(1-3,7) path by (simp add: enrichCommittedEntries_def committed_step_def raw_def then_do_def)
  }
  {
    assume t: "target = ''.''"
    have "\<not> symlinkTargetEscapesProject ''link'' ''.''" "fromProjectPath (link_destination ''link'' ''.'') [] = Inr ''.''" by code_simp+
    then have "readCommittedContent env scope [] tree ''link'' 32 [] ''link'' e = Inr (Content_unsupported Symlink_target_not_materialized)"
      unfolding steps readCommittedContent.simps(2) using assms(1-6,8) small by (simp add: t then_do_def)
    then show "enrichCommittedEntries env scope [] tree [raw Added ''link'']
        = Inr [unsupportedEntry scope (raw Added ''link'') Symlink_target_not_materialized]"
      using assms(1-3,7) path by (simp add: enrichCommittedEntries_def committed_step_def raw_def then_do_def resolved_entry_def)
  }
qed

lemma large_file_outside_scope:
  \<comment> \<open>the size is looked at before the scope, so a large file outside the scope counts as a gap of the diff\<close>
  "b > max_single_file_bytes \<Longrightarrow> sized_entry env scope e b st = Inr (fst st @ [tooLargeEntry scope e b], snd st)"
  by (simp add: sized_entry_def over_single_def)

section \<open>An example\<close>

definition sample_blobs :: git_env where
  "sample_blobs = \<lparr>ge_blob = (\<lambda>i. Inr (if i = ''1'' then ''a.ts'' else ''x'')), ge_decode = Some, ge_sha = (\<lambda>c. c)\<rparr>"

definition sample_tree :: "(string, tree_entry) jsmap" where
  "sample_tree = jm_of_list [
     (''src/a.ts'', \<lparr>te_mode = ''100644'', te_type = ''blob'', te_objectId = ''0'', te_size = Some 1\<rparr>),
     (''src/b.ts'', \<lparr>te_mode = ''120000'', te_type = ''blob'', te_objectId = ''1'', te_size = Some 4\<rparr>)]"

definition sample_resolver :: resolver_env where
  "sample_resolver = \<lparr>
     rv_git = (\<lambda>args. Inr (if hd args = ''diff'' then ''A'' @ [CHR 0x00] @ ''src/b.ts'' @ [CHR 0x00] @ ''D'' @ [CHR 0x00] @ ''c.ts'' @ [CHR 0x00]
        else replicate 40 (CHR ''0''))),
     rv_text = (\<lambda>s. s), rv_realpath = Inr, rv_relative = (\<lambda>r. []), rv_tree = (\<lambda>h p. Inr sample_tree), rv_blobs = sample_blobs,
     rv_work = \<lparr>we_indexMode = (\<lambda>p. None), we_lstat = (\<lambda>p. None), we_stat = (\<lambda>p. None), we_realpath = (\<lambda>p. None),
       we_read = (\<lambda>p. Inl Other_failure), we_sha = (\<lambda>c. c)\<rparr>\<rparr>"

lemma sample_diff_dispositions:
  "(case resolveGitDiff sample_resolver code_unit_compare (Some ''/p'') (Commit_target ''HEAD'' (Some ''main'')) None of
      Inr d \<Rightarrow> map (\<lambda>m. (me_path m, me_disposition m)) (rd_entries d) | Inl f \<Rightarrow> []) = [(''c.ts'', Deleted_path), (''src/b.ts'', Scan)]"
  by code_simp


lemma linked_content_in_scope_witness: "\<exists>t :: tree_entry. ge_blob sample_blobs (te_objectId t) = Inr ''x'' \<and> te_type t = ''blob''"
proof -
  have "readCommittedContent sample_blobs None [] sample_tree ''src/b.ts'' 32 [] ''src/b.ts'' (the (jm_get sample_tree ''src/b.ts'')) = Inr (Content ''x'')"
    by code_simp
  from linked_content_in_scope [OF this] show ?thesis by blast
qed

lemma link_to_own_directory_refused_witness:
  "enrichCommittedEntries (sample_blobs\<lparr>ge_blob := (\<lambda>i. Inr ''./'')\<rparr>) None []
     [(''link'', \<lparr>te_mode = ''120000'', te_type = ''blob'', te_objectId = ''1'', te_size = Some 2\<rparr>)] [raw Added ''link'']
     = Inl (Resolution Invalid_diff_path)"
  by (rule link_to_own_directory_refused(1)) (simp_all add: sample_blobs_def jm_get_def)

end
