(* ===== verification/DiffScanPlan.thy ===== *)
theory DiffScanPlan
  imports GitDiff PluginActivation StableJson
begin

text \<open>
  The plan of a diff scan (\<open>api/modules/scans/execution/diff/diff-scan-plan.ts\<close>): counts of the dispositions, the paths
  to scan, the plugins and dependency providers they touch, and for every tool whether it applies and how complete its
  answer can be. The scope of dependency manifests is \<open>api/modules/scans/plugin-dependency-scope.ts\<close>. What the
  providers know beyond their primary and companion globs is an argument.
\<close>

section \<open>Which files concern a tool\<close>

definition yaml_rest :: "string \<Rightarrow> string \<Rightarrow> bool" where
  \<comment> \<open>\<open>.+\<close> and then the given name with \<open>.yml\<close> or \<open>.yaml\<close>\<close>
  "yaml_rest name s = list_ex (\<lambda>tail. ends_with s tail \<and> length s > length tail \<and> list_all dot (take (length s - length tail) s))
     [name @ ''.yml'', name @ ''.yaml'']"

definition below :: "string \<Rightarrow> string \<Rightarrow> string option" where
  "below dir s = (if starts_with s dir then Some (drop (length dir) s) else None)"

definition isZizmorInputPath :: "string \<Rightarrow> bool" where
  "isZizmorInputPath value =
     (let p = js_lower (normalizePluginPath value)
      in (case below ''.github/workflows/'' p of None \<Rightarrow> False | Some r \<Rightarrow> yaml_rest [] r)
         \<or> (case below ''.github/actions/'' p of None \<Rightarrow> False | Some r \<Rightarrow> yaml_rest ''/action'' r)
         \<or> p \<in> {''action.yml'', ''action.yaml''} \<or> p \<in> {''.pre-commit-config.yml'', ''.pre-commit-config.yaml''})"

record provider_env =
  pe_lockGlobs :: "provider \<Rightarrow> string list"
  pe_excludeGlobs :: "provider \<Rightarrow> string list"
  pe_coverage :: "provider \<Rightarrow> string list \<Rightarrow> coverage \<times> string option \<times> string list"

definition buildPluginDependencyManifestScope :: "provider_env \<Rightarrow> collation \<Rightarrow> plugin list \<Rightarrow> scan_scope" where
  "buildPluginDependencyManifestScope env lc plugins =
     (let providers = concat (map pl_dependencyProviders plugins)
      in \<lparr>sc_intent = Dependency_manifest,
          sc_includeGlobs = collated lc (concat (map (\<lambda>p. dp_primaryGlobs p @ dp_companionGlobs p) providers)),
          sc_excludeGlobs = collated lc (concat (map (pe_excludeGlobs env) providers)),
          sc_includeGenerated = False, sc_includeInstalledDependencies = False, sc_includeVendoredDependencies = False\<rparr>)"

section \<open>Coverage\<close>

record diff_coverage =
  dc_changed :: nat
  dc_scannable :: nat
  dc_deleted :: nat
  dc_excluded :: nat
  dc_unsupported :: nat
  dc_tooLarge :: nat

definition disposed :: "disposition \<Rightarrow> manifest_entry list \<Rightarrow> manifest_entry list" where
  "disposed d entries = filter (\<lambda>e. me_disposition e = d) entries"

definition diff_coverage_of :: "manifest_entry list \<Rightarrow> diff_coverage" where
  "diff_coverage_of entries = \<lparr>dc_changed = length entries, dc_scannable = length (disposed Scan entries),
     dc_deleted = length (disposed Deleted_path entries), dc_excluded = length (disposed Excluded entries),
     dc_unsupported = length (disposed Unsupported_path entries), dc_tooLarge = length (disposed Too_large entries)\<rparr>"

fun coverage_rank :: "coverage \<Rightarrow> nat" where
  "coverage_rank Covered = 0"
| "coverage_rank Partial = 1"
| "coverage_rank Gap = 2"

definition worseDiffEffect :: "coverage \<Rightarrow> coverage \<Rightarrow> coverage" where
  "worseDiffEffect l r = (if coverage_rank l \<ge> coverage_rank r then l else r)"

definition dependencyDiffCoverage ::
    "provider_env \<Rightarrow> collation \<Rightarrow> string list \<Rightarrow> provider list \<Rightarrow> coverage \<times> string list" where
  "dependencyDiffCoverage env lc inventory providers =
     (foldl (\<lambda>c p. worseDiffEffect c (fst (pe_coverage env p inventory))) Covered providers,
      collated lc (concat (map (\<lambda>p. (case fst (snd (pe_coverage env p inventory)) of Some r \<Rightarrow> (if r = [] then [] else [r]) | None \<Rightarrow> [])
        @ snd (snd (pe_coverage env p inventory))) providers)))"

section \<open>Tools\<close>

datatype inapplicable_reason = No_changed_files | No_relevant_files | No_dependency_manifest_changed

record tool_applicability =
  ta_toolId :: string
  ta_applicable :: bool
  ta_reasonCode :: "inapplicable_reason option"
  ta_coverageEffect :: coverage
  ta_changedFileCount :: nat
  ta_contextFileCount :: nat

definition hasGaps :: "diff_coverage \<Rightarrow> bool" where
  "hasGaps c = (dc_unsupported c > 0 \<or> dc_tooLarge c > 0)"

definition tool_applies :: "string \<Rightarrow> diff_coverage \<Rightarrow> string list \<Rightarrow> bool \<Rightarrow> bool" where
  "tool_applies toolId cov scanPaths dependencyChanged =
     (dc_changed cov \<noteq> 0 \<and> scanPaths \<noteq> [] \<and> (toolId \<noteq> ''osv'' \<or> dependencyChanged)
      \<and> (toolId \<noteq> ''zizmor'' \<or> list_ex isZizmorInputPath scanPaths))"

definition buildToolApplicability ::
    "scan_scope \<Rightarrow> string \<Rightarrow> diff_coverage \<Rightarrow> string list \<Rightarrow> bool \<Rightarrow> coverage \<Rightarrow> tool_applicability" where
  "buildToolApplicability dependencyScope toolId cov scanPaths dependencyChanged dependencyEffect =
     (let applicable = tool_applies toolId cov scanPaths dependencyChanged;
          effect = (if hasGaps cov then Partial else Covered)
      in \<lparr>ta_toolId = toolId, ta_applicable = applicable,
          ta_reasonCode = (if applicable then None else if dc_changed cov = 0 then Some No_changed_files
            else if toolId = ''osv'' \<and> \<not> dependencyChanged then Some No_dependency_manifest_changed
            else Some No_relevant_files),
          ta_coverageEffect = (if toolId = ''osv'' then worseDiffEffect dependencyEffect effect else effect),
          ta_changedFileCount = (if \<not> applicable then 0
            else if toolId = ''osv'' then length (filter (\<lambda>p. matchesScopePath p (Some dependencyScope)) scanPaths)
            else if toolId = ''zizmor'' then length (filter isZizmorInputPath scanPaths)
            else length scanPaths),
          ta_contextFileCount = 0\<rparr>)"

section \<open>The plan\<close>

record plugin_context =
  pc_detectedPluginIds :: "string list"
  pc_affectedPluginIds :: "string list"
  pc_dependencyStateChanged :: bool
  pc_lockStateChanged :: bool
  pc_limitationCodes :: "string list"

record diff_plan =
  dl_targetDigest :: string
  dl_coverage :: diff_coverage
  dl_entries :: "manifest_entry list"
  dl_tools :: "tool_applicability list"
  dl_scanPaths :: "string list"
  dl_dependencyChanged :: bool
  dl_pluginContext :: plugin_context

definition text_or_null :: "string option \<Rightarrow> jsval" where
  "text_or_null t = (case t of None \<Rightarrow> JNull | Some s \<Rightarrow> JStr s)"

fun target_kind :: "scan_target \<Rightarrow> string" where
  "target_kind (Commit_target h b) = ''commit''"
| "target_kind (Range_target b h) = ''range''"
| "target_kind (Working_tree_target b u) = ''working_tree''"

definition entry_identity :: "manifest_entry \<Rightarrow> jsval" where
  "entry_identity e = JObj [(''status'', JStr (status_text (me_status e))), (''path'', JStr (me_path e)),
     (''oldPath'', text_or_null (me_oldPath e)), (''contentSha256'', text_or_null (me_contentSha256 e)),
     (''sizeBytes'', (case me_sizeBytes e of None \<Rightarrow> JNull | Some n \<Rightarrow> JNum (of_nat n))),
     (''disposition'', JStr (disposition_text (me_disposition e))),
     (''reasonCode'', text_or_null (map_option reason_text (me_reasonCode e)))]"

definition target_identity :: "resolved_diff \<Rightarrow> jsval" where
  "target_identity d = JObj [(''schemaVersion'', JNum 1), (''kind'', JStr (target_kind (rd_requested d))),
     (''projectPrefix'', JStr (rd_projectPrefix d)), (''baseSha'', JStr (rev_baseSha (rd_revisions d))),
     (''headSha'', text_or_null (rev_headSha (rd_revisions d))), (''mergeBaseSha'', text_or_null (rev_mergeBaseSha (rd_revisions d))),
     (''includeUntracked'', JBool (rd_includeUntracked d)), (''entries'', JArr (map entry_identity (rd_entries d)))]"

definition scan_paths :: "collation \<Rightarrow> manifest_entry list \<Rightarrow> string list" where
  "scan_paths lc entries = js_sort lc (map me_path (disposed Scan entries))"

definition buildDiffScanPlan ::
    "provider_env \<Rightarrow> (string \<Rightarrow> string) \<Rightarrow> collation \<Rightarrow> plugin list \<Rightarrow> resolved_diff \<Rightarrow> string list
      \<Rightarrow> string list option \<Rightarrow> string list option \<Rightarrow> diff_plan" where
  \<comment> \<open>the ids of the tools, of the detected plugins and the inventory of the project come last\<close>
  "buildDiffScanPlan env sha lc plugins d toolIds detected inventory =
     (let entries = rd_entries d; cov = diff_coverage_of entries; paths = scan_paths lc entries;
          providers = dependencyProvidersForPaths paths plugins;
          changed = (providers \<noteq> []);
          dependency = dependencyDiffCoverage env lc (or_else inventory paths) providers
      in \<lparr>dl_targetDigest = sha (canonicalJson lc (target_identity d)), dl_coverage = cov, dl_entries = entries,
          dl_tools = map (\<lambda>t. buildToolApplicability (buildPluginDependencyManifestScope env lc plugins) t cov paths changed (fst dependency)) toolIds,
          dl_scanPaths = paths, dl_dependencyChanged = changed,
          dl_pluginContext = \<lparr>pc_detectedPluginIds = collated lc (or_else detected []),
            pc_affectedPluginIds = detectAffectedPluginsFromPaths paths plugins, pc_dependencyStateChanged = changed,
            pc_lockStateChanged = list_ex (\<lambda>p. list_ex (\<lambda>c. matchesAnyPluginGlob c (pe_lockGlobs env p)) paths) providers,
            pc_limitationCodes = snd dependency\<rparr>\<rparr>)"

record preview_entry =
  pv_status :: path_status
  pv_path :: string
  pv_oldPath :: "string option"
  pv_binary :: bool
  pv_inProfileScope :: bool
  pv_disposition :: disposition
  pv_reasonCode :: "coverage_reason option"

definition preview_of :: "manifest_entry \<Rightarrow> preview_entry" where
  \<comment> \<open>an entry of \<open>toDiffScanPreview\<close>: without size and digest\<close>
  "preview_of e = \<lparr>pv_status = me_status e, pv_path = me_path e,
     pv_oldPath = (case me_oldPath e of Some [] \<Rightarrow> None | old \<Rightarrow> old), pv_binary = me_binary e,
     pv_inProfileScope = me_inProfileScope e, pv_disposition = me_disposition e, pv_reasonCode = me_reasonCode e\<rparr>"

section \<open>Properties\<close>

lemma dispositions_sum:
  "length entries = length (disposed Scan entries) + length (disposed Deleted_path entries) + length (disposed Excluded entries)
     + length (disposed Unsupported_path entries) + length (disposed Too_large entries)"
proof (induction entries)
  case (Cons e entries)
  then show ?case by (cases "me_disposition e") (auto simp: disposed_def)
qed (simp add: disposed_def)

text \<open>The counts of a diff plan are exact: every changed path is counted under exactly one disposition, and the paths to
  scan are those of the entries that are to be scanned, each as often as it is entered.\<close>

theorem diff_counts_exact:
  assumes "plan = buildDiffScanPlan env sha lc plugins d toolIds detected inventory"
  shows "dc_changed (dl_coverage plan) = dc_scannable (dl_coverage plan) + dc_deleted (dl_coverage plan) + dc_excluded (dl_coverage plan)
      + dc_unsupported (dl_coverage plan) + dc_tooLarge (dl_coverage plan)
    \<and> dc_changed (dl_coverage plan) = length (rd_entries d) \<and> length (dl_scanPaths plan) = dc_scannable (dl_coverage plan)
    \<and> mset (dl_scanPaths plan) = mset (map me_path (filter (\<lambda>e. me_disposition e = Scan) (rd_entries d)))"
  unfolding assms using dispositions_sum [of "rd_entries d"]
  by (simp add: buildDiffScanPlan_def Let_def diff_coverage_of_def scan_paths_def disposed_def)

lemma worst_of_both_covered: "worseDiffEffect l r = Covered \<longleftrightarrow> l = Covered \<and> r = Covered"
  by (cases l; cases r) (simp_all add: worseDiffEffect_def)

lemma dependency_covered:
  "fst (dependencyDiffCoverage env lc inventory providers) = Covered
    \<longleftrightarrow> (\<forall>p \<in> set providers. fst (pe_coverage env p inventory) = Covered)"
proof -
  have "foldl (\<lambda>c p. worseDiffEffect c (f p)) a ps = Covered \<longleftrightarrow> a = Covered \<and> (\<forall>p \<in> set ps. f p = Covered)"
    for f :: "provider \<Rightarrow> coverage" and a ps
    by (induction ps arbitrary: a) (auto simp: worst_of_both_covered)
  then show ?thesis by (simp add: dependencyDiffCoverage_def)
qed

lemma no_gaps: "\<not> hasGaps (diff_coverage_of entries) \<longleftrightarrow> (\<forall>e \<in> set entries. me_disposition e \<notin> {Unsupported_path, Too_large})"
  by (auto simp: hasGaps_def diff_coverage_of_def disposed_def filter_empty_conv)

text \<open>A diff scan does not claim more than it looks at: a tool is called covered only if no changed path was unsupported or
  too large, and the dependency scanner only if in addition every dependency provider that the diff touches is covered. A
  tool applies exactly if there are paths to scan and, for the two tools that look at certain files only, one of those
  files is among them; it has a reason exactly if it does not apply, and it never counts more files than are scanned.\<close>

theorem diff_tools_sound:
  assumes "t \<in> set (dl_tools (buildDiffScanPlan env sha lc plugins d toolIds detected inventory))"
    and "paths = dl_scanPaths (buildDiffScanPlan env sha lc plugins d toolIds detected inventory)"
  shows "(ta_coverageEffect t = Covered \<longleftrightarrow>
      (\<forall>e \<in> set (rd_entries d). me_disposition e \<notin> {Unsupported_path, Too_large})
      \<and> (ta_toolId t = ''osv'' \<longrightarrow> (\<forall>p \<in> set (dependencyProvidersForPaths paths plugins).
           fst (pe_coverage env p (or_else inventory paths)) = Covered)))
    \<and> (ta_applicable t \<longleftrightarrow> paths \<noteq> [] \<and> (ta_toolId t = ''osv'' \<longrightarrow> dependencyProvidersForPaths paths plugins \<noteq> [])
        \<and> (ta_toolId t = ''zizmor'' \<longrightarrow> list_ex isZizmorInputPath paths))
    \<and> (ta_reasonCode t = None \<longleftrightarrow> ta_applicable t) \<and> ta_changedFileCount t \<le> length paths"
proof -
  let ?cov = "diff_coverage_of (rd_entries d)" and ?ps = "dependencyProvidersForPaths paths plugins"
  let ?dep = "fst (dependencyDiffCoverage env lc (or_else inventory paths) ?ps)"
  have paths: "paths = scan_paths lc (rd_entries d)" using assms(2) by (simp add: buildDiffScanPlan_def Let_def)
  obtain i where t: "t = buildToolApplicability (buildPluginDependencyManifestScope env lc plugins) i ?cov paths (?ps \<noteq> []) ?dep"
    using assms(1) unfolding buildDiffScanPlan_def Let_def paths by auto
  have some: "paths \<noteq> [] \<Longrightarrow> dc_changed ?cov \<noteq> 0" unfolding paths by (auto simp: scan_paths_def diff_coverage_of_def disposed_def)
  have id: "ta_toolId t = i" by (simp add: t buildToolApplicability_def Let_def)
  have applies: "ta_applicable t = tool_applies i ?cov paths (?ps \<noteq> [])" by (simp add: t buildToolApplicability_def Let_def)
  have "ta_coverageEffect t = Covered \<longleftrightarrow> \<not> hasGaps ?cov \<and> (i = ''osv'' \<longrightarrow> ?dep = Covered)"
    by (simp add: t buildToolApplicability_def Let_def worst_of_both_covered)
  then have "ta_coverageEffect t = Covered \<longleftrightarrow>
      (\<forall>e \<in> set (rd_entries d). me_disposition e \<notin> {Unsupported_path, Too_large})
      \<and> (ta_toolId t = ''osv'' \<longrightarrow> (\<forall>p \<in> set ?ps. fst (pe_coverage env p (or_else inventory paths)) = Covered))"
    unfolding no_gaps dependency_covered id .
  moreover have "ta_applicable t \<longleftrightarrow> paths \<noteq> [] \<and> (ta_toolId t = ''osv'' \<longrightarrow> ?ps \<noteq> []) \<and> (ta_toolId t = ''zizmor'' \<longrightarrow> list_ex isZizmorInputPath paths)"
    unfolding applies id tool_applies_def using some by auto
  moreover have "ta_reasonCode t = None \<longleftrightarrow> ta_applicable t"
    unfolding applies by (simp add: t buildToolApplicability_def Let_def)
  moreover have "ta_changedFileCount t \<le> length paths" by (simp add: t buildToolApplicability_def Let_def)
  ultimately show ?thesis by blast
qed

section \<open>An example\<close>

definition sample_diff :: resolved_diff where
  "sample_diff = \<lparr>rd_projectPrefix = [], rd_requested = Working_tree_target None True,
     rd_revisions = \<lparr>rev_baseSha = replicate 40 (CHR ''0''), rev_headSha = None, rev_mergeBaseSha = None\<rparr>, rd_includeUntracked = True,
     rd_entries = [unsupportedEntry None (raw Modified ''socket'') Unsupported_file_type,
       contentEntry (\<lambda>c. c) None (raw Added ''.github/workflows/ci.yml'') ''on: push'']\<rparr>"

definition sample_providers :: provider_env where
  "sample_providers = \<lparr>pe_lockGlobs = (\<lambda>p. []), pe_excludeGlobs = (\<lambda>p. []), pe_coverage = (\<lambda>p i. (Covered, None, []))\<rparr>"

lemma diff_counts_exact_witness:
  "dc_changed (dl_coverage (buildDiffScanPlan sample_providers (\<lambda>t. t) code_unit_compare [] sample_diff [''zizmor''] None None)) = 2"
  using diff_counts_exact [OF refl, of sample_providers "\<lambda>t. t" code_unit_compare "[]" sample_diff "[''zizmor'']" None None]
  by (simp add: sample_diff_def)

lemma diff_tools_sound_witness:
  "\<exists>t \<in> set (dl_tools (buildDiffScanPlan sample_providers (\<lambda>t. t) code_unit_compare [] sample_diff [''zizmor''] None None)).
     ta_applicable t \<and> ta_coverageEffect t \<noteq> Covered"
proof -
  let ?plan = "buildDiffScanPlan sample_providers (\<lambda>t. t) code_unit_compare [] sample_diff [''zizmor''] None None"
  obtain t where t: "t \<in> set (dl_tools ?plan)" "ta_toolId t = ''zizmor''"
    by (simp add: buildDiffScanPlan_def Let_def buildToolApplicability_def)
  have paths: "dl_scanPaths ?plan = [''.github/workflows/ci.yml'']"
  proof -
    have "scan_paths code_unit_compare (rd_entries sample_diff) = [''.github/workflows/ci.yml'']" by code_simp
    then show ?thesis by (simp add: buildDiffScanPlan_def Let_def)
  qed
  have z: "isZizmorInputPath ''.github/workflows/ci.yml''" by code_simp
  have gap: "\<exists>e \<in> set (rd_entries sample_diff). me_disposition e = Unsupported_path" by (simp add: sample_diff_def unsupportedEntry_def entry_with_def)
  have "ta_applicable t \<and> ta_coverageEffect t \<noteq> Covered"
    using diff_tools_sound [OF t(1) refl] gap unfolding t(2) paths by (auto simp: z)
  then show ?thesis using t(1) by blast
qed

end
