(* ===== verification/PromptBudget.thy ===== *)
theory PromptBudget
  imports JsPrelude
begin

text \<open>
  Packing the warning groups of an improvement request into prompts of bounded length
  (\<open>api/modules/scans/handoff/scan-improvement-prompt-budget.ts\<close>). The length of the rendered prompt is an argument: a
  function of the groups, their offset, and the index and number of the chunks. The fields of a group that the packing
  neither reads nor changes are one field of the record.
\<close>

section \<open>Groups\<close>

record warning_evidence =
  we_id :: string
  we_kind :: string
  we_artifactId :: "string option"
  we_snippet :: "string option"

record ('r, 'l) warning_group =
  wg_rest :: 'r
  wg_representativeEvidence :: "warning_evidence list"
  wg_locations :: "'l list"
  wg_total :: int
  wg_included :: int
  wg_omitted :: int
  wg_digest :: string
  wg_compressionTier :: nat

type_synonym ('r, 'l) render = "('r, 'l) warning_group list \<Rightarrow> nat \<Rightarrow> nat \<Rightarrow> int \<Rightarrow> int"

record budget_metrics =
  bm_chunk :: nat
  bm_renderedChars :: int
  bm_hardLimit :: int
  bm_largestWarningGroupLocations :: int
  bm_compressionTier :: nat

datatype budget_error = Invalid_budget | Budget_exceeded budget_metrics

record ('r, 'l) budget_chunk =
  bc_warningGroups :: "('r, 'l) warning_group list"
  bc_renderedChars :: int
  bc_warningGroupOffset :: nat

definition improvement_prompt_target_chars :: int where
  "improvement_prompt_target_chars = 48000"

definition improvement_prompt_hard_chars :: int where
  "improvement_prompt_hard_chars = 60000"

definition max_warning_location_samples :: nat where
  "max_warning_location_samples = 20"

definition provisional_chunk_count :: int where
  "provisional_chunk_count = 999999"

definition shorten_snippet :: "string \<Rightarrow> string" where
  "shorten_snippet s = (if length s > 120 then take 120 s @ [CHR 0x0A] @ ''[truncated]'' else s)"

definition compressWarningGroup :: "('r, 'l) warning_group \<Rightarrow> nat \<Rightarrow> ('r, 'l) warning_group" where
  \<comment> \<open>the tier is 1 or 2\<close>
  "compressWarningGroup g tier =
     (let short = g\<lparr>wg_representativeEvidence :=
            map (\<lambda>e. e\<lparr>we_snippet := map_option shorten_snippet (we_snippet e)\<rparr>) (take 3 (wg_representativeEvidence g))\<rparr>
      in if tier = 1 then short\<lparr>wg_compressionTier := 1\<rparr>
         else (let locations = take max_warning_location_samples (wg_locations g)
               in short\<lparr>wg_locations := locations, wg_included := int (length locations),
                    wg_omitted := max 0 (wg_total g - int (length locations)), wg_compressionTier := 2\<rparr>))"

section \<open>Packing\<close>

definition fitSingleGroup ::
    "('r, 'l) render \<Rightarrow> int \<Rightarrow> int \<Rightarrow> nat \<Rightarrow> nat \<Rightarrow> ('r, 'l) warning_group \<Rightarrow> (budget_error, ('r, 'l) warning_group) result" where
  "fitSingleGroup render target hard offset index g =
     (let candidates = [g, compressWarningGroup g 1, compressWarningGroup g 2];
          chars = (\<lambda>c. render [c] offset index provisional_chunk_count)
      in case List.find (\<lambda>c. chars c \<le> target) candidates of
           Some c \<Rightarrow> Inr c
         | None \<Rightarrow> (let final = last candidates in
             if chars final \<le> hard then Inr final
             else Inl (Budget_exceeded \<lparr>bm_chunk = index, bm_renderedChars = chars final, bm_hardLimit = hard,
               bm_largestWarningGroupLocations = wg_total g, bm_compressionTier = wg_compressionTier final\<rparr>)))"

record ('r, 'l) packing =
  pk_packed :: "('r, 'l) warning_group list list"
  pk_current :: "('r, 'l) warning_group list"
  pk_offset :: nat

definition pack_step ::
    "('r, 'l) render \<Rightarrow> int \<Rightarrow> int \<Rightarrow> ('r, 'l) packing \<Rightarrow> ('r, 'l) warning_group \<Rightarrow> (budget_error, ('r, 'l) packing) result" where
  "pack_step render target hard st g =
     (if pk_current st = []
      then then_do (fitSingleGroup render target hard (pk_offset st) (length (pk_packed st)) g) (\<lambda>f. Inr (st\<lparr>pk_current := [f]\<rparr>))
      else if render (pk_current st @ [g]) (pk_offset st) (length (pk_packed st)) provisional_chunk_count \<le> target
      then Inr (st\<lparr>pk_current := pk_current st @ [g]\<rparr>)
      else (let offset = pk_offset st + length (pk_current st); packed = pk_packed st @ [pk_current st]
            in then_do (fitSingleGroup render target hard offset (length packed) g)
                 (\<lambda>f. Inr \<lparr>pk_packed = packed, pk_current = [f], pk_offset = offset\<rparr>)))"

definition assertWithinHardLimit ::
    "('r, 'l) warning_group list \<Rightarrow> int \<Rightarrow> nat \<Rightarrow> int \<Rightarrow> (budget_error, unit) result" where
  "assertWithinHardLimit groups chars index hard =
     (if chars \<le> hard then Inr ()
      else (let largest = js_sort (\<lambda>l r. wg_total r - wg_total l) groups
            in Inl (Budget_exceeded \<lparr>bm_chunk = index, bm_renderedChars = chars, bm_hardLimit = hard,
                 bm_largestWarningGroupLocations = (case largest of [] \<Rightarrow> 0 | g # gs \<Rightarrow> wg_total g),
                 bm_compressionTier = (case largest of [] \<Rightarrow> 0 | g # gs \<Rightarrow> wg_compressionTier g)\<rparr>)))"

fun finish_chunks ::
    "('r, 'l) render \<Rightarrow> int \<Rightarrow> int \<Rightarrow> nat \<Rightarrow> nat \<Rightarrow> ('r, 'l) warning_group list list \<Rightarrow> (budget_error, ('r, 'l) budget_chunk list) result" where
  \<comment> \<open>the callback of the last \<open>map\<close> with its running offset and index\<close>
  "finish_chunks render hard chunks index offset [] = Inr []"
| "finish_chunks render hard chunks index offset (gs # rest) =
     (let chars = render gs offset index chunks
      in then_do (assertWithinHardLimit gs chars index hard) (\<lambda>_.
         then_do (finish_chunks render hard chunks (Suc index) (offset + length gs) rest) (\<lambda>cs.
           Inr (\<lparr>bc_warningGroups = gs, bc_renderedChars = chars, bc_warningGroupOffset = offset\<rparr> # cs))))"

definition packed_lists :: "('r, 'l) packing \<Rightarrow> ('r, 'l) warning_group list list" where
  "packed_lists st = pk_packed st @ (if pk_current st = [] then [] else [pk_current st])"

definition packImprovementWarningGroups ::
    "('r, 'l) render \<Rightarrow> int option \<Rightarrow> int option \<Rightarrow> ('r, 'l) warning_group list \<Rightarrow> (budget_error, ('r, 'l) budget_chunk list) result" where
  "packImprovementWarningGroups render targetChars hardChars groups =
     (let target = or_else targetChars improvement_prompt_target_chars; hard = or_else hardChars improvement_prompt_hard_chars in
      if target \<le> 0 \<or> hard < target then Inl Invalid_budget
      else if groups = [] then
        (let chars = render [] 0 0 1
         in then_do (assertWithinHardLimit ([] :: ('r, 'l) warning_group list) chars 0 hard) (\<lambda>_.
           Inr [\<lparr>bc_warningGroups = [], bc_renderedChars = chars, bc_warningGroupOffset = 0\<rparr>]))
      else then_do (fold_result (pack_step render target hard) \<lparr>pk_packed = [], pk_current = [], pk_offset = 0\<rparr> groups)
        (\<lambda>st. finish_chunks render hard (int (length (packed_lists st))) 0 0 (packed_lists st)))"

section \<open>What is packed\<close>

definition fitted :: "('r, 'l) warning_group \<Rightarrow> ('r, 'l) warning_group \<Rightarrow> bool" where
  "fitted g f = (f = g \<or> f = compressWarningGroup g 1 \<or> f = compressWarningGroup g 2)"

lemma fit_cases:
  assumes "fitSingleGroup render target hard offset index g = Inr f" and "target \<le> hard"
  shows "fitted g f" and "render [f] offset index provisional_chunk_count \<le> hard"
  using assms by (auto simp: fitSingleGroup_def fitted_def Let_def split: if_splits option.splits)

definition chunk_fits :: "('r, 'l) render \<Rightarrow> int \<Rightarrow> nat \<Rightarrow> nat \<Rightarrow> ('r, 'l) warning_group list \<Rightarrow> bool" where
  "chunk_fits render hard index offset gs = (render gs offset index provisional_chunk_count \<le> hard)"

fun chunks_fit :: "('r, 'l) render \<Rightarrow> int \<Rightarrow> nat \<Rightarrow> nat \<Rightarrow> ('r, 'l) warning_group list list \<Rightarrow> bool" where
  "chunks_fit render hard index offset [] = True"
| "chunks_fit render hard index offset (gs # rest) =
     (gs \<noteq> [] \<and> chunk_fits render hard index offset gs \<and> chunks_fit render hard (Suc index) (offset + length gs) rest)"

lemma chunks_fit_append:
  "chunks_fit render hard index offset (xs @ ys)
    = (chunks_fit render hard index offset xs \<and> chunks_fit render hard (index + length xs) (offset + length (concat xs)) ys)"
  by (induction xs arbitrary: index offset) (auto simp: add.assoc)

definition packing_ok :: "('r, 'l) render \<Rightarrow> int \<Rightarrow> ('r, 'l) warning_group list \<Rightarrow> ('r, 'l) packing \<Rightarrow> bool" where
  \<comment> \<open>after the given groups\<close>
  "packing_ok render hard gs st =
     (list_all2 fitted gs (concat (packed_lists st)) \<and> chunks_fit render hard 0 0 (packed_lists st)
      \<and> pk_offset st = length (concat (pk_packed st)) \<and> (gs \<noteq> [] \<longrightarrow> pk_current st \<noteq> []) \<and> length (packed_lists st) \<le> length gs)"

lemma pack_step_ok:
  assumes "pack_step render target hard st g = Inr st'" and "packing_ok render hard gs st" and "target \<le> hard"
  shows "packing_ok render hard (gs @ [g]) st'"
proof (cases "pk_current st = []")
  case True
  then obtain f where f: "fitSingleGroup render target hard (pk_offset st) (length (pk_packed st)) g = Inr f" "st' = st\<lparr>pk_current := [f]\<rparr>"
    using assms(1) by (auto simp: pack_step_def then_do_Inr)
  note fit = fit_cases [OF f(1) assms(3)]
  show ?thesis using True assms(2) fit f(2)
    by (auto simp: packing_ok_def packed_lists_def chunks_fit_append chunk_fits_def list_all2_append1 intro!: list_all2_appendI)
next
  case False
  show ?thesis
  proof (cases "render (pk_current st @ [g]) (pk_offset st) (length (pk_packed st)) provisional_chunk_count \<le> target")
    case True
    then have "st' = st\<lparr>pk_current := pk_current st @ [g]\<rparr>" using assms(1) False by (simp add: pack_step_def)
    moreover have "fitted g g" by (simp add: fitted_def)
    ultimately show ?thesis using True False assms(2,3)
      list_all2_appendI [of fitted gs "concat (pk_packed st) @ pk_current st" "[g]" "[g]"]
      by (simp add: packing_ok_def packed_lists_def chunks_fit_append chunk_fits_def)
  next
    case over: False
    let ?offset = "pk_offset st + length (pk_current st)" and ?packed = "pk_packed st @ [pk_current st]"
    obtain f where f: "fitSingleGroup render target hard ?offset (length ?packed) g = Inr f"
      "st' = \<lparr>pk_packed = ?packed, pk_current = [f], pk_offset = ?offset\<rparr>"
      using assms(1) False over by (auto simp: pack_step_def then_do_Inr Let_def)
    note fit = fit_cases [OF f(1) assms(3)]
    show ?thesis using False assms(2) fit f(2)
      list_all2_appendI [of fitted gs "concat (pk_packed st) @ pk_current st" "[g]" "[f]"]
      by (simp add: packing_ok_def packed_lists_def chunks_fit_append chunk_fits_def)
  qed
qed

lemma packing_start: "packing_ok render hard [] \<lparr>pk_packed = [], pk_current = [], pk_offset = 0\<rparr>"
  by (simp add: packing_ok_def packed_lists_def)

lemma packed_ok:
  assumes "fold_result (pack_step render target hard) st gs = Inr st'" and "packing_ok render hard done st" and "target \<le> hard"
  shows "packing_ok render hard (done @ gs) st'"
  using assms(1,2)
proof (induction gs arbitrary: st "done")
  case (Cons g gs)
  then obtain s1 where s1: "pack_step render target hard st g = Inr s1" "fold_result (pack_step render target hard) s1 gs = Inr st'"
    by (auto split: sum.splits)
  show ?case using Cons(1) [OF s1(2) pack_step_ok [OF s1(1) Cons(3) assms(3)]] by simp
qed simp

lemma finished_groups:
  "finish_chunks render hard n index offset gss = Inr cs \<Longrightarrow> map bc_warningGroups cs = gss"
  by (induction render hard n index offset gss arbitrary: cs rule: finish_chunks.induct) (auto simp: then_do_Inr Let_def)

lemma finished_cases:
  assumes "finish_chunks render hard n index offset (gs # rest) = Inr cs"
  obtains cs' where "finish_chunks render hard n (Suc index) (offset + length gs) rest = Inr cs'"
    "cs = \<lparr>bc_warningGroups = gs, bc_renderedChars = render gs offset index n, bc_warningGroupOffset = offset\<rparr> # cs'"
    "render gs offset index n \<le> hard"
  using assms by (auto simp: then_do_Inr Let_def assertWithinHardLimit_def split: if_splits)

lemma finished_within:
  "finish_chunks render hard n index offset gss = Inr cs \<Longrightarrow> c \<in> set cs \<Longrightarrow> bc_renderedChars c \<le> hard"
proof (induction gss arbitrary: index offset cs)
  case (Cons gs gss)
  from Cons(2) show ?case by (rule finished_cases) (use Cons(1,3) in auto)
qed simp

lemma finished_chunk:
  assumes "finish_chunks render hard n index offset gss = Inr cs" and "k < length cs"
  shows "bc_warningGroupOffset (cs ! k) = offset + length (concat (map bc_warningGroups (take k cs)))
    \<and> bc_renderedChars (cs ! k) = render (bc_warningGroups (cs ! k)) (bc_warningGroupOffset (cs ! k)) (index + k) n"
  using assms
proof (induction gss arbitrary: index offset cs k)
  case (Cons gs gss)
  from Cons(2) show ?case
  proof (rule finished_cases)
    fix cs'
    assume cs': "finish_chunks render hard n (Suc index) (offset + length gs) gss = Inr cs'"
      "cs = \<lparr>bc_warningGroups = gs, bc_renderedChars = render gs offset index n, bc_warningGroupOffset = offset\<rparr> # cs'"
    show ?case using Cons(1) [OF cs'(1)] Cons(3) cs'(2) by (cases k) auto
  qed
qed simp

lemma pack_parts:
  assumes "packImprovementWarningGroups render targetChars hardChars groups = Inr cs" and "groups \<noteq> []"
  obtains target hard st where "hard = or_else hardChars improvement_prompt_hard_chars" "packing_ok render hard groups st"
    "finish_chunks render hard (int (length (packed_lists st))) 0 0 (packed_lists st) = Inr cs"
proof -
  let ?target = "or_else targetChars improvement_prompt_target_chars" and ?hard = "or_else hardChars improvement_prompt_hard_chars"
  obtain st where st: "\<not> (?target \<le> 0 \<or> ?hard < ?target)"
    "fold_result (pack_step render ?target ?hard) \<lparr>pk_packed = [], pk_current = [], pk_offset = 0\<rparr> groups = Inr st"
    "finish_chunks render ?hard (length (packed_lists st)) 0 0 (packed_lists st) = Inr cs"
    using assms by (auto simp: packImprovementWarningGroups_def Let_def then_do_Inr split: if_splits)
  have "packing_ok render ?hard ([] @ groups) st" by (rule packed_ok [OF st(2) packing_start]) (use st(1) in simp)
  then show thesis using that st(3) by simp
qed

text \<open>C30. The packing loses no warning and keeps the limit: one after another the chunks hold every group once and in order,
  each as it is or compressed; a chunk's offset is the number of groups before it; and its text, rendered with its
  final index and the final number of chunks, is not longer than the hard limit.\<close>

theorem packing_keeps_groups:
  assumes "packImprovementWarningGroups render targetChars hardChars groups = Inr cs"
  shows "list_all2 (\<lambda>g f. f \<in> {g, compressWarningGroup g 1, compressWarningGroup g 2}) groups (concat (map bc_warningGroups cs))
    \<and> (\<forall>k < length cs. bc_warningGroupOffset (cs ! k) = length (concat (map bc_warningGroups (take k cs)))
        \<and> render (bc_warningGroups (cs ! k)) (bc_warningGroupOffset (cs ! k)) k (int (length cs)) \<le> or_else hardChars improvement_prompt_hard_chars
        \<and> (groups \<noteq> [] \<longrightarrow> bc_warningGroups (cs ! k) \<noteq> []))"
proof (cases "groups = []")
  case True
  then show ?thesis using assms
    by (auto simp: packImprovementWarningGroups_def Let_def then_do_Inr assertWithinHardLimit_def split: if_splits)
next
  case False
  obtain target hard st where st: "hard = or_else hardChars improvement_prompt_hard_chars" "packing_ok render hard groups st"
    "finish_chunks render hard (int (length (packed_lists st))) 0 0 (packed_lists st) = Inr cs"
    by (rule pack_parts [OF assms False])
  have lists: "map bc_warningGroups cs = packed_lists st" by (rule finished_groups [OF st(3)])
  have n: "length cs = length (packed_lists st)" using lists by (metis length_map)
  have "list_all2 fitted groups (concat (map bc_warningGroups cs))" using st(2) lists by (simp add: packing_ok_def)
  then have all: "list_all2 (\<lambda>g f. f \<in> {g, compressWarningGroup g 1, compressWarningGroup g 2}) groups (concat (map bc_warningGroups cs))"
    by (rule list_all2_mono) (simp add: fitted_def)
  have nonempty: "chunks_fit render hard i o' gss \<Longrightarrow> gs \<in> set gss \<Longrightarrow> gs \<noteq> []" for i o' gss gs
    by (induction render hard i o' gss rule: chunks_fit.induct) auto
  show ?thesis
  proof (intro conjI allI impI)
    fix k assume k: "k < length cs"
    note c = finished_chunk [OF st(3) k]
    show "bc_warningGroupOffset (cs ! k) = length (concat (map bc_warningGroups (take k cs)))" using c by simp
    show "render (bc_warningGroups (cs ! k)) (bc_warningGroupOffset (cs ! k)) k (int (length cs)) \<le> or_else hardChars improvement_prompt_hard_chars"
      using c finished_within [OF st(3) nth_mem [OF k]] st(1) n by simp
    have "bc_warningGroups (cs ! k) \<in> set (packed_lists st)" using k unfolding lists [symmetric] by simp
    then show "bc_warningGroups (cs ! k) \<noteq> []" using nonempty st(2) by (auto simp: packing_ok_def)
  qed (rule all)
qed

section \<open>When packing succeeds\<close>

lemma fit_returns:
  "render [compressWarningGroup g 2] offset index provisional_chunk_count \<le> hard
    \<Longrightarrow> \<exists>f. fitSingleGroup render target hard offset index g = Inr f"
  by (auto simp: fitSingleGroup_def Let_def split: option.splits)

lemma pack_step_returns:
  assumes "\<And>offset index. render [compressWarningGroup g 2] offset index provisional_chunk_count \<le> hard"
  shows "\<exists>st'. pack_step render target hard st g = Inr st'"
  using fit_returns [of render g offset index hard target for offset index, OF assms] by (fastforce simp: pack_step_def then_do_Inr Let_def)

lemma fold_returns:
  "(\<And>st x. x \<in> set xs \<Longrightarrow> \<exists>st'. f st x = Inr st') \<Longrightarrow> \<exists>st'. fold_result f st xs = Inr st'"
proof (induction xs arbitrary: st)
  case (Cons x xs)
  obtain s1 where "f st x = Inr s1" using Cons(2) [of x st] by auto
  then show ?case using Cons(1) [of s1] Cons(2) by auto
qed simp

lemma finish_returns:
  assumes "chunks_fit render hard index offset gss" and "n \<le> provisional_chunk_count"
    and "\<And>gs offset index n. n \<le> provisional_chunk_count \<Longrightarrow> render gs offset index n \<le> render gs offset index provisional_chunk_count"
  shows "\<exists>cs. finish_chunks render hard n index offset gss = Inr cs"
  using assms(1)
proof (induction gss arbitrary: index offset)
  case (Cons gs gss)
  have "render gs offset index n \<le> hard" using Cons(2) assms(3) [OF assms(2), of gs offset index] by (simp add: chunk_fits_def)
  moreover obtain cs where "finish_chunks render hard n (Suc index) (offset + length gs) gss = Inr cs"
    using Cons(1) [of "Suc index" "offset + length gs"] Cons(2) by auto
  ultimately show ?case by (simp add: assertWithinHardLimit_def then_do_def)
qed simp

text \<open>The packing fails only for a group that no compression makes small enough: if a text does not get longer when fewer
  chunks are announced, every single group fits the hard limit when compressed as far as possible, and the prompt
  without groups fits, then the packing of up to 999999 groups returns chunks.\<close>

theorem packing_succeeds:
  assumes "0 < target" and "target \<le> hard" and "length groups \<le> 999999" and "render [] 0 0 1 \<le> hard"
    and "\<And>gs offset index n. n \<le> 999999 \<Longrightarrow> render gs offset index n \<le> render gs offset index 999999"
    and "\<And>g offset index. g \<in> set groups \<Longrightarrow> render [compressWarningGroup g 2] offset index 999999 \<le> hard"
  shows "\<exists>cs. packImprovementWarningGroups render (Some target) (Some hard) groups = Inr cs"
proof (cases "groups = []")
  case True
  then show ?thesis using assms(1,2,4) by (simp add: packImprovementWarningGroups_def then_do_def assertWithinHardLimit_def)
next
  case False
  obtain st where st: "fold_result (pack_step render target hard) \<lparr>pk_packed = [], pk_current = [], pk_offset = 0\<rparr> groups = Inr st"
    using fold_returns [of groups "pack_step render target hard"] pack_step_returns assms(6)
    unfolding provisional_chunk_count_def by blast
  have ok: "packing_ok render hard groups st" using packed_ok [OF st packing_start assms(2)] by simp
  then have "chunks_fit render hard 0 0 (packed_lists st)" "int (length (packed_lists st)) \<le> provisional_chunk_count"
    using assms(3) by (auto simp: packing_ok_def provisional_chunk_count_def)
  then obtain cs where "finish_chunks render hard (int (length (packed_lists st))) 0 0 (packed_lists st) = Inr cs"
    using finish_returns [of render hard 0 0 "packed_lists st" "int (length (packed_lists st))"] assms(5)
    unfolding provisional_chunk_count_def by blast
  then show ?thesis using st False assms(1,2) by (auto simp: packImprovementWarningGroups_def then_do_def)
qed

section \<open>An example\<close>

definition sample_warning_group :: "string \<Rightarrow> nat \<Rightarrow> (string, nat) warning_group" where
  "sample_warning_group i n = \<lparr>wg_rest = i, wg_representativeEvidence = [], wg_locations = [0..<n], wg_total = int n, wg_included = int n,
     wg_omitted = 0, wg_digest = [], wg_compressionTier = 0\<rparr>"

definition sample_render :: "(string, nat) render" where
  "sample_render gs offset index n = (\<Sum>g \<leftarrow> gs. int (length (wg_locations g)))"

lemma sample_packing:
  "map_result (\<lambda>c. (Inr (map (\<lambda>g. (wg_rest g, length (wg_locations g), wg_omitted g)) (bc_warningGroups c)) :: (unit, _) result))
     (case packImprovementWarningGroups sample_render (Some 24) (Some 30) [sample_warning_group ''a'' 10, sample_warning_group ''b'' 12, sample_warning_group ''c'' 40] of
        Inr cs \<Rightarrow> cs | Inl e \<Rightarrow> [])
   = Inr [[(''a'', 10, 0), (''b'', 12, 0)], [(''c'', 20, 20)]]"
  by code_simp

lemma packing_keeps_groups_witness:
  "\<exists>cs. packImprovementWarningGroups sample_render (Some 24) (Some 30) [sample_warning_group ''a'' 10, sample_warning_group ''b'' 12, sample_warning_group ''c'' 40] = Inr cs
     \<and> length (concat (map bc_warningGroups cs)) = 3"
proof -
  let ?groups = "[sample_warning_group ''a'' 10, sample_warning_group ''b'' 12, sample_warning_group ''c'' 40]"
  obtain cs where cs: "packImprovementWarningGroups sample_render (Some 24) (Some 30) ?groups = Inr cs"
    using sample_packing by (auto split: sum.splits)
  have "length ?groups = length (concat (map bc_warningGroups cs))" using packing_keeps_groups [OF cs] list_all2_lengthD by blast
  then show ?thesis using cs by simp
qed

lemma packing_succeeds_witness:
  "\<exists>cs. packImprovementWarningGroups sample_render (Some 24) (Some 30) [sample_warning_group ''c'' 40] = Inr cs"
  by (rule packing_succeeds)
    (auto simp: sample_render_def sample_warning_group_def compressWarningGroup_def Let_def max_warning_location_samples_def)

end
