(* ===== verification/IssueMerge.thy ===== *)
theory IssueMerge
  imports JsPrelude
begin

text \<open>
  The merging of the answers of a language model into one improvement request
  (\<open>api/modules/scans/handoff/scan-improvement-issue-merge.ts\<close>): tasks with the same text are merged, at most twenty are
  shown, and the issues that no task mentions are put into tasks of their own, so that no issue is lost. A text is the
  list of its UTF-16 code units, because the texts are Japanese; ids are strings.
\<close>

section \<open>Texts\<close>

type_synonym utf16 = "int list"

definition white_unit :: "int \<Rightarrow> bool" where
  \<comment> \<open>what \<open>\s\<close> matches\<close>
  "white_unit u = (9 \<le> u \<and> u \<le> 13 \<or> u = 32 \<or> u = 160 \<or> u = 0x1680 \<or> 0x2000 \<le> u \<and> u \<le> 0x200A
     \<or> u \<in> {0x2028, 0x2029, 0x202F, 0x205F, 0x3000, 0xFEFF})"

fun squeeze_white :: "utf16 \<Rightarrow> utf16" where
  \<comment> \<open>\<open>replaceAll(/\s+/g, " ")\<close>\<close>
  "squeeze_white [] = []"
| "squeeze_white [u] = (if white_unit u then [32] else [u])"
| "squeeze_white (u # v # us) =
     (if white_unit u \<and> white_unit v then squeeze_white (v # us)
      else (if white_unit u then 32 else u) # squeeze_white (v # us))"

definition normalizeGeneratedText :: "utf16 \<Rightarrow> utf16" where
  "normalizeGeneratedText value = rev (dropWhile white_unit (rev (dropWhile white_unit (squeeze_white value))))"

section \<open>Tasks and plans\<close>

record task =
  tk_title :: utf16
  tk_body :: utf16
  tk_issueIds :: "string list option"
  tk_findingIds :: "string list"
  tk_evidenceRefs :: "string list"
  tk_warningGroupIds :: "string list option"

datatype priority = Critical_priority | High_priority | Medium_priority | Low_priority

fun priority_units :: "priority \<Rightarrow> utf16" where
  "priority_units Critical_priority = [99, 114, 105, 116, 105, 99, 97, 108]"
| "priority_units High_priority = [104, 105, 103, 104]"
| "priority_units Medium_priority = [109, 101, 100, 105, 117, 109]"
| "priority_units Low_priority = [108, 111, 119]"

record plan =
  pn_priority :: priority
  pn_rationale :: utf16
  pn_issueIds :: "string list option"
  pn_findingIds :: "string list"
  pn_warningGroupIds :: "string list option"

definition max_visible_tasks :: nat where "max_visible_tasks = 20"
definition max_implementation_tasks :: nat where "max_implementation_tasks = 30"
definition max_ids_per_fallback_task :: nat where "max_ids_per_fallback_task = 5000"

definition remaining_title :: utf16 where
  "remaining_title = [27531, 12426, 12398, 32, 105, 115, 115, 117, 101, 32, 12434, 30906, 35469, 12375, 12390, 20462, 27491, 12377, 12427]"

definition remaining_body :: utf16 where
  "remaining_body = [20491, 21029, 12479, 12473, 12463, 12408, 32113, 21512, 12373, 12428, 12394, 12363, 12387, 12383, 32, 105, 115, 115, 117,
     101, 32, 12434, 20445, 23384, 28168, 12415, 35388, 36321, 12398, 31684, 22258, 12391, 30906, 35469, 12375, 12289, 21516, 12376, 20462,
     27491, 26041, 37341, 12372, 12392, 12395, 23455, 35013, 20462, 27491, 12392, 22238, 24112, 12486, 12473, 12488, 12434, 34892, 12387,
     12390, 12367, 12384, 12373, 12356, 12290]"

definition unprioritized_rationale :: utf16 where
  "unprioritized_rationale = [76, 76, 77, 32, 12364, 20778, 20808, 38918, 20301, 12434, 36820, 12373, 12394, 12363, 12387, 12383, 12383, 12417,
     12289, 20445, 23384, 28168, 12415, 32, 105, 115, 115, 117, 101, 32, 12434, 26410, 20998, 39006, 12398, 25913, 20462, 23550, 35937, 12392,
     12375, 12390, 30906, 35469, 12375, 12390, 12367, 12384, 12373, 12356, 12290]"

definition uniqueLimited :: "string list \<Rightarrow> nat \<Rightarrow> string list" where
  "uniqueLimited values maximum = take maximum (js_uniq values)"

definition selectEvenly :: "'a list \<Rightarrow> nat \<Rightarrow> 'a list" where
  \<comment> \<open>\<open>Math.round(index * (length - 1) / (maximum - 1))\<close> rounds halves up\<close>
  "selectEvenly values maximum =
     (if length values \<le> maximum then values
      else if maximum \<le> 1 then take maximum values
      else map (\<lambda>i. values ! ((2 * (i * (length values - 1)) + (maximum - 1)) div (2 * (maximum - 1)))) [0..<maximum])"

definition expandIssueIds :: "(string, string list) jsmap \<Rightarrow> string list \<Rightarrow> string list" where
  "expandIssueIds findingIdsByIssueId issueIds = js_uniq (concat (map (\<lambda>i. or_else (jm_get findingIdsByIssueId i) []) issueIds))"

definition merged_groups :: "string list option \<Rightarrow> string list option \<Rightarrow> string list option" where
  "merged_groups old new = (let ids = uniqueLimited (or_else old [] @ or_else new []) 5000 in if ids \<noteq> [] then Some ids else old)"

definition task_key :: "task \<Rightarrow> utf16" where
  "task_key t = normalizeGeneratedText (tk_title t) @ [0] @ normalizeGeneratedText (tk_body t)"

definition merge_task :: "(utf16, task) jsmap \<Rightarrow> task \<Rightarrow> (utf16, task) jsmap" where
  "merge_task merged t = jm_set (task_key t) (case jm_get merged (task_key t) of
       None \<Rightarrow> t\<lparr>tk_issueIds := Some (uniqueLimited (or_else (tk_issueIds t) []) 5000),
         tk_findingIds := uniqueLimited (tk_findingIds t) 5000, tk_evidenceRefs := uniqueLimited (tk_evidenceRefs t) 50,
         tk_warningGroupIds := map_option (\<lambda>ids. uniqueLimited ids 5000) (tk_warningGroupIds t)\<rparr>
     | Some old \<Rightarrow> old\<lparr>tk_issueIds := Some (uniqueLimited (or_else (tk_issueIds old) [] @ or_else (tk_issueIds t) []) 5000),
         tk_findingIds := uniqueLimited (tk_findingIds old @ tk_findingIds t) 5000,
         tk_evidenceRefs := uniqueLimited (tk_evidenceRefs old @ tk_evidenceRefs t) 50,
         tk_warningGroupIds := merged_groups (tk_warningGroupIds old) (tk_warningGroupIds t)\<rparr>) merged"

definition mergeIssueTasksByRemediation :: "task list \<Rightarrow> task list" where
  "mergeIssueTasksByRemediation tasks = jm_values (foldl merge_task [] tasks)"

definition plan_key :: "plan \<Rightarrow> utf16" where
  "plan_key p = priority_units (pn_priority p) @ [0] @ normalizeGeneratedText (pn_rationale p)"

definition merge_plan :: "(utf16, plan) jsmap \<Rightarrow> plan \<Rightarrow> (utf16, plan) jsmap" where
  "merge_plan merged p = jm_set (plan_key p) (case jm_get merged (plan_key p) of
       None \<Rightarrow> p\<lparr>pn_issueIds := Some (uniqueLimited (or_else (pn_issueIds p) []) 5000),
         pn_findingIds := uniqueLimited (pn_findingIds p) 5000,
         pn_warningGroupIds := map_option (\<lambda>ids. uniqueLimited ids 5000) (pn_warningGroupIds p)\<rparr>
     | Some old \<Rightarrow> old\<lparr>pn_issueIds := Some (uniqueLimited (or_else (pn_issueIds old) [] @ or_else (pn_issueIds p) []) 5000),
         pn_findingIds := uniqueLimited (pn_findingIds old @ pn_findingIds p) 5000,
         pn_warningGroupIds := merged_groups (pn_warningGroupIds old) (pn_warningGroupIds p)\<rparr>) merged"

definition mergeIssuePriorityPlans :: "plan list \<Rightarrow> plan list" where
  "mergeIssuePriorityPlans plans = jm_values (foldl merge_plan [] plans)"

fun slices :: "nat \<Rightarrow> 'a list \<Rightarrow> 'a list list" where
  \<comment> \<open>the slices of the given positive length, the last one may be shorter\<close>
  "slices n [] = []"
| "slices n (x # xs) = take n (x # xs) # slices n (drop (n - 1) xs)"

definition remaining_task :: "string list \<Rightarrow> task" where
  "remaining_task ids = \<lparr>tk_title = remaining_title, tk_body = remaining_body, tk_issueIds = Some ids, tk_findingIds = [],
     tk_evidenceRefs = [], tk_warningGroupIds = None\<rparr>"

definition task_candidates :: "task list \<Rightarrow> string list \<Rightarrow> task list" where
  "task_candidates tasks issueIds = filter (\<lambda>t. issueIds = [] \<or> or_else (tk_issueIds t) [] \<noteq> [])
     (map (\<lambda>t. t\<lparr>tk_issueIds := Some (filter (\<lambda>i. i \<in> set issueIds) (js_uniq (or_else (tk_issueIds t) [])))\<rparr>) tasks)"

definition fallback_count :: "string list \<Rightarrow> nat" where
  \<comment> \<open>\<open>Math.ceil(length / MAX_IDS_PER_FALLBACK_TASK)\<close>\<close>
  "fallback_count ids = (length ids + (max_ids_per_fallback_task - 1)) div max_ids_per_fallback_task"

definition task_ids :: "task \<Rightarrow> string list" where
  "task_ids t = or_else (tk_issueIds t) []"

definition buildIssueTasks ::
    "task list list \<Rightarrow> string list \<Rightarrow> (string, string list) jsmap \<Rightarrow> (string, task list) result" where
  \<comment> \<open>the tasks of the requests, one list per request; the text of the error is shortened\<close>
  "buildIssueTasks requests issueIds findingIdsByIssueId =
     (let selected = selectEvenly (mergeIssueTasksByRemediation (task_candidates (concat requests) issueIds)) max_visible_tasks;
          unmentioned = filter (\<lambda>i. i \<notin> set (concat (map task_ids selected))) issueIds;
          reset = (length selected + fallback_count unmentioned > max_implementation_tasks);
          tasks = (if reset then [] else selected);
          missing = (if reset then issueIds else unmentioned)
      in if fallback_count missing > max_implementation_tasks then Inl ''Improvement request cannot represent all issues within the persisted task contract.''
         else Inr (map (\<lambda>t. t\<lparr>tk_issueIds := Some (task_ids t), tk_findingIds := expandIssueIds findingIdsByIssueId (task_ids t)\<rparr>)
                (tasks @ map remaining_task (slices max_ids_per_fallback_task missing))))"

definition plan_candidates :: "plan list \<Rightarrow> string list \<Rightarrow> plan list" where
  "plan_candidates plans issueIds = filter (\<lambda>p. issueIds = [] \<or> or_else (pn_issueIds p) [] \<noteq> [])
     (map (\<lambda>p. p\<lparr>pn_issueIds := Some (filter (\<lambda>i. i \<in> set issueIds) (js_uniq (or_else (pn_issueIds p) [])))\<rparr>) plans)"

definition buildIssuePriorityPlans :: "plan list list \<Rightarrow> string list \<Rightarrow> (string, string list) jsmap \<Rightarrow> plan list" where
  "buildIssuePriorityPlans requests issueIds findingIdsByIssueId =
     (let plans = map (\<lambda>p. p\<lparr>pn_findingIds := expandIssueIds findingIdsByIssueId (or_else (pn_issueIds p) [])\<rparr>)
            (selectEvenly (mergeIssuePriorityPlans (plan_candidates (concat requests) issueIds)) 20)
      in if plans \<noteq> [] then plans
         else map (\<lambda>ids. \<lparr>pn_priority = Medium_priority, pn_rationale = unprioritized_rationale, pn_issueIds = Some ids,
                pn_findingIds = expandIssueIds findingIdsByIssueId ids, pn_warningGroupIds = None\<rparr>)
              (take 20 (slices max_ids_per_fallback_task issueIds)))"

section \<open>The pieces\<close>

lemma select_length: "maximum > 1 \<Longrightarrow> length (selectEvenly values maximum) \<le> maximum"
  by (simp add: selectEvenly_def)

lemma select_index:
  assumes "i < m" and "1 < m" and "m < n"
  shows "(2 * (i * (n - 1)) + (m - 1)) div (2 * (m - 1)) < (n::nat)"
proof -
  have "i * (n - 1) \<le> (m - 1) * (n - 1)" using assms by (intro mult_le_mono1) simp
  moreover have "0 < m - 1" using assms by simp
  ultimately have "2 * (i * (n - 1)) + (m - 1) < 2 * ((m - 1) * (n - 1)) + 2 * (m - 1)" by linarith
  also have "\<dots> = n * (2 * (m - 1))" using assms by (cases n) (simp_all add: algebra_simps)
  finally show ?thesis using assms by (intro div_less_iff_less_mult [THEN iffD2]) simp_all
qed

lemma select_subset: "set (selectEvenly values maximum) \<subseteq> set values"
proof (cases "length values \<le> maximum \<or> maximum \<le> 1")
  case True
  then show ?thesis by (auto simp: selectEvenly_def dest: in_set_takeD)
next
  case False
  then show ?thesis using select_index [of _ maximum "length values"] by (auto simp: selectEvenly_def)
qed

lemma slices_concat: "n > 0 \<Longrightarrow> concat (slices n xs) = xs"
  by (induction n xs rule: slices.induct) (auto simp: take_Cons' )

lemma slices_bounded: "ys \<in> set (slices n xs) \<Longrightarrow> length ys \<le> n"
  by (induction n xs rule: slices.induct) auto

lemma slices_length: "n > 0 \<Longrightarrow> length (slices n xs) = (length xs + (n - 1)) div n"
proof (induction n xs rule: slices.induct)
  case (2 n x xs)
  then have "length (slices n (x # xs)) = Suc ((length (drop (n - 1) xs) + (n - 1)) div n)" by simp
  also have "\<dots> = (length (x # xs) + (n - 1)) div n"
  proof (cases "length xs < n - 1")
    case True
    then have "(length xs + n) div n = 1" using 2(2) by (simp add: div_add_self2)
    then show ?thesis using True 2(2) by (simp add: div_less)
  next
    case False
    then have "length (x # xs) + (n - 1) = (length (drop (n - 1) xs) + (n - 1)) + n" using 2(2) by simp
    then show ?thesis using 2(2) by (simp only: div_add_self2)
  qed
  finally show ?case .
qed simp

section \<open>No issue is lost\<close>

lemma jm_values_set: "set (jm_values (jm_set k v m)) \<subseteq> insert v (set (jm_values m))"
proof (induction m)
  case (Cons e m)
  then show ?case by (cases e) (auto simp: jm_values_def split: if_splits)
qed (simp add: jm_values_def)

lemma jm_values_all:
  assumes "\<And>v. v \<in> set (jm_values m) \<Longrightarrow> P v" and "P v"
  shows "w \<in> set (jm_values (jm_set k v m)) \<Longrightarrow> P w"
  using assms jm_values_set by fast

definition task_within :: "string list \<Rightarrow> task \<Rightarrow> bool" where
  "task_within issueIds t = (set (task_ids t) \<subseteq> set issueIds \<and> length (task_ids t) \<le> 5000 \<and> distinct (task_ids t))"

lemma unique_limited [simp]: "length (uniqueLimited xs n) \<le> n" "distinct (uniqueLimited xs n)" "set (uniqueLimited xs n) \<subseteq> set xs"
  by (auto simp: uniqueLimited_def dest: in_set_takeD)

lemma unique_within: "set xs \<subseteq> A \<Longrightarrow> set (uniqueLimited xs n) \<subseteq> A"
  using unique_limited(3) by blast

lemma merge_task_within:
  assumes "\<And>v. v \<in> set (jm_values m) \<Longrightarrow> task_within issueIds v" and "set (task_ids t) \<subseteq> set issueIds"
  shows "w \<in> set (jm_values (merge_task m t)) \<Longrightarrow> task_within issueIds w"
  unfolding merge_task_def
proof (rule jm_values_all [OF assms(1)], assumption)
  show "task_within issueIds (case jm_get m (task_key t) of
       None \<Rightarrow> t\<lparr>tk_issueIds := Some (uniqueLimited (or_else (tk_issueIds t) []) 5000),
         tk_findingIds := uniqueLimited (tk_findingIds t) 5000, tk_evidenceRefs := uniqueLimited (tk_evidenceRefs t) 50,
         tk_warningGroupIds := map_option (\<lambda>ids. uniqueLimited ids 5000) (tk_warningGroupIds t)\<rparr>
     | Some old \<Rightarrow> old\<lparr>tk_issueIds := Some (uniqueLimited (or_else (tk_issueIds old) [] @ or_else (tk_issueIds t) []) 5000),
         tk_findingIds := uniqueLimited (tk_findingIds old @ tk_findingIds t) 5000,
         tk_evidenceRefs := uniqueLimited (tk_evidenceRefs old @ tk_evidenceRefs t) 50,
         tk_warningGroupIds := merged_groups (tk_warningGroupIds old) (tk_warningGroupIds t)\<rparr>)"
  proof (cases "jm_get m (task_key t)")
    case None
    then show ?thesis using assms(2) unique_within [of "task_ids t" "set issueIds"] by (simp add: task_within_def task_ids_def)
  next
    case (Some old)
    then have "set (task_ids old) \<subseteq> set issueIds" using assms(1) [OF jm_get_values [OF Some]] by (simp add: task_within_def)
    then show ?thesis using Some assms(2) unique_within [of "task_ids old @ task_ids t" "set issueIds"]
      by (simp add: task_within_def task_ids_def)
  qed
qed

lemma merged_within:
  assumes "\<And>t. t \<in> set ts \<Longrightarrow> set (task_ids t) \<subseteq> set issueIds" and "\<And>v. v \<in> set (jm_values m) \<Longrightarrow> task_within issueIds v"
  shows "w \<in> set (jm_values (foldl merge_task m ts)) \<Longrightarrow> task_within issueIds w"
  using assms
proof (induction ts arbitrary: m)
  case (Cons t ts)
  show ?case
  proof (rule Cons(1) [of "merge_task m t"])
    show "w \<in> set (jm_values (foldl merge_task (merge_task m t) ts))" using Cons(2) by simp
    show "set (task_ids u) \<subseteq> set issueIds" if "u \<in> set ts" for u using Cons(3) that by simp
    show "task_within issueIds v" if "v \<in> set (jm_values (merge_task m t))" for v
      using merge_task_within [OF Cons(4) _ that] Cons(3) [of t] by simp
  qed
qed simp

lemma candidates_within: "t \<in> set (task_candidates tasks issueIds) \<Longrightarrow> set (task_ids t) \<subseteq> set issueIds"
  by (auto simp: task_candidates_def task_ids_def)

definition selected_tasks :: "task list list \<Rightarrow> string list \<Rightarrow> task list" where
  "selected_tasks requests issueIds = selectEvenly (mergeIssueTasksByRemediation (task_candidates (concat requests) issueIds)) max_visible_tasks"

lemma selected_within: "t \<in> set (selected_tasks requests issueIds) \<Longrightarrow> task_within issueIds t"
  using select_subset merged_within [of "task_candidates (concat requests) issueIds" issueIds "[]" t] candidates_within
  by (fastforce simp: selected_tasks_def mergeIssueTasksByRemediation_def jm_values_def)

lemma selected_few: "length (selected_tasks requests issueIds) \<le> 20"
  using select_length [of 20] by (simp add: selected_tasks_def max_visible_tasks_def)

lemma sum_ids_bound: "(\<And>t. t \<in> set ts \<Longrightarrow> length (task_ids t) \<le> n) \<Longrightarrow> length (concat (map task_ids ts)) \<le> n * length ts"
  by (induction ts) (auto simp: add_mono)

definition kept_and_missing :: "task list list \<Rightarrow> string list \<Rightarrow> task list \<times> string list" where
  "kept_and_missing requests issueIds =
     (let selected = selected_tasks requests issueIds; unmentioned = filter (\<lambda>i. i \<notin> set (concat (map task_ids selected))) issueIds
      in if length selected + fallback_count unmentioned > max_implementation_tasks then ([], issueIds) else (selected, unmentioned))"

lemma build_eq:
  assumes "kept_and_missing requests issueIds = (kept, missing)"
  shows "buildIssueTasks requests issueIds finds =
    (if fallback_count missing > max_implementation_tasks then Inl ''Improvement request cannot represent all issues within the persisted task contract.''
     else Inr (map (\<lambda>t. t\<lparr>tk_issueIds := Some (task_ids t), tk_findingIds := expandIssueIds finds (task_ids t)\<rparr>)
       (kept @ map remaining_task (slices max_ids_per_fallback_task missing))))"
  using assms by (auto simp: buildIssueTasks_def kept_and_missing_def selected_tasks_def Let_def split: if_splits)

lemma kept_cases:
  assumes "kept_and_missing requests issueIds = (kept, missing)"
  shows "set issueIds = set (concat (map task_ids kept)) \<union> set missing" and "t \<in> set kept \<Longrightarrow> task_within issueIds t"
    and "fallback_count missing \<le> max_implementation_tasks \<Longrightarrow> length kept + fallback_count missing \<le> max_implementation_tasks"
    and "distinct issueIds \<Longrightarrow> distinct missing"
  using assms selected_within [of _ requests issueIds]
  by (auto simp: kept_and_missing_def Let_def task_within_def split: if_splits)

text \<open>C31. No issue is lost: if the tasks can be built, every issue is named by one of them, no task names an id that is not an
  issue of the scan, there are at most 30 tasks of at most 5000 issues each, and the findings of a task are those of
  its issues; and the tasks can be built exactly if there are at most 150000 distinct issues.\<close>

theorem every_issue_has_task:
  assumes "distinct issueIds"
  shows "case buildIssueTasks requests issueIds finds of
      Inr tasks \<Rightarrow> length issueIds \<le> 150000 \<and> set (concat (map task_ids tasks)) = set issueIds \<and> length tasks \<le> 30
        \<and> list_all (\<lambda>t. length (task_ids t) \<le> 5000 \<and> tk_findingIds t = expandIssueIds finds (task_ids t)) tasks
    | Inl e \<Rightarrow> length issueIds > 150000"
proof -
  obtain kept missing where km: "kept_and_missing requests issueIds = (kept, missing)" by fastforce
  note kept = kept_cases [OF km] and build = build_eq [OF km, of finds]
  have bounds: "\<And>t. t \<in> set kept \<Longrightarrow> length (task_ids t) \<le> 5000" using kept(2) by (simp add: task_within_def)
  have few: "fallback_count missing \<le> max_implementation_tasks \<longleftrightarrow> length missing \<le> 150000"
    by (auto simp: fallback_count_def max_implementation_tasks_def max_ids_per_fallback_task_def)
  show ?thesis
  proof (cases "fallback_count missing \<le> max_implementation_tasks")
    case True
    let ?fallback = "map remaining_task (slices 5000 missing)"
    let ?tasks = "map (\<lambda>t. t\<lparr>tk_issueIds := Some (task_ids t), tk_findingIds := expandIssueIds finds (task_ids t)\<rparr>) (kept @ ?fallback)"
    have tasks: "buildIssueTasks requests issueIds finds = Inr ?tasks"
      using build True by (simp add: max_ids_per_fallback_task_def not_less)
    have ids: "map task_ids ?tasks = map task_ids kept @ slices 5000 missing"
      by (simp add: task_ids_def remaining_task_def comp_def)
    have all: "set (concat (map task_ids ?tasks)) = set issueIds"
      unfolding ids using kept(1) slices_concat [of 5000 missing] by simp
    have count: "length kept + fallback_count missing \<le> 30" using kept(3) [OF True] by (simp add: max_implementation_tasks_def)
    then have len: "length ?tasks \<le> 30"
      using slices_length [of 5000 missing] by (simp add: fallback_count_def max_ids_per_fallback_task_def)
    have small: "list_all (\<lambda>t. length (task_ids t) \<le> 5000 \<and> tk_findingIds t = expandIssueIds finds (task_ids t)) ?tasks"
      using bounds slices_bounded [of _ 5000 missing] by (auto simp: list_all_iff task_ids_def remaining_task_def)
    have "length (concat (map task_ids kept)) \<le> 5000 * length kept" by (rule sum_ids_bound) (rule bounds)
    moreover have "length missing \<le> 5000 * fallback_count missing" by (simp add: fallback_count_def max_ids_per_fallback_task_def)
    moreover have "card (set issueIds) \<le> length (concat (map task_ids kept)) + length missing"
      unfolding kept(1) by (metis add_mono card_Un_le card_length le_trans)
    ultimately have "length issueIds \<le> 5000 * (length kept + fallback_count missing)"
      using distinct_card [OF assms] by (simp add: algebra_simps)
    moreover have "5000 * (length kept + fallback_count missing) \<le> 5000 * 30" using count by (intro mult_le_mono2)
    ultimately have "length issueIds \<le> 150000" by simp
    then show ?thesis unfolding tasks using all len small by simp
  next
    case False
    then have "length missing > 150000" using few by simp
    moreover have "length missing \<le> length issueIds"
      using km by (auto simp: kept_and_missing_def Let_def split: if_splits)
    ultimately show ?thesis using build False by (simp add: not_le)
  qed
qed

lemma every_issue_has_task_witness:
  "case buildIssueTasks [[]] [''i1'', ''i2''] [(''i1'', [''f''])] of Inl e \<Rightarrow> False
   | Inr tasks \<Rightarrow> set (concat (map task_ids tasks)) = {''i1'', ''i2''}"
  using every_issue_has_task [of "[''i1'', ''i2'']" "[(''i1'', [''f''])]" "[[]]"] by (auto split: sum.splits)

text \<open>Defect. The schema of a request allows 5000 findings per task, but only the number of issues of a task is limited: the
  findings of a task whose issues have two findings each are twice as many.\<close>

theorem task_findings_unbounded:
  assumes "distinct (concat (map (\<lambda>i. [f i, g i]) ids))" and "list_all (\<lambda>i. jm_get finds i = Some [f i, g i]) ids"
  shows "length (expandIssueIds finds ids) = 2 * length ids"
proof -
  have "map (\<lambda>i. or_else (jm_get finds i) []) ids = map (\<lambda>i. [f i, g i]) ids" using assms(2) by (simp add: list_all_iff)
  then have "expandIssueIds finds ids = js_uniq (concat (map (\<lambda>i. [f i, g i]) ids))" by (simp only: expandIssueIds_def)
  also have "length \<dots> = length (concat (map (\<lambda>i. [f i, g i]) ids))"
    using distinct_card [OF assms(1)] distinct_card [of "js_uniq (concat (map (\<lambda>i. [f i, g i]) ids))"] by simp
  also have "\<dots> = 2 * length ids" by (induction ids) auto
  finally show ?thesis .
qed

text \<open>There is always a plan for the priorities of the issues, of at most twenty entries: either from the answers, naming only
  issues of the scan, or one that names the first issues in order.\<close>

theorem priority_plans_bounded:
  "length (buildIssuePriorityPlans requests issueIds finds) \<le> 20 \<and> (issueIds \<noteq> [] \<longrightarrow> buildIssuePriorityPlans requests issueIds finds \<noteq> [])"
proof -
  have "issueIds \<noteq> [] \<Longrightarrow> slices max_ids_per_fallback_task issueIds \<noteq> []" by (cases issueIds) simp_all
  then show ?thesis using select_length [of 20 "mergeIssuePriorityPlans (plan_candidates (concat requests) issueIds)"]
    by (auto simp: buildIssuePriorityPlans_def Let_def)
qed

end
