(* ===== verification/LeaseOwnership.thy ===== *)
theory LeaseOwnership
  imports ProcessCapacity
begin

text \<open>
  Who owns the leases of the process capacity: the abstract specification of the bookkeeping in
  \<open>api/modules/scans/execution/scan-process-supervisor.ts\<close>. Its steps are launch, abort, take, end, spawn and
  release; its invariant says that a lease is held exactly while a start goes on with it or a process that owns it
  runs, and that no scan has two of them.
\<close>


section \<open>What the operations of the capacity do to a request\<close>

definition lease_open :: "nat \<Rightarrow> capacity \<Rightarrow> bool" where
  \<comment> \<open>the promise of the request is resolved or may still be\<close>
  "lease_open r c = (r \<in> set (pc_held c) \<or> r \<in> set (liveWaiters c))"

definition keeps :: "nat \<Rightarrow> capacity \<Rightarrow> capacity \<Rightarrow> bool" where
  \<comment> \<open>a held lease stays held, a waiting request waits or is granted, and a closed one is not opened again\<close>
  "keeps r c c' = ((r \<in> set (pc_held c) \<longrightarrow> r \<in> set (pc_held c')) \<and> (r \<in> set (liveWaiters c) \<longrightarrow> lease_open r c')
     \<and> (\<not> lease_open r c \<longrightarrow> \<not> lease_open r c'))"

lemma held_not_waiting: "capacity_ok c \<Longrightarrow> r \<in> set (pc_held c) \<Longrightarrow> r \<notin> set (liveWaiters c)"
  by (auto simp: capacity_ok_def ordered_below_def sorted_wrt_append dest!: mset_subset_eqD)

lemma granted_distinct: assumes "capacity_ok c" shows "distinct (pc_granted c @ liveWaiters c)"
  using assms by (simp add: capacity_ok_def ordered_below_def strict_sorted_iff del: distinct_append)

lemma held_distinct: assumes "capacity_ok c" shows "distinct (pc_held c)"
proof -
  have held: "mset (pc_held c) \<subseteq># mset (pc_granted c)" "distinct (pc_granted c)"
    using assms granted_distinct [OF assms] by (auto simp: capacity_ok_def ordered_below_def)
  have "count (mset (pc_held c)) r = (if r \<in> set (pc_held c) then 1 else 0)" for r
  proof -
    have "count (mset (pc_held c)) r \<le> 1"
      using mset_subset_eq_count [OF held(1), of r] held(2) unfolding distinct_count_atmost_1 by (metis le_numeral_extra(4) le_trans zero_le_one)
    moreover have "0 < count (mset (pc_held c)) r \<longleftrightarrow> r \<in> set (pc_held c)" by simp
    ultimately show ?thesis by (auto simp del: count_greater_zero_iff)
  qed
  then show ?thesis unfolding distinct_count_atmost_1 by blast
qed

lemma open_below: "capacity_ok c \<Longrightarrow> lease_open r c \<Longrightarrow> r < pc_requests c"
  by (auto simp: capacity_ok_def ordered_below_def lease_open_def dest!: mset_subset_eqD)

lemma granted_keeps: "keeps r c (granted_up_to n c)"
  by (auto simp: keeps_def lease_open_def dest: in_set_takeD in_set_dropD)
    (metis append_take_drop_id Un_iff set_append)

lemma keeps_refl [simp]: "keeps r c c" by (simp add: keeps_def lease_open_def)

lemma keeps_trans: "keeps r a b \<Longrightarrow> keeps r b c \<Longrightarrow> keeps r a c"
  by (auto simp: keeps_def lease_open_def)

lemma grant_keeps: "r \<noteq> i \<Longrightarrow> keeps r c (grant i c)"
  by (auto simp: keeps_def lease_open_def)

lemma refuse_keeps: "keeps r c (refuse w i d) = keeps r c d"
  by (simp add: keeps_def lease_open_def)

lemma tryAcquire_keeps: "r \<noteq> i \<Longrightarrow> keeps r c (snd (tryAcquire l i c))"
  using granted_keeps grant_keeps keeps_trans by (fastforce simp: tryAcquire_cases Let_def)

lemma queue_keeps: "r \<noteq> i \<Longrightarrow> keeps r c (c\<lparr>pc_waiters := pc_waiters c @ [\<lparr>wt_id = i, wt_aborted = False\<rparr>]\<rparr>)"
  by (auto simp: keeps_def lease_open_def liveWaiters_def)

lemma acquire_keeps: "r \<noteq> i \<Longrightarrow> keeps r c (acquire l b i c)"
  using keeps_trans [OF tryAcquire_keeps queue_keeps] tryAcquire_keeps [of r i c l]
  by (simp add: acquire_cases Let_def refuse_keeps)

lemma request_keeps: "keeps r c (c\<lparr>pc_requests := n\<rparr>)"
  by (simp add: keeps_def lease_open_def liveWaiters_def)

lemma abort_keeps: "r \<noteq> i \<Longrightarrow> keeps r c (abort_waiter i c)"
  by (auto simp: abort_waiter_def refuse_keeps) (auto simp: keeps_def lease_open_def abort_live)

lemma abort_self: "r \<notin> set (liveWaiters (abort_waiter r c)) \<and> pc_held (abort_waiter r c) = pc_held c"
  by (auto simp: abort_waiter_def abort_live)

lemma release_keeps: "r \<noteq> i \<Longrightarrow> keeps r c (release l i c)"
proof -
  assume r: "r \<noteq> i"
  have "keeps r c (c\<lparr>pc_active := pc_active c - 1, pc_held := remove1 i (pc_held c)\<rparr>)"
    using r notin_set_remove1 by (auto simp: keeps_def lease_open_def in_set_remove1)
  from keeps_trans [OF this granted_keeps] show ?thesis by (simp add: release_simp)
qed

lemma release_self: assumes "capacity_ok c" and "r \<notin> set (liveWaiters c)" shows "\<not> lease_open r (release l r c)"
proof (cases "r \<in> set (pc_held c)")
  case True
  have "r \<notin> set (remove1 r (pc_held c))" using held_distinct [OF assms(1)] by simp
  then show ?thesis using True assms(2) by (auto simp: release_simp lease_open_def dest: in_set_takeD in_set_dropD)
qed (use assms(2) in \<open>simp add: release_simp lease_open_def\<close>)

lemma capacity_ok_release: "capacity_ok c \<Longrightarrow> capacity_ok (release l r c)"
  using capacity_ok_move [of c "Release l r"] by simp

lemma capacity_ok_abort: "capacity_ok c \<Longrightarrow> capacity_ok (abort_waiter r c)"
  using capacity_ok_move [of c "Abort r"] by simp

lemma acquired:
  fixes c :: capacity and l :: capacity_limits
  defines "c' \<equiv> with_request (acquire l False) c"
  assumes "capacity_ok c"
  shows "capacity_ok c'" "pc_requests c' = Suc (pc_requests c)" "r \<noteq> pc_requests c \<Longrightarrow> keeps r c c'"
proof -
  show "capacity_ok c'" using capacity_ok_move [OF assms(2), of "Acquire l False"] by (simp add: c'_def)
  show "pc_requests c' = Suc (pc_requests c)" by (simp add: c'_def with_request_def)
  show "r \<noteq> pc_requests c \<Longrightarrow> keeps r c c'"
    unfolding c'_def with_request_def using keeps_trans [OF request_keeps acquire_keeps] by blast
qed

lemma other_keeps:
  assumes "capacity_move e c = Some c'" and "case e of Abort i \<Rightarrow> i \<noteq> r | Release l i \<Rightarrow> i \<noteq> r | _ \<Rightarrow> True" and "r \<noteq> pc_requests c"
  shows "keeps r c c'"
proof (cases e)
  case (TryAcquire l)
  have "keeps r c (snd (tryAcquire l (pc_requests c) (c\<lparr>pc_requests := Suc (pc_requests c)\<rparr>)))"
    by (rule keeps_trans [OF request_keeps tryAcquire_keeps [OF assms(3)]])
  then show ?thesis using assms(1) TryAcquire by (auto simp: with_request_def refuse_keeps split: prod.splits bool.splits)
next
  case (Acquire l b)
  then show ?thesis using assms(1) keeps_trans [OF request_keeps acquire_keeps [OF assms(3)]] by (auto simp: with_request_def)
qed (use assms abort_keeps release_keeps in auto)

lemma move_requests: "capacity_move e c = Some c' \<Longrightarrow> pc_requests c \<le> pc_requests c'"
  by (cases e) (auto simp: with_request_def split: prod.splits bool.splits dest: arg_cong [where f = "pc_requests \<circ> snd"])

section \<open>Who holds what\<close>

text \<open>The part of the state that decides about leases and processes: the two maps, of every start whether it still waits
  for its lease, goes on with it or is over, of every process whether its ownership was released.\<close>

datatype lease_phase = Waiting_lease | Going_on | Over

record start =
  st_scan :: string
  st_aborted :: bool
  st_request :: nat
  st_spawned :: bool
  st_phase :: lease_phase

record holding =
  hl_launch :: nat
  hl_scan :: string
  hl_released :: bool

record ownership =
  ow_pending :: "string \<rightharpoonup> nat"
  ow_owned :: "string \<rightharpoonup> nat"
  ow_starts :: "start list"
  ow_jobs :: "holding list"
  ow_capacity :: capacity

definition maps_ok :: "ownership \<Rightarrow> bool" where
  "maps_ok w =
     ((\<forall>i n. ow_pending w i = Some n \<longleftrightarrow> n < length (ow_starts w) \<and> st_scan (ow_starts w ! n) = i
         \<and> \<not> st_aborted (ow_starts w ! n) \<and> st_phase (ow_starts w ! n) \<noteq> Over)
    \<and> (\<forall>i j. ow_owned w i = Some j \<longleftrightarrow> j < length (ow_jobs w) \<and> hl_scan (ow_jobs w ! j) = i \<and> \<not> hl_released (ow_jobs w ! j))
    \<and> (\<forall>i. ow_pending w i = None \<or> ow_owned w i = None))"

definition jobs_ok :: "ownership \<Rightarrow> bool" where
  "jobs_ok w =
     ((\<forall>j < length (ow_jobs w). hl_launch (ow_jobs w ! j) < length (ow_starts w)
         \<and> st_spawned (ow_starts w ! hl_launch (ow_jobs w ! j)) \<and> st_scan (ow_starts w ! hl_launch (ow_jobs w ! j)) = hl_scan (ow_jobs w ! j))
    \<and> distinct (map hl_launch (ow_jobs w))
    \<and> (\<forall>n < length (ow_starts w). st_spawned (ow_starts w ! n) \<longrightarrow> st_phase (ow_starts w ! n) = Over \<and> n \<in> hl_launch ` set (ow_jobs w)))"

definition lease_due :: "ownership \<Rightarrow> nat \<Rightarrow> bool" where
  \<comment> \<open>a start that goes on or a process that is owned has the lease\<close>
  "lease_due w n = (st_phase (ow_starts w ! n) = Going_on \<or> (\<exists>J \<in> set (ow_jobs w). hl_launch J = n \<and> \<not> hl_released J))"

definition lease_fits :: "capacity \<Rightarrow> start \<Rightarrow> bool \<Rightarrow> bool" where
  "lease_fits c S due = (st_request S < pc_requests c
     \<and> (if st_phase S = Waiting_lease then lease_open (st_request S) c \<or> st_aborted S
        else (st_request S \<in> set (pc_held c) \<longleftrightarrow> due) \<and> st_request S \<notin> set (liveWaiters c)))"

definition leases_ok :: "ownership \<Rightarrow> bool" where
  "leases_ok w = (capacity_ok (ow_capacity w) \<and> distinct (map st_request (ow_starts w))
     \<and> (\<forall>n < length (ow_starts w). lease_fits (ow_capacity w) (ow_starts w ! n) (lease_due w n)))"

definition ownership_ok :: "ownership \<Rightarrow> bool" where
  "ownership_ok w = (maps_ok w \<and> jobs_ok w \<and> leases_ok w)"

definition ow_launch :: "capacity_limits \<Rightarrow> string \<Rightarrow> ownership \<Rightarrow> ownership" where
  "ow_launch l i w = w\<lparr>ow_pending := (ow_pending w)(i \<mapsto> length (ow_starts w)),
     ow_starts := ow_starts w @ [\<lparr>st_scan = i, st_aborted = False, st_request = pc_requests (ow_capacity w), st_spawned = False,
       st_phase = Waiting_lease\<rparr>],
     ow_capacity := with_request (acquire l False) (ow_capacity w)\<rparr>"

definition ow_abort :: "nat \<Rightarrow> ownership \<Rightarrow> ownership" where
  "ow_abort n w = (let S = ow_starts w ! n in
     w\<lparr>ow_pending := (ow_pending w)(st_scan S := None), ow_starts := (ow_starts w)[n := S\<lparr>st_aborted := True\<rparr>],
       ow_capacity := abort_waiter (st_request S) (ow_capacity w)\<rparr>)"

definition ow_take :: "nat \<Rightarrow> ownership \<Rightarrow> ownership" where
  "ow_take n w = w\<lparr>ow_starts := (ow_starts w)[n := (ow_starts w ! n)\<lparr>st_phase := Going_on\<rparr>]\<rparr>"

definition ow_end :: "capacity_limits \<Rightarrow> nat \<Rightarrow> ownership \<Rightarrow> ownership" where
  "ow_end l n w = (let S = ow_starts w ! n in
     w\<lparr>ow_pending := (if ow_pending w (st_scan S) = Some n then (ow_pending w)(st_scan S := None) else ow_pending w),
       ow_starts := (ow_starts w)[n := S\<lparr>st_phase := Over\<rparr>],
       ow_capacity := (if st_phase S = Going_on then release l (st_request S) (ow_capacity w) else ow_capacity w)\<rparr>)"

definition ow_spawn :: "nat \<Rightarrow> ownership \<Rightarrow> ownership" where
  "ow_spawn n w = (let S = ow_starts w ! n; i = st_scan S in
     w\<lparr>ow_pending := (if ow_pending w i = Some n then (ow_pending w)(i := None) else ow_pending w),
       ow_owned := (ow_owned w)(i \<mapsto> length (ow_jobs w)),
       ow_starts := (ow_starts w)[n := S\<lparr>st_spawned := True, st_phase := Over\<rparr>],
       ow_jobs := ow_jobs w @ [\<lparr>hl_launch = n, hl_scan = i, hl_released = False\<rparr>]\<rparr>)"

definition ow_release :: "capacity_limits \<Rightarrow> nat \<Rightarrow> ownership \<Rightarrow> ownership" where
  "ow_release l j w = (let J = ow_jobs w ! j in
     w\<lparr>ow_owned := (if ow_owned w (hl_scan J) = Some j then (ow_owned w)(hl_scan J := None) else ow_owned w),
       ow_jobs := (ow_jobs w)[j := J\<lparr>hl_released := True\<rparr>],
       ow_capacity := release l (st_request (ow_starts w ! hl_launch J)) (ow_capacity w)\<rparr>)"

lemma request_inj:
  "leases_ok w \<Longrightarrow> n < length (ow_starts w) \<Longrightarrow> m < length (ow_starts w) \<Longrightarrow> st_request (ow_starts w ! n) = st_request (ow_starts w ! m) \<Longrightarrow> n = m"
  by (auto simp: leases_ok_def distinct_conv_nth)

lemma map_update_same: "f (x ! n) = f y \<Longrightarrow> map f (x[n := y]) = map f x"
  by (metis list_update_id map_update)

lemma fits_kept:
  "lease_fits c S due \<Longrightarrow> keeps (st_request S) c c' \<Longrightarrow> capacity_ok c' \<Longrightarrow> pc_requests c \<le> pc_requests c' \<Longrightarrow> lease_fits c' S due"
  using held_not_waiting [of c' "st_request S"] by (auto simp: lease_fits_def keeps_def lease_open_def)

text \<open>An operation of the capacity that keeps the requests of the starts keeps the leases; one that touches the request of
  one start, which may change with it, keeps those of the others.\<close>

lemma leases_step:
  assumes "leases_ok w" and "capacity_ok c" and "pc_requests (ow_capacity w) \<le> pc_requests c"
    and "length (ow_starts w') = length (ow_starts w)" and "map st_request (ow_starts w') = map st_request (ow_starts w)"
    and "ow_capacity w' = c"
    and "\<And>m. m < length (ow_starts w) \<Longrightarrow> m \<notin> M \<Longrightarrow> ow_starts w' ! m = ow_starts w ! m \<and> lease_due w' m = lease_due w m
          \<and> keeps (st_request (ow_starts w ! m)) (ow_capacity w) c"
    and "\<And>m. m \<in> M \<Longrightarrow> m < length (ow_starts w) \<Longrightarrow> lease_fits c (ow_starts w' ! m) (lease_due w' m)"
  shows "leases_ok w'"
  unfolding leases_ok_def
proof (intro conjI allI impI)
  fix m assume m: "m < length (ow_starts w')"
  show "lease_fits (ow_capacity w') (ow_starts w' ! m) (lease_due w' m)"
  proof (cases "m \<in> M")
    case False
    then show ?thesis using assms(7) [of m] assms(1) m assms(2,3,4,6)
      by (auto simp: leases_ok_def intro: fits_kept)
  qed (use assms(8) m assms(4,6) in simp)
qed (use assms(1,2,5,6) in \<open>simp_all add: leases_ok_def\<close>)

lemma leases_kept:
  assumes "leases_ok w" and "capacity_ok c" and "pc_requests (ow_capacity w) \<le> pc_requests c"
    and "\<And>n. n < length (ow_starts w) \<Longrightarrow> keeps (st_request (ow_starts w ! n)) (ow_capacity w) c"
  shows "leases_ok (w\<lparr>ow_capacity := c\<rparr>)"
  by (rule leases_step [OF assms(1-3), where M = "{}"]) (use assms(4) in \<open>simp_all add: lease_due_def\<close>)

lemma maps_capacity [simp]: "maps_ok (w\<lparr>ow_capacity := c\<rparr>) = maps_ok w" by (simp add: maps_ok_def)

lemma jobs_capacity [simp]: "jobs_ok (w\<lparr>ow_capacity := c\<rparr>) = jobs_ok w" by (simp add: jobs_ok_def)

lemma maps_launch:
  assumes "maps_ok w" and "ow_pending w i = None" and "ow_owned w i = None"
  shows "maps_ok (ow_launch l i w)"
  using assms unfolding maps_ok_def by (auto simp: ow_launch_def nth_append less_Suc_eq) (metis option.distinct(1))+

lemma jobs_launch: "jobs_ok w \<Longrightarrow> jobs_ok (ow_launch l i w)"
  unfolding jobs_ok_def by (auto simp: ow_launch_def nth_append less_Suc_eq)

lemma leases_launch:
  assumes "leases_ok w" and "lease_open (pc_requests (ow_capacity w)) (with_request (acquire l False) (ow_capacity w))"
  shows "leases_ok (ow_launch l i w)"
proof -
  let ?c = "with_request (acquire l False) (ow_capacity w)"
  have c: "capacity_ok (ow_capacity w)" using assms(1) by (simp add: leases_ok_def)
  note acq = acquired [OF c, where l = l]
  have "keeps (st_request (ow_starts w ! n)) (ow_capacity w) ?c" "st_request (ow_starts w ! n) < pc_requests (ow_capacity w)"
    if "n < length (ow_starts w)" for n
    using assms(1) that acq(3) by (force simp: leases_ok_def lease_fits_def)+
  then have old: "leases_ok (w\<lparr>ow_capacity := ?c\<rparr>)" and new: "pc_requests (ow_capacity w) \<notin> st_request ` set (ow_starts w)"
    using leases_kept [OF assms(1) acq(1)] acq(2) by (simp, metis (no_types, lifting) imageE in_set_conv_nth less_irrefl)
  have due: "lease_due (ow_launch l i w) n = lease_due (w\<lparr>ow_capacity := ?c\<rparr>) n" if "n < length (ow_starts w)" for n
    using that by (simp add: lease_due_def ow_launch_def nth_append)
  show ?thesis unfolding leases_ok_def
  proof (intro conjI allI impI)
    fix n assume "n < length (ow_starts (ow_launch l i w))"
    then consider "n < length (ow_starts w)" | "n = length (ow_starts w)" by (fastforce simp: ow_launch_def)
    then show "lease_fits (ow_capacity (ow_launch l i w)) (ow_starts (ow_launch l i w) ! n) (lease_due (ow_launch l i w) n)"
    proof cases
      case 1
      then show ?thesis using old unfolding leases_ok_def due [OF 1] by (simp add: ow_launch_def nth_append lease_due_def)
    next
      case 2
      then show ?thesis using assms(2) acq(2) by (simp add: ow_launch_def lease_fits_def)
    qed
  qed (use acq(1) new old in \<open>simp_all add: ow_launch_def leases_ok_def\<close>)
qed

lemma maps_abort:
  assumes "maps_ok w" and "n < length (ow_starts w)" and "ow_pending w (st_scan (ow_starts w ! n)) = Some n"
  shows "maps_ok (ow_abort n w)"
  using assms unfolding maps_ok_def by (auto simp: ow_abort_def Let_def nth_list_update split: if_splits) (metis option.inject)+

lemma jobs_abort: "jobs_ok w \<Longrightarrow> n < length (ow_starts w) \<Longrightarrow> jobs_ok (ow_abort n w)"
  unfolding jobs_ok_def by (auto simp: ow_abort_def Let_def nth_list_update)

lemma due_starts:
  "ow_jobs w' = ow_jobs w \<Longrightarrow> st_phase (ow_starts w' ! n) = st_phase (ow_starts w ! n) \<Longrightarrow> lease_due w' n = lease_due w n"
  by (simp add: lease_due_def)

lemma leases_abort: assumes "leases_ok w" and "n < length (ow_starts w)" shows "leases_ok (ow_abort n w)"
proof -
  let ?c = "ow_capacity w" let ?r = "st_request (ow_starts w ! n)"
  have c: "capacity_ok ?c" "lease_fits ?c (ow_starts w ! n) (lease_due w n)" using assms by (auto simp: leases_ok_def)
  have due: "lease_due (ow_abort n w) m = lease_due w m" for m
    by (rule due_starts) (use assms(2) in \<open>simp_all add: ow_abort_def Let_def nth_list_update\<close>)
  show ?thesis
  proof (rule leases_step [OF assms(1) capacity_ok_abort [OF c(1), of ?r], where M = "{n}"])
    show "map st_request (ow_starts (ow_abort n w)) = map st_request (ow_starts w)"
      by (simp add: ow_abort_def Let_def map_update_same)
    show "ow_starts (ow_abort n w) ! m = ow_starts w ! m \<and> lease_due (ow_abort n w) m = lease_due w m
        \<and> keeps (st_request (ow_starts w ! m)) ?c (abort_waiter ?r ?c)"
      if "m < length (ow_starts w)" "m \<notin> {n}" for m
    proof -
      have "st_request (ow_starts w ! m) \<noteq> ?r" using request_inj [OF assms(1) that(1) assms(2)] that(2) by auto
      then show ?thesis using that(2) due abort_keeps by (auto simp: ow_abort_def Let_def)
    qed
    show "lease_fits (abort_waiter ?r ?c) (ow_starts (ow_abort n w) ! m) (lease_due (ow_abort n w) m)" if "m \<in> {n}" for m
    proof -
      have "ow_starts (ow_abort n w) ! n = (ow_starts w ! n)\<lparr>st_aborted := True\<rparr>" using assms(2) by (simp add: ow_abort_def Let_def)
      then show ?thesis using that c(2) abort_self [of ?r ?c] due [of n] by (simp add: lease_fits_def)
    qed
  qed (simp_all add: ow_abort_def Let_def)
qed

lemma maps_take:
  "maps_ok w \<Longrightarrow> n < length (ow_starts w) \<Longrightarrow> st_phase (ow_starts w ! n) = Waiting_lease \<Longrightarrow> maps_ok (ow_take n w)"
  unfolding maps_ok_def by (auto simp: ow_take_def nth_list_update)

lemma jobs_take: "jobs_ok w \<Longrightarrow> n < length (ow_starts w) \<Longrightarrow> st_phase (ow_starts w ! n) = Waiting_lease \<Longrightarrow> jobs_ok (ow_take n w)"
  unfolding jobs_ok_def by (auto simp: ow_take_def nth_list_update)

lemma leases_take:
  assumes "leases_ok w" and "n < length (ow_starts w)" and "st_request (ow_starts w ! n) \<in> set (pc_held (ow_capacity w))"
  shows "leases_ok (ow_take n w)"
proof -
  have c: "capacity_ok (ow_capacity w)" "lease_fits (ow_capacity w) (ow_starts w ! n) (lease_due w n)"
    using assms by (auto simp: leases_ok_def)
  show ?thesis
  proof (rule leases_step [OF assms(1) c(1), where M = "{n}"])
    show "map st_request (ow_starts (ow_take n w)) = map st_request (ow_starts w)"
      by (simp add: ow_take_def map_update_same)
    show "lease_fits (ow_capacity w) (ow_starts (ow_take n w) ! m) (lease_due (ow_take n w) m)" if "m \<in> {n}" for m
      using that assms(2,3) c held_not_waiting [OF c(1) assms(3)] by (simp add: ow_take_def lease_fits_def lease_due_def)
  qed (auto simp: ow_take_def lease_due_def)
qed

lemma maps_end:
  assumes "maps_ok w" and "n < length (ow_starts w)"
  shows "maps_ok (ow_end l n w)"
  using assms unfolding maps_ok_def by (auto simp: ow_end_def Let_def nth_list_update split: if_splits) (metis option.inject)+

lemma jobs_end: "jobs_ok w \<Longrightarrow> n < length (ow_starts w) \<Longrightarrow> jobs_ok (ow_end l n w)"
  unfolding jobs_ok_def by (auto simp: ow_end_def Let_def nth_list_update)

lemma no_job_yet: "jobs_ok w \<Longrightarrow> n < length (ow_starts w) \<Longrightarrow> st_phase (ow_starts w ! n) \<noteq> Over \<Longrightarrow> n \<notin> hl_launch ` set (ow_jobs w)"
  by (auto simp: jobs_ok_def in_set_conv_nth)

lemma leases_end:
  assumes "leases_ok w" and "jobs_ok w" and "n < length (ow_starts w)" and "st_phase (ow_starts w ! n) \<noteq> Over"
    and "st_phase (ow_starts w ! n) = Waiting_lease \<Longrightarrow> \<not> lease_open (st_request (ow_starts w ! n)) (ow_capacity w)"
  shows "leases_ok (ow_end l n w)"
proof -
  let ?c = "ow_capacity w" let ?S = "ow_starts w ! n" let ?w = "ow_end l n w"
  have c: "capacity_ok ?c" "lease_fits ?c ?S (lease_due w n)" using assms(1,3) by (auto simp: leases_ok_def)
  have jobs: "n \<notin> hl_launch ` set (ow_jobs w)" by (rule no_job_yet [OF assms(2-4)])
  have new: "ow_starts ?w ! n = ?S\<lparr>st_phase := Over\<rparr>" "\<not> lease_due ?w n"
    using assms(3) jobs by (auto simp: ow_end_def Let_def lease_due_def)
  have cap: "capacity_ok (ow_capacity ?w) \<and> pc_requests ?c \<le> pc_requests (ow_capacity ?w)"
    using c(1) capacity_ok_release by (simp add: ow_end_def Let_def)
  have closed: "\<not> lease_open (st_request ?S) (ow_capacity ?w)"
  proof (cases "st_phase ?S = Going_on")
    case True
    then show ?thesis using release_self [OF c(1)] c(2) by (simp add: ow_end_def Let_def lease_fits_def)
  next
    case False
    then have "st_phase ?S = Waiting_lease" using assms(4) by (cases "st_phase ?S") auto
    then show ?thesis using assms(5) by (simp add: ow_end_def Let_def)
  qed
  show ?thesis
  proof (rule leases_step [OF assms(1), where M = "{n}"])
    show "map st_request (ow_starts ?w) = map st_request (ow_starts w)" by (simp add: ow_end_def Let_def map_update_same)
    show "ow_starts ?w ! m = ow_starts w ! m \<and> lease_due ?w m = lease_due w m \<and> keeps (st_request (ow_starts w ! m)) ?c (ow_capacity ?w)"
      if "m < length (ow_starts w)" "m \<notin> {n}" for m
    proof -
      have "st_request (ow_starts w ! m) \<noteq> st_request ?S" using request_inj [OF assms(1) that(1) assms(3)] that(2) by auto
      then show ?thesis using that(2) release_keeps by (auto simp: ow_end_def Let_def lease_due_def)
    qed
    show "lease_fits (ow_capacity ?w) (ow_starts ?w ! m) (lease_due ?w m)" if "m \<in> {n}" for m
      using that new closed c(2) cap by (auto simp: lease_fits_def lease_open_def)
  qed (use cap in \<open>simp_all add: ow_end_def Let_def\<close>)
qed

lemma maps_spawn:
  assumes "maps_ok w" and "n < length (ow_starts w)" and "\<not> st_aborted (ow_starts w ! n)" and "st_phase (ow_starts w ! n) \<noteq> Over"
  shows "maps_ok (ow_spawn n w)"
proof -
  let ?i = "st_scan (ow_starts w ! n)"
  have pend: "ow_pending w ?i = Some n" and own: "ow_owned w ?i = None"
    using assms unfolding maps_ok_def by (metis, metis option.distinct(1))
  have new: "ow_pending (ow_spawn n w) = (ow_pending w)(?i := None)" "ow_owned (ow_spawn n w) = (ow_owned w)(?i \<mapsto> length (ow_jobs w))"
    "length (ow_starts (ow_spawn n w)) = length (ow_starts w)" "length (ow_jobs (ow_spawn n w)) = Suc (length (ow_jobs w))"
    using pend by (simp_all add: ow_spawn_def Let_def)
  have starts: "ow_starts (ow_spawn n w) ! m = (if m = n then (ow_starts w ! n)\<lparr>st_spawned := True, st_phase := Over\<rparr> else ow_starts w ! m)" for m
    using assms(2) by (simp add: ow_spawn_def Let_def)
  have jobs: "ow_jobs (ow_spawn n w) ! j = (if j < length (ow_jobs w) then ow_jobs w ! j else \<lparr>hl_launch = n, hl_scan = ?i, hl_released = False\<rparr>)"
    if "j < Suc (length (ow_jobs w))" for j using that by (auto simp: ow_spawn_def Let_def nth_append less_Suc_eq)
  note maps = assms(1) [unfolded maps_ok_def]
  show ?thesis unfolding maps_ok_def new starts
  proof (intro conjI allI)
    show "(((ow_pending w)(?i := None)) i = Some m) \<longleftrightarrow> m < length (ow_starts w)
      \<and> st_scan (if m = n then (ow_starts w ! n)\<lparr>st_spawned := True, st_phase := Over\<rparr> else ow_starts w ! m) = i
      \<and> \<not> st_aborted (if m = n then (ow_starts w ! n)\<lparr>st_spawned := True, st_phase := Over\<rparr> else ow_starts w ! m)
      \<and> st_phase (if m = n then (ow_starts w ! n)\<lparr>st_spawned := True, st_phase := Over\<rparr> else ow_starts w ! m) \<noteq> Over" for i m
      using maps pend by (auto split: if_splits) (metis option.inject)
    show "(((ow_owned w)(?i \<mapsto> length (ow_jobs w))) i = Some j) \<longleftrightarrow> j < Suc (length (ow_jobs w))
      \<and> hl_scan (ow_jobs (ow_spawn n w) ! j) = i \<and> \<not> hl_released (ow_jobs (ow_spawn n w) ! j)" for i j
    proof (cases "j < Suc (length (ow_jobs w))")
      case True
      then show ?thesis using maps own by (auto simp: jobs [OF True] less_Suc_eq split: if_splits) (metis option.distinct(1))
    qed (use maps in \<open>auto split: if_splits\<close>)
    show "((ow_pending w)(?i := None)) i = None \<or> ((ow_owned w)(?i \<mapsto> length (ow_jobs w))) i = None" for i
      using maps by auto
  qed
qed

lemma jobs_spawn:
  assumes "jobs_ok w" and "n < length (ow_starts w)" and "st_phase (ow_starts w ! n) \<noteq> Over"
  shows "jobs_ok (ow_spawn n w)"
  using assms no_job_yet [OF assms] unfolding jobs_ok_def
  by (auto simp: ow_spawn_def Let_def nth_list_update nth_append less_Suc_eq)

lemma leases_spawn:
  assumes "leases_ok w" and "jobs_ok w" and "n < length (ow_starts w)" and "st_phase (ow_starts w ! n) = Going_on"
  shows "leases_ok (ow_spawn n w)"
proof -
  let ?w = "ow_spawn n w"
  have c: "capacity_ok (ow_capacity w)" "lease_fits (ow_capacity w) (ow_starts w ! n) (lease_due w n)"
    using assms(1,3) by (auto simp: leases_ok_def)
  have due: "lease_due ?w m = lease_due w m" if "m < length (ow_starts w)" for m
    using assms(3,4) that by (cases "m = n") (simp_all add: ow_spawn_def Let_def lease_due_def)
  show ?thesis
  proof (rule leases_step [OF assms(1) c(1), where M = "{n}"])
    show "map st_request (ow_starts ?w) = map st_request (ow_starts w)" by (simp add: ow_spawn_def Let_def map_update_same)
    show "ow_starts ?w ! m = ow_starts w ! m \<and> lease_due ?w m = lease_due w m \<and> keeps (st_request (ow_starts w ! m)) (ow_capacity w) (ow_capacity w)"
      if "m < length (ow_starts w)" "m \<notin> {n}" for m
      using that due by (simp add: ow_spawn_def Let_def)
    show "lease_fits (ow_capacity w) (ow_starts ?w ! m) (lease_due ?w m)" if "m \<in> {n}" for m
      using that due [OF assms(3)] c(2) assms(3,4) by (simp add: ow_spawn_def Let_def lease_fits_def)
  qed (simp_all add: ow_spawn_def Let_def)
qed

lemma ex_update:
  assumes "j < length xs" and "\<not> P y" and "\<not> P (xs ! j)"
  shows "(\<exists>x \<in> set (xs[j := y]). P x) = (\<exists>x \<in> set xs. P x)"
proof
  assume "\<exists>x \<in> set xs. P x"
  then obtain k where "k < length xs" "P (xs ! k)" by (auto simp: in_set_conv_nth)
  moreover have "xs[j := y] ! k = xs ! k" using calculation assms(3) by (cases "k = j") auto
  ultimately have "k < length (xs[j := y])" "P (xs[j := y] ! k)" by simp_all
  then show "\<exists>x \<in> set (xs[j := y]). P x" by (metis nth_mem)
qed (use assms set_update_subset_insert in fastforce)

lemma maps_release:
  assumes "maps_ok w" and "j < length (ow_jobs w)"
  shows "maps_ok (ow_release l j w)"
proof -
  let ?J = "ow_jobs w ! j" let ?w = "ow_release l j w"
  note maps = assms(1) [unfolded maps_ok_def]
  have same: "ow_pending ?w = ow_pending w" "ow_starts ?w = ow_starts w" "length (ow_jobs ?w) = length (ow_jobs w)"
    by (simp_all add: ow_release_def Let_def)
  have jobs: "ow_jobs ?w ! k = (if k = j then ?J\<lparr>hl_released := True\<rparr> else ow_jobs w ! k)" for k
    using assms(2) by (simp add: ow_release_def Let_def)
  note own_iff = maps [THEN conjunct2, THEN conjunct1, rule_format]
  have own: "ow_owned ?w i = Some k \<longleftrightarrow> ow_owned w i = Some k \<and> k \<noteq> j" for i k
  proof (cases "ow_owned w (hl_scan ?J) = Some j")
    case True
    have "ow_owned w i = Some j \<Longrightarrow> hl_scan ?J = i" using own_iff [of i j] by simp
    moreover have "ow_owned ?w = (ow_owned w)(hl_scan ?J := None)" using True by (simp add: ow_release_def Let_def)
    ultimately show ?thesis using True by (cases "i = hl_scan ?J") auto
  next
    case False
    have "ow_owned w i \<noteq> Some j" using False own_iff [of i j] by auto
    moreover have "ow_owned ?w = ow_owned w" using False by (simp add: ow_release_def Let_def)
    ultimately show ?thesis by auto
  qed
  show ?thesis unfolding maps_ok_def same own jobs
  proof (intro conjI allI)
    show "(ow_owned w i = Some k \<and> k \<noteq> j) \<longleftrightarrow> k < length (ow_jobs w) \<and> hl_scan (if k = j then ?J\<lparr>hl_released := True\<rparr> else ow_jobs w ! k) = i
      \<and> \<not> hl_released (if k = j then ?J\<lparr>hl_released := True\<rparr> else ow_jobs w ! k)" for i k using maps by auto
    show "ow_pending w i = None \<or> ow_owned ?w i = None" for i
      using maps own [of i] by (metis not_None_eq)
  qed (use maps in auto)
qed

lemma jobs_release: "jobs_ok w \<Longrightarrow> j < length (ow_jobs w) \<Longrightarrow> jobs_ok (ow_release l j w)"
proof -
  assume ok: "jobs_ok w" and j: "j < length (ow_jobs w)"
  have "map hl_launch (ow_jobs (ow_release l j w)) = map hl_launch (ow_jobs w)"
    by (simp add: ow_release_def Let_def map_update_same)
  then have jobs: "distinct (map hl_launch (ow_jobs (ow_release l j w)))" "hl_launch ` set (ow_jobs (ow_release l j w)) = hl_launch ` set (ow_jobs w)"
    using ok by (simp_all only: jobs_ok_def, metis list.set_map)
  show ?thesis unfolding jobs_ok_def jobs(2) using ok jobs(1) j
    by (auto simp: jobs_ok_def ow_release_def Let_def nth_list_update)
qed

lemma leases_release:
  assumes "leases_ok w" and "jobs_ok w" and "j < length (ow_jobs w)"
  shows "leases_ok (ow_release l j w)"
proof -
  let ?c = "ow_capacity w" let ?w = "ow_release l j w" let ?n = "hl_launch (ow_jobs w ! j)"
  let ?r = "st_request (ow_starts w ! ?n)"
  have n: "?n < length (ow_starts w)" "st_phase (ow_starts w ! ?n) = Over" using assms(2,3) by (auto simp: jobs_ok_def)
  have c: "capacity_ok ?c" "lease_fits ?c (ow_starts w ! ?n) (lease_due w ?n)" using assms(1) n(1) by (auto simp: leases_ok_def)
  have only: "K = ow_jobs w ! j" if "K \<in> set (ow_jobs w)" "hl_launch K = ?n" for K
    using that assms(2,3) by (metis distinct_map inj_on_eq_iff jobs_ok_def nth_mem)
  have jobs: "set (ow_jobs ?w) \<subseteq> insert ((ow_jobs w ! j)\<lparr>hl_released := True\<rparr>) (set (ow_jobs w))"
    using set_update_subset_insert by (simp add: ow_release_def Let_def)
  have due: "lease_due ?w m = lease_due w m" if "m \<noteq> ?n" for m
  proof -
    have "(\<exists>J \<in> set (ow_jobs ?w). hl_launch J = m \<and> \<not> hl_released J) = (\<exists>J \<in> set (ow_jobs w). hl_launch J = m \<and> \<not> hl_released J)"
    proof -
      have "ow_jobs ?w = (ow_jobs w)[j := (ow_jobs w ! j)\<lparr>hl_released := True\<rparr>]" by (simp add: ow_release_def Let_def)
      then show ?thesis by (simp only:) (rule ex_update, use that assms(3) in simp_all)
    qed
    then show ?thesis by (simp add: lease_due_def ow_release_def Let_def)
  qed
  have none: "\<not> lease_due ?w ?n"
  proof -
    have "hl_released K" if "K \<in> set (ow_jobs ?w)" "hl_launch K = ?n" for K
    proof -
      have "distinct (map hl_launch (ow_jobs ?w))" using jobs_release [OF assms(2,3)] by (simp add: jobs_ok_def)
      moreover have "ow_jobs ?w ! j = (ow_jobs w ! j)\<lparr>hl_released := True\<rparr>" "j < length (ow_jobs ?w)"
        using assms(3) by (simp_all add: ow_release_def Let_def)
      ultimately have "K = (ow_jobs w ! j)\<lparr>hl_released := True\<rparr>"
        using that by (metis distinct_map holding.simps(1) holding.select_convs(1) holding.surjective holding.update_convs(3) inj_on_eq_iff nth_mem)
      then show ?thesis by simp
    qed
    then show ?thesis using n(2) by (auto simp: lease_due_def ow_release_def Let_def)
  qed
  have r: "?r \<notin> set (liveWaiters ?c)" using c(2) n(2) by (simp add: lease_fits_def)
  show ?thesis
  proof (rule leases_step [OF assms(1) capacity_ok_release [OF c(1), of l ?r], where M = "{?n}"])
    show "ow_starts ?w ! m = ow_starts w ! m \<and> lease_due ?w m = lease_due w m \<and> keeps (st_request (ow_starts w ! m)) ?c (release l ?r ?c)"
      if "m < length (ow_starts w)" "m \<notin> {?n}" for m
    proof -
      have "st_request (ow_starts w ! m) \<noteq> ?r" using request_inj [OF assms(1) that(1) n(1)] that(2) by auto
      then show ?thesis using that(2) due [of m] release_keeps by (auto simp: ow_release_def Let_def)
    qed
    show "lease_fits (release l ?r ?c) (ow_starts ?w ! m) (lease_due ?w m)" if "m \<in> {?n}" for m
      using that c(2) n(2) none release_self [OF c(1) r, of l] by (simp add: lease_fits_def lease_open_def ow_release_def Let_def)
  qed (simp_all add: ow_release_def Let_def)
qed

section \<open>The steps\<close>

inductive ow_step :: "ownership \<Rightarrow> ownership \<Rightarrow> bool" where
  launched: "ow_pending w i = None \<Longrightarrow> ow_owned w i = None
    \<Longrightarrow> lease_open (pc_requests (ow_capacity w)) (with_request (acquire l False) (ow_capacity w)) \<Longrightarrow> ow_step w (ow_launch l i w)"
| refused: "ow_step w (w\<lparr>ow_capacity := with_request (acquire l False) (ow_capacity w)\<rparr>)"
| other: "capacity_move e (ow_capacity w) = Some c
    \<Longrightarrow> (case e of Abort r \<Rightarrow> r \<notin> st_request ` set (ow_starts w) | Release l r \<Rightarrow> r \<notin> st_request ` set (ow_starts w) | _ \<Rightarrow> True)
    \<Longrightarrow> ow_step w (w\<lparr>ow_capacity := c\<rparr>)"
| aborted: "n < length (ow_starts w) \<Longrightarrow> ow_pending w (st_scan (ow_starts w ! n)) = Some n \<Longrightarrow> ow_step w (ow_abort n w)"
| taken: "n < length (ow_starts w) \<Longrightarrow> st_phase (ow_starts w ! n) = Waiting_lease
    \<Longrightarrow> st_request (ow_starts w ! n) \<in> set (pc_held (ow_capacity w)) \<Longrightarrow> ow_step w (ow_take n w)"
| ended: "n < length (ow_starts w) \<Longrightarrow> st_phase (ow_starts w ! n) \<noteq> Over
    \<Longrightarrow> (st_phase (ow_starts w ! n) = Waiting_lease \<longrightarrow> \<not> lease_open (st_request (ow_starts w ! n)) (ow_capacity w))
    \<Longrightarrow> ow_step w (ow_end l n w)"
| spawned: "n < length (ow_starts w) \<Longrightarrow> st_phase (ow_starts w ! n) = Going_on \<Longrightarrow> \<not> st_aborted (ow_starts w ! n)
    \<Longrightarrow> ow_step w (ow_spawn n w)"
| released: "j < length (ow_jobs w) \<Longrightarrow> ow_step w (ow_release l j w)"

lemma leases_other:
  assumes "leases_ok w" and "capacity_move e (ow_capacity w) = Some c"
    and "case e of Abort r \<Rightarrow> r \<notin> st_request ` set (ow_starts w) | Release l r \<Rightarrow> r \<notin> st_request ` set (ow_starts w) | _ \<Rightarrow> True"
  shows "leases_ok (w\<lparr>ow_capacity := c\<rparr>)"
proof (rule leases_kept [OF assms(1)])
  show "capacity_ok c" using capacity_ok_move [OF _ assms(2)] assms(1) by (simp add: leases_ok_def)
  show "pc_requests (ow_capacity w) \<le> pc_requests c" by (rule move_requests [OF assms(2)])
  fix n assume n: "n < length (ow_starts w)"
  have "st_request (ow_starts w ! n) \<noteq> pc_requests (ow_capacity w)" using assms(1) n by (auto simp: leases_ok_def lease_fits_def)
  then show "keeps (st_request (ow_starts w ! n)) (ow_capacity w) c"
    by (rule other_keeps [OF assms(2), rotated]) (use assms(3) n in \<open>auto split: capacity_event.splits\<close>)
qed

lemma leases_refused: "leases_ok w \<Longrightarrow> leases_ok (w\<lparr>ow_capacity := with_request (acquire l False) (ow_capacity w)\<rparr>)"
  by (rule leases_other [where e = "Acquire l False"]) simp_all

theorem ownership_kept: "ow_step w w' \<Longrightarrow> ownership_ok w \<Longrightarrow> ownership_ok w'"
proof (induction rule: ow_step.induct)
  case (launched w i l)
  then show ?case by (simp add: ownership_ok_def maps_launch jobs_launch leases_launch)
next
  case (refused w l)
  then show ?case by (simp add: ownership_ok_def leases_refused)
next
  case (other e w c)
  then show ?case by (simp add: ownership_ok_def leases_other)
next
  case (aborted n w)
  then show ?case by (simp add: ownership_ok_def maps_abort jobs_abort leases_abort)
next
  case (taken n w)
  then show ?case by (simp add: ownership_ok_def maps_take jobs_take leases_take)
next
  case (ended n w l)
  then show ?case by (simp add: ownership_ok_def maps_end jobs_end leases_end)
next
  case (spawned n w)
  then show ?case by (simp add: ownership_ok_def maps_spawn jobs_spawn leases_spawn)
next
  case (released j w l)
  then show ?case by (simp add: ownership_ok_def maps_release jobs_release leases_release)
qed

lemma ownership_kept_many: "ow_step\<^sup>*\<^sup>* w w' \<Longrightarrow> ownership_ok w \<Longrightarrow> ownership_ok w'"
  by (induction rule: rtranclp_induct) (auto intro: ownership_kept)

text \<open>What the invariant is for: at any time at most eight processes are owned, each of another scan and with a lease of its
  own, and a lease that is neither used by a start nor by a process has been returned.\<close>

lemma owned_bounded:
  assumes "ownership_ok w"
  defines "js \<equiv> filter (\<lambda>J. \<not> hl_released J) (ow_jobs w)"
  shows "distinct (map hl_scan js)" "distinct (map (\<lambda>J. st_request (ow_starts w ! hl_launch J)) js)" "length js \<le> 8"
    "\<forall>J \<in> set js. st_request (ow_starts w ! hl_launch J) \<in> set (pc_held (ow_capacity w))"
proof -
  have ok: "maps_ok w" "jobs_ok w" "leases_ok w" using assms(1) by (auto simp: ownership_ok_def)
  have launches: "distinct (map hl_launch js)" using ok(2) by (auto simp: jobs_ok_def js_def intro: distinct_map_filter)
  have at: "hl_launch J < length (ow_starts w) \<and> st_phase (ow_starts w ! hl_launch J) = Over" if "J \<in> set (ow_jobs w)" for J
    using ok(2) that unfolding jobs_ok_def by (metis in_set_conv_nth)
  have "inj_on (\<lambda>J. st_request (ow_starts w ! hl_launch J)) (set js)"
  proof (rule inj_onI)
    fix J K assume jk: "J \<in> set js" "K \<in> set js" "st_request (ow_starts w ! hl_launch J) = st_request (ow_starts w ! hl_launch K)"
    then have "hl_launch J = hl_launch K" using request_inj [OF ok(3)] at by (metis js_def filter_is_subset subsetD)
    then show "J = K" using launches jk by (metis distinct_map inj_on_eq_iff)
  qed
  then show requests: "distinct (map (\<lambda>J. st_request (ow_starts w ! hl_launch J)) js)"
    using launches by (simp add: distinct_map)
  show held: "\<forall>J \<in> set js. st_request (ow_starts w ! hl_launch J) \<in> set (pc_held (ow_capacity w))"
  proof
    fix J assume J: "J \<in> set js"
    then have "lease_due w (hl_launch J)" by (auto simp: lease_due_def js_def)
    moreover have "lease_fits (ow_capacity w) (ow_starts w ! hl_launch J) (lease_due w (hl_launch J))"
      using ok(3) at J by (auto simp: leases_ok_def js_def)
    ultimately show "st_request (ow_starts w ! hl_launch J) \<in> set (pc_held (ow_capacity w))"
      using at J by (simp add: lease_fits_def js_def)
  qed
  have "length js = card ((\<lambda>J. st_request (ow_starts w ! hl_launch J)) ` set js)"
    using distinct_card [OF requests] by simp
  also have "\<dots> \<le> card (set (pc_held (ow_capacity w)))" by (rule card_mono) (use held in auto)
  also have "\<dots> \<le> 8" using card_length [of "pc_held (ow_capacity w)"] ok(3) by (simp add: leases_ok_def capacity_ok_def ordered_below_def)
  finally show "length js \<le> 8" .
  have "J = K" if "J \<in> set js" "K \<in> set js" "hl_scan J = hl_scan K" for J K
  proof -
    have jk: "J \<in> set (ow_jobs w)" "K \<in> set (ow_jobs w)" using that by (auto simp: js_def)
    obtain j k where "j < length (ow_jobs w)" "ow_jobs w ! j = J" "k < length (ow_jobs w)" "ow_jobs w ! k = K"
      using jk by (metis in_set_conv_nth)
    moreover have "ow_owned w (hl_scan J) = Some j" "ow_owned w (hl_scan J) = Some k"
      using ok(1) calculation that by (simp_all add: maps_ok_def js_def)
    ultimately show ?thesis by simp
  qed
  then show "distinct (map hl_scan js)" using launches by (auto simp: distinct_map intro: inj_onI)
qed

lemma lease_returned:
  assumes "ownership_ok w" and "n < length (ow_starts w)" and "st_phase (ow_starts w ! n) = Over"
    and "\<forall>J \<in> set (ow_jobs w). hl_launch J = n \<longrightarrow> hl_released J"
  shows "\<not> lease_open (st_request (ow_starts w ! n)) (ow_capacity w)"
proof -
  have "\<not> lease_due w n" using assms(3,4) by (simp add: lease_due_def)
  then show ?thesis using assms(1-3) by (auto simp: ownership_ok_def leases_ok_def lease_fits_def lease_open_def)
qed

text \<open>No process is ever spawned for a launch that was cancelled, and none that runs was cancelled while it was pending.\<close>

definition cancels_ok :: "ownership \<Rightarrow> bool" where
  "cancels_ok w = list_all (\<lambda>S. \<not> (st_aborted S \<and> st_spawned S)) (ow_starts w)"

lemma cancels_update: "cancels_ok w \<Longrightarrow> \<not> (st_aborted S \<and> st_spawned S) \<Longrightarrow> list_all (\<lambda>S. \<not> (st_aborted S \<and> st_spawned S)) ((ow_starts w)[n := S])"
  by (auto simp: cancels_ok_def list_all_iff dest!: subsetD [OF set_update_subset_insert])

lemma cancels_kept: "ow_step w w' \<Longrightarrow> ownership_ok w \<Longrightarrow> cancels_ok w \<Longrightarrow> cancels_ok w'"
proof (induction rule: ow_step.induct)
  case (aborted n w)
  then have "\<not> st_spawned (ow_starts w ! n)" by (auto simp: ownership_ok_def maps_ok_def jobs_ok_def)
  then show ?case unfolding cancels_ok_def [of "ow_abort n w"] using cancels_update aborted by (simp add: ow_abort_def Let_def)
next
  case (taken n w)
  then have "\<not> (st_aborted (ow_starts w ! n) \<and> st_spawned (ow_starts w ! n))" by (simp add: cancels_ok_def list_all_length)
  then show ?case unfolding cancels_ok_def [of "ow_take n w"] using cancels_update taken by (simp add: ow_take_def)
next
  case (ended n w l)
  then have "\<not> (st_aborted (ow_starts w ! n) \<and> st_spawned (ow_starts w ! n))" by (simp add: cancels_ok_def list_all_length)
  then show ?case unfolding cancels_ok_def [of "ow_end l n w"] using cancels_update ended by (simp add: ow_end_def Let_def)
next
  case (spawned n w)
  then show ?case unfolding cancels_ok_def [of "ow_spawn n w"] using cancels_update spawned by (simp add: ow_spawn_def Let_def)
qed (simp_all add: cancels_ok_def ow_launch_def ow_release_def Let_def)

end
