(* ===== verification/ScanSupervisor.thy ===== *)
theory ScanSupervisor
  imports LeaseOwnership
begin

text \<open>
  The supervisor of the processes that run scans for the web server
  (\<open>api/modules/scans/execution/scan-process-supervisor.ts\<close>), over the capacity of \<open>ProcessCapacity\<close>.
  Its asynchronous functions interleave at every \<open>await\<close>: a launch, a job and any other call in progress each have
  the point they wait at and the reply they have got, and an event is a call, the execution of the pending
  operation of the database, or the continuation up to the next wait. Other writers of the table and other users of
  the capacity are events too. Texts of messages are left out; the types of the logged events are kept.
\<close>

section \<open>The table of scans\<close>

datatype meta_value = Meta_text string | Meta_token nat | Meta_true

type_synonym metadata = "string \<rightharpoonup> meta_value"

record scan_row =
  sr_status :: string
  sr_metadata :: metadata

record scan_log =
  lg_scan :: string
  lg_level :: string
  lg_eventType :: string

record scan_table =
  tb_rows :: "(string \<times> scan_row) list"
  tb_log :: "scan_log list"

definition isActiveStatus :: "string \<Rightarrow> bool" where
  "isActiveStatus status = (status = ''queued'' \<or> status = ''running'')"

datatype table_op =
  Find_scan string
  | List_active
  | Update_status string string metadata
  | Merge_metadata string metadata
  | Create_event scan_log

datatype reply = Rejected | Found "scan_row option" | Listed "(string \<times> scan_row) list" | Updated bool | Written

definition findById :: "string \<Rightarrow> scan_table \<Rightarrow> scan_row option" where
  "findById i t = map_of (tb_rows t) i"

definition listActiveScanRuns :: "scan_table \<Rightarrow> (string \<times> scan_row) list" where
  "listActiveScanRuns t = filter (\<lambda>(i, r). isActiveStatus (sr_status r)) (tb_rows t)"

definition change_row :: "string \<Rightarrow> (scan_row \<Rightarrow> scan_row) \<Rightarrow> scan_table \<Rightarrow> scan_table" where
  "change_row i f t = t\<lparr>tb_rows := map (\<lambda>(k, r). (k, if k = i then f r else r)) (tb_rows t)\<rparr>"

definition known_statuses :: "string list" where
  "known_statuses = [''completed'', ''failed'', ''cancelled'', ''running'', ''queued'']"

definition updateScanRunStatus :: "string \<Rightarrow> string \<Rightarrow> metadata \<Rightarrow> scan_table \<Rightarrow> bool \<times> scan_table" where
  \<comment> \<open>with \<open>returnNullIfNotUpdated\<close>: whether a row passed the guard of the transition\<close>
  "updateScanRunStatus i status metadata t =
     (case findById i t of
        None \<Rightarrow> (False, t)
      | Some r \<Rightarrow> if status \<in> set known_statuses \<and> \<not> isActiveStatus (sr_status r) then (False, t)
          else (True, change_row i (\<lambda>r. r\<lparr>sr_status := status, sr_metadata := sr_metadata r ++ metadata\<rparr>) t))"

definition mergeScanRunMetadata :: "string \<Rightarrow> metadata \<Rightarrow> scan_table \<Rightarrow> scan_table" where
  "mergeScanRunMetadata i metadata t = change_row i (\<lambda>r. r\<lparr>sr_metadata := sr_metadata r ++ metadata\<rparr>) t"

fun perform :: "table_op \<Rightarrow> scan_table \<Rightarrow> reply \<times> scan_table" where
  "perform (Find_scan i) t = (Found (findById i t), t)"
| "perform List_active t = (Listed (listActiveScanRuns t), t)"
| "perform (Update_status i status m) t = (let (b, t') = updateScanRunStatus i status m t in (Updated b, t'))"
| "perform (Merge_metadata i m) t = (Written, mergeScanRunMetadata i m t)"
| "perform (Create_event e) t = (Written, t\<lparr>tb_log := tb_log t @ [e]\<rparr>)"

definition event_of :: "string \<Rightarrow> string \<Rightarrow> string \<Rightarrow> table_op" where
  "event_of i level eventType = Create_event \<lparr>lg_scan = i, lg_level = level, lg_eventType = eventType\<rparr>"

definition active_row :: "scan_row option \<Rightarrow> bool" where
  "active_row r = (case r of None \<Rightarrow> False | Some r \<Rightarrow> isActiveStatus (sr_status r))"

definition row_metadata :: "scan_row option \<Rightarrow> metadata" where
  "row_metadata r = (case r of None \<Rightarrow> Map.empty | Some r \<Rightarrow> sr_metadata r)"

section \<open>Parts of several calls\<close>

datatype 'p continuation = Still 'p | Left | Thrown

datatype failing = Fail_find string string | Fail_update string string metadata | Fail_logging string string

fun failing_op :: "failing \<Rightarrow> table_op" where
  "failing_op (Fail_find i eventType) = Find_scan i"
| "failing_op (Fail_update i eventType m) = Update_status i ''failed'' (m(''terminationReason'' \<mapsto> Meta_text eventType))"
| "failing_op (Fail_logging i eventType) = event_of i ''error'' eventType"

fun failNonTerminal :: "failing \<Rightarrow> reply \<Rightarrow> failing continuation" where
  "failNonTerminal (Fail_find i eventType) (Found r) =
     (if active_row r then Still (Fail_update i eventType (row_metadata r)) else Left)"
| "failNonTerminal (Fail_update i eventType m) (Updated b) = (if b then Still (Fail_logging i eventType) else Left)"
| "failNonTerminal (Fail_logging i eventType) Written = Left"
| "failNonTerminal f r = Thrown"

datatype persisting = Persist_update string string metadata | Persist_logging string

fun persisting_op :: "persisting \<Rightarrow> table_op" where
  "persisting_op (Persist_update i why m) = Update_status i ''cancelled'' (m(''terminationReason'' \<mapsto> Meta_text why))"
| "persisting_op (Persist_logging i) = event_of i ''warn'' ''scan.cancelled''"

fun persistCancellation :: "persisting \<Rightarrow> reply \<Rightarrow> persisting continuation" where
  "persistCancellation (Persist_update i why m) (Updated b) = (if b then Still (Persist_logging i) else Left)"
| "persistCancellation (Persist_logging i) Written = Left"
| "persistCancellation p r = Thrown"

section \<open>The state\<close>

datatype launch_at = Await_lease | Find_queued | Merge_token | Find_current | Start_failing failing | Start_done | Start_threw

record launching = \<comment> \<open>a \<open>PendingScanProcess\<close> and the start that waits for its lease; its number is also the launch token\<close>
  ln_scan :: string
  ln_aborted :: bool
  ln_request :: nat
  ln_held :: bool \<comment> \<open>\<open>releaseCapacity\<close> is set\<close>
  ln_spawned :: bool
  ln_at :: launch_at
  ln_reply :: "reply option"

datatype monitor_at = Watching | Await_exit | Find_end bool | Post_processing | Post_logging | Job_failing failing
  | Monitor_done | Monitor_threw

record job = \<comment> \<open>an \<open>OwnedScanProcess\<close> and its monitor\<close>
  jb_launch :: nat
  jb_scan :: string
  jb_cancelling :: bool
  jb_reason :: "string option"
  jb_released :: bool
  jb_givenUp :: bool \<comment> \<open>the shutdown took the monitor out of \<open>monitoring\<close>\<close>
  jb_killTimers :: nat
  jb_signals :: "string list"
  jb_at :: monitor_at
  jb_reply :: "reply option"

datatype call_answer = Returned | Threw | Cancel_answer string bool "string option" | Recovered nat

datatype call_at =
  Launch_failing failing
  | Cancel_find string string
  | Cancel_pending persisting
  | Cancel_owned_find nat string string
  | Cancel_owned nat persisting
  | Cancel_rejecting string
  | Shut_find string
  | Shut_persist persisting
  | Shutdown_pending "nat list"
  | Shutdown_jobs "nat list" "nat list"
  | Shut_exit nat
  | Shut_exit_again nat
  | Shutdown_exits "nat list"
  | Shutdown_monitors "nat list"
  | Shutdown_posts "nat list"
  | Recover_listing
  | Recover_update "(string \<times> scan_row) list" nat
  | Recover_logging "(string \<times> scan_row) list" nat
  | Call_done call_answer

record api_call =
  cl_at :: call_at
  cl_reply :: "reply option"

record supervisor =
  sv_instance :: string
  sv_postProcesses :: bool \<comment> \<open>\<open>onCompletedScan\<close> is given\<close>
  sv_pending :: "string \<rightharpoonup> nat"
  sv_owned :: "string \<rightharpoonup> nat"
  sv_launches :: "launching list"
  sv_jobs :: "job list"
  sv_calls :: "api_call list"
  sv_capacity :: capacity
  sv_table :: scan_table
  sv_orphans :: "nat list" \<comment> \<open>launches that spawned a process which nothing owns\<close>

definition new_supervisor :: "string \<Rightarrow> bool \<Rightarrow> scan_table \<Rightarrow> supervisor" where
  "new_supervisor inst post t = \<lparr>sv_instance = inst, sv_postProcesses = post, sv_pending = Map.empty, sv_owned = Map.empty,
     sv_launches = [], sv_jobs = [], sv_calls = [], sv_capacity = new_capacity, sv_table = t, sv_orphans = []\<rparr>"

definition edit_launch :: "nat \<Rightarrow> (launching \<Rightarrow> launching) \<Rightarrow> supervisor \<Rightarrow> supervisor" where
  "edit_launch n f s = s\<lparr>sv_launches := (sv_launches s)[n := f (sv_launches s ! n)]\<rparr>"

definition edit_job :: "nat \<Rightarrow> (job \<Rightarrow> job) \<Rightarrow> supervisor \<Rightarrow> supervisor" where
  "edit_job j f s = s\<lparr>sv_jobs := (sv_jobs s)[j := f (sv_jobs s ! j)]\<rparr>"

definition edit_call :: "nat \<Rightarrow> (api_call \<Rightarrow> api_call) \<Rightarrow> supervisor \<Rightarrow> supervisor" where
  "edit_call i f s = s\<lparr>sv_calls := (sv_calls s)[i := f (sv_calls s ! i)]\<rparr>"

definition launch_goto :: "nat \<Rightarrow> launch_at \<Rightarrow> supervisor \<Rightarrow> supervisor" where
  "launch_goto n a = edit_launch n (\<lambda>L. L\<lparr>ln_at := a, ln_reply := None\<rparr>)"

definition job_goto :: "nat \<Rightarrow> monitor_at \<Rightarrow> supervisor \<Rightarrow> supervisor" where
  "job_goto j a = edit_job j (\<lambda>J. J\<lparr>jb_at := a, jb_reply := None\<rparr>)"

definition call_goto :: "nat \<Rightarrow> call_at \<Rightarrow> supervisor \<Rightarrow> supervisor" where
  "call_goto i a = edit_call i (\<lambda>C. C\<lparr>cl_at := a, cl_reply := None\<rparr>)"

definition new_call :: "call_at \<Rightarrow> supervisor \<Rightarrow> supervisor" where
  "new_call a s = s\<lparr>sv_calls := sv_calls s @ [\<lparr>cl_at = a, cl_reply = None\<rparr>]\<rparr>"

section \<open>Leases and processes\<close>

definition give_back :: "capacity_limits \<Rightarrow> nat \<Rightarrow> supervisor \<Rightarrow> supervisor" where
  "give_back l r s = s\<lparr>sv_capacity := release l r (sv_capacity s)\<rparr>"

definition abort_launch :: "nat \<Rightarrow> supervisor \<Rightarrow> supervisor" where
  \<comment> \<open>the entry leaves \<open>pending\<close> and its controller aborts\<close>
  "abort_launch n s = (let L = sv_launches s ! n in
     edit_launch n (\<lambda>L. L\<lparr>ln_aborted := True\<rparr>)
       (s\<lparr>sv_pending := (sv_pending s)(ln_scan L := None), sv_capacity := abort_waiter (ln_request L) (sv_capacity s)\<rparr>))"

definition kill :: "nat \<Rightarrow> string \<Rightarrow> supervisor \<Rightarrow> supervisor" where
  "kill j signal = edit_job j (\<lambda>J. J\<lparr>jb_signals := jb_signals J @ [signal]\<rparr>)"

definition kill_later :: "nat \<Rightarrow> supervisor \<Rightarrow> supervisor" where
  \<comment> \<open>SIGTERM, and a timer for SIGKILL\<close>
  "kill_later j s = edit_job j (\<lambda>J. J\<lparr>jb_killTimers := Suc (jb_killTimers J)\<rparr>) (kill j ''SIGTERM'' s)"

definition terminateOwnedProcess :: "nat \<Rightarrow> string \<Rightarrow> supervisor \<Rightarrow> supervisor" where
  "terminateOwnedProcess j why s = (let J = sv_jobs s ! j in
     if jb_cancelling J \<or> jb_reason J \<noteq> None then s
     else kill_later j (edit_job j (\<lambda>J. J\<lparr>jb_reason := Some why\<rparr>) s))"

definition releaseOwnership :: "capacity_limits \<Rightarrow> nat \<Rightarrow> supervisor \<Rightarrow> supervisor" where
  "releaseOwnership l j s = (let J = sv_jobs s ! j; r = ln_request (sv_launches s ! jb_launch J)
     in give_back l r (edit_job j (\<lambda>J. J\<lparr>jb_released := True, jb_killTimers := jb_killTimers J - 1\<rparr>)
          (if sv_owned s (jb_scan J) = Some j then s\<lparr>sv_owned := (sv_owned s)(jb_scan J := None)\<rparr> else s)))"

section \<open>Launching\<close>

definition launch :: "capacity_limits \<Rightarrow> string \<Rightarrow> supervisor \<Rightarrow> supervisor" where
  "launch l i s =
     (if sv_owned s i \<noteq> None \<or> sv_pending s i \<noteq> None then new_call (Call_done Returned) s
      else (let r = pc_requests (sv_capacity s); c = with_request (acquire l False) (sv_capacity s); s' = s\<lparr>sv_capacity := c\<rparr>
        in if \<not> lease_open r c then new_call (Launch_failing (Fail_find i ''scan.queue_capacity_exceeded'')) s'
           else new_call (Call_done Returned)
             (s'\<lparr>sv_pending := (sv_pending s)(i \<mapsto> length (sv_launches s)),
                sv_launches := sv_launches s @ [\<lparr>ln_scan = i, ln_aborted = False, ln_request = r, ln_held = False, ln_spawned = False,
                  ln_at = Await_lease, ln_reply = None\<rparr>]\<rparr>)))"

definition end_start :: "capacity_limits \<Rightarrow> bool \<Rightarrow> nat \<Rightarrow> supervisor \<Rightarrow> supervisor" where
  \<comment> \<open>the \<open>finally\<close> of the start, after which it has returned or thrown\<close>
  "end_start l threw n s =
     (let L = sv_launches s ! n;
          s1 = (if sv_pending s (ln_scan L) = Some n then s\<lparr>sv_pending := (sv_pending s)(ln_scan L := None)\<rparr> else s);
          s2 = (if ln_held L then give_back l (ln_request L) s1 else s1)
      in launch_goto n (if threw then Start_threw else Start_done) (edit_launch n (\<lambda>L. L\<lparr>ln_held := False\<rparr>) s2))"

definition catch_start :: "capacity_limits \<Rightarrow> nat \<Rightarrow> supervisor \<Rightarrow> supervisor" where
  "catch_start l n s = (let L = sv_launches s ! n in
     if ln_aborted L then end_start l False n s
     else launch_goto n (Start_failing (Fail_find (ln_scan L) ''scan.spawn_failed'')) s)"

datatype spawned = Spawns | Spawn_throws | Timeout_throws \<comment> \<open>the function that gives the wall clock limit throws after the spawn\<close>

definition spawn_job :: "nat \<Rightarrow> supervisor \<Rightarrow> supervisor" where
  "spawn_job n s = (let L = sv_launches s ! n; i = ln_scan L
     in edit_launch n (\<lambda>L. L\<lparr>ln_held := False, ln_spawned := True, ln_at := Start_done, ln_reply := None\<rparr>)
          (s\<lparr>sv_jobs := sv_jobs s @ [\<lparr>jb_launch = n, jb_scan = i, jb_cancelling = False, jb_reason = None, jb_released = False,
               jb_givenUp = False, jb_killTimers = 0, jb_signals = [], jb_at = Watching, jb_reply = None\<rparr>],
             sv_owned := (sv_owned s)(i \<mapsto> length (sv_jobs s)),
             sv_pending := (if sv_pending s i = Some n then (sv_pending s)(i := None) else sv_pending s)\<rparr>))"

definition launch_metadata :: "string \<Rightarrow> nat \<Rightarrow> metadata" where
  "launch_metadata inst n = [''launchSource'' \<mapsto> Meta_text ''web'', ''launchToken'' \<mapsto> Meta_token n,
     ''runtimeInstanceId'' \<mapsto> Meta_text inst, ''automaticDiagnosticRequested'' \<mapsto> Meta_true]"

definition launch_op :: "string \<Rightarrow> nat \<Rightarrow> launching \<Rightarrow> table_op option" where
  "launch_op inst n L = (case ln_at L of
       Find_queued \<Rightarrow> Some (Find_scan (ln_scan L))
     | Merge_token \<Rightarrow> Some (Merge_metadata (ln_scan L) (launch_metadata inst n))
     | Find_current \<Rightarrow> Some (Find_scan (ln_scan L))
     | Start_failing f \<Rightarrow> Some (failing_op f)
     | _ \<Rightarrow> None)"

definition lease_granted :: "capacity_limits \<Rightarrow> nat \<Rightarrow> supervisor \<Rightarrow> supervisor" where
  "lease_granted l n s = (let L = sv_launches s ! n; s' = edit_launch n (\<lambda>L. L\<lparr>ln_held := True\<rparr>) s
     in if sv_pending s (ln_scan L) \<noteq> Some n then end_start l False n (give_back l (ln_request L) s')
        else if ln_aborted L then end_start l False n s' else launch_goto n Find_queued s')"

definition launchOnce :: "capacity_limits \<Rightarrow> spawned \<Rightarrow> nat \<Rightarrow> reply \<Rightarrow> supervisor \<Rightarrow> supervisor" where
  "launchOnce l spawned n r s = (let L = sv_launches s ! n in case (ln_at L, r) of
       (Find_queued, Found row) \<Rightarrow>
         if ln_aborted L \<or> \<not> active_row row then end_start l False n s else launch_goto n Merge_token s
     | (Merge_token, Written) \<Rightarrow> if ln_aborted L then end_start l False n s else launch_goto n Find_current s
     | (Find_current, Found row) \<Rightarrow>
         if ln_aborted L \<or> \<not> active_row row then end_start l False n s
         else (case spawned of Spawns \<Rightarrow> spawn_job n s | Spawn_throws \<Rightarrow> catch_start l n s
           | Timeout_throws \<Rightarrow> catch_start l n (s\<lparr>sv_orphans := sv_orphans s @ [n]\<rparr>))
     | _ \<Rightarrow> catch_start l n s)"

definition resume_launch :: "capacity_limits \<Rightarrow> spawned \<Rightarrow> nat \<Rightarrow> supervisor \<Rightarrow> supervisor option" where
  "resume_launch l spawned n s = (let L = sv_launches s ! n in
     if length (sv_launches s) \<le> n then None
     else (case ln_at L of
         Await_lease \<Rightarrow>
           if ln_request L \<in> set (pc_held (sv_capacity s)) then Some (lease_granted l n s)
           else if lease_open (ln_request L) (sv_capacity s) then None else Some (catch_start l n s)
       | Start_done \<Rightarrow> None
       | Start_threw \<Rightarrow> None
       | Start_failing f \<Rightarrow> map_option (\<lambda>r. case failNonTerminal f r of
             Still f' \<Rightarrow> launch_goto n (Start_failing f') s | Left \<Rightarrow> end_start l False n s | Thrown \<Rightarrow> end_start l True n s) (ln_reply L)
       | _ \<Rightarrow> map_option (\<lambda>r. launchOnce l spawned n r s) (ln_reply L)))"

section \<open>Watching\<close>

datatype monitor_outcome = Child_ended | Child_broken | Exited | Not_exited | Post_ok | Post_threw

definition job_op :: "job \<Rightarrow> table_op option" where
  "job_op J = (case jb_at J of
       Find_end failed \<Rightarrow> Some (Find_scan (jb_scan J))
     | Post_logging \<Rightarrow> Some (event_of (jb_scan J) ''error'' ''scan.post_processing_failed'')
     | Job_failing f \<Rightarrow> Some (failing_op f)
     | _ \<Rightarrow> None)"

definition end_reason :: "job \<Rightarrow> bool \<Rightarrow> string" where
  "end_reason J failed = (case jb_reason J of Some why \<Rightarrow> why
     | None \<Rightarrow> if failed then ''scan.child_monitor_failed'' else ''scan.child_contract_failed'')"

definition monitor_ended :: "bool \<Rightarrow> nat \<Rightarrow> scan_row option \<Rightarrow> supervisor \<Rightarrow> supervisor" where
  "monitor_ended failed j row s = (let J = sv_jobs s ! j in
     job_goto j (case row of
         None \<Rightarrow> Monitor_done
       | Some r \<Rightarrow>
           if isActiveStatus (sr_status r) then Job_failing (Fail_find (jb_scan J) (end_reason J failed))
           else if sr_status r = ''completed'' \<and> sv_postProcesses s then Post_processing else Monitor_done) s)"

definition job_replied :: "nat \<Rightarrow> reply \<Rightarrow> supervisor \<Rightarrow> supervisor" where
  "job_replied j r s = (case (jb_at (sv_jobs s ! j), r) of
       (Find_end failed, Found row) \<Rightarrow> monitor_ended failed j row s
     | (Post_logging, Written) \<Rightarrow> job_goto j Monitor_done s
     | (Job_failing f, r) \<Rightarrow> (case failNonTerminal f r of
           Still f' \<Rightarrow> job_goto j (Job_failing f') s | Left \<Rightarrow> job_goto j Monitor_done s | Thrown \<Rightarrow> job_goto j Monitor_threw s)
     | _ \<Rightarrow> job_goto j Monitor_threw s)"

definition resume_job :: "capacity_limits \<Rightarrow> monitor_outcome \<Rightarrow> nat \<Rightarrow> supervisor \<Rightarrow> supervisor option" where
  "resume_job l out j s = (let J = sv_jobs s ! j in
     if length (sv_jobs s) \<le> j then None
     else (case (jb_at J, out) of
         (Watching, Child_ended) \<Rightarrow> Some (job_goto j (Find_end False) (releaseOwnership l j s))
       | (Watching, Child_broken) \<Rightarrow> Some (job_goto j Await_exit (terminateOwnedProcess j ''scan.child_monitor_failed'' s))
       | (Watching, _) \<Rightarrow> None
       | (Await_exit, Exited) \<Rightarrow> Some (job_goto j (Find_end True) (releaseOwnership l j s))
       | (Await_exit, Not_exited) \<Rightarrow> Some (job_goto j (Find_end True) (releaseOwnership l j (kill j ''SIGKILL'' s)))
       | (Await_exit, _) \<Rightarrow> None
       | (Post_processing, Post_ok) \<Rightarrow> Some (job_goto j Monitor_done s)
       | (Post_processing, Post_threw) \<Rightarrow> Some (job_goto j Post_logging s)
       | (Post_processing, _) \<Rightarrow> None
       | (Monitor_done, _) \<Rightarrow> None
       | (Monitor_threw, _) \<Rightarrow> None
       | _ \<Rightarrow> map_option (\<lambda>r. job_replied j r s) (jb_reply J)))"

section \<open>Cancelling\<close>

definition answer_cancel :: "nat \<Rightarrow> string \<Rightarrow> bool \<Rightarrow> string option \<Rightarrow> supervisor \<Rightarrow> supervisor" where
  "answer_cancel k i b why = call_goto k (Call_done (Cancel_answer i b why))"

definition cancel_found :: "nat \<Rightarrow> string \<Rightarrow> string \<Rightarrow> scan_row option \<Rightarrow> supervisor \<Rightarrow> supervisor" where
  "cancel_found k i why row s = (case row of
       None \<Rightarrow> answer_cancel k i False (Some ''scan_not_active'') s
     | Some r \<Rightarrow> (case sv_pending s i of
         Some n \<Rightarrow> (let s' = abort_launch n s in
           if isActiveStatus (sr_status r) then call_goto k (Cancel_pending (Persist_update i why (sr_metadata r))) s'
           else answer_cancel k i True None s')
       | None \<Rightarrow> (case sv_owned s i of
           Some j \<Rightarrow> call_goto k (Cancel_owned_find j i why) s
         | None \<Rightarrow> if \<not> isActiveStatus (sr_status r) then answer_cancel k i False (Some ''scan_not_active'') s
             else call_goto k (Cancel_rejecting i) s)))"

definition owns_record :: "job \<Rightarrow> scan_row option \<Rightarrow> bool" where
  "owns_record J row = (row_metadata row ''launchToken'' = Some (Meta_token (jb_launch J)))"

definition cancel_owned_found :: "nat \<Rightarrow> nat \<Rightarrow> string \<Rightarrow> string \<Rightarrow> scan_row option \<Rightarrow> supervisor \<Rightarrow> supervisor" where
  "cancel_owned_found k j i why row s =
     (let J = sv_jobs s ! j; s' = edit_job j (\<lambda>J. J\<lparr>jb_cancelling := True\<rparr>) s
      in if active_row row \<and> owns_record J row
         then call_goto k (Cancel_owned j (Persist_update i why (row_metadata row))) s'
         else if active_row row then call_goto k (Cancel_rejecting i) (kill_later j s')
         else answer_cancel k i True None (kill_later j s'))"

definition call_op :: "api_call \<Rightarrow> table_op option" where
  "call_op C = (case cl_at C of
       Launch_failing f \<Rightarrow> Some (failing_op f)
     | Cancel_find i why \<Rightarrow> Some (Find_scan i)
     | Cancel_pending p \<Rightarrow> Some (persisting_op p)
     | Cancel_owned_find j i why \<Rightarrow> Some (Find_scan i)
     | Cancel_owned j p \<Rightarrow> Some (persisting_op p)
     | Cancel_rejecting i \<Rightarrow> Some (event_of i ''warn'' ''scan.cancel_rejected'')
     | Shut_find i \<Rightarrow> Some (Find_scan i)
     | Shut_persist p \<Rightarrow> Some (persisting_op p)
     | Recover_listing \<Rightarrow> Some List_active
     | Recover_update scans m \<Rightarrow> (case scans of [] \<Rightarrow> None | (i, r) # rest \<Rightarrow>
         Some (Update_status i ''failed'' ((sr_metadata r)(''terminationReason'' \<mapsto> Meta_text ''stale_runtime_recovery''))))
     | Recover_logging scans m \<Rightarrow> (case scans of [] \<Rightarrow> None | (i, r) # rest \<Rightarrow> Some (event_of i ''error'' ''scan.stale_recovered''))
     | _ \<Rightarrow> None)"

definition finish_call :: "nat \<Rightarrow> call_answer \<Rightarrow> supervisor \<Rightarrow> supervisor" where
  "finish_call k a = call_goto k (Call_done a)"

definition persisting_scan :: "persisting \<Rightarrow> string" where
  "persisting_scan p = (case p of Persist_update i why m \<Rightarrow> i | Persist_logging i \<Rightarrow> i)"

section \<open>Recovery at the start\<close>

definition stale_web :: "string \<Rightarrow> string \<times> scan_row \<Rightarrow> bool" where
  "stale_web inst x = (sr_metadata (snd x) ''launchSource'' = Some (Meta_text ''web'')
     \<and> sr_metadata (snd x) ''runtimeInstanceId'' \<noteq> Some (Meta_text inst))"

definition recover_next :: "nat \<Rightarrow> (string \<times> scan_row) list \<Rightarrow> nat \<Rightarrow> supervisor \<Rightarrow> supervisor" where
  \<comment> \<open>the loop continues with the next scan that is not skipped\<close>
  "recover_next k scans m s = (case dropWhile (\<lambda>x. \<not> stale_web (sv_instance s) x) scans of
       [] \<Rightarrow> finish_call k (Recovered m) s
     | rest \<Rightarrow> call_goto k (Recover_update rest m) s)"

section \<open>Shutting down\<close>

definition pending_launches :: "supervisor \<Rightarrow> nat list" where
  "pending_launches s = filter (\<lambda>n. sv_pending s (ln_scan (sv_launches s ! n)) = Some n) [0..<length (sv_launches s)]"

definition owned_jobs :: "supervisor \<Rightarrow> nat list" where
  "owned_jobs s = filter (\<lambda>j. sv_owned s (jb_scan (sv_jobs s ! j)) = Some j) [0..<length (sv_jobs s)]"

definition new_calls :: "call_at list \<Rightarrow> supervisor \<Rightarrow> supervisor" where
  "new_calls = fold new_call"

definition numbers_from :: "nat \<Rightarrow> 'a list \<Rightarrow> nat list" where
  "numbers_from b xs = [b..<b + length xs]"

definition shutdown :: "supervisor \<Rightarrow> supervisor" where
  "shutdown s = (let ns = pending_launches s
     in new_call (Shutdown_pending (numbers_from (length (sv_calls s)) ns))
          (new_calls (map (\<lambda>n. Shut_find (ln_scan (sv_launches s ! n))) ns) (fold abort_launch ns s)))"

definition call_over :: "supervisor \<Rightarrow> nat \<Rightarrow> bool" where
  "call_over s k = (case cl_at (sv_calls s ! k) of Call_done a \<Rightarrow> True | _ \<Rightarrow> False)"

definition monitor_over :: "supervisor \<Rightarrow> nat \<Rightarrow> bool" where
  "monitor_over s j = (case jb_at (sv_jobs s ! j) of Monitor_done \<Rightarrow> True | Monitor_threw \<Rightarrow> True | _ \<Rightarrow> False)"

definition post_processing :: "supervisor \<Rightarrow> nat \<Rightarrow> bool" where
  "post_processing s j = (case jb_at (sv_jobs s ! j) of Post_processing \<Rightarrow> True | _ \<Rightarrow> False)"

definition shutdown_cancels :: "nat \<Rightarrow> supervisor \<Rightarrow> supervisor" where
  "shutdown_cancels k s = (let js = owned_jobs s
     in call_goto k (Shutdown_jobs js (numbers_from (length (sv_calls s)) js))
          (new_calls (map (\<lambda>j. Cancel_find (jb_scan (sv_jobs s ! j)) ''server_shutdown'') js) s))"

definition shutdown_kills :: "nat \<Rightarrow> nat list \<Rightarrow> supervisor \<Rightarrow> supervisor" where
  "shutdown_kills k js s =
     call_goto k (Shutdown_exits (numbers_from (length (sv_calls s)) js))
       (new_calls (map Shut_exit js)
         (fold (\<lambda>j s. kill j ''SIGTERM'' (edit_job j (\<lambda>J. J\<lparr>jb_cancelling := True\<rparr>) s)) js s))"

definition give_up :: "capacity_limits \<Rightarrow> nat \<Rightarrow> supervisor \<Rightarrow> supervisor" where
  "give_up l j s = edit_job j (\<lambda>J. J\<lparr>jb_givenUp := True\<rparr>) (releaseOwnership l j s)"

section \<open>Continuing a call\<close>

definition call_replied :: "nat \<Rightarrow> reply \<Rightarrow> supervisor \<Rightarrow> supervisor" where
  "call_replied k r s = (case (cl_at (sv_calls s ! k), r) of
       (Launch_failing f, r) \<Rightarrow> (case failNonTerminal f r of
           Still f' \<Rightarrow> call_goto k (Launch_failing f') s | _ \<Rightarrow> finish_call k Threw s)
     | (Cancel_find i why, Found row) \<Rightarrow> cancel_found k i why row s
     | (Cancel_pending p, r) \<Rightarrow> (case persistCancellation p r of
           Still p' \<Rightarrow> call_goto k (Cancel_pending p') s | Left \<Rightarrow> answer_cancel k (persisting_scan p) True None s
         | Thrown \<Rightarrow> finish_call k Threw s)
     | (Cancel_owned_find j i why, Found row) \<Rightarrow> cancel_owned_found k j i why row s
     | (Cancel_owned j p, r) \<Rightarrow> (case persistCancellation p r of
           Still p' \<Rightarrow> call_goto k (Cancel_owned j p') s
         | Left \<Rightarrow> answer_cancel k (persisting_scan p) True None (kill_later j s)
         | Thrown \<Rightarrow> finish_call k Threw (kill_later j s))
     | (Cancel_rejecting i, Written) \<Rightarrow> answer_cancel k i False (Some ''process_not_owned'') s
     | (Shut_find i, Found row) \<Rightarrow>
         if active_row row
         then call_goto k (Shut_persist (Persist_update i ''server_shutdown'' (row_metadata row))) s
         else finish_call k Returned s
     | (Shut_persist p, r) \<Rightarrow> (case persistCancellation p r of
           Still p' \<Rightarrow> call_goto k (Shut_persist p') s | Left \<Rightarrow> finish_call k Returned s | Thrown \<Rightarrow> finish_call k Threw s)
     | (Recover_listing, Listed rows) \<Rightarrow> recover_next k rows 0 s
     | (Recover_update scans m, Updated b) \<Rightarrow>
         if b then call_goto k (Recover_logging scans m) s else recover_next k (tl scans) m s
     | (Recover_logging scans m, Written) \<Rightarrow> recover_next k (tl scans) (Suc m) s
     | _ \<Rightarrow> finish_call k Threw s)"

definition resume_call :: "capacity_limits \<Rightarrow> bool \<Rightarrow> nat \<Rightarrow> supervisor \<Rightarrow> supervisor option" where
  \<comment> \<open>\<open>exited\<close> is what \<open>waitForExit\<close> answers\<close>
  "resume_call l exited k s =
     (if length (sv_calls s) \<le> k then None
      else (case cl_at (sv_calls s ! k) of
         Call_done a \<Rightarrow> None
       | Shutdown_pending ks \<Rightarrow> if list_all (call_over s) ks then Some (shutdown_cancels k s) else None
       | Shutdown_jobs js ks \<Rightarrow> if list_all (call_over s) ks then Some (shutdown_kills k js s) else None
       | Shut_exit j \<Rightarrow> Some (if exited then finish_call k Returned s else call_goto k (Shut_exit_again j) (kill j ''SIGKILL'' s))
       | Shut_exit_again j \<Rightarrow> Some (finish_call k Returned (if exited then s else give_up l j s))
       | Shutdown_exits ks \<Rightarrow>
           if list_all (call_over s) ks
           then Some (call_goto k (Shutdown_monitors
             (filter (\<lambda>j. \<not> monitor_over s j \<and> \<not> jb_givenUp (sv_jobs s ! j)) [0..<length (sv_jobs s)])) s)
           else None
       | Shutdown_monitors js \<Rightarrow>
           if list_all (monitor_over s) js
           then Some (call_goto k (Shutdown_posts (filter (post_processing s) [0..<length (sv_jobs s)])) s)
           else None
       | Shutdown_posts js \<Rightarrow>
           if list_all (\<lambda>j. \<not> post_processing s j) js then Some (finish_call k Returned s) else None
       | _ \<Rightarrow> map_option (\<lambda>r. call_replied k r s) (cl_reply (sv_calls s ! k))))"

section \<open>The machine\<close>

datatype waiting_at = Of_launch nat | Of_job nat | Of_call nat

datatype table_outcome = Answers | Refuses | Loses \<comment> \<open>the operation is performed, but its answer is lost\<close>

definition pending_op :: "waiting_at \<Rightarrow> supervisor \<Rightarrow> table_op option" where
  "pending_op w s = (case w of
       Of_launch n \<Rightarrow> if n < length (sv_launches s) \<and> ln_reply (sv_launches s ! n) = None then launch_op (sv_instance s) n (sv_launches s ! n) else None
     | Of_job j \<Rightarrow> if j < length (sv_jobs s) \<and> jb_reply (sv_jobs s ! j) = None then job_op (sv_jobs s ! j) else None
     | Of_call k \<Rightarrow> if k < length (sv_calls s) \<and> cl_reply (sv_calls s ! k) = None then call_op (sv_calls s ! k) else None)"

definition reply_to :: "waiting_at \<Rightarrow> reply \<Rightarrow> supervisor \<Rightarrow> supervisor" where
  "reply_to w r = (case w of
       Of_launch n \<Rightarrow> edit_launch n (\<lambda>L. L\<lparr>ln_reply := Some r\<rparr>)
     | Of_job j \<Rightarrow> edit_job j (\<lambda>J. J\<lparr>jb_reply := Some r\<rparr>)
     | Of_call k \<Rightarrow> edit_call k (\<lambda>C. C\<lparr>cl_reply := Some r\<rparr>))"

definition serve :: "table_outcome \<Rightarrow> waiting_at \<Rightarrow> supervisor \<Rightarrow> supervisor option" where
  "serve out w s = map_option (\<lambda>p. let (r, t) = perform p (sv_table s) in case out of
       Answers \<Rightarrow> reply_to w r (s\<lparr>sv_table := t\<rparr>)
     | Loses \<Rightarrow> reply_to w Rejected (s\<lparr>sv_table := t\<rparr>)
     | Refuses \<Rightarrow> reply_to w Rejected s) (pending_op w s)"

definition own_request :: "supervisor \<Rightarrow> nat \<Rightarrow> bool" where
  "own_request s r = (r \<in> ln_request ` set (sv_launches s))"

definition foreign :: "supervisor \<Rightarrow> capacity_event \<Rightarrow> bool" where
  \<comment> \<open>another user of the capacity only has its own requests\<close>
  "foreign s e = (case e of Abort r \<Rightarrow> \<not> own_request s r | Release l r \<Rightarrow> \<not> own_request s r | _ \<Rightarrow> True)"

datatype supervisor_event =
  Launch capacity_limits string
  | Cancel string string
  | Shutdown
  | Recover
  | Serve table_outcome waiting_at
  | Resume_launch capacity_limits spawned nat
  | Resume_job capacity_limits monitor_outcome nat
  | Resume_call capacity_limits bool nat
  | Wall_clock nat
  | Output_limit nat
  | Kill_timer nat
  | Other_capacity capacity_event
  | Other_status string string metadata \<comment> \<open>the child process and other parts of the server\<close>
  | Other_metadata string metadata

fun supervisor_move :: "supervisor_event \<Rightarrow> supervisor \<Rightarrow> supervisor option" where
  "supervisor_move (Launch l i) s = Some (launch l i s)"
| "supervisor_move (Cancel i why) s = Some (new_call (Cancel_find i why) s)"
| "supervisor_move Shutdown s = Some (shutdown s)"
| "supervisor_move Recover s = Some (new_call Recover_listing s)"
| "supervisor_move (Serve out w) s = serve out w s"
| "supervisor_move (Resume_launch l out n) s = resume_launch l out n s"
| "supervisor_move (Resume_job l out j) s = resume_job l out j s"
| "supervisor_move (Resume_call l exited k) s = resume_call l exited k s"
| "supervisor_move (Wall_clock j) s =
     (if j < length (sv_jobs s) \<and> \<not> jb_released (sv_jobs s ! j) then Some (terminateOwnedProcess j ''scan.wall_clock_timeout'' s) else None)"
| "supervisor_move (Output_limit j) s =
     (if j < length (sv_jobs s) then Some (terminateOwnedProcess j ''scan.child_output_limit'' s) else None)"
| "supervisor_move (Kill_timer j) s =
     (if j < length (sv_jobs s) \<and> 0 < jb_killTimers (sv_jobs s ! j)
      then Some (kill j ''SIGKILL'' (edit_job j (\<lambda>J. J\<lparr>jb_killTimers := jb_killTimers J - 1\<rparr>) s)) else None)"
| "supervisor_move (Other_capacity e) s =
     (if foreign s e then map_option (\<lambda>c. s\<lparr>sv_capacity := c\<rparr>) (capacity_move e (sv_capacity s)) else None)"
| "supervisor_move (Other_status i status m) s =
     (if status \<in> set known_statuses then Some (s\<lparr>sv_table := snd (updateScanRunStatus i status m (sv_table s))\<rparr>) else None)"
| "supervisor_move (Other_metadata i m) s = Some (s\<lparr>sv_table := mergeScanRunMetadata i m (sv_table s)\<rparr>)"

end
