(* ===== verification/SupervisorRefinement.thy ===== *)
theory SupervisorRefinement
  imports ScanSupervisor
begin

text \<open>
  The interleaved functions of \<open>ScanSupervisor\<close> refine the ownership of \<open>LeaseOwnership\<close>: a view of the state, one lemma
  per event that it is a sequence of steps of the specification, and what follows for every run.
\<close>


section \<open>The view of the specification\<close>

fun phase_of :: "launch_at \<Rightarrow> lease_phase" where
  "phase_of Await_lease = Waiting_lease"
| "phase_of Start_done = Over"
| "phase_of Start_threw = Over"
| "phase_of a = Going_on"

definition start_of :: "launching \<Rightarrow> start" where
  "start_of L = \<lparr>st_scan = ln_scan L, st_aborted = ln_aborted L, st_request = ln_request L, st_spawned = ln_spawned L,
     st_phase = phase_of (ln_at L)\<rparr>"

definition holding_of :: "job \<Rightarrow> holding" where
  "holding_of J = \<lparr>hl_launch = jb_launch J, hl_scan = jb_scan J, hl_released = jb_released J\<rparr>"

definition view :: "supervisor \<Rightarrow> ownership" where
  "view s = \<lparr>ow_pending = sv_pending s, ow_owned = sv_owned s, ow_starts = map start_of (sv_launches s),
     ow_jobs = map holding_of (sv_jobs s), ow_capacity = sv_capacity s\<rparr>"

definition held_ok :: "supervisor \<Rightarrow> bool" where
  "held_ok s = list_all (\<lambda>L. ln_held L \<longleftrightarrow> phase_of (ln_at L) = Going_on) (sv_launches s)"

lemma start_of_simps [simp]:
  "st_scan (start_of L) = ln_scan L" "st_aborted (start_of L) = ln_aborted L" "st_request (start_of L) = ln_request L"
  "st_spawned (start_of L) = ln_spawned L" "st_phase (start_of L) = phase_of (ln_at L)"
  by (simp_all add: start_of_def)

lemma holding_of_simps [simp]:
  "hl_launch (holding_of J) = jb_launch J" "hl_scan (holding_of J) = jb_scan J" "hl_released (holding_of J) = jb_released J"
  by (simp_all add: holding_of_def)

lemma view_simps [simp]:
  "ow_pending (view s) = sv_pending s" "ow_owned (view s) = sv_owned s" "ow_starts (view s) = map start_of (sv_launches s)"
  "ow_jobs (view s) = map holding_of (sv_jobs s)" "ow_capacity (view s) = sv_capacity s"
  by (simp_all add: view_def)

lemma view_edit_launch: "(\<And>L. start_of (f L) = start_of L) \<Longrightarrow> view (edit_launch n f s) = view s"
  by (simp add: view_def edit_launch_def map_update_same)

lemma view_edit_job: "(\<And>J. holding_of (f J) = holding_of J) \<Longrightarrow> view (edit_job j f s) = view s"
  by (simp add: view_def edit_job_def map_update_same)

lemma view_calls [simp]:
  "view (edit_call k g s) = view s" "view (call_goto k a s) = view s" "view (new_call a s) = view s"
  "view (finish_call k r s) = view s" "view (answer_cancel k i b why s) = view s"
  "view (s\<lparr>sv_table := t\<rparr>) = view s" "view (s\<lparr>sv_orphans := os\<rparr>) = view s"
  by (simp_all add: view_def edit_call_def call_goto_def new_call_def finish_call_def answer_cancel_def)

lemma view_new_calls [simp]: "view (new_calls as s) = view s"
  by (induction as arbitrary: s) (simp_all add: new_calls_def)

lemma view_jobs [simp]:
  "view (job_goto j a s) = view s" "view (kill j signal s) = view s" "view (kill_later j s) = view s"
  "view (terminateOwnedProcess j why s) = view s"
  by (simp_all add: job_goto_def kill_def kill_later_def terminateOwnedProcess_def view_edit_job holding_of_def Let_def)

lemma view_launch_goto:
  "n < length (sv_launches s) \<Longrightarrow> phase_of a = phase_of (ln_at (sv_launches s ! n)) \<Longrightarrow> view (launch_goto n a s) = view s"
  by (simp add: view_def launch_goto_def edit_launch_def map_update start_of_def) (metis (no_types, lifting) list_update_id map_update start_of_def)

lemma view_end:
  "n < length (sv_launches s) \<Longrightarrow> view (end_start l threw n s) = (let L = sv_launches s ! n; w = view s in
     w\<lparr>ow_pending := (if ow_pending w (ln_scan L) = Some n then (ow_pending w)(ln_scan L := None) else ow_pending w),
       ow_starts := (ow_starts w)[n := (start_of L)\<lparr>st_phase := Over\<rparr>],
       ow_capacity := (if ln_held L then release l (ln_request L) (ow_capacity w) else ow_capacity w)\<rparr>)"
  by (simp add: view_def end_start_def launch_goto_def edit_launch_def give_back_def map_update start_of_def Let_def)

lemma view_release:
  "j < length (sv_jobs s) \<Longrightarrow> jb_launch (sv_jobs s ! j) < length (sv_launches s) \<Longrightarrow> view (releaseOwnership l j s) = ow_release l j (view s)"
  by (simp add: view_def releaseOwnership_def ow_release_def edit_job_def give_back_def map_update holding_of_def Let_def)

lemma view_abort: "n < length (sv_launches s) \<Longrightarrow> view (abort_launch n s) = ow_abort n (view s)"
  by (simp add: view_def abort_launch_def ow_abort_def edit_launch_def map_update start_of_def Let_def)

lemma view_spawn: "n < length (sv_launches s) \<Longrightarrow> view (spawn_job n s) = ow_spawn n (view s)"
  by (simp add: view_def spawn_job_def ow_spawn_def edit_launch_def map_update start_of_def holding_of_def Let_def)

section \<open>Every event is a step of the specification\<close>

definition refers_below :: "nat \<Rightarrow> call_at \<Rightarrow> bool" where
  "refers_below m a = (case a of Shut_exit j \<Rightarrow> j < m | Shut_exit_again j \<Rightarrow> j < m | Shutdown_jobs js ks \<Rightarrow> list_all (\<lambda>j. j < m) js | _ \<Rightarrow> True)"

definition refs_ok :: "supervisor \<Rightarrow> bool" where
  "refs_ok s = list_all (\<lambda>C. refers_below (length (sv_jobs s)) (cl_at C)) (sv_calls s)"

definition supervisor_ok :: "supervisor \<Rightarrow> bool" where
  "supervisor_ok s = (ownership_ok (view s) \<and> held_ok s \<and> refs_ok s)"

definition simulated :: "supervisor \<Rightarrow> supervisor \<Rightarrow> bool" where
  "simulated s s' = (ow_step\<^sup>*\<^sup>* (view s) (view s') \<and> held_ok s' \<and> refs_ok s')"

lemma held_same: "sv_launches s' = sv_launches s \<Longrightarrow> held_ok s' = held_ok s" by (simp add: held_ok_def)

lemma list_all_update: "list_all P xs \<Longrightarrow> P y \<Longrightarrow> list_all P (xs[i := y])"
  by (auto simp: list_all_iff dest!: subsetD [OF set_update_subset_insert])

lemma held_edit: "held_ok s \<Longrightarrow> ln_held (f (sv_launches s ! n)) = (phase_of (ln_at (f (sv_launches s ! n))) = Going_on) \<Longrightarrow> held_ok (edit_launch n f s)"
  by (simp add: held_ok_def edit_launch_def list_all_update)

lemma refs_jobs: "sv_calls s' = sv_calls s \<Longrightarrow> length (sv_jobs s) \<le> length (sv_jobs s') \<Longrightarrow> refs_ok s \<Longrightarrow> refs_ok s'"
  by (fastforce simp: refs_ok_def list_all_iff refers_below_def split: call_at.splits)

lemma refs_calls [simp]:
  "refs_ok s \<Longrightarrow> refers_below (length (sv_jobs s)) a \<Longrightarrow> refs_ok (call_goto k a s)"
  "refs_ok s \<Longrightarrow> refers_below (length (sv_jobs s)) a \<Longrightarrow> refs_ok (new_call a s)"
  by (auto simp: refs_ok_def call_goto_def edit_call_def new_call_def intro: list_all_update)

lemma refs_new_calls: "refs_ok s \<Longrightarrow> list_all (refers_below (length (sv_jobs s))) as \<Longrightarrow> refs_ok (new_calls as s)"
proof (induction as arbitrary: s)
  case (Cons a as)
  moreover have "sv_jobs (new_call a s) = sv_jobs s" by (simp add: new_call_def)
  ultimately show ?case by (simp add: new_calls_def)
qed (simp add: new_calls_def)

lemma kept_launches [simp]:
  "sv_launches (call_goto k a s) = sv_launches s" "sv_launches (new_call a s) = sv_launches s" "sv_launches (kill j g s) = sv_launches s"
  "sv_launches (kill_later j s) = sv_launches s" "sv_launches (edit_job j f s) = sv_launches s" "sv_launches (job_goto j b s) = sv_launches s"
  "sv_launches (terminateOwnedProcess j why s) = sv_launches s" "sv_launches (releaseOwnership l j s) = sv_launches s"
  "sv_launches (finish_call k r s) = sv_launches s" "sv_launches (answer_cancel k i c w s) = sv_launches s"
  "sv_launches (edit_call k h s) = sv_launches s"
  by (simp_all add: call_goto_def new_call_def edit_call_def kill_def kill_later_def edit_job_def job_goto_def terminateOwnedProcess_def
      releaseOwnership_def give_back_def finish_call_def answer_cancel_def Let_def)

lemma kept_jobs [simp]:
  "sv_jobs (call_goto k a s) = sv_jobs s" "sv_jobs (new_call a s) = sv_jobs s" "sv_jobs (edit_launch n e s) = sv_jobs s"
  "sv_jobs (launch_goto n p s) = sv_jobs s" "sv_jobs (abort_launch n s) = sv_jobs s" "sv_jobs (end_start l t n s) = sv_jobs s"
  "sv_jobs (finish_call k r s) = sv_jobs s" "sv_jobs (answer_cancel k i c w s) = sv_jobs s" "sv_jobs (edit_call k h s) = sv_jobs s"
  by (simp_all add: call_goto_def new_call_def edit_call_def edit_launch_def launch_goto_def abort_launch_def end_start_def
      give_back_def finish_call_def answer_cancel_def Let_def)

lemma kept_job_count [simp]:
  "length (sv_jobs (kill j g s)) = length (sv_jobs s)" "length (sv_jobs (kill_later j s)) = length (sv_jobs s)"
  "length (sv_jobs (edit_job j f s)) = length (sv_jobs s)" "length (sv_jobs (job_goto j b s)) = length (sv_jobs s)"
  "length (sv_jobs (terminateOwnedProcess j why s)) = length (sv_jobs s)" "length (sv_jobs (releaseOwnership l j s)) = length (sv_jobs s)"
  by (simp_all add: kill_def kill_later_def edit_job_def job_goto_def terminateOwnedProcess_def releaseOwnership_def give_back_def Let_def)

lemma kept_calls [simp]:
  "sv_calls (kill j g s) = sv_calls s" "sv_calls (kill_later j s) = sv_calls s" "sv_calls (edit_job j f s) = sv_calls s"
  "sv_calls (job_goto j b s) = sv_calls s" "sv_calls (terminateOwnedProcess j why s) = sv_calls s"
  "sv_calls (releaseOwnership l j s) = sv_calls s" "sv_calls (edit_launch n e s) = sv_calls s" "sv_calls (launch_goto n p s) = sv_calls s"
  "sv_calls (abort_launch n s) = sv_calls s" "sv_calls (end_start l t n s) = sv_calls s" "sv_calls (spawn_job n s) = sv_calls s"
  by (simp_all add: kill_def kill_later_def edit_job_def job_goto_def terminateOwnedProcess_def releaseOwnership_def give_back_def
      edit_launch_def launch_goto_def abort_launch_def end_start_def spawn_job_def Let_def)

lemma simulated_same: "supervisor_ok s \<Longrightarrow> view s' = view s \<Longrightarrow> held_ok s' \<Longrightarrow> refs_ok s' \<Longrightarrow> simulated s s'"
  by (simp add: simulated_def)

lemma simulated_step: "ow_step (view s) (view s') \<Longrightarrow> held_ok s' \<Longrightarrow> refs_ok s' \<Longrightarrow> simulated s s'"
  by (simp add: simulated_def r_into_rtranclp)

lemma refers_simple [simp]:
  "refers_below m (Call_done a)" "refers_below m (Launch_failing f)" "refers_below m (Cancel_find i why)" "refers_below m (Cancel_pending p)"
  "refers_below m (Cancel_owned_find j i why)" "refers_below m (Cancel_owned j p)" "refers_below m (Cancel_rejecting i)"
  "refers_below m (Shut_find i)" "refers_below m (Shut_persist p)" "refers_below m (Shutdown_pending ks)" "refers_below m (Shutdown_exits ks)"
  "refers_below m (Shutdown_monitors ks)" "refers_below m (Shutdown_posts ks)" "refers_below m Recover_listing"
  "refers_below m (Recover_update rows c)" "refers_below m (Recover_logging rows c)"
  "refers_below m (Shut_exit j) = (j < m)" "refers_below m (Shut_exit_again j) = (j < m)"
  "refers_below m (Shutdown_jobs js ks) = list_all (\<lambda>j. j < m) js"
  by (simp_all add: refers_below_def)

lemma sim_launch: assumes "supervisor_ok s" shows "simulated s (launch l i s)"
proof -
  let ?c = "with_request (acquire l False) (sv_capacity s)" let ?r = "pc_requests (sv_capacity s)"
  have ok: "held_ok s" "refs_ok s" using assms by (auto simp: supervisor_ok_def)
  consider (known) "sv_owned s i \<noteq> None \<or> sv_pending s i \<noteq> None" | (full) "sv_owned s i = None" "sv_pending s i = None" "\<not> lease_open ?r ?c"
    | (queued) "sv_owned s i = None" "sv_pending s i = None" "lease_open ?r ?c" by blast
  then show ?thesis
  proof cases
    case known
    then have "launch l i s = new_call (Call_done Returned) s" by (auto simp: launch_def)
    then show ?thesis by (intro simulated_same [OF assms]) (simp_all add: ok held_same)
  next
    case full
    have "launch l i s = new_call (Launch_failing (Fail_find i ''scan.queue_capacity_exceeded'')) (s\<lparr>sv_capacity := ?c\<rparr>)"
      using full by (simp add: launch_def Let_def)
    then have l: "launch l i s = new_call (Launch_failing (Fail_find i ''scan.queue_capacity_exceeded'')) (s\<lparr>sv_capacity := ?c\<rparr>)" .
    have "view (launch l i s) = (view s)\<lparr>ow_capacity := with_request (acquire l False) (ow_capacity (view s))\<rparr>"
      unfolding l view_calls by (simp add: view_def)
    moreover have "held_ok (launch l i s)" "refs_ok (launch l i s)" unfolding l using ok by (simp_all add: held_ok_def refs_ok_def new_call_def)
    ultimately show ?thesis using refused [of "view s" l] by (intro simulated_step) simp_all
  next
    case queued
    have "view (launch l i s) = ow_launch l i (view s)"
      using queued by (simp add: launch_def Let_def) (simp add: view_def ow_launch_def start_of_def)
    moreover have "held_ok (launch l i s)" "refs_ok (launch l i s)"
      using queued ok by (simp_all add: launch_def Let_def held_ok_def refs_ok_def new_call_def)
    ultimately show ?thesis using launched [of "view s" i l] queued by (intro simulated_step) simp_all
  qed
qed

lemma launches_end:
  "sv_launches (end_start l t n s) = (sv_launches s)[n := (sv_launches s ! n)\<lparr>ln_held := False, ln_at := if t then Start_threw else Start_done,
     ln_reply := None\<rparr>]"
  by (cases "n < length (sv_launches s)") (simp_all add: end_start_def launch_goto_def edit_launch_def give_back_def Let_def list_update_beyond)

lemma held_end: "held_ok s \<Longrightarrow> held_ok (end_start l t n s)"
  by (simp add: held_ok_def launches_end list_all_update)

lemma refs_kept [simp]:
  "refs_ok s \<Longrightarrow> refs_ok (end_start l t n s)" "refs_ok s \<Longrightarrow> refs_ok (launch_goto n a s)" "refs_ok s \<Longrightarrow> refs_ok (edit_launch n e s)"
  "refs_ok s \<Longrightarrow> refs_ok (abort_launch n s)" "refs_ok s \<Longrightarrow> refs_ok (job_goto j b s)" "refs_ok s \<Longrightarrow> refs_ok (kill j g s)"
  "refs_ok s \<Longrightarrow> refs_ok (kill_later j s)" "refs_ok s \<Longrightarrow> refs_ok (edit_job j f s)" "refs_ok s \<Longrightarrow> refs_ok (terminateOwnedProcess j why s)"
  "refs_ok s \<Longrightarrow> refs_ok (releaseOwnership l j s)"
  by (rule refs_jobs [of _ s]; simp)+

lemma refs_spawn [simp]: "refs_ok s \<Longrightarrow> refs_ok (spawn_job n s)"
  by (rule refs_jobs [of _ s]) (simp_all add: spawn_job_def edit_launch_def Let_def)

lemma refs_fields [simp]:
  "refs_ok (s\<lparr>sv_table := t\<rparr>) = refs_ok s" "refs_ok (s\<lparr>sv_orphans := os\<rparr>) = refs_ok s" "refs_ok (s\<lparr>sv_capacity := c\<rparr>) = refs_ok s"
  "held_ok (s\<lparr>sv_table := t\<rparr>) = held_ok s" "held_ok (s\<lparr>sv_orphans := os\<rparr>) = held_ok s" "held_ok (s\<lparr>sv_capacity := c\<rparr>) = held_ok s"
  by (simp_all add: refs_ok_def held_ok_def)

lemma held_kept [simp]:
  "held_ok (call_goto k a s) = held_ok s" "held_ok (new_call a s) = held_ok s" "held_ok (kill j g s) = held_ok s"
  "held_ok (kill_later j s) = held_ok s" "held_ok (edit_job j f s) = held_ok s" "held_ok (job_goto j b s) = held_ok s"
  "held_ok (terminateOwnedProcess j why s) = held_ok s" "held_ok (releaseOwnership l j s) = held_ok s"
  "held_ok (finish_call k r s) = held_ok s" "held_ok (answer_cancel k i c w s) = held_ok s" "held_ok (edit_call k h s) = held_ok s"
  by (rule held_same; simp)+

lemma held_new_calls [simp]: "held_ok (new_calls as s) = held_ok s"
  by (induction as arbitrary: s) (simp_all add: new_calls_def)

lemma held_goto:
  "held_ok s \<Longrightarrow> n < length (sv_launches s) \<Longrightarrow> phase_of a = phase_of (ln_at (sv_launches s ! n)) \<Longrightarrow> held_ok (launch_goto n a s)"
  unfolding launch_goto_def by (rule held_edit) (auto simp: held_ok_def list_all_length)

lemma held_at: "held_ok s \<Longrightarrow> n < length (sv_launches s) \<Longrightarrow> ln_held (sv_launches s ! n) = (phase_of (ln_at (sv_launches s ! n)) = Going_on)"
  by (simp add: held_ok_def list_all_length)

lemma supervisor_okD: "supervisor_ok s \<Longrightarrow> ownership_ok (view s) \<and> held_ok s \<and> refs_ok s"
  by (simp add: supervisor_ok_def)

lemma sim_end:
  assumes "supervisor_ok s" and "n < length (sv_launches s)" and "phase_of (ln_at (sv_launches s ! n)) \<noteq> Over"
    and "phase_of (ln_at (sv_launches s ! n)) = Waiting_lease \<Longrightarrow> \<not> lease_open (ln_request (sv_launches s ! n)) (sv_capacity s)"
  shows "simulated s (end_start l t n s)"
proof -
  note ok = supervisor_okD [OF assms(1)]
  have "view (end_start l t n s) = ow_end l n (view s)"
    unfolding view_end [OF assms(2)] ow_end_def Let_def using held_at [of s n] ok assms(2) by simp
  then show ?thesis using ended [of n "view s" l] assms(2-4) ok held_end by (intro simulated_step) auto
qed

lemma lease_state:
  assumes "supervisor_ok s" and "n < length (sv_launches s)"
  shows "lease_fits (sv_capacity s) (start_of (sv_launches s ! n)) (lease_due (view s) n)" "capacity_ok (sv_capacity s)"
  using assms by (auto simp: supervisor_ok_def ownership_ok_def leases_ok_def)

lemma pending_iff:
  assumes "supervisor_ok s"
  shows "sv_pending s i = Some n \<longleftrightarrow> n < length (sv_launches s) \<and> ln_scan (sv_launches s ! n) = i
    \<and> \<not> ln_aborted (sv_launches s ! n) \<and> phase_of (ln_at (sv_launches s ! n)) \<noteq> Over"
  using assms by (auto simp: supervisor_ok_def ownership_ok_def maps_ok_def)

lemma job_launch:
  assumes "supervisor_ok s" and "j < length (sv_jobs s)"
  shows "jb_launch (sv_jobs s ! j) < length (sv_launches s)"
  using assms by (auto simp: supervisor_ok_def ownership_ok_def jobs_ok_def)

lemma sim_catch:
  assumes "supervisor_ok s" and "n < length (sv_launches s)" and "phase_of (ln_at (sv_launches s ! n)) \<noteq> Over"
    and "phase_of (ln_at (sv_launches s ! n)) = Waiting_lease \<Longrightarrow> \<not> lease_open (ln_request (sv_launches s ! n)) (sv_capacity s)"
  shows "simulated s (catch_start l n s)"
proof (cases "ln_aborted (sv_launches s ! n)")
  case True
  then show ?thesis using sim_end [OF assms] by (simp add: catch_start_def Let_def)
next
  case False
  then have "phase_of (ln_at (sv_launches s ! n)) = Going_on"
    using assms lease_state(1) [OF assms(1,2)] by (cases "phase_of (ln_at (sv_launches s ! n))") (auto simp: lease_fits_def)
  then show ?thesis using False supervisor_okD [OF assms(1)] assms(2)
    by (simp add: catch_start_def Let_def) (rule simulated_same [OF assms(1)], simp_all add: view_launch_goto held_goto)
qed

lemma release_again: "r \<notin> set (pc_held c) \<Longrightarrow> release l r c = c" by (simp add: release_def)

lemma sim_granted:
  assumes "supervisor_ok s" and "n < length (sv_launches s)" and "ln_at (sv_launches s ! n) = Await_lease"
    and "ln_request (sv_launches s ! n) \<in> set (pc_held (sv_capacity s))"
  shows "simulated s (lease_granted l n s)"
proof -
  let ?L = "sv_launches s ! n" let ?r = "ln_request ?L"
  let ?t = "edit_launch n (\<lambda>L. L\<lparr>ln_held := True\<rparr>) s" let ?u = "give_back l ?r ?t"
  note ok = supervisor_okD [OF assms(1)]
  have L: "sv_launches ?t ! n = ?L\<lparr>ln_held := True\<rparr>" "n < length (sv_launches ?t)" "view ?t = view s"
    using assms(2) by (simp_all add: edit_launch_def view_def map_update_same start_of_def)
  have u: "sv_launches ?u = sv_launches ?t" "view ?u = (view s)\<lparr>ow_capacity := release l ?r (sv_capacity s)\<rparr>"
    using L(3) by (simp_all add: give_back_def view_def)
  have take: "ow_step (view s) (ow_take n (view s))" using taken [of n "view s"] assms(2-4) by simp
  have ended: "ow_step (ow_take n (view s)) (ow_end l n (ow_take n (view s)))"
    using ended [of n "ow_take n (view s)" l] assms(2) by (simp add: ow_take_def)
  have two: "ow_end l n (ow_take n (view s)) = (view s)\<lparr>ow_pending := (if sv_pending s (ln_scan ?L) = Some n then (sv_pending s)(ln_scan ?L := None) else sv_pending s),
      ow_starts := (map start_of (sv_launches s))[n := (start_of ?L)\<lparr>st_phase := Over\<rparr>], ow_capacity := release l ?r (sv_capacity s)\<rparr>"
    using assms(2) by (simp add: ow_take_def ow_end_def Let_def)
  have waiting_at: "?r \<notin> set (liveWaiters (sv_capacity s))" by (rule held_not_waiting [OF lease_state(2) [OF assms(1,2)] assms(4)])
  have gone: "release l ?r (release l ?r (sv_capacity s)) = release l ?r (sv_capacity s)"
    using release_self [OF lease_state(2) [OF assms(1,2)] waiting_at, of l] by (intro release_again) (simp add: lease_open_def)
  have over: "view (end_start l False n x) = ow_end l n (ow_take n (view s))" if "x = ?t \<or> x = ?u" for x
  proof -
    have x: "n < length (sv_launches x)" "sv_launches x ! n = ?L\<lparr>ln_held := True\<rparr>"
      "release l ?r (sv_capacity x) = release l ?r (sv_capacity s)"
      "view x = (view s)\<lparr>ow_capacity := sv_capacity x\<rparr>"
      using that L u gone by (auto simp: give_back_def edit_launch_def view_def)
    show ?thesis unfolding view_end [OF x(1)] two using x(2-4) by (simp add: Let_def start_of_def)
  qed
  have held: "held_ok (end_start l False n x)" if "x = ?t \<or> x = ?u" for x
  proof -
    have "sv_launches (end_start l False n x) = sv_launches (end_start l False n s)"
      using that assms(2) by (auto simp: launches_end give_back_def edit_launch_def)
    then show ?thesis using held_end ok held_same by blast
  qed
  have refs: "refs_ok ?t" "refs_ok ?u" using ok by (simp_all add: give_back_def)
  have both: "simulated s (end_start l False n x)" if "x = ?t \<or> x = ?u" for x
  proof -
    have "ow_step\<^sup>*\<^sup>* (view s) (ow_end l n (ow_take n (view s)))"
      by (rule converse_rtranclp_into_rtranclp [where r = ow_step, OF take]) (rule r_into_rtranclp [where r = ow_step], rule ended)
    then show ?thesis unfolding simulated_def over [OF that] using held [OF that] refs that by auto
  qed
  have "simulated s (launch_goto n Find_queued ?t)"
  proof (rule simulated_step)
    have "view (launch_goto n Find_queued ?t) = ow_take n (view s)"
      using assms(2) by (simp add: view_def launch_goto_def edit_launch_def ow_take_def map_update start_of_def)
    then show "ow_step (view s) (view (launch_goto n Find_queued ?t))" using take by simp
    show "held_ok (launch_goto n Find_queued ?t)"
      using ok assms(2) by (simp add: held_ok_def launch_goto_def edit_launch_def list_all_update)
  qed (use refs in simp)
  then show ?thesis using both by (simp add: lease_granted_def Let_def)
qed

lemma sim_goto:
  assumes "supervisor_ok s" and "n < length (sv_launches s)" and "phase_of a = phase_of (ln_at (sv_launches s ! n))"
  shows "simulated s (launch_goto n a s)"
  using supervisor_okD [OF assms(1)] assms(2,3) by (intro simulated_same [OF assms(1)]) (simp_all add: view_launch_goto held_goto)

lemma sim_spawn:
  assumes "supervisor_ok s" and "n < length (sv_launches s)" and "phase_of (ln_at (sv_launches s ! n)) = Going_on" and "\<not> ln_aborted (sv_launches s ! n)"
  shows "simulated s (spawn_job n s)"
proof (rule simulated_step)
  show "ow_step (view s) (view (spawn_job n s))" using spawned [of n "view s"] assms(2-4) by (simp add: view_spawn)
  show "held_ok (spawn_job n s)"
    using supervisor_okD [OF assms(1)] by (simp add: held_ok_def spawn_job_def edit_launch_def Let_def list_all_update)
qed (use supervisor_okD [OF assms(1)] in simp)

lemma orphan_ok: "supervisor_ok s \<Longrightarrow> supervisor_ok (s\<lparr>sv_orphans := os\<rparr>)" by (simp add: supervisor_ok_def)

lemma sim_launch_once:
  assumes ok: "supervisor_ok s" and n: "n < length (sv_launches s)" and at: "phase_of (ln_at (sv_launches s ! n)) = Going_on"
  shows "simulated s (launchOnce l out n r s)"
proof -
  have e: "simulated s (end_start l False n s)" and c: "simulated s (catch_start l n s)" using sim_end [OF ok n] sim_catch [OF ok n] at by auto
  have o: "simulated s (catch_start l n (s\<lparr>sv_orphans := os\<rparr>))" for os
    using sim_catch [OF orphan_ok [OF ok, of os], of n l] n at by (simp add: simulated_def)
  have g: "simulated s (launch_goto n a s)" if "phase_of a = Going_on" for a using sim_goto [OF ok n] at that by simp
  show ?thesis
  proof (cases "ln_at (sv_launches s ! n)")
    case Find_queued
    then show ?thesis using e c g by (cases r) (auto simp: launchOnce_def Let_def)
  next
    case Merge_token
    then show ?thesis using e c g by (cases r) (auto simp: launchOnce_def Let_def)
  next
    case Find_current
    then show ?thesis using e c o sim_spawn [OF ok n at] by (cases r) (auto simp: launchOnce_def Let_def split: spawned.split)
  qed (use c in \<open>auto simp: launchOnce_def Let_def\<close>)
qed

lemma sim_resume_launch:
  assumes ok: "supervisor_ok s" and r: "resume_launch l out n s = Some s'"
  shows "simulated s s'"
proof -
  let ?L = "sv_launches s ! n"
  have n: "n < length (sv_launches s)" using r by (simp add: resume_launch_def Let_def split: if_splits)
  show ?thesis
  proof (cases "ln_at ?L")
    case Await_lease
    then show ?thesis using r n sim_granted [OF ok n Await_lease, of l] sim_catch [OF ok n, of l]
      by (auto simp: resume_launch_def Let_def split: if_splits)
  next
    case (Start_failing f)
    then obtain rp where rp: "s' = (case failNonTerminal f rp of
        Still f' \<Rightarrow> launch_goto n (Start_failing f') s | Left \<Rightarrow> end_start l False n s | Thrown \<Rightarrow> end_start l True n s)"
      using r n by (auto simp: resume_launch_def Let_def)
    then show ?thesis using Start_failing sim_goto [OF ok n] sim_end [OF ok n] by (simp split: continuation.split)
  next
    case Find_queued
    then show ?thesis using r n sim_launch_once [OF ok n] by (auto simp: resume_launch_def Let_def)
  next
    case Merge_token
    then show ?thesis using r n sim_launch_once [OF ok n] by (auto simp: resume_launch_def Let_def)
  next
    case Find_current
    then show ?thesis using r n sim_launch_once [OF ok n] by (auto simp: resume_launch_def Let_def)
  qed (use r n in \<open>auto simp: resume_launch_def Let_def\<close>)
qed

lemma sim_release:
  assumes "supervisor_ok s" and "j < length (sv_jobs s)" and "view t = view s" and "sv_launches t = sv_launches s" and "sv_calls t = sv_calls s"
    and "length (sv_jobs t) = length (sv_jobs s)" and "jb_launch (sv_jobs t ! j) = jb_launch (sv_jobs s ! j)"
  shows "simulated s (job_goto j a (releaseOwnership l j t))" "simulated s (releaseOwnership l j t)"
proof -
  have v: "view (releaseOwnership l j t) = ow_release l j (view s)"
    using view_release [of j t l] assms job_launch [OF assms(1,2)] by simp
  have "ow_step (view s) (ow_release l j (view s))" using released [of j "view s"] assms(2) by simp
  moreover have "held_ok (releaseOwnership l j t)" "refs_ok (releaseOwnership l j t)"
    using supervisor_okD [OF assms(1)] held_same [OF assms(4)] refs_jobs [OF assms(5)] assms(6) by simp_all
  ultimately show "simulated s (job_goto j a (releaseOwnership l j t))" "simulated s (releaseOwnership l j t)"
    by (intro simulated_step; simp add: v)+
qed

lemma sim_jobs [simp]:
  assumes "supervisor_ok s"
  shows "simulated s (job_goto j a s)" "simulated s (job_goto j a (terminateOwnedProcess j why s))" "simulated s (terminateOwnedProcess j why s)"
    "simulated s (kill j g (edit_job j (\<lambda>J. J\<lparr>jb_killTimers := jb_killTimers J - 1\<rparr>) s))"
  using supervisor_okD [OF assms]
  by (intro simulated_same [OF assms]; simp add: view_edit_job holding_of_def)+

lemma sim_resume_job:
  assumes ok: "supervisor_ok s" and r: "resume_job l out j s = Some s'"
  shows "simulated s s'"
proof -
  have j: "j < length (sv_jobs s)" using r by (simp add: resume_job_def Let_def split: if_splits)
  note rel = sim_release [OF ok j, of s] sim_release [OF ok j, of "kill j ''SIGKILL'' s"]
  have k: "jb_launch (sv_jobs (kill j g s) ! j) = jb_launch (sv_jobs s ! j)" for g using j by (simp add: kill_def edit_job_def)
  have replied: "simulated s (job_replied j rp s)" for rp
    using ok by (auto simp: job_replied_def monitor_ended_def Let_def split: monitor_at.split reply.split continuation.split)
  show ?thesis using r j rel k replied ok
    by (auto simp: resume_job_def Let_def split: monitor_at.splits monitor_outcome.splits)
qed

lemma sim_same:
  assumes "supervisor_ok s" and "view s' = view s" and "sv_launches s' = sv_launches s" and "refs_ok s'"
  shows "simulated s s'"
  using assms supervisor_okD [OF assms(1)] held_same [OF assms(3)] by (simp add: simulated_same)

lemma refs_call_goto:
  "refs_ok s \<Longrightarrow> refers_below (length (sv_jobs s)) a \<Longrightarrow> sv_calls t = sv_calls s \<Longrightarrow> length (sv_jobs t) = length (sv_jobs s) \<Longrightarrow> refs_ok (call_goto k a t)"
  by (intro refs_calls) (auto intro: refs_jobs)

lemma simulated_then:
  assumes "simulated s t" and "view t' = view t" and "sv_launches t' = sv_launches t" and "refs_ok t'"
  shows "simulated s t'"
  using assms held_same [OF assms(3)] by (simp add: simulated_def)

lemma sim_abort:
  assumes "supervisor_ok s" and "sv_pending s i = Some n"
  shows "simulated s (abort_launch n s)"
proof -
  have n: "n < length (sv_launches s)" "ln_scan (sv_launches s ! n) = i" using pending_iff [OF assms(1)] assms(2) by auto
  show ?thesis
  proof (rule simulated_step)
    show "ow_step (view s) (view (abort_launch n s))"
      unfolding view_abort [OF n(1)] using n assms(2) by (intro aborted) simp_all
    show "held_ok (abort_launch n s)"
      unfolding abort_launch_def Let_def
      by (rule held_edit) (use supervisor_okD [OF assms(1)] held_at n(1) in \<open>auto simp: held_ok_def\<close>)
  qed (use supervisor_okD [OF assms(1)] in simp)
qed

lemma sim_call:
  assumes "supervisor_ok s" and "refers_below (length (sv_jobs s)) a"
  shows "simulated s (call_goto k a s)" "simulated s (call_goto k a (kill_later j s))" "simulated s (call_goto k a (kill j g s))"
    "simulated s (call_goto k a (edit_job j (\<lambda>J. J\<lparr>jb_cancelling := True\<rparr>) s))"
    "simulated s (call_goto k a (kill_later j (edit_job j (\<lambda>J. J\<lparr>jb_cancelling := True\<rparr>) s)))"
  using supervisor_okD [OF assms(1)] assms(2)
  by (intro sim_same [OF assms(1)]; simp add: view_edit_job holding_of_def)+

lemmas goto_defs = finish_call_def answer_cancel_def

lemma sim_cancel_found: assumes ok: "supervisor_ok s" shows "simulated s (cancel_found k i why row s)"
proof -
  have a: "simulated s (call_goto k a (abort_launch n s))" if "sv_pending s i = Some n" "refers_below (length (sv_jobs s)) a" for n a
    by (rule simulated_then [OF sim_abort [OF ok that(1)]]) (use that(2) supervisor_okD [OF ok] in simp_all)
  show ?thesis using a sim_call [OF ok] by (auto simp: cancel_found_def goto_defs Let_def split: option.split)
qed

lemma sim_recover_next: "supervisor_ok s \<Longrightarrow> simulated s (recover_next k rows m s)"
  using sim_call by (auto simp: recover_next_def goto_defs split: list.split)

lemma sim_replied: assumes ok: "supervisor_ok s" shows "simulated s (call_replied k r s)"
  using sim_call [OF ok] sim_cancel_found [OF ok] sim_recover_next [OF ok]
  by (auto simp: call_replied_def cancel_owned_found_def goto_defs Let_def split: call_at.split reply.split continuation.split)

lemma numbers_same: "view (fold f xs s) = view s" if "\<And>x s. view (f x s) = view s"
  by (induction xs arbitrary: s) (simp_all add: that)

lemma sim_shutdown_kills:
  assumes ok: "supervisor_ok s" and js: "list_all (\<lambda>j. j < length (sv_jobs s)) js"
  shows "simulated s (shutdown_kills k js s)"
proof -
  let ?f = "\<lambda>j s. kill j ''SIGTERM'' (edit_job j (\<lambda>J. J\<lparr>jb_cancelling := True\<rparr>) s)"
  let ?t = "fold ?f js s"
  have v: "view ?t = view s" by (rule numbers_same) (simp add: view_edit_job holding_of_def)
  have same: "sv_launches (fold ?f xs u) = sv_launches u \<and> sv_calls (fold ?f xs u) = sv_calls u \<and> length (sv_jobs (fold ?f xs u)) = length (sv_jobs u)" for xs u
    by (induction xs arbitrary: u) simp_all
  have refs: "refs_ok (new_calls (map Shut_exit js) ?t)"
  proof (rule refs_new_calls)
    show "refs_ok ?t" by (rule refs_jobs [of _ s]) (use same [of js s] supervisor_okD [OF ok] in simp_all)
  qed (use js same [of js s] in \<open>simp add: list_all_iff\<close>)
  show ?thesis unfolding shutdown_kills_def
    by (intro simulated_same [OF ok]) (use v refs supervisor_okD [OF ok] held_same [of ?t s] same [of js s] in \<open>simp_all\<close>)
qed

lemma sim_shutdown_cancels: assumes ok: "supervisor_ok s" shows "simulated s (shutdown_cancels k s)"
proof -
  let ?t = "new_calls (map (\<lambda>j. Cancel_find (jb_scan (sv_jobs s ! j)) ''server_shutdown'') (owned_jobs s)) s"
  have "refs_ok ?t" by (rule refs_new_calls) (use supervisor_okD [OF ok] in \<open>simp_all add: list_all_iff\<close>)
  moreover have "sv_jobs (new_calls as u) = sv_jobs u" for as u
    by (induction as arbitrary: u) (simp_all add: new_calls_def)
  moreover have "list_all (\<lambda>j. j < length (sv_jobs s)) (owned_jobs s)" by (auto simp: owned_jobs_def list_all_iff)
  ultimately show ?thesis unfolding shutdown_cancels_def Let_def
    by (intro simulated_same [OF ok]) (use supervisor_okD [OF ok] in simp_all)
qed

lemma sim_give_up:
  assumes ok: "supervisor_ok s" and j: "j < length (sv_jobs s)"
  shows "simulated s (call_goto k (Call_done a) (give_up l j s))"
proof -
  have "simulated s (releaseOwnership l j s)" by (rule sim_release [OF ok j]) simp_all
  then show ?thesis unfolding give_up_def
    by (rule simulated_then) (use supervisor_okD [OF ok] in \<open>simp_all add: view_edit_job holding_of_def\<close>)
qed

lemma sim_resume_call:
  assumes ok: "supervisor_ok s" and r: "resume_call l exited k s = Some s'"
  shows "simulated s s'"
proof -
  have k: "k < length (sv_calls s)" using r by (simp add: resume_call_def split: if_splits)
  have refs: "refers_below (length (sv_jobs s)) (cl_at (sv_calls s ! k))"
    using supervisor_okD [OF ok] k by (auto simp: refs_ok_def list_all_length)
  have "call_goto k (Call_done a) (if exited then s else give_up l j s) = (if exited then call_goto k (Call_done a) s else call_goto k (Call_done a) (give_up l j s))" for a j
    by simp
  then show ?thesis
    using r k refs sim_call [OF ok] sim_replied [OF ok] sim_shutdown_cancels [OF ok] sim_shutdown_kills [OF ok] sim_give_up [OF ok]
    by (auto simp: resume_call_def goto_defs split: call_at.splits if_splits)
qed

lemma sim_shutdown: assumes ok: "supervisor_ok s" shows "simulated s (shutdown s)"
proof -
  have many: "simulated s (fold abort_launch ns u)"
    if "simulated s u" "supervisor_ok u" "distinct ns" "list_all (\<lambda>n. sv_pending u (ln_scan (sv_launches u ! n)) = Some n) ns" for ns u
    using that
  proof (induction ns arbitrary: u)
    case (Cons n ns)
    let ?v = "abort_launch n u"
    have p: "sv_pending u (ln_scan (sv_launches u ! n)) = Some n" using Cons(5) by simp
    then have n: "n < length (sv_launches u)" using pending_iff [OF Cons(3)] by blast
    have step: "simulated u ?v" by (rule sim_abort [OF Cons(3) p])
    then have v: "simulated s ?v" using Cons(2) rtranclp_trans by (fastforce simp: simulated_def)
    have "ownership_ok (view ?v)" using step ownership_kept_many supervisor_okD [OF Cons(3)] unfolding simulated_def by blast
    then have okv: "supervisor_ok ?v" using step by (simp add: supervisor_ok_def simulated_def)
    have "sv_pending ?v (ln_scan (sv_launches ?v ! m)) = Some m" if "m \<in> set ns" for m
    proof -
      have m: "sv_pending u (ln_scan (sv_launches u ! m)) = Some m" "m \<noteq> n" using that Cons(4,5) by (auto simp: list_all_iff)
      then have "ln_scan (sv_launches u ! m) \<noteq> ln_scan (sv_launches u ! n)" using p by auto
      moreover have "sv_pending ?v = (sv_pending u)(ln_scan (sv_launches u ! n) := None)" "sv_launches ?v ! m = sv_launches u ! m"
        using m(2) by (simp_all add: abort_launch_def edit_launch_def Let_def)
      ultimately show ?thesis using m(1) by simp
    qed
    then show ?case using Cons(1) [OF v okv] Cons(4) by (simp add: list_all_iff)
  qed simp
  have "simulated s (fold abort_launch (pending_launches s) s)"
    by (rule many) (use ok supervisor_okD [OF ok] in \<open>simp_all add: simulated_def pending_launches_def list_all_iff\<close>)
  moreover have "refs_ok (new_calls (map (\<lambda>n. Shut_find (ln_scan (sv_launches s ! n))) ns) u)" if "refs_ok u" for ns u
    by (rule refs_new_calls [OF that]) (simp add: list_all_iff)
  ultimately show ?thesis unfolding shutdown_def Let_def
    by (auto simp: simulated_def)
qed

lemma held_reply: assumes "held_ok s" shows "held_ok (edit_launch n (\<lambda>L. L\<lparr>ln_reply := r\<rparr>) s)"
proof (cases "n < length (sv_launches s)")
  case True
  then show ?thesis using assms held_at by (intro held_edit) auto
qed (use assms in \<open>simp add: held_ok_def edit_launch_def list_update_beyond\<close>)

lemma refs_reply: assumes "refs_ok s" shows "refs_ok (edit_call k (\<lambda>C. C\<lparr>cl_reply := r\<rparr>) s)"
proof (cases "k < length (sv_calls s)")
  case True
  then have "refers_below (length (sv_jobs s)) (cl_at (sv_calls s ! k))" using assms by (auto simp: refs_ok_def list_all_length)
  then show ?thesis using assms by (simp add: refs_ok_def edit_call_def list_all_update)
qed (use assms in \<open>simp add: refs_ok_def edit_call_def list_update_beyond\<close>)

lemma sim_reply: assumes "supervisor_ok s" shows "simulated s (reply_to w r (s\<lparr>sv_table := t\<rparr>))"
proof (cases w)
  case (Of_launch n)
  have "view (reply_to w r (s\<lparr>sv_table := t\<rparr>)) = view (s\<lparr>sv_table := t\<rparr>)"
    unfolding Of_launch reply_to_def waiting_at.case by (rule view_edit_launch) (simp add: start_of_def)
  then show ?thesis using supervisor_okD [OF assms]
    by (intro simulated_same [OF assms]) (simp_all add: Of_launch reply_to_def held_reply)
next
  case (Of_job j)
  have "view (reply_to w r (s\<lparr>sv_table := t\<rparr>)) = view (s\<lparr>sv_table := t\<rparr>)"
    unfolding Of_job reply_to_def waiting_at.case by (rule view_edit_job) (simp add: holding_of_def)
  then show ?thesis using supervisor_okD [OF assms]
    by (intro simulated_same [OF assms]) (simp_all add: Of_job reply_to_def)
next
  case (Of_call k)
  have "view (reply_to w r (s\<lparr>sv_table := t\<rparr>)) = view (s\<lparr>sv_table := t\<rparr>)"
    unfolding Of_call reply_to_def waiting_at.case by (rule view_calls)
  then show ?thesis using supervisor_okD [OF assms]
    by (intro simulated_same [OF assms]) (simp_all add: Of_call reply_to_def refs_reply)
qed

lemma sim_serve: assumes "supervisor_ok s" and "serve out w s = Some s'" shows "simulated s s'"
proof -
  have "reply_to w r s = reply_to w r (s\<lparr>sv_table := sv_table s\<rparr>)" for r by simp
  then have "simulated s (reply_to w r s)" for r using sim_reply [OF assms(1)] by metis
  note replies = this sim_reply [OF assms(1)]
  obtain p where p: "s' = (let (r, t) = perform p (sv_table s) in case out of
       Answers \<Rightarrow> reply_to w r (s\<lparr>sv_table := t\<rparr>)
     | Loses \<Rightarrow> reply_to w Rejected (s\<lparr>sv_table := t\<rparr>)
     | Refuses \<Rightarrow> reply_to w Rejected s)" using assms(2) by (auto simp: serve_def)
  show ?thesis unfolding p Let_def by (cases "perform p (sv_table s)", cases out) (simp_all add: replies)
qed

lemma sim_other:
  assumes ok: "supervisor_ok s" and c: "capacity_move e (sv_capacity s) = Some c" and f: "foreign s e"
  shows "simulated s (s\<lparr>sv_capacity := c\<rparr>)"
proof (rule simulated_step)
  have "st_request ` set (ow_starts (view s)) = ln_request ` set (sv_launches s)" by (simp add: image_image)
  then have "ow_step (view s) ((view s)\<lparr>ow_capacity := c\<rparr>)"
    using c f by (intro other [where e = e]) (auto simp: foreign_def own_request_def split: capacity_event.splits)
  then show "ow_step (view s) (view (s\<lparr>sv_capacity := c\<rparr>))" by (simp add: view_def)
qed (use supervisor_okD [OF ok] in simp_all)

lemma sim_move: assumes ok: "supervisor_ok s" and m: "supervisor_move e s = Some s'" shows "simulated s s'"
proof (cases e)
  case (Launch l i)
  then show ?thesis using m sim_launch [OF ok] by auto
next
  case (Cancel i why)
  then show ?thesis using m supervisor_okD [OF ok] by (auto intro!: sim_same [OF ok])
next
  case Shutdown
  then show ?thesis using m sim_shutdown [OF ok] by simp
next
  case Recover
  then show ?thesis using m supervisor_okD [OF ok] by (auto intro!: sim_same [OF ok])
next
  case (Serve out w)
  then show ?thesis using m sim_serve [OF ok] by simp
next
  case (Resume_launch l out n)
  then show ?thesis using m sim_resume_launch [OF ok] by simp
next
  case (Resume_job l out j)
  then show ?thesis using m sim_resume_job [OF ok] by simp
next
  case (Resume_call l exited k)
  then show ?thesis using m sim_resume_call [OF ok] by simp
next
  case (Other_capacity c)
  then show ?thesis using m sim_other [OF ok] by (auto split: if_splits)
next
  case (Kill_timer j)
  then show ?thesis using m sim_jobs(4) [OF ok, of j] by (auto simp del: One_nat_def split: if_splits)
qed (use m ok supervisor_okD [OF ok] sim_same [OF ok] in \<open>auto split: if_splits\<close>)

lemma start_view: "(ownership_ok (view (new_supervisor inst post t)) \<and> cancels_ok (view (new_supervisor inst post t)))
    \<and> held_ok (new_supervisor inst post t) \<and> refs_ok (new_supervisor inst post t)"
proof -
  have "capacity_ok new_capacity" by (rule pc.inv_start)
  then show ?thesis
    by (auto simp: new_supervisor_def view_def ownership_ok_def maps_ok_def jobs_ok_def leases_ok_def held_ok_def refs_ok_def cancels_ok_def)
qed

interpretation sv: refining_machine supervisor_move "new_supervisor inst post t" view ow_step "\<lambda>w. ownership_ok w \<and> cancels_ok w"
    "\<lambda>s. held_ok s \<and> refs_ok s"
  for inst post t
proof
  show "(ownership_ok (view (new_supervisor inst post t)) \<and> cancels_ok (view (new_supervisor inst post t)))
    \<and> held_ok (new_supervisor inst post t) \<and> refs_ok (new_supervisor inst post t)"
    by (rule start_view)
next
  fix s e s' assume "ownership_ok (view s) \<and> cancels_ok (view s)" "held_ok s \<and> refs_ok s" "supervisor_move e s = Some s'"
  then show "ow_step\<^sup>*\<^sup>* (view s) (view s') \<and> held_ok s' \<and> refs_ok s'"
    using sim_move [of s e s'] by (simp add: supervisor_ok_def simulated_def)
qed (use ownership_kept cancels_kept in blast)

section \<open>What holds of every run\<close>

text \<open>C8. The supervisor never oversteps: after any sequence of calls, answers of the table, exits and time-outs, however they
  interleave, the processes that it owns are at most eight, belong to different scans, hold different leases of the
  capacity, and none of them was started for a launch that had been cancelled; a scan that waits to be started owns
  no process.\<close>

theorem supervised_processes_exclusive:
  assumes "run_events supervisor_move es (new_supervisor inst post t) = Some s"
  defines "live \<equiv> filter (\<lambda>J. \<not> jb_released J) (sv_jobs s)"
  shows "length live \<le> 8 \<and> distinct (map jb_scan live)
    \<and> distinct (map (\<lambda>J. ln_request (sv_launches s ! jb_launch J)) live)
    \<and> (\<forall>J \<in> set live. ln_request (sv_launches s ! jb_launch J) \<in> set (pc_held (sv_capacity s)) \<and> sv_pending s (jb_scan J) = None)
    \<and> (\<forall>J \<in> set (sv_jobs s). \<not> ln_aborted (sv_launches s ! jb_launch J))"
proof -
  have ok: "ownership_ok (view s)" "cancels_ok (view s)" using sv.reached [OF assms(1)] by auto
  have live: "filter (\<lambda>J. \<not> hl_released J) (ow_jobs (view s)) = map holding_of live"
    by (simp add: live_def filter_map comp_def)
  have at: "jb_launch J < length (sv_launches s) \<and> ln_spawned (sv_launches s ! jb_launch J)" if "J \<in> set (sv_jobs s)" for J
    using ok(1) that by (auto simp: ownership_ok_def jobs_ok_def in_set_conv_nth)
  have request: "map (\<lambda>J. st_request (ow_starts (view s) ! hl_launch J)) (map holding_of live) = map (\<lambda>J. ln_request (sv_launches s ! jb_launch J)) live"
    using at by (auto simp: live_def)
  have none: "sv_pending s (jb_scan J) = None" if "J \<in> set live" for J
  proof -
    have J: "J \<in> set (sv_jobs s)" "\<not> jb_released J" using that by (auto simp: live_def)
    then obtain j where "j < length (sv_jobs s)" "sv_jobs s ! j = J" "\<not> jb_released J" by (metis in_set_conv_nth)
    then have "sv_owned s (jb_scan J) = Some j" using ok(1) by (auto simp: ownership_ok_def maps_ok_def)
    moreover have "sv_pending s i = None \<or> sv_owned s i = None" for i using ok(1) by (simp add: ownership_ok_def maps_ok_def)
    ultimately show ?thesis by (metis option.distinct(1))
  qed
  have "\<not> ln_aborted (sv_launches s ! jb_launch J)" if "J \<in> set (sv_jobs s)" for J
    using ok(2) at [OF that] by (auto simp: cancels_ok_def list_all_length)
  moreover have "ln_request (sv_launches s ! jb_launch J) \<in> set (pc_held (sv_capacity s))" if "J \<in> set live" for J
    using owned_bounded(4) [OF ok(1)] that at unfolding live by (auto simp: live_def)
  ultimately show ?thesis
    using owned_bounded(1-3) [OF ok(1)] none unfolding live request by (simp add: comp_def)
qed

text \<open>C11. No lease is lost: once the start of a launch is over, and the process that it may have spawned was released, its lease
  is back, and a request that never got one is no longer queued.\<close>

theorem leases_returned:
  assumes "run_events supervisor_move es (new_supervisor inst post t) = Some s"
    and "n < length (sv_launches s)" and "phase_of (ln_at (sv_launches s ! n)) = Over"
    and "\<forall>J \<in> set (sv_jobs s). jb_launch J = n \<longrightarrow> jb_released J"
  shows "\<not> lease_open (ln_request (sv_launches s ! n)) (sv_capacity s)"
proof -
  have "ownership_ok (view s)" using sv.reached [OF assms(1)] by simp
  from lease_returned [OF this, of n] show ?thesis using assms(2-4) by auto
qed

text \<open>C10. The interleaved functions implement the specification of the ownership: whatever runs, what it does to pending entries,
  owned processes and leases is a sequence of its launch, abort, take, end, spawn and release.\<close>

theorem supervisor_refines_ownership:
  assumes "run_events supervisor_move es (new_supervisor inst post t) = Some s"
  shows "ow_step\<^sup>*\<^sup>* (view (new_supervisor inst post t)) (view s) \<and> ownership_ok (view s)"
  using sv.reached [OF assms] by simp

section \<open>An example\<close>

definition sample_table :: scan_table where
  "sample_table = \<lparr>tb_rows = [(''a'', \<lparr>sr_status = ''queued'', sr_metadata = Map.empty\<rparr>)], tb_log = []\<rparr>"

definition one_at_a_time :: capacity_limits where
  "one_at_a_time = \<lparr>lm_concurrency = Some 1, lm_queueLimit = Some 1\<rparr>"

definition sample_start :: "supervisor_event list" where
  "sample_start = Launch one_at_a_time ''a'' # Resume_launch one_at_a_time Spawns 0 #
     concat (replicate 3 [Serve Answers (Of_launch 0), Resume_launch one_at_a_time Spawns 0])"

definition sample_end :: "supervisor_event list" where
  "sample_end = [Resume_job one_at_a_time Child_ended 0] @
     concat (replicate 4 [Serve Answers (Of_job 0), Resume_job one_at_a_time Child_ended 0])"

lemma sample_started:
  obtains s where "run_events supervisor_move sample_start (new_supervisor ''x'' False sample_table) = Some s"
    and "length (sv_jobs s) = 1" and "pc_held (sv_capacity s) = [0]"
proof -
  have "case run_events supervisor_move sample_start (new_supervisor ''x'' False sample_table) of None \<Rightarrow> False
    | Some s \<Rightarrow> length (sv_jobs s) = 1 \<and> pc_held (sv_capacity s) = [0]" by code_simp
  then show thesis using that by (cases "run_events supervisor_move sample_start (new_supervisor ''x'' False sample_table)") simp_all
qed

lemma sample_ended:
  obtains s where "run_events supervisor_move (sample_start @ sample_end) (new_supervisor ''x'' False sample_table) = Some s"
    and "map jb_released (sv_jobs s) = [True]" and "map (phase_of \<circ> ln_at) (sv_launches s) = [Over]" and "monitor_over s 0"
proof -
  have "case run_events supervisor_move (sample_start @ sample_end) (new_supervisor ''x'' False sample_table) of None \<Rightarrow> False
    | Some s \<Rightarrow> map jb_released (sv_jobs s) = [True] \<and> map (phase_of \<circ> ln_at) (sv_launches s) = [Over] \<and> monitor_over s 0" by code_simp
  then show thesis using that
    by (cases "run_events supervisor_move (sample_start @ sample_end) (new_supervisor ''x'' False sample_table)") simp_all
qed

lemma supervised_processes_exclusive_witness:
  "\<exists>s. run_events supervisor_move sample_start (new_supervisor ''x'' False sample_table) = Some s \<and> length (sv_jobs s) = 1
     \<and> distinct (map jb_scan (filter (\<lambda>J. \<not> jb_released J) (sv_jobs s)))
     \<and> (\<forall>J \<in> set (sv_jobs s). \<not> ln_aborted (sv_launches s ! jb_launch J))"
proof -
  obtain s where s: "run_events supervisor_move sample_start (new_supervisor ''x'' False sample_table) = Some s"
    "length (sv_jobs s) = 1" by (rule sample_started)
  show ?thesis by (intro exI [of _ s] conjI s) (use supervised_processes_exclusive [OF s(1)] in simp_all)
qed

lemma leases_returned_witness:
  "\<exists>s. run_events supervisor_move (sample_start @ sample_end) (new_supervisor ''x'' False sample_table) = Some s
     \<and> length (sv_jobs s) = 1 \<and> \<not> lease_open (ln_request (sv_launches s ! 0)) (sv_capacity s)"
proof -
  obtain s where s: "run_events supervisor_move (sample_start @ sample_end) (new_supervisor ''x'' False sample_table) = Some s"
    "map jb_released (sv_jobs s) = [True]" "map (phase_of \<circ> ln_at) (sv_launches s) = [Over]" by (rule sample_ended)
  have n: "0 < length (sv_launches s)" "phase_of (ln_at (sv_launches s ! 0)) = Over" "length (sv_jobs s) = 1"
    "\<forall>J \<in> set (sv_jobs s). jb_launch J = 0 \<longrightarrow> jb_released J" using s(2,3) by auto
  show ?thesis by (intro exI [of _ s] conjI s(1) n(3) leases_returned [OF s(1) n(1,2,4)])
qed

lemma supervisor_refines_ownership_witness:
  "\<exists>s. run_events supervisor_move sample_start (new_supervisor ''x'' False sample_table) = Some s \<and> length (sv_jobs s) = 1
     \<and> ow_step\<^sup>*\<^sup>* (view (new_supervisor ''x'' False sample_table)) (view s) \<and> ownership_ok (view s)"
proof -
  obtain s where s: "run_events supervisor_move sample_start (new_supervisor ''x'' False sample_table) = Some s"
    "length (sv_jobs s) = 1" by (rule sample_started)
  show ?thesis by (intro exI [of _ s] conjI s) (use supervisor_refines_ownership [OF s(1)] in simp_all)
qed

end
