(* ===== verification/SupervisorOutcome.thy ===== *)
theory SupervisorOutcome
  imports SupervisorRefinement
begin

text \<open>
  What the supervisor leaves in the table of scans (\<open>execution/scan-process-supervisor.ts\<close> with the guard of
  \<open>scans/repositories.ts\<close>): a final status stays, and a scan whose start, process or cancellation was dealt with is
  no longer active. The facts that a waiting function has learned stay true, because the guard lets nobody revive a scan.
\<close>

section \<open>The table\<close>

definition row_settled :: "scan_table \<Rightarrow> string \<Rightarrow> bool" where
  "row_settled t i = (\<not> active_row (findById i t))"

definition same_final :: "scan_table \<Rightarrow> scan_table \<Rightarrow> bool" where
  \<comment> \<open>rows that are not active keep their status, and no row comes or goes\<close>
  "same_final t t' = (\<forall>i. (findById i t = None \<longleftrightarrow> findById i t' = None)
     \<and> (\<forall>r. findById i t = Some r \<longrightarrow> \<not> isActiveStatus (sr_status r) \<longrightarrow> (\<exists>r'. findById i t' = Some r' \<and> sr_status r' = sr_status r)))"

lemma same_final_refl [simp]: "same_final t t" by (simp add: same_final_def)

lemma same_final_trans: "same_final t u \<Longrightarrow> same_final u v \<Longrightarrow> same_final t v"
  unfolding same_final_def by metis

lemma settled_stays: "same_final t t' \<Longrightarrow> row_settled t i \<Longrightarrow> row_settled t' i"
  by (cases "findById i t") (fastforce simp: same_final_def row_settled_def active_row_def)+

lemma map_of_change: "map_of (map (\<lambda>(k, r). (k, if k = i then f r else r)) xs) j = (if j = i then map_option f (map_of xs j) else map_of xs j)"
  by (induction xs) auto

lemma find_change: "findById j (change_row i f t) = (if j = i then map_option f (findById j t) else findById j t)"
  by (simp add: findById_def change_row_def map_of_change)

lemma merge_final: "same_final t (mergeScanRunMetadata i m t)"
  by (auto simp: same_final_def mergeScanRunMetadata_def find_change)

lemma update_final: "status \<in> set known_statuses \<Longrightarrow> same_final t (snd (updateScanRunStatus i status m t))"
  by (auto simp: same_final_def updateScanRunStatus_def find_change split: option.splits if_splits)

lemma update_settles:
  "status = ''failed'' \<or> status = ''cancelled'' \<Longrightarrow> row_settled (snd (updateScanRunStatus i status m t)) i"
  by (auto simp: row_settled_def active_row_def updateScanRunStatus_def find_change isActiveStatus_def known_statuses_def split: option.splits)

definition closing :: "table_op \<Rightarrow> bool" where
  \<comment> \<open>the supervisor only ever fails or cancels a scan\<close>
  "closing p = (case p of Update_status i status m \<Rightarrow> status = ''failed'' \<or> status = ''cancelled'' | _ \<Rightarrow> True)"

definition learned :: "scan_table \<Rightarrow> table_op \<Rightarrow> reply \<Rightarrow> bool" where
  "learned t p r = (case (p, r) of
       (Find_scan i, Found row) \<Rightarrow> \<not> active_row row \<longrightarrow> row_settled t i
     | (Update_status i status m, Updated b) \<Rightarrow> row_settled t i
     | _ \<Rightarrow> True)"

lemma learned_stays: "same_final t t' \<Longrightarrow> learned t p r \<Longrightarrow> learned t' p r"
  by (auto simp: learned_def settled_stays split: table_op.splits reply.splits)

lemma performed:
  assumes "closing p" and "perform p t = (r, t')"
  shows "same_final t t' \<and> learned t' p r"
proof (cases p)
  case (Update_status i status m)
  then have "status = ''failed'' \<or> status = ''cancelled''" using assms(1) by (simp add: closing_def)
  moreover obtain b where "r = Updated b" "t' = snd (updateScanRunStatus i status m t)"
    using assms(2) Update_status by (auto split: prod.splits)
  ultimately show ?thesis using update_final [of status t i m] update_settles [of status i m t] Update_status
    by (auto simp: learned_def known_statuses_def)
next
  case (Create_event e)
  then have "findById i t' = findById i t" for i using assms(2) by (auto simp: findById_def)
  then show ?thesis using Create_event by (simp add: same_final_def learned_def)
qed (use assms merge_final in \<open>auto simp: learned_def row_settled_def\<close>)

lemma rejected_learned [simp]: "learned t p Rejected" by (simp add: learned_def split: table_op.split)

section \<open>What a waiting function knows\<close>

definition failing_ok :: "scan_table \<Rightarrow> failing \<Rightarrow> bool" where
  "failing_ok t f = (case f of Fail_logging i eventType \<Rightarrow> row_settled t i | _ \<Rightarrow> True)"

definition failing_scan :: "failing \<Rightarrow> string" where
  "failing_scan f = (case f of Fail_find i eventType \<Rightarrow> i | Fail_update i eventType m \<Rightarrow> i | Fail_logging i eventType \<Rightarrow> i)"

definition persisting_ok :: "scan_table \<Rightarrow> persisting \<Rightarrow> bool" where
  "persisting_ok t p = (case p of Persist_logging i \<Rightarrow> row_settled t i | _ \<Rightarrow> True)"

definition replied :: "scan_table \<Rightarrow> table_op option \<Rightarrow> reply option \<Rightarrow> bool" where
  "replied t p r = (case (p, r) of (Some p, Some r) \<Rightarrow> learned t p r | _ \<Rightarrow> True)"

definition launch_known :: "scan_table \<Rightarrow> launching \<Rightarrow> bool" where
  "launch_known t L = (case ln_at L of
       Find_queued \<Rightarrow> replied t (Some (Find_scan (ln_scan L))) (ln_reply L)
     | Find_current \<Rightarrow> replied t (Some (Find_scan (ln_scan L))) (ln_reply L)
     | Start_failing f \<Rightarrow> failing_ok t f \<and> failing_scan f = ln_scan L \<and> replied t (Some (failing_op f)) (ln_reply L)
     | Start_done \<Rightarrow> ln_aborted L \<or> ln_spawned L \<or> row_settled t (ln_scan L)
     | _ \<Rightarrow> True)"

definition job_known :: "scan_table \<Rightarrow> job \<Rightarrow> bool" where
  "job_known t J = (replied t (job_op J) (jb_reply J) \<and> (case jb_at J of
       Job_failing f \<Rightarrow> failing_ok t f \<and> failing_scan f = jb_scan J
     | Post_processing \<Rightarrow> row_settled t (jb_scan J)
     | Post_logging \<Rightarrow> row_settled t (jb_scan J)
     | Monitor_done \<Rightarrow> row_settled t (jb_scan J)
     | _ \<Rightarrow> True))"

definition call_known :: "scan_table \<Rightarrow> api_call \<Rightarrow> bool" where
  "call_known t C = (replied t (call_op C) (cl_reply C) \<and> (case cl_at C of
       Cancel_pending p \<Rightarrow> persisting_ok t p
     | Cancel_owned j p \<Rightarrow> persisting_ok t p
     | Call_done (Cancel_answer i True why) \<Rightarrow> row_settled t i
     | _ \<Rightarrow> True))"

definition all_known :: "supervisor \<Rightarrow> bool" where
  "all_known s = (list_all (launch_known (sv_table s)) (sv_launches s) \<and> list_all (job_known (sv_table s)) (sv_jobs s)
     \<and> list_all (call_known (sv_table s)) (sv_calls s))"

lemma known_stays:
  assumes "same_final t t'"
  shows "failing_ok t f \<Longrightarrow> failing_ok t' f" "persisting_ok t q \<Longrightarrow> persisting_ok t' q" "replied t p r \<Longrightarrow> replied t' p r"
    "launch_known t L \<Longrightarrow> launch_known t' L" "job_known t J \<Longrightarrow> job_known t' J" "call_known t C \<Longrightarrow> call_known t' C"
proof -
  show f: "failing_ok t f \<Longrightarrow> failing_ok t' f" for f using settled_stays [OF assms] by (auto simp: failing_ok_def split: failing.splits)
  show q: "persisting_ok t q \<Longrightarrow> persisting_ok t' q" for q using settled_stays [OF assms] by (auto simp: persisting_ok_def split: persisting.splits)
  show r: "replied t p r \<Longrightarrow> replied t' p r" for p r using learned_stays [OF assms] by (auto simp: replied_def split: option.splits)
  show "launch_known t L \<Longrightarrow> launch_known t' L"
    using f r settled_stays [OF assms] by (auto simp: launch_known_def split: launch_at.splits)
  show "job_known t J \<Longrightarrow> job_known t' J"
    using f r settled_stays [OF assms] by (auto simp: job_known_def split: monitor_at.splits)
  show "call_known t C \<Longrightarrow> call_known t' C"
    using q r settled_stays [OF assms] by (auto simp: call_known_def split: call_at.splits call_answer.splits bool.splits)
qed

lemma all_known_table:
  assumes "same_final (sv_table s) t" and "all_known s" shows "all_known (s\<lparr>sv_table := t\<rparr>)"
  using assms(2) known_stays [OF assms(1)] by (auto simp: all_known_def list_all_iff)

lemma failing_goes_on:
  assumes "failing_ok t f" and "replied t (Some (failing_op f)) (Some r)"
  shows "failNonTerminal f r = Still f' \<Longrightarrow> failing_ok t f' \<and> failing_scan f' = failing_scan f"
    and "failNonTerminal f r = Left \<Longrightarrow> row_settled t (failing_scan f)"
  using assms by (cases f; cases r; auto simp: failing_ok_def failing_scan_def replied_def learned_def split: if_splits)+

lemma persisting_goes_on:
  assumes "persisting_ok t p" and "replied t (Some (persisting_op p)) (Some r)"
  shows "persistCancellation p r = Still p' \<Longrightarrow> persisting_ok t p'"
    and "persistCancellation p r = Left \<Longrightarrow> row_settled t (persisting_scan p)"
  using assms by (cases p; cases r; auto simp: persisting_ok_def persisting_scan_def replied_def learned_def split: if_splits)+

section \<open>Every event keeps it\<close>

lemma kept_table [simp]:
  "sv_table (call_goto k a s) = sv_table s" "sv_table (new_call a s) = sv_table s" "sv_table (kill j g s) = sv_table s"
  "sv_table (kill_later j s) = sv_table s" "sv_table (edit_job j f s) = sv_table s" "sv_table (job_goto j b s) = sv_table s"
  "sv_table (terminateOwnedProcess j why s) = sv_table s" "sv_table (releaseOwnership l j s) = sv_table s"
  "sv_table (edit_launch n e s) = sv_table s" "sv_table (launch_goto n p s) = sv_table s" "sv_table (abort_launch n s) = sv_table s"
  "sv_table (end_start l t n s) = sv_table s" "sv_table (spawn_job n s) = sv_table s" "sv_table (give_back l r s) = sv_table s"
  "sv_table (edit_call k h s) = sv_table s" "sv_table (catch_start l n s) = sv_table s" "sv_table (finish_call k x s) = sv_table s"
  "sv_table (answer_cancel k i c w s) = sv_table s"
  by (simp_all add: call_goto_def new_call_def edit_call_def kill_def kill_later_def edit_job_def job_goto_def terminateOwnedProcess_def
      releaseOwnership_def give_back_def edit_launch_def launch_goto_def abort_launch_def end_start_def spawn_job_def catch_start_def
      finish_call_def answer_cancel_def Let_def)

lemma all_known_fields [simp]:
  "all_known (s\<lparr>sv_pending := p\<rparr>) = all_known s" "all_known (s\<lparr>sv_owned := o'\<rparr>) = all_known s"
  "all_known (s\<lparr>sv_capacity := c\<rparr>) = all_known s" "all_known (s\<lparr>sv_orphans := os\<rparr>) = all_known s"
  "all_known (give_back l r s) = all_known s"
  by (simp_all add: all_known_def give_back_def)

lemma list_all_edit: "list_all P xs \<Longrightarrow> (n < length xs \<Longrightarrow> P (f (xs ! n))) \<Longrightarrow> list_all P (xs[n := f (xs ! n)])"
  by (cases "n < length xs") (simp_all add: list_all_update list_update_beyond)

lemma all_known_edit:
  "all_known s \<Longrightarrow> (n < length (sv_launches s) \<Longrightarrow> launch_known (sv_table s) (e (sv_launches s ! n))) \<Longrightarrow> all_known (edit_launch n e s)"
  "all_known s \<Longrightarrow> (j < length (sv_jobs s) \<Longrightarrow> job_known (sv_table s) (f (sv_jobs s ! j))) \<Longrightarrow> all_known (edit_job j f s)"
  "all_known s \<Longrightarrow> (k < length (sv_calls s) \<Longrightarrow> call_known (sv_table s) (h (sv_calls s ! k))) \<Longrightarrow> all_known (edit_call k h s)"
  by (simp_all add: all_known_def edit_launch_def edit_job_def edit_call_def list_all_edit)

lemma known_nth:
  "all_known s \<Longrightarrow> n < length (sv_launches s) \<Longrightarrow> launch_known (sv_table s) (sv_launches s ! n)"
  "all_known s \<Longrightarrow> j < length (sv_jobs s) \<Longrightarrow> job_known (sv_table s) (sv_jobs s ! j)"
  "all_known s \<Longrightarrow> k < length (sv_calls s) \<Longrightarrow> call_known (sv_table s) (sv_calls s ! k)"
  by (simp_all add: all_known_def list_all_length)

lemma job_known_flags [simp]:
  "job_known t (J\<lparr>jb_signals := a\<rparr>) = job_known t J" "job_known t (J\<lparr>jb_killTimers := b\<rparr>) = job_known t J"
  "job_known t (J\<lparr>jb_cancelling := c\<rparr>) = job_known t J" "job_known t (J\<lparr>jb_reason := d\<rparr>) = job_known t J"
  "job_known t (J\<lparr>jb_released := e\<rparr>) = job_known t J" "job_known t (J\<lparr>jb_givenUp := e\<rparr>) = job_known t J"
  "job_known t (J\<lparr>jb_released := e, jb_killTimers := b\<rparr>) = job_known t J"
  by (simp_all add: job_known_def job_op_def split: monitor_at.split)

lemma launch_known_flags [simp]:
  "launch_known t (L\<lparr>ln_held := b\<rparr>) = launch_known t L"
  by (simp add: launch_known_def split: launch_at.split)

lemma launch_known_aborted: "launch_known t L \<Longrightarrow> launch_known t (L\<lparr>ln_aborted := True\<rparr>)"
  by (auto simp: launch_known_def split: launch_at.splits)

lemma known_jobs [simp]:
  assumes "all_known s"
  shows "all_known (kill j g s)" "all_known (kill_later j s)" "all_known (terminateOwnedProcess j why s)" "all_known (releaseOwnership l j s)"
    "all_known (edit_job j (\<lambda>J. J\<lparr>jb_cancelling := True\<rparr>) s)" "all_known (edit_job j (\<lambda>J. J\<lparr>jb_givenUp := True\<rparr>) s)"
    "all_known (edit_job j (\<lambda>J. J\<lparr>jb_killTimers := jb_killTimers J - 1\<rparr>) s)"
proof -
  have k: "all_known (kill j g s)" if "all_known s" for j g s unfolding kill_def by (rule all_known_edit(2) [OF that]) (simp add: known_nth that)
  have c: "all_known (edit_job j (\<lambda>J. J\<lparr>jb_cancelling := True\<rparr>) s)" if "all_known s" for j s
    by (rule all_known_edit(2) [OF that]) (simp add: known_nth that)
  have l: "all_known (kill_later j s)" if "all_known s" for j s
    unfolding kill_later_def by (rule all_known_edit(2) [OF k [OF that]]) (use known_nth(2) [OF k [OF that]] in simp)
  show "all_known (terminateOwnedProcess j why s)"
    by (auto simp: terminateOwnedProcess_def Let_def assms known_nth intro!: l all_known_edit(2))
  show "all_known (releaseOwnership l j s)"
    by (simp add: releaseOwnership_def Let_def) (auto intro!: all_known_edit(2) simp: assms known_nth)
  show "all_known (kill j g s)" "all_known (kill_later j s)" "all_known (edit_job j (\<lambda>J. J\<lparr>jb_cancelling := True\<rparr>) s)"
    using k l c assms by auto
qed (rule all_known_edit(2) [OF assms]; simp add: known_nth assms)+

lemma call_reset [simp]: "C\<lparr>cl_at := c, cl_reply := r\<rparr> = \<lparr>cl_at = c, cl_reply = r\<rparr>" by (cases C) simp

lemma known_goto:
  "all_known s \<Longrightarrow> (n < length (sv_launches s) \<Longrightarrow> launch_known (sv_table s) ((sv_launches s ! n)\<lparr>ln_at := a, ln_reply := None\<rparr>)) \<Longrightarrow> all_known (launch_goto n a s)"
  "all_known s \<Longrightarrow> (j < length (sv_jobs s) \<Longrightarrow> job_known (sv_table s) ((sv_jobs s ! j)\<lparr>jb_at := b, jb_reply := None\<rparr>)) \<Longrightarrow> all_known (job_goto j b s)"
  "all_known s \<Longrightarrow> call_known (sv_table s) \<lparr>cl_at = c, cl_reply = None\<rparr> \<Longrightarrow> all_known (call_goto k c s)"
  "all_known s \<Longrightarrow> call_known (sv_table s) \<lparr>cl_at = c, cl_reply = None\<rparr> \<Longrightarrow> all_known (new_call c s)"
  by (simp_all add: launch_goto_def job_goto_def call_goto_def all_known_edit del: all_known_fields) (simp add: all_known_def new_call_def)

lemma known_end:
  assumes "all_known s" and "t \<or> ln_aborted (sv_launches s ! n) \<or> ln_spawned (sv_launches s ! n)
    \<or> row_settled (sv_table s) (ln_scan (sv_launches s ! n))"
  shows "all_known (end_start l t n s)"
proof -
  have e: "sv_launches (end_start l t n s) = (sv_launches s)[n := (sv_launches s ! n)\<lparr>ln_held := False, ln_at := if t then Start_threw else Start_done,
     ln_reply := None\<rparr>]" by (rule launches_end)
  have "list_all (launch_known (sv_table s)) (sv_launches (end_start l t n s))"
    unfolding e
    by (rule list_all_edit [where f = "\<lambda>L. L\<lparr>ln_held := False, ln_at := if t then Start_threw else Start_done, ln_reply := None\<rparr>"])
      (use assms(1) in \<open>simp add: all_known_def\<close>, use assms(2) in \<open>auto simp: launch_known_def\<close>)
  then show ?thesis using assms(1) by (simp add: all_known_def)
qed

lemma known_catch: "all_known s \<Longrightarrow> all_known (catch_start l n s)"
  by (auto simp: catch_start_def Let_def launch_known_def failing_ok_def failing_scan_def replied_def intro!: known_end known_goto)

lemma known_abort: assumes "all_known s" shows "all_known (abort_launch n s)"
  unfolding abort_launch_def Let_def
  by (rule all_known_edit) (use assms known_nth(1) launch_known_aborted in simp_all)

lemma known_granted:
  assumes ok: "supervisor_ok s" and k: "all_known s" and n: "n < length (sv_launches s)" and at: "ln_at (sv_launches s ! n) = Await_lease"
  shows "all_known (lease_granted l n s)"
proof -
  let ?s = "edit_launch n (\<lambda>L. L\<lparr>ln_held := True\<rparr>) s"
  have held: "all_known ?s" by (rule all_known_edit(1) [OF k]) (simp add: known_nth k)
  have L: "sv_launches ?s ! n = (sv_launches s ! n)\<lparr>ln_held := True\<rparr>" "sv_launches (give_back l r ?s) = sv_launches ?s" for r
    using n by (simp_all add: edit_launch_def give_back_def)
  have "sv_pending s (ln_scan (sv_launches s ! n)) \<noteq> Some n \<Longrightarrow> ln_aborted (sv_launches s ! n)"
    using pending_iff [OF ok] n at by fastforce
  then show ?thesis using held L
    by (auto simp: lease_granted_def Let_def launch_known_def replied_def intro!: known_end known_goto)
qed

lemma known_spawn: assumes "all_known s" shows "all_known (spawn_job n s)"
proof -
  have "list_all (job_known (sv_table s)) (sv_jobs s @ [\<lparr>jb_launch = m, jb_scan = i, jb_cancelling = False, jb_reason = None, jb_released = False,
      jb_givenUp = False, jb_killTimers = 0, jb_signals = [], jb_at = Watching, jb_reply = None\<rparr>])" for m i
    using assms by (simp add: all_known_def job_known_def replied_def job_op_def)
  then have "all_known (s\<lparr>sv_jobs := sv_jobs s @ [\<lparr>jb_launch = m, jb_scan = i, jb_cancelling = False, jb_reason = None, jb_released = False,
      jb_givenUp = False, jb_killTimers = 0, jb_signals = [], jb_at = Watching, jb_reply = None\<rparr>], sv_owned := o', sv_pending := p\<rparr>)" for m i o' p
    using assms by (simp add: all_known_def)
  then show ?thesis unfolding spawn_job_def Let_def
    by (rule all_known_edit(1)) (simp add: launch_known_def)
qed

lemma known_launch_once:
  assumes k: "all_known s" and n: "n < length (sv_launches s)" and r: "ln_reply (sv_launches s ! n) = Some r"
  shows "all_known (launchOnce l out n r s)"
proof -
  have L: "launch_known (sv_table s) (sv_launches s ! n)" by (rule known_nth(1) [OF k n])
  have o: "all_known (catch_start l n (s\<lparr>sv_orphans := os\<rparr>))" for os by (rule known_catch) (simp add: k)
  have g: "all_known (launch_goto n a s)" if "a \<in> {Merge_token, Find_current}" for a
    using that by (intro known_goto(1) [OF k]) (auto simp: launch_known_def replied_def)
  have e: "all_known (end_start l False n s)"
    if "ln_aborted (sv_launches s ! n) \<or> row_settled (sv_table s) (ln_scan (sv_launches s ! n))" using that by (intro known_end [OF k]) auto
  show ?thesis
  proof (cases "ln_at (sv_launches s ! n)")
    case Find_queued
    then show ?thesis using L r known_catch [OF k] g e
      by (cases r) (auto simp: launchOnce_def Let_def launch_known_def replied_def learned_def)
  next
    case Merge_token
    then show ?thesis using known_catch [OF k] g e by (cases r) (auto simp: launchOnce_def Let_def)
  next
    case Find_current
    then show ?thesis using L r known_catch [OF k] o e known_spawn [OF k]
      by (cases r) (auto simp: launchOnce_def Let_def launch_known_def replied_def learned_def split: spawned.split)
  qed (use known_catch [OF k] in \<open>auto simp: launchOnce_def Let_def\<close>)
qed

lemma known_resume_launch:
  assumes ok: "supervisor_ok s" and k: "all_known s" and r: "resume_launch l out n s = Some s'"
  shows "all_known s'"
proof -
  have n: "n < length (sv_launches s)" using r by (simp add: resume_launch_def Let_def split: if_splits)
  have L: "launch_known (sv_table s) (sv_launches s ! n)" by (rule known_nth(1) [OF k n])
  note once = known_launch_once [OF k n]
  show ?thesis
  proof (cases "ln_at (sv_launches s ! n)")
    case Await_lease
    then show ?thesis using r n known_granted [OF ok k n] known_catch [OF k] by (auto simp: resume_launch_def Let_def split: if_splits)
  next
    case (Start_failing f)
    then obtain rp where rp: "ln_reply (sv_launches s ! n) = Some rp" "s' = (case failNonTerminal f rp of
        Still f' \<Rightarrow> launch_goto n (Start_failing f') s | Left \<Rightarrow> end_start l False n s | Thrown \<Rightarrow> end_start l True n s)"
      using r n by (auto simp: resume_launch_def Let_def)
    have f: "failing_ok (sv_table s) f" "failing_scan f = ln_scan (sv_launches s ! n)" "replied (sv_table s) (Some (failing_op f)) (Some rp)"
      using L Start_failing rp(1) by (auto simp: launch_known_def)
    show ?thesis
    proof (cases "failNonTerminal f rp")
      case (Still f')
      then show ?thesis using rp(2) failing_goes_on(1) [OF f(1,3) Still] f(2)
        by (simp, intro known_goto(1) [OF k]) (simp add: launch_known_def replied_def)
    next
      case Left
      then show ?thesis using rp(2) failing_goes_on(2) [OF f(1,3) Left] f(2) by (simp, intro known_end [OF k]) simp
    next
      case Thrown
      then show ?thesis using rp(2) by (simp, intro known_end [OF k]) simp
    qed
  qed (use r n once in \<open>auto simp: resume_launch_def Let_def\<close>)
qed

lemma known_job_replied:
  assumes k: "all_known s" and j: "j < length (sv_jobs s)" and r: "jb_reply (sv_jobs s ! j) = Some r"
  shows "all_known (job_replied j r s)"
proof -
  let ?J = "sv_jobs s ! j"
  have J: "job_known (sv_table s) ?J" by (rule known_nth(2) [OF k j])
  have g: "all_known (job_goto j a s)" if "job_known (sv_table s) (?J\<lparr>jb_at := a, jb_reply := None\<rparr>)" for a
    by (rule known_goto(2) [OF k]) (rule that)
  have threw: "all_known (job_goto j Monitor_threw s)" by (rule g) (simp add: job_known_def replied_def job_op_def)
  show ?thesis
  proof (cases "jb_at ?J")
    case (Find_end failed)
    then show ?thesis using J r threw
      by (cases r) (auto simp: job_replied_def monitor_ended_def Let_def job_known_def job_op_def replied_def learned_def active_row_def
          failing_ok_def failing_scan_def intro!: g split: option.splits)
  next
    case Post_logging
    then show ?thesis using J threw by (cases r) (auto simp: job_replied_def job_known_def job_op_def replied_def intro!: g)
  next
    case (Job_failing f)
    then have f: "failing_ok (sv_table s) f" "failing_scan f = jb_scan ?J" "replied (sv_table s) (Some (failing_op f)) (Some r)"
      using J r by (auto simp: job_known_def job_op_def)
    then show ?thesis using Job_failing failing_goes_on [OF f(1,3)] threw
      by (auto simp: job_replied_def job_known_def job_op_def replied_def intro!: g split: continuation.split)
  qed (use threw in \<open>auto simp: job_replied_def\<close>)
qed

lemma known_resume_job:
  assumes k: "all_known s" and r: "resume_job l out j s = Some s'"
  shows "all_known s'"
proof -
  have j: "j < length (sv_jobs s)" using r by (simp add: resume_job_def Let_def split: if_splits)
  have J: "job_known (sv_table s) (sv_jobs s ! j)" by (rule known_nth(2) [OF k j])
  have g: "all_known (job_goto j a t)" if "all_known t" "a \<in> {Await_exit, Find_end failed}" for a t failed
    by (rule known_goto(2) [OF that(1)]) (use that(2) in \<open>auto simp: job_known_def job_op_def replied_def\<close>)
  have d: "all_known (job_goto j a s)" if "row_settled (sv_table s) (jb_scan (sv_jobs s ! j))" "a \<in> {Monitor_done, Post_logging}" for a
    by (rule known_goto(2) [OF k]) (use that in \<open>auto simp: job_known_def job_op_def replied_def\<close>)
  have p: "jb_at (sv_jobs s ! j) = Post_processing \<Longrightarrow> row_settled (sv_table s) (jb_scan (sv_jobs s ! j))" using J by (simp add: job_known_def)
  show ?thesis using r j p known_job_replied [OF k j] k
    by (auto simp: resume_job_def Let_def intro!: g d split: monitor_at.splits monitor_outcome.splits)
qed

lemma known_cancel_found:
  assumes k: "all_known s" and r: "\<not> active_row row \<longrightarrow> row_settled (sv_table s) i"
  shows "all_known (cancel_found c i why row s)"
  using r by (auto simp: cancel_found_def answer_cancel_def Let_def call_known_def call_op_def replied_def persisting_ok_def active_row_def
      intro!: known_goto(3) known_abort k split: option.splits)

lemma known_owned_found:
  assumes k: "all_known s" and r: "\<not> active_row row \<longrightarrow> row_settled (sv_table s) i"
  shows "all_known (cancel_owned_found c j i why row s)"
  using r by (auto simp: cancel_owned_found_def answer_cancel_def Let_def call_known_def call_op_def replied_def persisting_ok_def k
      intro!: known_goto(3))

lemma known_recover_next: "all_known s \<Longrightarrow> all_known (recover_next c rows m s)"
  by (auto simp: recover_next_def finish_call_def call_known_def call_op_def replied_def intro!: known_goto(3) split: list.split)

lemma known_call_replied:
  assumes k: "all_known s" and c: "c < length (sv_calls s)" and r: "cl_reply (sv_calls s ! c) = Some r"
  shows "all_known (call_replied c r s)"
proof -
  let ?C = "sv_calls s ! c"
  have C: "call_known (sv_table s) ?C" by (rule known_nth(3) [OF k c])
  have threw: "all_known (finish_call c Threw s)" "all_known (finish_call c Returned s)"
    by (auto simp: finish_call_def call_known_def call_op_def replied_def intro!: known_goto(3) k)
  have g: "all_known (call_goto c a t)" if "all_known t" "call_known (sv_table t) \<lparr>cl_at = a, cl_reply = None\<rparr>" for a t
    by (rule known_goto(3) [OF that])
  show ?thesis
  proof (cases "cl_at ?C")
    case (Launch_failing f)
    then show ?thesis using threw by (auto simp: call_replied_def call_known_def call_op_def replied_def intro!: g k split: continuation.split)
  next
    case (Cancel_find i why)
    then show ?thesis using C r threw known_cancel_found [OF k]
      by (cases r) (auto simp: call_replied_def call_known_def call_op_def replied_def learned_def)
  next
    case (Cancel_pending p)
    then have p: "persisting_ok (sv_table s) p" "replied (sv_table s) (Some (persisting_op p)) (Some r)"
      using C r by (auto simp: call_known_def call_op_def)
    then show ?thesis using Cancel_pending threw persisting_goes_on [OF p]
      by (auto simp: call_replied_def answer_cancel_def call_known_def call_op_def replied_def intro!: g k split: continuation.split)
  next
    case (Cancel_owned_find j i why)
    then show ?thesis using C r threw known_owned_found [OF k]
      by (cases r) (auto simp: call_replied_def call_known_def call_op_def replied_def learned_def)
  next
    case (Cancel_owned j p)
    then have p: "persisting_ok (sv_table s) p" "replied (sv_table s) (Some (persisting_op p)) (Some r)"
      using C r by (auto simp: call_known_def call_op_def)
    then show ?thesis using Cancel_owned persisting_goes_on [OF p]
      by (auto simp: call_replied_def answer_cancel_def finish_call_def call_known_def call_op_def replied_def k intro!: g split: continuation.split)
  next
    case (Cancel_rejecting i)
    then show ?thesis using threw
      by (cases r) (auto simp: call_replied_def answer_cancel_def call_known_def call_op_def replied_def intro!: g k)
  next
    case (Shut_find i)
    then show ?thesis using threw by (cases r) (auto simp: call_replied_def call_known_def call_op_def replied_def intro!: g k)
  next
    case (Shut_persist p)
    then show ?thesis using threw by (auto simp: call_replied_def call_known_def call_op_def replied_def intro!: g k split: continuation.split)
  next
    case Recover_listing
    then show ?thesis using threw known_recover_next [OF k] by (cases r) (auto simp: call_replied_def)
  next
    case (Recover_update rows m)
    then show ?thesis using threw known_recover_next [OF k]
      by (cases r) (auto simp: call_replied_def call_known_def replied_def intro!: g k split: option.split)
  next
    case (Recover_logging rows m)
    then show ?thesis using threw known_recover_next [OF k] by (cases r) (auto simp: call_replied_def)
  qed (use threw in \<open>auto simp: call_replied_def\<close>)
qed

definition plain_call :: "call_at \<Rightarrow> bool" where
  \<comment> \<open>nothing has to be known to be there\<close>
  "plain_call a = (case a of Cancel_pending p \<Rightarrow> False | Cancel_owned j p \<Rightarrow> False | Call_done (Cancel_answer i b why) \<Rightarrow> False | _ \<Rightarrow> True)"

lemma plain_known: "plain_call a \<Longrightarrow> call_known t \<lparr>cl_at = a, cl_reply = None\<rparr>"
  by (cases a) (auto simp: plain_call_def call_known_def replied_def split: option.split call_answer.splits)

lemma known_new_calls: "all_known s \<Longrightarrow> list_all plain_call as \<Longrightarrow> all_known (new_calls as s)"
  by (induction as arbitrary: s) (simp_all add: new_calls_def known_goto(4) plain_known)

lemma new_calls_table [simp]: "sv_table (new_calls as s) = sv_table s"
  by (induction as arbitrary: s) (simp_all add: new_calls_def)

lemma known_fold: "all_known s \<Longrightarrow> (\<And>x s. all_known s \<Longrightarrow> all_known (f x s)) \<Longrightarrow> all_known (fold f xs s)"
  by (induction xs arbitrary: s) simp_all

lemma table_fold: "(\<And>x s. sv_table (f x s) = sv_table s) \<Longrightarrow> sv_table (fold f xs s) = sv_table s"
  by (induction xs arbitrary: s) simp_all

lemma plain_calls [simp]:
  "plain_call (Shut_find i)" "plain_call (Shut_exit j)" "plain_call (Shut_exit_again j)" "plain_call (Cancel_find i why)" "plain_call Recover_listing"
  "plain_call (Shutdown_pending ks)" "plain_call (Shutdown_jobs js ks)" "plain_call (Shutdown_exits ks)" "plain_call (Shutdown_monitors ks)"
  "plain_call (Shutdown_posts ks)" "plain_call (Call_done Returned)" "plain_call (Call_done Threw)" "plain_call (Launch_failing f)"
  by (simp_all add: plain_call_def)

lemma plain_goto: "all_known s \<Longrightarrow> plain_call a \<Longrightarrow> all_known (call_goto k a s)" "all_known s \<Longrightarrow> plain_call a \<Longrightarrow> all_known (new_call a s)"
  by (rule known_goto; simp add: plain_known)+

lemma known_resume_call:
  assumes k: "all_known s" and r: "resume_call l exited c s = Some s'"
  shows "all_known s'"
proof -
  have c: "c < length (sv_calls s)" using r by (simp add: resume_call_def split: if_splits)
  have cancels: "all_known (shutdown_cancels c s)"
    by (auto simp: shutdown_cancels_def Let_def list_all_iff intro!: plain_goto known_new_calls k)
  have kills: "all_known (shutdown_kills c js s)" for js
    by (auto simp: shutdown_kills_def list_all_iff k intro!: plain_goto known_new_calls known_fold)
  have up: "all_known (give_up l j s)" for j by (simp add: give_up_def k)
  show ?thesis using r c cancels kills up known_call_replied [OF k c] k
    by (auto simp: resume_call_def finish_call_def intro!: plain_goto split: call_at.splits if_splits)
qed

lemma known_launch: "all_known s \<Longrightarrow> all_known (launch l i s)"
proof -
  assume k: "all_known s"
  have "all_known (s\<lparr>sv_capacity := c, sv_pending := p, sv_launches := sv_launches s @ [\<lparr>ln_scan = i, ln_aborted = False, ln_request = r,
      ln_held = False, ln_spawned = False, ln_at = Await_lease, ln_reply = None\<rparr>]\<rparr>)" for c p r
    using k by (simp add: all_known_def launch_known_def)
  then show ?thesis using k by (auto simp: launch_def Let_def intro!: plain_goto)
qed

lemma serve_closing: "pending_op w s = Some p \<Longrightarrow> closing p"
  by (auto simp: pending_op_def launch_op_def job_op_def call_op_def closing_def event_of_def
      split: waiting_at.splits if_splits launch_at.splits monitor_at.splits call_at.splits list.splits)
    (auto elim!: failing_op.elims persisting_op.elims simp: event_of_def split: table_op.splits failing.splits)

lemma serve_final: assumes "serve out w s = Some s'" shows "same_final (sv_table s) (sv_table s')"
proof -
  obtain p where p: "pending_op w s = Some p" using assms by (auto simp: serve_def)
  obtain rp t where rt: "perform p (sv_table s) = (rp, t)" by fastforce
  have "sv_table (reply_to w q u) = sv_table u" for q u by (simp add: reply_to_def split: waiting_at.split)
  then show ?thesis using assms p rt performed [OF serve_closing [OF p] rt] by (auto simp: serve_def split: table_outcome.splits)
qed

lemma known_serve: assumes k: "all_known s" and r: "serve out w s = Some s'" shows "all_known s'"
proof -
  obtain p where p: "pending_op w s = Some p" using r by (auto simp: serve_def)
  obtain rp t where rt: "perform p (sv_table s) = (rp, t)" by fastforce
  note pf = performed [OF serve_closing [OF p] rt]
  have reply: "all_known (reply_to w q u)" if "all_known u" "sv_launches u = sv_launches s" "sv_jobs u = sv_jobs s" "sv_calls u = sv_calls s"
      "learned (sv_table u) p q" for q u
  proof (cases w)
    case (Of_launch n)
    then show ?thesis using that p known_nth(1) [OF that(1), of n]
      by (auto simp: reply_to_def pending_op_def launch_op_def launch_known_def replied_def intro!: all_known_edit split: if_splits launch_at.splits)
  next
    case (Of_job j)
    then show ?thesis using that p known_nth(2) [OF that(1), of j]
      by (auto simp: reply_to_def pending_op_def job_op_def job_known_def replied_def intro!: all_known_edit split: if_splits monitor_at.splits)
  next
    case (Of_call c)
    have "call_op (C\<lparr>cl_reply := Some q\<rparr>) = call_op C" for C by (simp add: call_op_def)
    then show ?thesis using Of_call that p known_nth(3) [OF that(1), of c]
      by (auto simp: reply_to_def pending_op_def call_known_def replied_def intro!: all_known_edit split: if_splits)
  qed
  have u: "all_known (s\<lparr>sv_table := t\<rparr>)" using all_known_table pf k by blast
  show ?thesis using r p rt reply [OF u] reply [OF k] pf
    by (auto simp: serve_def split: table_outcome.splits)
qed


lemma table_kept [simp]:
  "sv_table (shutdown s) = sv_table s" "sv_table (launch l i s) = sv_table s"
proof -
  have "sv_table (fold abort_launch ns u) = sv_table u" for ns u by (rule table_fold) simp
  then show "sv_table (shutdown s) = sv_table s" by (simp add: shutdown_def Let_def)
  show "sv_table (launch l i s) = sv_table s" by (simp add: launch_def Let_def)
qed

lemma table_resumed:
  "resume_launch l out n s = Some s' \<Longrightarrow> sv_table s' = sv_table s" "resume_job l o2 j s = Some s' \<Longrightarrow> sv_table s' = sv_table s"
  "resume_call l exited c s = Some s' \<Longrightarrow> sv_table s' = sv_table s"
proof -
  have once: "sv_table (launchOnce l out n r s) = sv_table s" for r
    by (simp add: launchOnce_def Let_def split: launch_at.split reply.split spawned.split)
  have failing: "sv_table (case failNonTerminal f r of Still f' \<Rightarrow> launch_goto n (Start_failing f') s | Left \<Rightarrow> end_start l False n s
      | Thrown \<Rightarrow> end_start l True n s) = sv_table s" for f r by (simp split: continuation.split)
  show "resume_launch l out n s = Some s' \<Longrightarrow> sv_table s' = sv_table s"
    by (auto simp: resume_launch_def lease_granted_def Let_def once failing split: if_splits launch_at.splits)
  have replied: "sv_table (job_replied j r s) = sv_table s" for r
    by (simp add: job_replied_def monitor_ended_def Let_def split: monitor_at.split reply.split continuation.split)
  show "resume_job l o2 j s = Some s' \<Longrightarrow> sv_table s' = sv_table s"
    by (auto simp: resume_job_def Let_def replied split: if_splits monitor_at.splits monitor_outcome.splits)
  have called: "sv_table (call_replied c r s) = sv_table s" for r
    by (simp add: call_replied_def cancel_found_def cancel_owned_found_def recover_next_def Let_def
        split: call_at.split reply.split continuation.split option.split list.split)
  have kills: "sv_table (fold (\<lambda>j s. kill j ''SIGTERM'' (edit_job j (\<lambda>J. J\<lparr>jb_cancelling := True\<rparr>) s)) js s) = sv_table s" for js
    by (rule table_fold) simp
  show "resume_call l exited c s = Some s' \<Longrightarrow> sv_table s' = sv_table s"
    by (auto simp: resume_call_def shutdown_cancels_def shutdown_kills_def give_up_def Let_def called kills split: if_splits call_at.splits)
qed

lemma known_move:
  assumes ok: "supervisor_ok s" and k: "all_known s" and m: "supervisor_move e s = Some s'"
  shows "all_known s'"
proof (cases e)
  case (Launch l i)
  then show ?thesis using m known_launch [OF k] by auto
next
  case Shutdown
  then show ?thesis using m by (auto simp: shutdown_def Let_def list_all_iff intro!: plain_goto known_new_calls known_fold known_abort k)
next
  case (Serve out w)
  then show ?thesis using m known_serve [OF k] by auto
next
  case (Resume_launch l out n)
  then show ?thesis using m known_resume_launch [OF ok k] by auto
next
  case (Resume_job l out j)
  then show ?thesis using m known_resume_job [OF k] by auto
next
  case (Resume_call l exited c)
  then show ?thesis using m known_resume_call [OF k] by auto
next
  case (Other_status i status md)
  then show ?thesis using m all_known_table [OF update_final k] by (auto split: if_splits)
next
  case (Other_metadata i md)
  then show ?thesis using m all_known_table [OF merge_final k] by auto
next
  case (Kill_timer j)
  then show ?thesis using m k by (auto simp del: One_nat_def split: if_splits)
qed (use m k in \<open>auto split: if_splits intro!: plain_goto\<close>)

lemma final_move: assumes "supervisor_move e s = Some s'" shows "same_final (sv_table s) (sv_table s')"
proof (cases e)
  case (Serve out w)
  then show ?thesis using assms serve_final by auto
next
  case (Resume_launch l out n)
  then show ?thesis using assms table_resumed(1) by fastforce
next
  case (Resume_job l out j)
  then show ?thesis using assms table_resumed(2) by fastforce
next
  case (Resume_call l exited c)
  then show ?thesis using assms table_resumed(3) by fastforce
qed (use assms update_final merge_final in \<open>auto split: if_splits\<close>)

lemma ok_move: assumes "supervisor_ok s" and "supervisor_move e s = Some s'" shows "supervisor_ok s'"
  using sim_move [OF assms] ownership_kept_many assms(1) by (auto simp: supervisor_ok_def simulated_def)

interpretation kn: machine supervisor_move "new_supervisor inst post t" "\<lambda>s. supervisor_ok s \<and> all_known s" for inst post t
proof
  show "supervisor_ok (new_supervisor inst post t) \<and> all_known (new_supervisor inst post t)"
    using start_view by (simp add: supervisor_ok_def all_known_def) (simp add: new_supervisor_def)
next
  fix s e s' assume "supervisor_ok s \<and> all_known s" "supervisor_move e s = Some s'"
  then show "supervisor_ok s' \<and> all_known s'" using ok_move known_move by blast
qed

section \<open>What holds of every run\<close>

text \<open>A final status stays: whatever the supervisor, a child process or another part of the server does, a scan that is
  completed, failed or cancelled keeps this status.\<close>

theorem final_status_stays:
  assumes "run_events supervisor_move es s = Some s'" and "findById i (sv_table s) = Some r" and "\<not> isActiveStatus (sr_status r)"
  shows "\<exists>r'. findById i (sv_table s') = Some r' \<and> sr_status r' = sr_status r"
proof -
  have "same_final (sv_table s) (sv_table s')" using assms(1)
  proof (induction es arbitrary: s)
    case (Cons e es)
    then show ?case using final_move same_final_trans by (fastforce split: option.splits)
  qed simp
  then show ?thesis using assms(2,3) by (auto simp: same_final_def)
qed

text \<open>C9. Nothing is left hanging: when a cancellation answers that it cancelled, when the monitor of a process has ended normally,
  or when a launch that was not cancelled has ended without a process, the scan is no longer active, and never will be
  again; only a rejected operation of the table, which these functions throw, can leave it active.\<close>

theorem handled_scans_settled:
  assumes "run_events supervisor_move es (new_supervisor inst post t) = Some s"
  shows "(\<forall>C \<in> set (sv_calls s). \<forall>i why. cl_at C = Call_done (Cancel_answer i True why) \<longrightarrow> row_settled (sv_table s) i)
    \<and> (\<forall>J \<in> set (sv_jobs s). jb_at J = Monitor_done \<longrightarrow> row_settled (sv_table s) (jb_scan J))
    \<and> (\<forall>L \<in> set (sv_launches s). ln_at L = Start_done \<and> \<not> ln_aborted L \<and> \<not> ln_spawned L \<longrightarrow> row_settled (sv_table s) (ln_scan L))"
proof -
  have "all_known s" using kn.inv_reached [OF assms] by simp
  then show ?thesis by (fastforce simp: all_known_def list_all_iff call_known_def job_known_def launch_known_def)
qed

section \<open>An example\<close>

lemma final_status_stays_witness:
  "\<exists>s r. run_events supervisor_move [Cancel ''a'' ''user'', Serve Answers (Of_call 0)]
      (new_supervisor ''x'' False \<lparr>tb_rows = [(''a'', \<lparr>sr_status = ''failed'', sr_metadata = Map.empty\<rparr>)], tb_log = []\<rparr>) = Some s
    \<and> findById ''a'' (sv_table s) = Some r \<and> sr_status r = ''failed''"
proof -
  let ?s = "new_supervisor ''x'' False \<lparr>tb_rows = [(''a'', \<lparr>sr_status = ''failed'', sr_metadata = Map.empty\<rparr>)], tb_log = []\<rparr>"
  have "run_events supervisor_move [Cancel ''a'' ''user'', Serve Answers (Of_call 0)] ?s \<noteq> None"
    by (simp add: serve_def pending_op_def new_call_def new_supervisor_def call_op_def reply_to_def)
  then obtain s where s: "run_events supervisor_move [Cancel ''a'' ''user'', Serve Answers (Of_call 0)] ?s = Some s" by auto
  have "findById ''a'' (sv_table ?s) = Some \<lparr>sr_status = ''failed'', sr_metadata = Map.empty\<rparr>" by (simp add: findById_def new_supervisor_def)
  from final_status_stays [OF s this] show ?thesis using s by (auto simp: isActiveStatus_def)
qed

definition over_normally :: "job \<Rightarrow> bool" where
  "over_normally J = (case jb_at J of Monitor_done \<Rightarrow> True | _ \<Rightarrow> False)"

lemma handled_scans_settled_witness:
  "\<exists>s. run_events supervisor_move (sample_start @ sample_end) (new_supervisor ''x'' False sample_table) = Some s
     \<and> length (sv_jobs s) = 1 \<and> row_settled (sv_table s) (jb_scan (sv_jobs s ! 0))"
proof -
  have "case run_events supervisor_move (sample_start @ sample_end) (new_supervisor ''x'' False sample_table) of None \<Rightarrow> False
    | Some s \<Rightarrow> length (sv_jobs s) = 1 \<and> over_normally (sv_jobs s ! 0)" by code_simp
  then obtain s where s: "run_events supervisor_move (sample_start @ sample_end) (new_supervisor ''x'' False sample_table) = Some s"
    "length (sv_jobs s) = 1" "over_normally (sv_jobs s ! 0)"
    by (cases "run_events supervisor_move (sample_start @ sample_end) (new_supervisor ''x'' False sample_table)") simp_all
  have "jb_at (sv_jobs s ! 0) = Monitor_done" using s(3) by (simp add: over_normally_def split: monitor_at.splits)
  moreover have "sv_jobs s ! 0 \<in> set (sv_jobs s)" using s(2) by simp
  ultimately have "row_settled (sv_table s) (jb_scan (sv_jobs s ! 0))" using handled_scans_settled [OF s(1)] by blast
  then show ?thesis using s(1,2) by blast
qed

end
