(* ===== verification/JavaConstantValues.thy ===== *)
theory JavaConstantValues
  imports JsPrelude JsText "HOL-Library.Signed_Division"
begin

text \<open>The value domain with which the Java taint filter proves that a reported sink only ever
receives constants: \<^verbatim>\<open>src/api/modules/scans/tools/java-constant-values.ts\<close>, and the literals it
starts from (\<^verbatim>\<open>literal\<close> of \<^verbatim>\<open>java-source-analysis.ts\<close>). A value says what the filter knows about a
Java expression; a finding whose arguments are all safe is removed from the report, so a value
must never promise more than the program keeps.

A list or a map is a mutable object in the source. Here an operation on it returns the object
as it leaves it, beside its result. The numbers of the source are those of literals and of the
folds ranked_below, hence integers.\<close>

section \<open>Values\<close>

datatype JavaProofReason =
    ConstantBranch
  | ConstantSwitch
  | CollectionOverwrite
  | ConstantInterproceduralFlow
  | ContextualOutputEncoding

datatype java_type = FileType | FileDescriptorType | ClassLoaderType | UrlType | NumberType | LocaleType

datatype java_constant =
    Str string
  | Num int
  | Boolean bool
  | Null

datatype flavor = StringBuilder | UnknownLength

datatype Value =
    Scalar "java_constant option" JavaProofReason "java_type option"
  | Unknown
  | Html
  | Instance string
  | Factory string
  | ListValue "Value list" bool "flavor option"
  | MapValue "(string \<times> Value) list" bool

definition safe :: "java_constant option \<Rightarrow> Value" where
  "safe value = Scalar value ConstantBranch None"

definition known_number :: Value where
  "known_number = Scalar None ConstantBranch (Some NumberType)"

fun is_known :: "Value \<Rightarrow> bool" where
  "is_known (Scalar _ _ _) = True"
| "is_known _ = False"

fun scalar_value :: "Value \<Rightarrow> java_constant option" where
  "scalar_value (Scalar v _ _) = v"
| "scalar_value _ = None"

definition overwritten :: "Value \<Rightarrow> Value" where
  "overwritten v = (case v of Scalar c _ t \<Rightarrow> Scalar c CollectionOverwrite t | _ \<Rightarrow> v)"

text \<open>The three functions below are one \<^verbatim>\<open>isSafe\<close>: of a value, of the items of a list, and of
the values of a map.\<close>

fun isSafe :: "Value \<Rightarrow> bool"
  and items_safe :: "Value list \<Rightarrow> bool"
  and entries_safe :: "(string \<times> Value) list \<Rightarrow> bool" where
  "isSafe (Scalar _ _ _) = True"
| "isSafe (ListValue items invalid _) = (\<not> invalid \<and> items_safe items)"
| "isSafe (MapValue items invalid) = (\<not> invalid \<and> entries_safe items)"
| "isSafe _ = False"
| "items_safe [] = True"
| "items_safe (v # vs) = (isSafe v \<and> items_safe vs)"
| "entries_safe [] = True"
| "entries_safe ((k, v) # es) = (isSafe v \<and> entries_safe es)"

section \<open>Calls on collections\<close>

definition argument :: "Value list \<Rightarrow> nat \<Rightarrow> Value" where
  "argument args n = (if n < length args then args ! n else Unknown)"

definition builder_edits :: "string list" where
  "builder_edits =
    [''append'', ''replace'', ''insert'', ''delete'', ''deleteCharAt'', ''setCharAt'', ''reverse'']"

definition builder_call :: "Value list \<Rightarrow> string \<Rightarrow> Value list \<Rightarrow> Value \<times> Value" where
  "builder_call items name args =
    (let receiver = ListValue items False (Some StringBuilder) in
     if (name = ''toString'' \<or> name = ''length'') \<and> args = [] then
       (receiver,
        if name = ''length'' then known_number
        else if isSafe receiver then safe None else Unknown)
     else if name \<in> set builder_edits \<and> list_all isSafe args then (receiver, receiver)
     else (ListValue items True (Some StringBuilder), Unknown))"

definition known_index :: "Value list \<Rightarrow> int option" where
  "known_index args =
    (case scalar_value (argument args 0) of Some (Num i) \<Rightarrow> if 0 \<le> i then Some i else None | _ \<Rightarrow> None)"

definition unknown_length_call :: "Value list \<Rightarrow> string \<Rightarrow> Value list \<Rightarrow> Value \<times> Value" where
  "unknown_length_call items name args =
    (if name = ''get'' \<and> length args = 1 \<and> known_index args \<noteq> None
     then (ListValue items False (Some UnknownLength), safe None)
     else (ListValue items True (Some UnknownLength), Unknown))"

definition list_call :: "Value list \<Rightarrow> string \<Rightarrow> Value list \<Rightarrow> Value \<times> Value" where
  "list_call items name args =
    (let as_list = (\<lambda>vs. ListValue vs False None);
         lost = (ListValue items True None, Unknown) in
     if name = ''add'' \<and> length args = 1 then
       (as_list (items @ [argument args 0]), safe (Some (Boolean True)))
     else case known_index args of
       None \<Rightarrow> lost
     | Some index \<Rightarrow>
         let i = nat index in
         if name = ''get'' \<and> length args = 1 \<and> i < length items then
           (as_list items, overwritten (items ! i))
         else if name = ''add'' \<and> length args = 2 \<and> i \<le> length items then
           (as_list (take i items @ argument args 1 # drop i items), safe None)
         else if name = ''set'' \<and> length args = 2 \<and> i < length items then
           (as_list (items[i := argument args 1]), Unknown)
         else if name = ''remove'' \<and> length args = 1 \<and> i < length items then
           (as_list (take i items @ drop (Suc i) items), items ! i)
         else lost)"

definition map_call :: "(string \<times> Value) list \<Rightarrow> string \<Rightarrow> Value list \<Rightarrow> Value \<times> Value" where
  "map_call items name args =
    (let lost = (MapValue items True, Unknown) in
     case scalar_value (argument args 0) of
       Some (Str key) \<Rightarrow>
         if name = ''put'' \<and> length args = 2 then
           (MapValue (jm_set key (argument args 1) items) False, Unknown)
         else if name = ''get'' \<and> length args = 1 then
           (MapValue items False, overwritten (or_else (jm_get items key) Unknown))
         else lost
     | _ \<Rightarrow> lost)"

definition collectionCall :: "Value \<Rightarrow> string \<Rightarrow> Value list \<Rightarrow> Value \<times> Value" where
  "collectionCall receiver name args =
    (case receiver of
       ListValue items invalid kind \<Rightarrow>
         if invalid then (receiver, Unknown)
         else (case kind of
             Some StringBuilder \<Rightarrow> builder_call items name args
           | Some UnknownLength \<Rightarrow> unknown_length_call items name args
           | None \<Rightarrow> list_call items name args)
     | MapValue items invalid \<Rightarrow>
         if invalid then (receiver, Unknown) else map_call items name args
     | _ \<Rightarrow> (receiver, Unknown))"

text \<open>\<^verbatim>\<open>java-standard-values.ts\<close>: the methods of the standard library; None hands the call on.\<close>

definition typed :: "java_type \<Rightarrow> Value" where
  "typed t = Scalar None ConstantBranch (Some t)"

fun type_of_value :: "Value \<Rightarrow> java_type option" where
  "type_of_value (Scalar _ _ t) = t"
| "type_of_value _ = None"

definition text_method :: "java_constant option \<Rightarrow> string \<Rightarrow> Value option" where
  "text_method c name =
    (if name = ''length'' then
       Some (Scalar (case c of Some (Str s) \<Rightarrow> Some (Num (int (length s))) | _ \<Rightarrow> None)
         ConstantBranch (Some NumberType))
     else if name \<in> {''getBytes'', ''split''} then
       Some (ListValue [safe None] False (Some UnknownLength))
     else if name = ''toCharArray'' then
       Some (ListValue
         (case c of Some (Str s) \<Rightarrow> map (\<lambda>ch. safe (Some (Str [ch]))) s | _ \<Rightarrow> [safe None]) False None)
     else if name \<in> {''replace'', ''substring''} then Some (safe None)
     else None)"

definition known_method :: "Value \<Rightarrow> string \<Rightarrow> nat \<Rightarrow> Value option" where
  "known_method receiver name arity =
    (let kind = type_of_value receiver in
     if name = ''getResource'' \<and> kind = Some ClassLoaderType \<and> arity = 1 then Some (typed UrlType)
     else if kind = Some UrlType \<and> name \<in> {''toURI'', ''getPath''} \<and> arity = 0 then
       Some (typed UrlType)
     else if kind = Some FileDescriptorType \<and> name = ''getFD'' \<and> arity = 0 then Some receiver
     else if kind = Some FileType \<and> name \<in> {''getPath'', ''getAbsolutePath''} \<and> arity = 0 then
       Some (safe None)
     else if kind = None then text_method (scalar_value receiver) name
     else None)"

definition javaStandardMethod :: "Value \<Rightarrow> string \<Rightarrow> Value list \<Rightarrow> (Value \<times> Value) option" where
  "javaStandardMethod receiver name args =
    (if receiver = Html \<and> args = [] \<and> name = ''toCharArray'' then Some (receiver, receiver)
     else if receiver = Html \<and> args = [] \<and> name = ''length'' then Some (receiver, known_number)
     else case receiver of
       ListValue _ _ (Some StringBuilder) \<Rightarrow> Some (collectionCall receiver name args)
     | _ \<Rightarrow>
         if is_known receiver \<and> list_all is_known args
         then map_option (Pair receiver) (known_method receiver name (length args))
         else None)"

section \<open>Joining two branches\<close>

definition merged_type ::
  "java_constant option \<Rightarrow> java_type option \<Rightarrow> java_constant option \<Rightarrow> java_type option \<Rightarrow> java_type option" where
  "merged_type left_value left_type right_value right_type =
    (if left_type = right_type then left_type
     else if left_value = Some Null then right_type
     else if right_value = Some Null then left_type
     else None)"

fun mergeValue :: "Value \<Rightarrow> Value \<Rightarrow> Value"
  and merge_items :: "Value list \<Rightarrow> Value list \<Rightarrow> Value list"
  and merge_entries :: "(string \<times> Value) list \<Rightarrow> (string \<times> Value) list \<Rightarrow> (string \<times> Value) list" where
  "mergeValue (Scalar a r s) right =
    (case right of
       Scalar b _ t \<Rightarrow> Scalar (if a = b then a else None) r (merged_type a s b t)
     | _ \<Rightarrow> Unknown)"
| "mergeValue Html right = (case right of Html \<Rightarrow> Html | _ \<Rightarrow> Unknown)"
| "mergeValue (ListValue items invalid kind) right =
    (case right of
       ListValue items' invalid' kind' \<Rightarrow>
         if kind = kind' \<and> isSafe (ListValue items invalid kind) \<and> isSafe right \<and>
            length items \<noteq> length items'
         then ListValue [safe None] False (Some UnknownLength)
         else if \<not> invalid \<and> \<not> invalid' \<and> kind = kind' \<and> length items = length items'
         then ListValue (merge_items items items') False kind
         else Unknown
     | _ \<Rightarrow> Unknown)"
| "mergeValue (MapValue items invalid) right =
    (case right of
       MapValue items' invalid' \<Rightarrow>
         if \<not> invalid \<and> \<not> invalid' then MapValue (merge_entries items items') False else Unknown
     | _ \<Rightarrow> Unknown)"
| "mergeValue _ _ = Unknown"
| "merge_items [] _ = []"
| "merge_items (v # vs) ws = mergeValue v (argument ws 0) # merge_items vs (drop 1 ws)"
| "merge_entries [] _ = []"
| "merge_entries ((k, v) # es) right =
    (k, mergeValue v (or_else (jm_get right k) Unknown)) # merge_entries es right"

text \<open>In a branch's environment a value has an identity beside it: two names bound to one mutable
object carry the same number. The joined environment has fresh objects only.\<close>

type_synonym branch_env = "(string, nat \<times> Value) jsmap"

fun is_collection :: "Value \<Rightarrow> bool" where
  "is_collection (ListValue _ _ _) = True"
| "is_collection (MapValue _ _) = True"
| "is_collection _ = False"

definition bound_value :: "branch_env \<Rightarrow> string \<Rightarrow> Value" where
  "bound_value env key = (case jm_get env key of Some (_, v) \<Rightarrow> v | None \<Rightarrow> Unknown)"

definition join_names :: "branch_env \<Rightarrow> branch_env \<Rightarrow> (string, Value) jsmap \<Rightarrow> (string, Value) jsmap" where
  "join_names left right target =
    fold (\<lambda>key. jm_set key (mergeValue (bound_value left key) (bound_value right key)))
      (js_uniq (jm_keys left @ jm_keys right)) target"

definition alias_step ::
  "string \<times> nat \<times> Value \<Rightarrow> (nat, string) jsmap \<times> (string, Value) jsmap \<Rightarrow>
   (nat, string) jsmap \<times> (string, Value) jsmap" where
  "alias_step entry state =
    (let (key, (object, value)) = entry; (seen, target) = state in
     if is_collection value then
       (case jm_get seen object of
          Some other \<Rightarrow>
            if other = [] then (jm_set object key seen, target)
            else (seen, jm_set other Unknown (jm_set key Unknown target))
        | None \<Rightarrow> (jm_set object key seen, target))
     else state)"

definition mergeEnvironment ::
  "(string, Value) jsmap \<Rightarrow> branch_env \<Rightarrow> branch_env \<Rightarrow> (string, Value) jsmap" where
  "mergeEnvironment target left right =
    fold (\<lambda>branch joined. snd (fold alias_step branch ([], joined))) [left, right]
      (join_names left right target)"

section \<open>Folding operators\<close>

definition precedence :: "string \<Rightarrow> nat option" where
  "precedence op =
    (if op = ''||'' then Some 1
     else if op = ''&&'' then Some 2
     else if op \<in> {''=='', ''!=''} then Some 3
     else if op \<in> {''<'', ''>'', ''<='', ''>=''} then Some 4
     else if op \<in> {''+'', ''-''} then Some 5
     else if op \<in> {''*'', ''/'', ''%''} then Some 6
     else None)"

definition rank :: "string \<Rightarrow> nat" where
  "rank op = or_else (precedence op) 0"

text \<open>\<^verbatim>\<open>x | 0\<close> of JavaScript on an integer: the signed value of its low 32 bits.\<close>

definition to_int32 :: "int \<Rightarrow> int" where
  "to_int32 x = (x + 2 ^ 31) mod 2 ^ 32 - 2 ^ 31"

definition signed_text :: "int \<Rightarrow> string" where
  "signed_text n = (if n < 0 then CHR ''-'' # nat_str (nat (- n)) else nat_str (nat n))"

definition constant_text :: "java_constant \<Rightarrow> string" where
  "constant_text c =
    (case c of
       Str s \<Rightarrow> s
     | Num n \<Rightarrow> signed_text n
     | Boolean b \<Rightarrow> if b then ''true'' else ''false''
     | Null \<Rightarrow> ''null'')"

definition fold_numbers :: "int \<Rightarrow> string \<Rightarrow> int \<Rightarrow> Value option" where
  "fold_numbers x op y =
    (if op = ''+'' then Some (safe (Some (Num (to_int32 (x + y)))))
     else if op = ''-'' then Some (safe (Some (Num (to_int32 (x - y)))))
     else if op = ''*'' then Some (safe (Some (Num (to_int32 (x * y)))))
     else if op = ''/'' then
       Some (if y \<noteq> 0 then safe (Some (Num (to_int32 (x sdiv y)))) else Unknown)
     else if op = ''%'' then Some (if y \<noteq> 0 then safe (Some (Num (x smod y))) else Unknown)
     else if op = ''>'' then Some (safe (Some (Boolean (x > y))))
     else if op = ''<'' then Some (safe (Some (Boolean (x < y))))
     else if op = ''>='' then Some (safe (Some (Boolean (x \<ge> y))))
     else if op = ''<='' then Some (safe (Some (Boolean (x \<le> y))))
     else None)"

definition fold_booleans :: "bool \<Rightarrow> string \<Rightarrow> bool \<Rightarrow> Value option" where
  "fold_booleans x op y =
    (if op = ''&&'' then Some (safe (Some (Boolean (x \<and> y))))
     else if op = ''||'' then Some (safe (Some (Boolean (x \<or> y))))
     else None)"

fun same_comparable_type :: "java_constant \<Rightarrow> java_constant \<Rightarrow> bool" where
  "same_comparable_type (Num _) (Num _) = True"
| "same_comparable_type (Boolean _) (Boolean _) = True"
| "same_comparable_type Null Null = True"
| "same_comparable_type _ _ = False"

definition is_str :: "java_constant \<Rightarrow> bool" where
  "is_str c = (case c of Str _ \<Rightarrow> True | _ \<Rightarrow> False)"

definition is_equality :: "string \<Rightarrow> bool" where
  "is_equality op = (op = ''=='' \<or> op = ''!='')"

definition fold_equality :: "java_constant \<Rightarrow> string \<Rightarrow> java_constant \<Rightarrow> Value" where
  "fold_equality x op y = safe (Some (Boolean (if op = ''=='' then x = y else x \<noteq> y)))"

definition fold_constants :: "JavaProofReason \<Rightarrow> java_constant \<Rightarrow> string \<Rightarrow> java_constant \<Rightarrow> Value" where
  "fold_constants reason x op y =
    (if is_equality op \<and> (x = Null \<or> y = Null) then fold_equality x op y
     else if op = ''+'' \<and> (is_str x \<or> is_str y) then
       Scalar (Some (Str (constant_text x @ constant_text y))) reason None
     else
       or_else
         (case (x, y) of
            (Num m, Num n) \<Rightarrow> fold_numbers m op n
          | (Boolean a, Boolean b) \<Rightarrow> fold_booleans a op b
          | _ \<Rightarrow> None)
         (if same_comparable_type x y \<and> is_equality op then fold_equality x op y else Unknown))"

fun markup_safe :: "Value \<Rightarrow> bool" where
  "markup_safe (Scalar (Some (Str s)) _ _) = (CHR ''<'' \<notin> set s)"
| "markup_safe _ = False"

definition binary :: "Value \<Rightarrow> string \<Rightarrow> Value \<Rightarrow> Value" where
  "binary a op b =
    (if op = ''+'' \<and> (a = Html \<and> markup_safe b \<or> b = Html \<and> markup_safe a) then Html
     else case (a, b) of
       (Scalar x reason _, Scalar y _ _) \<Rightarrow>
         (case (x, y) of
            (Some c, Some d) \<Rightarrow> fold_constants reason c op d
          | _ \<Rightarrow> if op \<in> {''+'', ''-'', ''*'', ''/'', ''%''} then safe None else Unknown)
     | _ \<Rightarrow> Unknown)"

text \<open>The two stacks of the reduction, top first.\<close>

definition reduce :: "('v \<Rightarrow> string \<Rightarrow> 'v \<Rightarrow> 'v) \<Rightarrow> 'v list \<Rightarrow> string \<Rightarrow> 'v list" where
  "reduce apply_op stack op =
    (case stack of b # a # rest \<Rightarrow> apply_op a op b # rest | _ \<Rightarrow> stack)"

fun reduce_while ::
  "('v \<Rightarrow> string \<Rightarrow> 'v \<Rightarrow> 'v) \<Rightarrow> nat \<Rightarrow> 'v list \<Rightarrow> string list \<Rightarrow> 'v list \<times> string list" where
  "reduce_while apply_op p stack [] = (stack, [])"
| "reduce_while apply_op p stack (op # ops) =
    (if p \<le> rank op then reduce_while apply_op p (reduce apply_op stack op) ops
     else (stack, op # ops))"

fun shift_all ::
  "('v \<Rightarrow> string \<Rightarrow> 'v \<Rightarrow> 'v) \<Rightarrow> (string \<times> 'v) list \<Rightarrow> 'v list \<times> string list \<Rightarrow> 'v list \<times> string list" where
  "shift_all apply_op [] state = state"
| "shift_all apply_op ((op, v) # rest) (stack, ops) =
    (let (stack', ops') = reduce_while apply_op (rank op) stack ops in
     shift_all apply_op rest (v # stack', op # ops'))"

definition reduce_operators ::
  "('v \<Rightarrow> string \<Rightarrow> 'v \<Rightarrow> 'v) \<Rightarrow> 'v \<Rightarrow> (string \<times> 'v) list \<Rightarrow> 'v" where
  "reduce_operators apply_op v rest =
    (let (stack, ops) = shift_all apply_op rest ([v], [])
     in last (fst (reduce_while apply_op 0 stack ops)))"

definition binaryValues :: "Value list \<Rightarrow> string list \<Rightarrow> Value" where
  "binaryValues values operators =
    (if length values \<noteq> length operators + 1 \<or> list_ex (\<lambda>op. precedence op = None) operators
     then Unknown
     else reduce_operators binary (hd values) (zip operators (tl values)))"

section \<open>Literals\<close>

definition escaped_char :: "char \<Rightarrow> char option" where
  "escaped_char c =
    (if c = CHR 0x5C \<or> c = CHR 0x22 \<or> c = CHR 0x27 then Some c
     else if c = CHR ''n'' then Some (CHR 0x0A)
     else if c = CHR ''r'' then Some (CHR 0x0D)
     else if c = CHR ''t'' then Some (CHR 0x09)
     else if c = CHR ''b'' then Some (CHR 0x08)
     else if c = CHR ''f'' then Some (CHR 0x0C)
     else None)"

text \<open>What follows the opening quote of a string literal, up to and with the closing one. A
control character passes the expression of the source and is refused by \<^verbatim>\<open>JSON.parse\<close>; an escaped
apostrophe does not pass the expression.\<close>

fun string_body :: "string \<Rightarrow> string option" where
  "string_body [] = None"
| "string_body [c] = (if c = CHR 0x22 then Some [] else None)"
| "string_body (c # d # rest) =
    (if c = CHR 0x22 then None
     else if c = CHR 0x5C then
       (if d = CHR 0x27 then None
        else case escaped_char d of
          None \<Rightarrow> None
        | Some e \<Rightarrow> map_option ((#) e) (string_body rest))
     else if code_of c < 32 then None
     else map_option ((#) c) (string_body (d # rest)))"

definition is_number_text :: "string \<Rightarrow> bool" where
  "is_number_text s = (s \<noteq> [] \<and> list_all is_digit s \<and> (hd s = CHR ''0'' \<longrightarrow> s = ''0''))"

definition number_literal :: "string \<Rightarrow> java_constant option" where
  "number_literal s =
    (if int (digits_value s) \<le> 2147483647 then Some (Num (int (digits_value s))) else None)"

definition char_literal :: "string \<Rightarrow> java_constant option" where
  "char_literal s =
    (case s of
       [a, c, b] \<Rightarrow> if a = CHR 0x27 \<and> b = CHR 0x27 \<and> c \<noteq> CHR 0x27 \<and> c \<noteq> CHR 0x5C
                  then Some (Str [c]) else None
     | [a, e, c, b] \<Rightarrow> if a = CHR 0x27 \<and> e = CHR 0x5C \<and> b = CHR 0x27
                  then map_option (\<lambda>d. Str [d]) (escaped_char c) else None
     | _ \<Rightarrow> None)"

definition literal :: "string \<Rightarrow> java_constant option" where
  "literal s =
    (case s of
       [] \<Rightarrow> None
     | c # rest \<Rightarrow>
         if c = CHR 0x22 then map_option Str (string_body rest)
         else if c = CHR 0x27 then char_literal s
         else if is_number_text s then number_literal s
         else if s = ''true'' then Some (Boolean True)
         else if s = ''false'' then Some (Boolean False)
         else if s = ''null'' then Some Null
         else None)"

end
