(* ===== verification/JavaFolding.thy ===== *)
theory JavaFolding
  imports JavaConstantValues "HOL-Library.Word"
begin

text \<open>What the folds of \<^verbatim>\<open>java-constant-values.ts\<close> compute. The two-stack reduction groups an
expression as Java's grammar does: every expression has a grouping, and the reduction evaluates
it. On two is_known integers the folded result is that of Java's 32-bit arithmetic, of which a
division by zero is left open.\<close>

section \<open>The grouping of an expression\<close>

datatype 'v expression = Operand 'v | Operation "'v expression" string "'v expression"

fun operands :: "'v expression \<Rightarrow> 'v list" where
  "operands (Operand v) = [v]"
| "operands (Operation l op r) = operands l @ operands r"

fun operators_of :: "'v expression \<Rightarrow> string list" where
  "operators_of (Operand v) = []"
| "operators_of (Operation l op r) = operators_of l @ op # operators_of r"

text \<open>Operators of a higher rank bind first, and equal ones from the left.\<close>

fun grouped :: "'v expression \<Rightarrow> bool" where
  "grouped (Operand v) = True"
| "grouped (Operation l op r) =
    (grouped l \<and> grouped r \<and>
     list_all (\<lambda>p. rank op \<le> rank p) (operators_of l) \<and>
     list_all (\<lambda>p. rank op < rank p) (operators_of r))"

fun evaluate :: "('v \<Rightarrow> string \<Rightarrow> 'v \<Rightarrow> 'v) \<Rightarrow> 'v expression \<Rightarrow> 'v" where
  "evaluate f (Operand v) = v"
| "evaluate f (Operation l op r) = f (evaluate f l) op (evaluate f r)"

definition groups :: "'v expression \<Rightarrow> 'v list \<Rightarrow> string list \<Rightarrow> bool" where
  "groups t values operators =
    (grouped t \<and> operands t = values \<and> operators_of t = operators)"

lemma length_operands: "length (operands t) = Suc (length (operators_of t))"
  by (induction t) auto

lemma operands_nonempty [simp]: "operands t \<noteq> []"
  using length_operands [of t] by auto

fun attach :: "'v expression \<Rightarrow> string \<Rightarrow> 'v \<Rightarrow> 'v expression" where
  "attach (Operand u) op v = Operation (Operand u) op (Operand v)"
| "attach (Operation l p r) op v =
    (if rank p < rank op then Operation l p (attach r op v)
     else Operation (Operation l p r) op (Operand v))"

lemma attach_leaves [simp]:
  "operands (attach t op v) = operands t @ [v]"
  "operators_of (attach t op v) = operators_of t @ [op]"
  by (induction t op v rule: attach.induct) auto

lemma attach_grouped: "grouped t \<Longrightarrow> grouped (attach t op v)"
  by (induction t op v rule: attach.induct) (auto simp: list_all_iff not_less)

lemma grouping_exists:
  assumes "length values = Suc (length operators)"
  shows "\<exists>t. groups t values operators"
  using assms
proof (induction operators arbitrary: "values" rule: rev_induct)
  case Nil
  then obtain v where "values = [v]" by (auto simp: length_Suc_conv)
  then have "groups (Operand v) values []" by (simp add: groups_def)
  then show ?case by blast
next
  case (snoc op ops)
  then obtain vs v where vs: "values = vs @ [v]" "length vs = Suc (length ops)"
    by (cases "values" rule: rev_cases) auto
  from snoc.IH [OF vs(2)] obtain t where "groups t vs ops" by blast
  then have "groups (attach t op v) values (ops @ [op])"
    by (auto simp: groups_def vs attach_grouped)
  then show ?case by blast
qed

section \<open>The reduction evaluates the grouping\<close>

definition ranked_below :: "string list \<Rightarrow> nat \<Rightarrow> bool" where
  "ranked_below ops p = (\<forall>op \<in> set ops. rank op < p)"

lemma reduce_while_below [simp]: "ranked_below ops p \<Longrightarrow> reduce_while f p stack ops = (stack, ops)"
  by (cases ops) (auto simp: ranked_below_def)

lemma reduce_while_twice:
  assumes "p \<le> q"
  shows "reduce_while f p (fst (reduce_while f q stack ops)) (snd (reduce_while f q stack ops)) =
    reduce_while f p stack ops"
  using assms by (induction f q stack ops rule: reduce_while.induct) auto

lemma shift_all_append:
  "shift_all f (xs @ ys) state = shift_all f ys (shift_all f xs state)"
  by (induction f xs state rule: shift_all.induct) (auto simp: Let_def split: prod.splits)

definition tail_of :: "'v expression \<Rightarrow> (string \<times> 'v) list" where
  "tail_of t = zip (operators_of t) (tl (operands t))"

lemma tail_of_Operation:
  "tail_of (Operation l op r) = tail_of l @ (op, hd (operands r)) # tail_of r"
proof -
  obtain u us where l: "operands l = u # us" by (cases "operands l") auto
  obtain w ws where r: "operands r = w # ws" by (cases "operands r") auto
  have "length us = length (operators_of l)" using length_operands [of l] l by simp
  then show ?thesis by (simp add: tail_of_def l r)
qed

lemma hd_operands_Operation [simp]: "hd (operands (Operation l op r)) = hd (operands l)"
  by simp

text \<open>After the operands and operators of a grouped expression, the reduction down to any rank
its operators have leaves its value on the stack it started from.\<close>

lemma shift_grouped:
  assumes "grouped t"
    and "\<forall>op \<in> set (operators_of t). ranked_below ops (rank op)"
    and "\<forall>op \<in> set (operators_of t). p \<le> rank op" and "ranked_below ops p"
  shows "(case shift_all f (tail_of t) (hd (operands t) # stack, ops) of
      (stack', ops') \<Rightarrow> reduce_while f p stack' ops') = (evaluate f t # stack, ops)"
  using assms
proof (induction t arbitrary: stack ops p)
  case (Operand v)
  then show ?case by (simp add: tail_of_def)
next
  case (Operation l op r)
  define state where "state = shift_all f (tail_of l) (hd (operands l) # stack, ops)"
  have left: "reduce_while f (rank op) (fst state) (snd state) = (evaluate f l # stack, ops)"
    using Operation.IH(1) [of ops "rank op" stack] Operation.prems
    by (auto simp: state_def list_all_iff split: prod.splits)
  define state' where
    "state' = shift_all f (tail_of r) (hd (operands r) # evaluate f l # stack, op # ops)"
  have over: "ranked_below (op # ops) (rank q)" if "q \<in> set (operators_of r)" for q
    using that Operation.prems by (auto simp: ranked_below_def list_all_iff)
  have right: "reduce_while f (Suc (rank op)) (fst state') (snd state') =
      (evaluate f r # evaluate f l # stack, op # ops)"
    using Operation.IH(2) [of "op # ops" "Suc (rank op)" "evaluate f l # stack"] Operation.prems over
    by (auto simp: state'_def list_all_iff ranked_below_def Suc_le_eq less_SucI split: prod.splits)
  have steps: "shift_all f (tail_of (Operation l op r)) (hd (operands l) # stack, ops) = state'"
    using left
    by (simp add: tail_of_Operation shift_all_append state'_def Let_def
        flip: state_def split: prod.splits)
      (cases state, simp)
  have "p \<le> rank op" and "ranked_below ops p" using Operation.prems by auto
  then have "reduce_while f p (fst state') (snd state') =
      reduce_while f p (evaluate f r # evaluate f l # stack) (op # ops)"
    using reduce_while_twice [of p "Suc (rank op)" f "fst state'" "snd state'"] right by simp
  also have "\<dots> = (evaluate f (Operation l op r) # stack, ops)"
    using \<open>p \<le> rank op\<close> \<open>ranked_below ops p\<close> by (simp add: reduce_def)
  finally show ?case using steps by (simp add: case_prod_beta)
qed

lemma reduce_operators_grouped:
  assumes "grouped t"
  shows "reduce_operators f (hd (operands t)) (tail_of t) = evaluate f t"
proof -
  have "(case shift_all f (tail_of t) ([hd (operands t)], []) of
      (stack', ops') \<Rightarrow> reduce_while f 0 stack' ops') = ([evaluate f t], [])"
    by (rule shift_grouped) (auto simp: assms ranked_below_def)
  then show ?thesis by (auto simp: reduce_operators_def split: prod.splits)
qed

lemma map_leaves [simp]:
  "operands (map_expression f t) = map f (operands t)"
  "operators_of (map_expression f t) = operators_of t"
  "grouped (map_expression f t) = grouped t"
  by (induction t) auto

lemma evaluate_itself: "evaluate Operation (map_expression Operand t) = t"
  by (induction t) auto

text \<open>An expression has one grouping: the reduction rebuilds it.\<close>

lemma grouping_unique:
  assumes "groups t values operators" and "groups u values operators"
  shows "t = u"
proof -
  have "w = reduce_operators Operation (hd (map Operand values)) (zip operators (tl (map Operand values)))"
    if "groups w values operators" for w
    using reduce_operators_grouped [of "map_expression Operand w" Operation] that evaluate_itself [of w]
    by (simp add: groups_def tail_of_def)
  then show ?thesis using assms by metis
qed

lemma binaryValues_evaluates:
  assumes "groups t values operators" and "list_all (\<lambda>op. precedence op \<noteq> None) operators"
  shows "binaryValues values operators = evaluate binary t"
proof -
  have ends: "operands t = values" "operators_of t = operators" "grouped t"
    using assms(1) by (auto simp: groups_def)
  have "\<not> list_ex (\<lambda>op. precedence op = None) operators"
    using assms(2) by (auto simp: list_ex_iff list_all_iff)
  moreover have "length values = length operators + 1"
    using length_operands [of t] ends by simp
  ultimately have "binaryValues values operators =
      reduce_operators binary (hd (operands t)) (tail_of t)"
    by (simp add: binaryValues_def tail_of_def ends)
  then show ?thesis using reduce_operators_grouped [OF ends(3)] by (simp add: ends)
qed

section \<open>What a reduction keeps\<close>

text \<open>The evaluations of an expression with an operation that may have several results or none.\<close>

inductive evaluates_to ::
  "('x \<Rightarrow> string \<Rightarrow> 'x \<Rightarrow> 'x \<Rightarrow> bool) \<Rightarrow> 'x expression \<Rightarrow> 'x \<Rightarrow> bool" for step where
  operand: "evaluates_to step (Operand x) x"
| operation: "evaluates_to step l x \<Longrightarrow> evaluates_to step r y \<Longrightarrow> step x op y z \<Longrightarrow>
    evaluates_to step (Operation l op r) z"

inductive_cases evaluates_OperandE: "evaluates_to step (Operand x) y"
inductive_cases evaluates_OperationE: "evaluates_to step (Operation l op r) z"

text \<open>An operator on values that is sound for an operation on objects: what the values promise of
the objects is kept. A reduction with it is then sound for the evaluations of the expression.\<close>

locale sound_operator =
  fixes promise :: "'v \<Rightarrow> 'x \<Rightarrow> bool"
    and apply_op :: "'v \<Rightarrow> string \<Rightarrow> 'v \<Rightarrow> 'v"
    and step :: "'x \<Rightarrow> string \<Rightarrow> 'x \<Rightarrow> 'x \<Rightarrow> bool"
  assumes apply_sound: "promise a x \<Longrightarrow> promise b y \<Longrightarrow> step x op y z \<Longrightarrow> promise (apply_op a op b) z"
begin

lemma evaluation_sound:
  assumes "\<forall>(v, x) \<in> set (operands t). promise v x" and "evaluates_to step (map_expression snd t) z"
  shows "promise (evaluate apply_op (map_expression fst t)) z"
  using assms by (induction t arbitrary: z) (auto intro: apply_sound elim!: evaluates_OperandE evaluates_OperationE)

lemma grouping_sound:
  assumes "list_all2 promise values objects" and "groups t values operators"
    and "groups u objects operators" and "evaluates_to step u z"
  shows "promise (evaluate apply_op t) z"
proof -
  have same: "length values = length objects" using assms(1) by (rule list_all2_lengthD)
  have "length values = Suc (length operators)"
    using assms(2) length_operands [of t] by (auto simp: groups_def)
  then obtain w where w: "groups w (zip values objects) operators"
    using grouping_exists [of "zip values objects" operators] same by auto
  have "groups (map_expression snd w) objects operators" "groups (map_expression fst w) values operators"
    using w same by (auto simp: groups_def)
  then have "u = map_expression snd w" "t = map_expression fst w"
    using grouping_unique assms(2,3) by auto
  then show ?thesis
    using evaluation_sound [of w z] assms(1,4) w by (auto simp: groups_def list_all2_iff)
qed

end

text \<open>The operands and operators of a Java expression, read from left to right, have a grouping in
which multiplications bind before additions, additions before comparisons and so on, with equal
ranks grouped from the left; and the two-stack reduction of \<^verbatim>\<open>binaryValues\<close> returns what that
grouping evaluates to. An operator it has no rank for leaves the whole expression unknown.\<close>

theorem expressions_grouped_as_written:
  assumes "length values = length operators + 1"
  shows "\<exists>t. groups t values operators \<and>
    binaryValues values operators =
      (if list_all (\<lambda>op. precedence op \<noteq> None) operators then evaluate binary t else Unknown)"
proof -
  from assms obtain t where t: "groups t values operators"
    using grouping_exists [of "values" operators] by auto
  have "binaryValues values operators = Unknown" if "\<not> list_all (\<lambda>op. precedence op \<noteq> None) operators"
    using that by (auto simp: binaryValues_def list_all_iff list_ex_iff)
  then show ?thesis using t binaryValues_evaluates [OF t] by auto
qed

theorem expressions_grouped_as_written_witness:
  "\<exists>t. groups t [safe (Some (Num 7)), safe (Some (Num 42)), safe (Some (Num 86)), safe (Some (Num 200))]
      [''*'', ''-'', ''>''] \<and>
    binaryValues [safe (Some (Num 7)), safe (Some (Num 42)), safe (Some (Num 86)), safe (Some (Num 200))]
      [''*'', ''-'', ''>''] = evaluate binary t"
  using expressions_grouped_as_written
    [of "[safe (Some (Num 7)), safe (Some (Num 42)), safe (Some (Num 86)), safe (Some (Num 200))]"
      "[''*'', ''-'', ''>'']"]
  by (simp add: precedence_def)

section \<open>Java's integers\<close>

definition java_int :: "32 word \<Rightarrow> Value" where
  "java_int w = safe (Some (Num (sint w)))"

definition java_bool :: "bool \<Rightarrow> Value" where
  "java_bool b = safe (Some (Boolean b))"

text \<open>The operators of Java on two integers; None where the operation throws or does not apply.\<close>

definition java_operator :: "32 word \<Rightarrow> string \<Rightarrow> 32 word \<Rightarrow> Value option" where
  "java_operator a op b =
    (if op = ''+'' then Some (java_int (a + b))
     else if op = ''-'' then Some (java_int (a - b))
     else if op = ''*'' then Some (java_int (a * b))
     else if op = ''/'' then
       (if b = 0 then None else Some (java_int (word_of_int (sint a sdiv sint b))))
     else if op = ''%'' then
       (if b = 0 then None else Some (java_int (word_of_int (sint a smod sint b))))
     else if op = ''>'' then Some (java_bool (sint b < sint a))
     else if op = ''<'' then Some (java_bool (sint a < sint b))
     else if op = ''>='' then Some (java_bool (sint b \<le> sint a))
     else if op = ''<='' then Some (java_bool (sint a \<le> sint b))
     else if op = ''=='' then Some (java_bool (a = b))
     else if op = ''!='' then Some (java_bool (a \<noteq> b))
     else None)"

lemma to_int32_sint: "to_int32 x = sint (word_of_int x :: 32 word)"
  by (simp add: to_int32_def sint_sbintrunc' signed_take_bit_eq_take_bit_shift take_bit_eq_mod)

lemma to_int32_sint_arith:
  "to_int32 (sint a + sint b) = sint (a + b :: 32 word)"
  "to_int32 (sint a - sint b) = sint (a - b :: 32 word)"
  "to_int32 (sint a * sint b) = sint (a * b :: 32 word)"
  by (simp_all add: to_int32_sint)

lemma sint_eq_zero [simp]: "(sint (b :: 32 word) = 0) = (b = 0)"
  by (metis signed_0 signed_word_eqI)

lemma sint_bounds: "- (2 ^ 31) \<le> sint (a :: 32 word)" "sint (a :: 32 word) < 2 ^ 31"
  using sint_greater_eq [of a] sint_less [of a] by simp_all

lemma sint_word_of_int: "- (2 ^ 31) \<le> x \<Longrightarrow> x < 2 ^ 31 \<Longrightarrow> sint (word_of_int x :: 32 word) = x"
  by (simp add: to_int32_def flip: to_int32_sint)

lemma smod_in_range: "sint (word_of_int (sint a smod sint b) :: 32 word) = sint a smod sint (b :: 32 word)"
  if "b \<noteq> 0"
proof -
  have "sint b \<noteq> 0" using that by simp
  then have "sint a smod sint b \<in> {- \<bar>sint b\<bar> + 1 .. \<bar>sint b\<bar> - 1}" using smod_int_range by blast
  then show ?thesis using sint_bounds [of b] by (intro sint_word_of_int) auto
qed

lemma integer_folds:
  "binary (java_int a) op (java_int b) = or_else (java_operator a op b) Unknown"
proof -
  have eq: "(sint a = sint b) = (a = b)" by (metis signed_word_eqI)
  show ?thesis
    by (simp add: binary_def java_int_def safe_def fold_constants_def fold_numbers_def java_operator_def
        java_bool_def is_str_def is_equality_def fold_equality_def to_int32_sint_arith to_int32_sint
        smod_in_range eq or_else_def)
qed

text \<open>The numbers of the folds therefore stay those of Java: a literal beyond them is unknown, and
every fold of numbers in range is in range.\<close>

definition in_java_range :: "Value \<Rightarrow> bool" where
  "in_java_range v = (\<forall>n. scalar_value v = Some (Num n) \<longrightarrow> - (2 ^ 31) \<le> n \<and> n < 2 ^ 31)"

lemma literal_in_range: "in_java_range (safe (literal s))"
  by (auto simp: in_java_range_def safe_def literal_def char_literal_def number_literal_def
      split: list.splits if_splits)

lemma in_range_int: "in_java_range (java_int w)" "in_java_range (java_bool b)" "in_java_range Unknown"
  using sint_bounds [of w] by (auto simp: in_java_range_def java_int_def java_bool_def safe_def)

lemma in_range_no_number: "(\<And>n. scalar_value v \<noteq> Some (Num n)) \<Longrightarrow> in_java_range v"
  by (auto simp: in_java_range_def)

lemma fold_equality_number [simp]: "scalar_value (fold_equality c op d) \<noteq> Some (Num n)"
  by (simp add: fold_equality_def safe_def)

lemma fold_booleans_number [simp]:
  "fold_booleans p op q = Some v \<Longrightarrow> scalar_value v \<noteq> Some (Num n)"
  by (auto simp: fold_booleans_def safe_def split: if_splits)

lemma fold_constants_number:
  "scalar_value (fold_constants r c op d) = Some (Num n) \<Longrightarrow> \<exists>m k. c = Num m \<and> d = Num k"
  by (cases c; cases d)
    (auto simp: fold_constants_def is_str_def or_else_def split: if_splits option.splits
      dest: fold_booleans_number)

lemma binary_number:
  assumes "scalar_value (binary a op b) = Some (Num n)"
  shows "\<exists>m k. scalar_value a = Some (Num m) \<and> scalar_value b = Some (Num k)"
proof (cases "is_known a \<and> is_known b")
  case True
  then obtain x r t y r' t' where "a = Scalar x r t" "b = Scalar y r' t'" by (cases a; cases b) auto
  then show ?thesis using assms
    by (cases x; cases y) (auto simp: binary_def safe_def dest: fold_constants_number split: if_splits)
next
  case False
  then show ?thesis using assms by (cases a; cases b) (auto simp: binary_def split: if_splits)
qed

lemma folds_in_range:
  assumes "in_java_range a" and "in_java_range b"
  shows "in_java_range (binary a op b)"
proof (cases "\<exists>m n. scalar_value a = Some (Num m) \<and> scalar_value b = Some (Num n)")
  case True
  then obtain m n r t r' t' where ab: "a = Scalar (Some (Num m)) r t" "b = Scalar (Some (Num n)) r' t'"
    by (cases a; cases b) auto
  then have mn: "m = sint (word_of_int m :: 32 word)" "n = sint (word_of_int n :: 32 word)"
    using assms sint_word_of_int by (auto simp: in_java_range_def)
  define u where "u = (word_of_int m :: 32 word)"
  define w where "w = (word_of_int n :: 32 word)"
  have "binary a op b = binary (java_int u) op (java_int w)"
    by (simp add: ab binary_def java_int_def safe_def fold_constants_def is_str_def u_def w_def
        flip: mn)
  also have "\<dots> = or_else (java_operator u op w) Unknown" by (rule integer_folds)
  also have "in_java_range \<dots>" by (simp add: java_operator_def or_else_def in_range_int)
  finally show ?thesis .
next
  case False
  then show ?thesis using binary_number by (intro in_range_no_number) blast
qed

text \<open>The range as a promise that needs no object.\<close>

interpretation ranges: sound_operator "\<lambda>v _. in_java_range v" binary "\<lambda>_ _ _ _. True"
  by unfold_locales (rule folds_in_range)

lemma every_expression_evaluates: "\<exists>z. evaluates_to (\<lambda>_ _ _ _. True) t z"
  by (induction t) (auto intro: evaluates_to.intros)

lemma binaryValues_in_range:
  assumes "\<forall>v \<in> set values. in_java_range v"
  shows "in_java_range (binaryValues values operators)"
proof (cases "length values \<noteq> length operators + 1 \<or> list_ex (\<lambda>op. precedence op = None) operators")
  case True
  then show ?thesis by (simp add: binaryValues_def in_range_int)
next
  case False
  then obtain t where t: "groups t values operators" using grouping_exists [of "values" operators] by auto
  obtain z where z: "evaluates_to (\<lambda>_ _ _ _. True) t z"
    by (rule exE [OF every_expression_evaluates])
  have "list_all2 (\<lambda>v _. in_java_range v) values values" using assms by (simp add: list_all2_same)
  then have "in_java_range (evaluate binary t)" using t t z by (rule ranges.grouping_sound)
  then show ?thesis using binaryValues_evaluates [OF t] False by (auto simp: list_all_iff list_ex_iff)
qed

text \<open>C13. The fold of two integer constants is Java's: sums, differences and products wrap at 32 bits,
a quotient is truncated towards zero (the least integer divided by minus one is itself), a
remainder has the sign of the dividend, comparisons are signed; a division by zero, which throws,
and an operator that integers do not have leave the value unknown.\<close>

theorem constant_folding_is_java:
  "binary (java_int a) op (java_int b) = or_else (java_operator a op b) Unknown"
  by (rule integer_folds)

end
