(* ===== verification/JavaValueMeaning.thy ===== *)
theory JavaValueMeaning
  imports JavaFolding
begin

text \<open>What the values of \<^verbatim>\<open>java-constant-values.ts\<close> promise of a running Java program, and that the
operations of the domain keep the promise: an abstract interpretation in the usual form, with the
objects of the program tracked together with whether data from outside went into them. The
statements that hold only under a condition, and the inputs where the domain promises too much,
stand at the end.\<close>

section \<open>Objects of the running program\<close>

datatype object =
    Const java_constant
  | Tainted string
  | Opaque bool
  | JavaList "object list"
  | JavaMap "(string \<times> object) list"
  | Builder bool

fun untainted :: "object \<Rightarrow> bool"
  and clean_items :: "object list \<Rightarrow> bool"
  and clean_entries :: "(string \<times> object) list \<Rightarrow> bool" where
  "untainted (Const _) = True"
| "untainted (Tainted _) = False"
| "untainted (Opaque tainted) = (\<not> tainted)"
| "untainted (JavaList xs) = clean_items xs"
| "untainted (JavaMap es) = clean_entries es"
| "untainted (Builder tainted) = (\<not> tainted)"
| "clean_items [] = True"
| "clean_items (x # xs) = (untainted x \<and> clean_items xs)"
| "clean_entries [] = True"
| "clean_entries ((k, x) # es) = (untainted x \<and> clean_entries es)"

text \<open>The text of an object and whether it came from outside.\<close>

definition object_text :: "object \<Rightarrow> (string \<times> bool) option" where
  "object_text x =
    (case x of Const c \<Rightarrow> Some (constant_text c, False) | Tainted s \<Rightarrow> Some (s, True) | _ \<Rightarrow> None)"

lemma constant_text_Str [simp]: "constant_text (Str s) = s"
  by (simp add: constant_text_def)

definition is_text :: "object \<Rightarrow> bool" where
  "is_text x = (case x of Const c \<Rightarrow> is_str c | Tainted _ \<Rightarrow> True | _ \<Rightarrow> False)"

definition text_object :: "string \<Rightarrow> bool \<Rightarrow> object" where
  "text_object s tainted = (if tainted then Tainted s else Const (Str s))"

text \<open>The entry of a map, which is null where the map has none.\<close>

definition map_entry :: "(string \<times> object) list \<Rightarrow> string \<Rightarrow> object" where
  "map_entry m k = or_else (jm_get m k) (Const Null)"

section \<open>What a value promises\<close>

fun denotes :: "Value \<Rightarrow> object \<Rightarrow> bool"
  and denotes_items :: "Value list \<Rightarrow> object list \<Rightarrow> bool"
  and denotes_entries :: "(string \<times> Value) list \<Rightarrow> (string \<times> object) list \<Rightarrow> bool" where
  "denotes (Scalar v _ _) x = (case v of Some c \<Rightarrow> x = Const c | None \<Rightarrow> untainted x)"
| "denotes Html x =
    (case object_text x of Some (s, _) \<Rightarrow> is_text x \<and> CHR ''<'' \<notin> set s | None \<Rightarrow> False)"
| "denotes (ListValue items invalid kind) x =
    (invalid \<or>
     (case kind of
        None \<Rightarrow> (case x of JavaList xs \<Rightarrow> denotes_items items xs | _ \<Rightarrow> False)
      | Some StringBuilder \<Rightarrow> (case x of Builder tainted \<Rightarrow> items_safe items \<longrightarrow> \<not> tainted | _ \<Rightarrow> False)
      | Some UnknownLength \<Rightarrow> untainted x))"
| "denotes (MapValue items invalid) x =
    (invalid \<or>
     (case x of
        JavaMap m \<Rightarrow>
           set (jm_keys m) \<subseteq> set (jm_keys items) \<and> jm_inv m \<and> jm_inv items \<and>
           denotes_entries items m
      | _ \<Rightarrow> False))"
| "denotes _ x = True"
| "denotes_items [] xs = (xs = [])"
| "denotes_items (v # vs) xs = (case xs of [] \<Rightarrow> False | y # ys \<Rightarrow> denotes v y \<and> denotes_items vs ys)"
| "denotes_entries [] m = True"
| "denotes_entries ((k, v) # es) m = (denotes v (map_entry m k) \<and> denotes_entries es m)"

lemma denotes_items_all2: "denotes_items vs xs = list_all2 denotes vs xs"
  by (induction vs arbitrary: xs) (auto split: list.splits)

lemma denotes_entries_all: "denotes_entries es m = (\<forall>(k, v) \<in> set es. denotes v (map_entry m k))"
  by (induction es) auto

lemma items_safe_all: "items_safe vs = list_all isSafe vs"
  by (induction vs) auto

lemma entries_safe_all: "entries_safe es = (\<forall>(k, v) \<in> set es. isSafe v)"
  by (induction es) auto

lemma clean_items_all: "clean_items xs = list_all untainted xs"
  by (induction xs) auto

lemma clean_entries_all: "clean_entries es = (\<forall>(k, x) \<in> set es. untainted x)"
  by (induction es) auto

lemmas as_quantifiers = denotes_items_all2 denotes_entries_all items_safe_all entries_safe_all
  clean_items_all clean_entries_all

lemma denotes_simps [simp]:
  "denotes (safe (Some c)) x = (x = Const c)"
  "denotes (safe None) x = untainted x"
  "denotes known_number x = untainted x"
  "denotes (overwritten v) x = denotes v x"
  by (auto simp: safe_def known_number_def overwritten_def split: Value.splits)

lemma known_denotes_clean: "is_known v \<Longrightarrow> denotes v x \<Longrightarrow> untainted x"
  by (cases v) (auto split: option.splits)

text \<open>A safe value promises that nothing from outside is in the object.\<close>

lemma isSafe_clean:
  "isSafe v \<Longrightarrow> denotes v x \<Longrightarrow> untainted x"
  "items_safe vs \<Longrightarrow> denotes_items vs xs \<Longrightarrow> clean_items xs"
  "entries_safe es \<Longrightarrow> denotes_entries es m \<Longrightarrow> \<forall>k \<in> set (jm_keys es). untainted (map_entry m k)"
proof (induction v and vs and es arbitrary: x and xs and m
    rule: isSafe_items_safe_entries_safe.induct)
  case (1 v r t)
  then show ?case by (auto split: option.splits)
next
  case (2 items invalid kind)
  then show ?case by (auto split: option.splits flavor.splits object.splits)
next
  case (3 items invalid)
  then obtain m where m: "x = JavaMap m" "set (jm_keys m) \<subseteq> set (jm_keys items)" "jm_inv m"
      "denotes_entries items m" "entries_safe items"
    by (auto split: object.splits)
  then have ok: "\<forall>k \<in> set (jm_keys items). untainted (map_entry m k)" using 3 by auto
  have "untainted y" if "(k, y) \<in> set m" for k y
  proof -
    have "jm_get m k = Some y" using that m(3) by (simp add: jm_get_iff)
    moreover have "k \<in> set (jm_keys m)" using that by (force simp: jm_keys_def)
    ultimately show ?thesis using ok m(2) by (force simp: map_entry_def or_else_def)
  qed
  then show ?case by (auto simp: m(1) clean_entries_all)
qed (auto simp: jm_keys_def split: list.splits)

text \<open>What a method of the standard library returns for a known receiver is safe.\<close>

lemma safe_value_safe [simp]: "isSafe (safe c)"
  by (simp add: safe_def)

lemma chars_safe: "items_safe (map (\<lambda>ch. safe (f ch)) s)"
  by (induction s) simp_all

lemma text_method_safe: "text_method c name = Some v \<Longrightarrow> isSafe v"
  unfolding text_method_def
  by (split if_split_asm, force,
      split if_split_asm, force,
      split if_split_asm, force simp: chars_safe split: option.splits java_constant.splits,
      split if_split_asm, force, force)

lemma known_method_safe:
  assumes "is_known receiver" and "known_method receiver name n = Some v"
  shows "isSafe v"
proof -
  have "isSafe receiver" using assms(1) by (cases receiver) auto
  then show ?thesis
    using assms(2) text_method_safe [of "scalar_value receiver" name v]
    by (simp add: known_method_def Let_def typed_def split: if_split_asm) (auto simp: typed_def)
qed

lemma standard_methods_safe:
  assumes "is_known receiver" and "javaStandardMethod receiver name args = Some (receiver', v)"
  shows "isSafe v \<and> receiver' = receiver"
proof -
  obtain c r t where receiver: "receiver = Scalar c r t" using assms(1) by (cases receiver) auto
  then have "known_method receiver name (length args) = Some v \<and> receiver' = receiver"
    using assms(2) by (auto simp: javaStandardMethod_def split: if_split_asm)
  then show ?thesis using known_method_safe assms(1) by blast
qed

section \<open>Folds\<close>

text \<open>A step of Java on two operands, where it returns. Texts are concatenated, what was tainted
stays so; the identity of two texts is not fixed; any other operation on an object that is no
constant has a result that is clean when the operands are.\<close>

inductive java_step :: "object \<Rightarrow> string \<Rightarrow> object \<Rightarrow> object \<Rightarrow> bool" where
  integers: "java_operator a op b = Some (Scalar (Some c) r t) \<Longrightarrow>
    java_step (Const (Num (sint a))) op (Const (Num (sint b))) (Const c)"
| booleans: "fold_booleans p op q = Some (Scalar (Some c) r t) \<Longrightarrow>
    java_step (Const (Boolean p)) op (Const (Boolean q)) (Const c)"
| boolean_equality: "is_equality op \<Longrightarrow>
    java_step (Const (Boolean p)) op (Const (Boolean q)) (Const (Boolean ((op = ''=='') = (p = q))))"
| null_equality: "is_equality op \<Longrightarrow> x = Const Null \<or> y = Const Null \<Longrightarrow>
    java_step x op y (Const (Boolean ((op = ''=='') = (x = y))))"
| text_equality: "is_equality op \<Longrightarrow> is_text x \<Longrightarrow> is_text y \<Longrightarrow> java_step x op y (Const (Boolean b))"
| concatenation: "is_text x \<or> is_text y \<Longrightarrow> object_text x = Some (s, p) \<Longrightarrow>
    object_text y = Some (s', q) \<Longrightarrow> java_step x ''+'' y (text_object (s @ s') (p \<or> q))"
| other: "\<not> (\<exists>c d. x = Const c \<and> y = Const d) \<Longrightarrow>
    \<not> (op = ''+'' \<and> object_text x \<noteq> None \<and> object_text y \<noteq> None) \<Longrightarrow>
    (untainted x \<and> untainted y \<longrightarrow> untainted z) \<Longrightarrow> java_step x op y z"

lemma is_equality_simps [simp]:
  "is_equality ''=='' " "is_equality ''!=''" "\<not> is_equality ''+''"
  by (simp_all add: is_equality_def)

lemma fold_equality_denotes [simp]:
  "is_equality op \<Longrightarrow> denotes (fold_equality c op d) z = (z = Const (Boolean ((op = ''=='') = (c = d))))"
  by (auto simp: fold_equality_def is_equality_def)

lemma java_operator_safe: "java_operator a op b = Some v \<Longrightarrow> \<exists>c. v = safe (Some c)"
  by (auto simp: java_operator_def java_int_def java_bool_def split: if_splits)

lemma fold_constants_sound:
  assumes "java_step (Const c) op (Const d) z"
  shows "denotes (fold_constants reason c op d) z"
  using assms
proof (cases rule: java_step.cases)
  case (integers a b e r t)
  then have "binary (java_int a) op (java_int b) = Scalar (Some e) r t"
    by (simp add: integer_folds or_else_def)
  moreover have "fold_constants reason (Num (sint a)) op (Num (sint b)) =
      fold_constants ConstantBranch (Num (sint a)) op (Num (sint b))"
    by (simp add: fold_constants_def is_str_def)
  ultimately show ?thesis using integers
    by (simp add: binary_def java_int_def safe_def)
next
  case (booleans p q e r t)
  then show ?thesis
    by (auto simp: fold_constants_def is_equality_def is_str_def fold_booleans_def or_else_def safe_def
        split: if_splits)
next
  case (concatenation s p s' q)
  then show ?thesis
    by (auto simp: fold_constants_def is_text_def object_text_def text_object_def)
qed (auto simp: fold_constants_def is_equality_def is_str_def fold_booleans_def or_else_def is_text_def
    fold_equality_def split: java_constant.splits)

lemma markup_safe_denotes: "markup_safe v \<Longrightarrow> denotes v x \<Longrightarrow> \<exists>s. x = Const (Str s) \<and> CHR ''<'' \<notin> set s"
  by (cases v rule: markup_safe.cases) auto

lemma html_text:
  assumes "denotes Html x"
  obtains s p where "object_text x = Some (s, p)" "is_text x" "CHR ''<'' \<notin> set s"
  using assms by (auto split: option.splits)

lemma concatenation_html:
  assumes "java_step x ''+'' y z" and "object_text x = Some (s, p)" and "object_text y = Some (s', q)"
    and "is_text x" and "is_text y" and "CHR ''<'' \<notin> set s" and "CHR ''<'' \<notin> set s'"
  shows "denotes Html z"
  using assms
  by (cases rule: java_step.cases)
    (auto simp: is_text_def object_text_def text_object_def is_str_def
      split: if_splits object.splits java_constant.splits)

lemma binary_sound:
  assumes "denotes a x" and "denotes b y" and "java_step x op y z"
  shows "denotes (binary a op b) z"
proof (cases "op = ''+'' \<and> (a = Html \<and> markup_safe b \<or> b = Html \<and> markup_safe a)")
  case True
  then have op: "op = ''+''" and html: "binary a op b = Html" by (auto simp: binary_def)
  have texts: "\<exists>s p. object_text u = Some (s, p) \<and> is_text u \<and> CHR ''<'' \<notin> set s"
    if "denotes v u" and "v = Html \<or> markup_safe v" for u v
    using that by (auto elim!: html_text dest!: markup_safe_denotes
        simp: object_text_def is_text_def is_str_def split: option.splits)
  have "a = Html \<or> markup_safe a" "b = Html \<or> markup_safe b" using True by auto
  then show ?thesis
    using texts [OF assms(1)] texts [OF assms(2)] concatenation_html [of x y z] assms(3) [unfolded op]
    unfolding html by blast
next
  case False
  then have folded: "binary a op b =
      (case (a, b) of
       (Scalar u reason _, Scalar v _ _) \<Rightarrow>
         (case (u, v) of
            (Some c, Some d) \<Rightarrow> fold_constants reason c op d
          | _ \<Rightarrow> if op \<in> {''+'', ''-'', ''*'', ''/'', ''%''} then safe None else Unknown)
     | _ \<Rightarrow> Unknown)"
    unfolding binary_def by (simp only: if_False)
  show ?thesis
  proof (cases "is_known a \<and> is_known b")
    case is_known: True
    then obtain u r t v r' t' where ab: "a = Scalar u r t" "b = Scalar v r' t'"
      by (cases a; cases b) auto
    have untainted: "untainted x" "untainted y" using assms is_known known_denotes_clean by auto
    show ?thesis
    proof (cases "u = None \<or> v = None")
      case True
      have "untainted z" using assms(3) untainted
        by (cases rule: java_step.cases) (auto simp: object_text_def text_object_def split: object.splits)
      then show ?thesis using True unfolding folded by (auto simp: ab split: option.splits)
    next
      case False
      then obtain c d where "u = Some c" "v = Some d" by auto
      then show ?thesis using assms fold_constants_sound unfolding folded by (auto simp: ab)
    qed
  next
    case False
    then show ?thesis unfolding folded by (cases a; cases b) auto
  qed
qed

interpretation folding: sound_operator denotes binary java_step
  by unfold_locales (rule binary_sound)



end
