(* ===== verification/JavaValueSoundness.thy ===== *)
theory JavaValueSoundness
  imports JavaValueMeaning
begin

text \<open>The collection calls and the joins of \<^verbatim>\<open>java-constant-values.ts\<close> against the objects of the
running program: calls are sound, the join of two branches is sound when the right branch knows
no map key that the left does not, and a collection that had two names in a branch is forgotten
under both.\<close>

section \<open>Calls\<close>

text \<open>The calls of Java that return: lists, maps and builders as the library documents them, and
any other call with any effect.\<close>

definition known_calls :: "string list" where
  "known_calls = [''add'', ''get'', ''set'', ''remove'', ''put'', ''toString'', ''length''] @ builder_edits"

inductive java_call :: "object \<Rightarrow> string \<Rightarrow> object list \<Rightarrow> object \<Rightarrow> object \<Rightarrow> bool" where
  list_add: "java_call (JavaList xs) ''add'' [x] (JavaList (xs @ [x])) (Const (Boolean True))"
| list_insert: "i \<le> length xs \<Longrightarrow>
    java_call (JavaList xs) ''add'' [Const (Num (int i)), x]
      (JavaList (take i xs @ x # drop i xs)) (Const Null)"
| list_get: "i < length xs \<Longrightarrow>
    java_call (JavaList xs) ''get'' [Const (Num (int i))] (JavaList xs) (xs ! i)"
| list_set: "i < length xs \<Longrightarrow>
    java_call (JavaList xs) ''set'' [Const (Num (int i)), x] (JavaList (xs[i := x])) (xs ! i)"
| list_remove: "i < length xs \<Longrightarrow>
    java_call (JavaList xs) ''remove'' [Const (Num (int i))]
      (JavaList (take i xs @ drop (Suc i) xs)) (xs ! i)"
| map_put: "java_call (JavaMap m) ''put'' [Const (Str k), x] (JavaMap (jm_set k x m)) (map_entry m k)"
| map_get: "java_call (JavaMap m) ''get'' [Const (Str k)] (JavaMap m) (map_entry m k)"
| builder_edit: "name \<in> set builder_edits \<Longrightarrow>
    java_call (Builder t) name xs (Builder (t \<or> \<not> list_all untainted xs))
      (Builder (t \<or> \<not> list_all untainted xs))"
| builder_text: "java_call (Builder t) ''toString'' [] (Builder t) (text_object s t)"
| builder_length: "java_call (Builder t) ''length'' [] (Builder t) (Const (Num n))"
| other_call: "name \<notin> set known_calls \<Longrightarrow> java_call x name xs x' y"

lemma text_object_clean [simp]: "untainted (text_object s t) = (\<not> t)"
  by (simp add: text_object_def)

lemma known_calls_simps [simp]:
  "set builder_edits \<subseteq> set known_calls"
  "''add'' \<in> set known_calls" "''get'' \<in> set known_calls" "''set'' \<in> set known_calls"
  "''remove'' \<in> set known_calls" "''put'' \<in> set known_calls" "''toString'' \<in> set known_calls"
  "''length'' \<in> set known_calls"
  by (auto simp: known_calls_def)

lemma no_builder_edit [simp]:
  "''add'' \<notin> set builder_edits" "''get'' \<notin> set builder_edits" "''set'' \<notin> set builder_edits"
  "''remove'' \<notin> set builder_edits" "''put'' \<notin> set builder_edits"
  "''toString'' \<notin> set builder_edits" "''length'' \<notin> set builder_edits"
  by (simp_all add: builder_edits_def)

lemma scalar_value_denotes: "scalar_value v = Some c \<Longrightarrow> denotes v x \<Longrightarrow> x = Const c"
  by (cases v) auto

lemma argument_denotes:
  "list_all2 denotes args xs \<Longrightarrow> n < length xs \<Longrightarrow> denotes (argument args n) (xs ! n)"
  by (simp add: argument_def list_all2_conv_all_nth)

lemma known_index_denotes:
  assumes "known_index args = Some i" and "list_all2 denotes args xs" and "xs \<noteq> []"
  shows "hd xs = Const (Num i) \<and> 0 \<le> i"
proof -
  have "scalar_value (argument args 0) = Some (Num i)" "0 \<le> i"
    using assms(1) by (auto simp: known_index_def split: option.splits java_constant.splits if_splits)
  then show ?thesis
    using scalar_value_denotes argument_denotes [OF assms(2), of 0] assms(3)
    by (auto simp: hd_conv_nth)
qed

lemma all_safe_clean: "list_all isSafe args \<Longrightarrow> list_all2 denotes args xs \<Longrightarrow> list_all untainted xs"
  by (simp add: list_all_length list_all2_conv_all_nth) (metis isSafe_clean(1))

lemma builder_call_sound:
  assumes "java_call (Builder t) name xs x' y" and "items_safe items \<longrightarrow> \<not> t"
    and "list_all2 denotes args xs"
  shows "denotes (fst (builder_call items name args)) x' \<and> denotes (snd (builder_call items name args)) y"
  using assms
proof (cases rule: java_call.cases)
  case builder_edit
  then have "name \<noteq> ''toString''" "name \<noteq> ''length''" by auto
  then show ?thesis using builder_edit assms(2) all_safe_clean [OF _ assms(3)]
    by (auto simp: builder_call_def Let_def)
next
  case other_call
  then have "name \<notin> set builder_edits" "name \<noteq> ''toString''" "name \<noteq> ''length''"
    using known_calls_simps by blast+
  then show ?thesis by (simp add: builder_call_def Let_def)
qed (use assms in \<open>auto simp: builder_call_def Let_def\<close>)

lemma unknown_length_call_sound:
  assumes "java_call x name xs x' y" and "untainted x" and "list_all2 denotes args xs"
  shows "denotes (fst (unknown_length_call items name args)) x' \<and>
    denotes (snd (unknown_length_call items name args)) y"
proof (cases "name = ''get'' \<and> length args = 1 \<and> known_index args \<noteq> None")
  case True
  then obtain i where i: "known_index args = Some i" by auto
  have "xs \<noteq> []" using True assms(3) by (auto dest: list_all2_lengthD)
  then have number: "hd xs = Const (Num i)" using known_index_denotes i assms(3) by blast
  show ?thesis using assms(1)
    by (cases rule: java_call.cases)
      (use True assms(2) number in \<open>auto simp: unknown_length_call_def clean_items_all list_all_length\<close>)
qed (auto simp: unknown_length_call_def)

lemma list_call_sound:
  assumes "java_call (JavaList xs) name ys x' y" and "list_all2 denotes items xs"
    and "list_all2 denotes args ys"
  shows "denotes (fst (list_call items name args)) x' \<and> denotes (snd (list_call items name args)) y"
proof -
  have len: "length items = length xs" "length args = length ys"
    using assms(2,3) by (auto dest: list_all2_lengthD)
  have index: "known_index args = Some i \<Longrightarrow> nat i = j" if "ys = Const (Num (int j)) # zs" for i j zs
    using known_index_denotes [OF _ assms(3)] that by fastforce
  have first: "denotes (argument args 0) (ys ! 0)" if "ys \<noteq> []"
    using argument_denotes [OF assms(3), of 0] that by simp
  have second: "denotes (argument args 1) (ys ! 1)" if "length ys = 2"
    using argument_denotes [OF assms(3), of 1] that by simp
  show ?thesis using assms(1)
  proof (cases rule: java_call.cases)
    case (list_add x)
    then show ?thesis using assms(2) first len
      by (auto simp: list_call_def denotes_items_all2 intro: list_all2_appendI)
  next
    case (list_insert i x)
    note at = index [OF list_insert(2)]
    from list_insert show ?thesis using assms(2) second len at
      by (auto simp: list_call_def Let_def denotes_items_all2 split: option.splits
          intro!: list_all2_appendI list_all2_takeI list_all2_dropI)
  next
    case (list_get i)
    note at = index [OF list_get(2)]
    from list_get show ?thesis using assms(2) len at
      by (auto simp: list_call_def Let_def denotes_items_all2 split: option.splits
          intro: list_all2_nthD)
  next
    case (list_set i x)
    note at = index [OF list_set(2)]
    from list_set show ?thesis using assms(2) second len at
      by (auto simp: list_call_def Let_def denotes_items_all2 split: option.splits
          intro: list_all2_update_cong)
  next
    case (list_remove i)
    note at = index [OF list_remove(2)]
    from list_remove show ?thesis using assms(2) len at
      by (auto simp: list_call_def Let_def denotes_items_all2 split: option.splits
          intro!: list_all2_appendI list_all2_takeI list_all2_dropI intro: list_all2_nthD)
  next
    case other_call
    then have "name \<noteq> ''add''" "name \<noteq> ''get''" "name \<noteq> ''set''" "name \<noteq> ''remove''"
      using known_calls_simps by blast+
    then show ?thesis by (simp add: list_call_def Let_def split: option.splits)
  qed
qed

lemma entry_of_set: "map_entry (jm_set k x m) k' = (if k = k' then x else map_entry m k')"
  by (simp add: map_entry_def jm_get_set)

lemma entries_set:
  assumes "denotes_entries es m" and "denotes v x" and "jm_inv es"
  shows "denotes_entries (jm_set k v es) (jm_set k x m)"
proof -
  have "denotes w (map_entry (jm_set k x m) k')" if "(k', w) \<in> set (jm_set k v es)" for k' w
  proof -
    have "jm_get (jm_set k v es) k' = Some w" using that assms(3) by (metis jm_get_iff jm_inv_set)
    then show ?thesis using assms
      by (auto simp: entry_of_set denotes_entries_all jm_get_iff split: if_splits)
  qed
  then show ?thesis by (auto simp: denotes_entries_all)
qed

lemma entry_denotes:
  assumes "denotes_entries es m" and "jm_inv es"
  shows "denotes (or_else (jm_get es k) Unknown) (map_entry m k)"
  using assms by (cases "jm_get es k") (auto simp: or_else_def denotes_entries_all dest!: jm_get_in)

lemma map_call_sound:
  assumes "java_call (JavaMap m) name ys x' y" and "denotes (MapValue items False) (JavaMap m)"
    and "list_all2 denotes args ys"
  shows "denotes (fst (map_call items name args)) x' \<and> denotes (snd (map_call items name args)) y"
proof -
  have items: "set (jm_keys m) \<subseteq> set (jm_keys items)" "jm_inv m" "jm_inv items" "denotes_entries items m"
    using assms(2) by auto
  have len: "length args = length ys" using assms(3) by (rule list_all2_lengthD)
  have key: "k = k'" if "scalar_value (argument args 0) = Some (Str k)" "ys = Const (Str k') # zs"
    for k k' zs
    using scalar_value_denotes [OF that(1), of "ys ! 0"] argument_denotes [OF assms(3), of 0] that(2) by simp
  have second: "denotes (argument args 1) (ys ! 1)" if "length ys = 2"
    using argument_denotes [OF assms(3), of 1] that by simp
  show ?thesis using assms(1)
  proof (cases rule: java_call.cases)
    case (map_put k x)
    note at = key [OF _ map_put(2)]
    from map_put show ?thesis using items second len at entries_set [OF items(4) _ items(3)]
      by (auto simp: map_call_def Let_def jm_keys_set split: option.splits java_constant.splits)
  next
    case (map_get k)
    note at = key [OF _ map_get(2)]
    from map_get show ?thesis using items len at entry_denotes [OF items(4,3)]
      by (auto simp: map_call_def Let_def split: option.splits java_constant.splits)
  next
    case other_call
    then have "name \<noteq> ''put''" "name \<noteq> ''get''" using known_calls_simps by blast+
    then show ?thesis by (simp add: map_call_def Let_def split: option.splits java_constant.splits)
  qed
qed



section \<open>Joins\<close>

text \<open>The right value knows no map key that the left one does not.\<close>

fun joinable :: "Value \<Rightarrow> Value \<Rightarrow> bool"
  and joinable_items :: "Value list \<Rightarrow> Value list \<Rightarrow> bool"
  and joinable_entries :: "(string \<times> Value) list \<Rightarrow> (string \<times> Value) list \<Rightarrow> bool" where
  "joinable (ListValue vs _ _) w = (case w of ListValue ws _ _ \<Rightarrow> joinable_items vs ws | _ \<Rightarrow> True)"
| "joinable (MapValue es _) w =
    (case w of
       MapValue fs _ \<Rightarrow>
         set (jm_keys fs) \<subseteq> set (jm_keys es) \<and> jm_inv es \<and> jm_inv fs \<and> joinable_entries es fs
     | _ \<Rightarrow> True)"
| "joinable _ w = True"
| "joinable_items [] ws = True"
| "joinable_items (v # vs) ws = (joinable v (argument ws 0) \<and> joinable_items vs (drop 1 ws))"
| "joinable_entries [] fs = True"
| "joinable_entries ((k, v) # es) fs =
    (joinable v (or_else (jm_get fs k) Unknown) \<and> joinable_entries es fs)"

lemma merge_Unknown [simp]: "mergeValue v Unknown = Unknown"
  by (cases v) auto

lemma merge_keys [simp]: "jm_keys (merge_entries es fs) = jm_keys es"
  by (induction es) (auto simp: jm_keys_def)

lemma merge_inv [simp]: "jm_inv (merge_entries es fs) = jm_inv es"
  by (simp add: jm_inv_def)

lemma merge_length [simp]: "length (merge_items vs ws) = length vs"
  by (induction vs arbitrary: ws) auto

text \<open>A safe join had two safe sides.\<close>

lemma merge_safe:
  "joinable v w \<Longrightarrow> isSafe (mergeValue v w) \<Longrightarrow> isSafe v \<and> isSafe w"
  "joinable_items vs ws \<Longrightarrow> length vs = length ws \<Longrightarrow> items_safe (merge_items vs ws) \<Longrightarrow>
    items_safe vs \<and> items_safe ws"
  "joinable_entries es fs \<Longrightarrow> entries_safe (merge_entries es fs) \<Longrightarrow>
    entries_safe es \<and> (\<forall>k \<in> set (jm_keys es). isSafe (or_else (jm_get fs k) Unknown))"
proof (induction v w and vs ws and es fs rule: mergeValue_merge_items_merge_entries.induct)
  case (3 items invalid kind right)
  then show ?case by (auto split: Value.splits if_splits)
next
  case (4 items invalid right)
  then show ?case
  proof (cases right)
    case (MapValue fs invalid')
    have valid: "\<not> invalid" "\<not> invalid'" using 4 MapValue by (auto split: if_splits)
    then have safe: "entries_safe items"
        "\<forall>k \<in> set (jm_keys items). isSafe (or_else (jm_get fs k) Unknown)"
      using 4 MapValue by auto
    have "isSafe w" if "(k, w) \<in> set fs" for k w
    proof -
      have "jm_get fs k = Some w" using that 4(2) MapValue by (simp add: jm_get_iff)
      moreover have "k \<in> set (jm_keys items)" using that 4(2) MapValue by (force simp: jm_keys_def)
      ultimately show ?thesis using safe(2) by (force simp: or_else_def)
    qed
    then show ?thesis using safe(1) valid MapValue by (auto simp: entries_safe_all)
  qed auto
next
  case (7 v vs ws)
  then show ?case by (cases ws) (auto simp: argument_def)
qed (auto simp: jm_keys_def split: Value.splits)

text \<open>After a branch the filter knows no more than both sides do: whichever branch was taken, what
the joined value promises holds of the object, as long as the right branch has no map key that the
left branch lacks.\<close>

theorem joined_value_sound:
  assumes "joinable v w" and "denotes v x \<or> denotes w x"
  shows "denotes (mergeValue v w) x"
proof -
  have "joinable v w \<Longrightarrow> denotes v x \<or> denotes w x \<Longrightarrow> denotes (mergeValue v w) x"
    "joinable_items vs ws \<Longrightarrow> length vs = length ws \<Longrightarrow> denotes_items vs xs \<or> denotes_items ws xs \<Longrightarrow>
      denotes_items (merge_items vs ws) xs"
    "joinable_entries es fs \<Longrightarrow>
      denotes_entries es m \<or> (\<forall>k. denotes (or_else (jm_get fs k) Unknown) (map_entry m k)) \<Longrightarrow>
      denotes_entries (merge_entries es fs) m"
    for vs ws xs es fs m
  proof (induction v w and vs ws and es fs arbitrary: x and xs and m
      rule: mergeValue_merge_items_merge_entries.induct)
    case (1 a r s right)
    then show ?case by (auto split: Value.splits option.splits)
  next
    case (3 items invalid kind right)
    show ?case
    proof (cases right)
      case (ListValue items' invalid' kind')
      show ?thesis
      proof (cases "kind = kind' \<and> isSafe (ListValue items invalid kind) \<and> isSafe right \<and>
          length items \<noteq> length items'")
        case True
        then have "untainted x" using 3(3) isSafe_clean(1) by blast
        then show ?thesis using True by (simp add: ListValue)
      next
        case False
        then show ?thesis
          using 3 ListValue merge_safe(2) [of items items']
          by (auto split: option.splits flavor.splits object.splits)
      qed
    qed auto
  next
    case (4 items invalid right)
    then show ?case
      by (auto split: Value.splits object.splits intro: entry_denotes)
  next
    case (7 v vs ws)
    then show ?case by (cases ws) (auto simp: argument_def split: list.splits)
  qed (auto simp: or_else_def split: Value.splits option.splits)
  then show ?thesis using assms by blast
qed

theorem joined_value_sound_witness:
  "denotes (mergeValue (safe (Some (Str ''a''))) (safe (Some (Str ''b'')))) (Const (Str ''b''))"
  using joined_value_sound [of "safe (Some (Str ''a''))" "safe (Some (Str ''b''))" "Const (Str ''b'')"]
  by (simp add: safe_def)

section \<open>Environments\<close>

lemma join_names_get:
  "jm_get (fold (\<lambda>key. jm_set key (f key)) keys target) k =
    (if k \<in> set keys then Some (f k) else jm_get target k)"
  by (induction keys arbitrary: target) auto

lemma joined_name:
  "k \<in> set (jm_keys left) \<union> set (jm_keys right) \<Longrightarrow>
    jm_get (join_names left right target) k =
      Some (mergeValue (bound_value left k) (bound_value right k))"
  by (simp add: join_names_def join_names_get)

lemma alias_step_keeps:
  "jm_get (snd (alias_step e (seen, target))) k \<in> {jm_get target k, Some Unknown}"
  by (auto simp: alias_step_def Let_def split: prod.splits option.splits)

lemma alias_fold_keeps:
  "jm_get (snd (fold alias_step es state)) k \<in> {jm_get (snd state) k, Some Unknown}"
proof (induction es arbitrary: state)
  case (Cons e es)
  show ?case using Cons [of "alias_step e state"] alias_step_keeps [of e "fst state" "snd state" k] by auto
qed simp

lemma mergeEnvironment_eq:
  "mergeEnvironment target left right =
    snd (fold alias_step right ([], snd (fold alias_step left ([], join_names left right target))))"
  by (simp add: mergeEnvironment_def)

lemma merged_keeps:
  "jm_get (mergeEnvironment target left right) k \<in> {jm_get (join_names left right target) k, Some Unknown}"
  using alias_fold_keeps [of left "([], join_names left right target)" k]
    alias_fold_keeps [of right "([], snd (fold alias_step left ([], join_names left right target)))" k]
  by (auto simp: mergeEnvironment_eq)

definition forgotten :: "(string, Value) jsmap \<Rightarrow> string \<Rightarrow> bool" where
  "forgotten target k = (jm_get target k = Some Unknown)"

text \<open>Every collection met so far is remembered under its first name, and each of its further names
is forgotten with the first.\<close>

definition aliases_ok ::
  "(string \<times> nat \<times> Value) set \<Rightarrow> (nat, string) jsmap \<times> (string, Value) jsmap \<Rightarrow> bool" where
  "aliases_ok entries state =
    (\<forall>(k, object, v) \<in> entries. is_collection v \<longrightarrow>
      (\<exists>f. jm_get (fst state) object = Some f \<and> f \<noteq> [] \<and>
        (k \<noteq> f \<longrightarrow> forgotten (snd state) k \<and> forgotten (snd state) f)))"

lemma aliases_okD:
  assumes "aliases_ok entries state" and "(k, object, v) \<in> entries" and "is_collection v"
  shows "\<exists>f. jm_get (fst state) object = Some f \<and>
    (k \<noteq> f \<longrightarrow> forgotten (snd state) k \<and> forgotten (snd state) f)"
  using bspec [OF assms(1) [unfolded aliases_ok_def] assms(2)] assms(3) by auto

lemma alias_step_ok:
  assumes "aliases_ok entries state" and "fst e \<noteq> []"
  shows "aliases_ok (insert e entries) (alias_step e state)"
proof -
  obtain k object v where e: "e = (k, object, v)" by (cases e) auto
  obtain seen target where state: "state = (seen, target)" by (cases state)
  show ?thesis
  proof (cases "is_collection v")
    case True
    show ?thesis
    proof (cases "jm_get seen object")
      case None
      then show ?thesis using assms True
        by (fastforce simp: aliases_ok_def alias_step_def e state)
    next
      case (Some f)
      then show ?thesis using assms True
        by (fastforce simp: aliases_ok_def alias_step_def e state forgotten_def)
    qed
  next
    case False
    then show ?thesis using assms by (auto simp: aliases_ok_def alias_step_def e state)
  qed
qed

lemma alias_fold_ok:
  assumes "aliases_ok entries state" and "\<forall>e \<in> set es. fst e \<noteq> []"
  shows "aliases_ok (set es \<union> entries) (fold alias_step es state)"
  using assms
proof (induction es arbitrary: state entries)
  case (Cons e es)
  then show ?case using Cons.IH [of "insert e entries" "alias_step e state"] alias_step_ok by simp
qed simp

lemma branch_aliases_forgotten:
  assumes "\<forall>e \<in> set branch. fst e \<noteq> []"
    and "(a, object, v) \<in> set branch" and "(b, object, w) \<in> set branch" and "a \<noteq> b"
    and "is_collection v" and "is_collection w"
  shows "forgotten (snd (fold alias_step branch ([], target))) a"
proof -
  have ok: "aliases_ok (set branch) (fold alias_step branch ([], target))"
    using alias_fold_ok [of "{}" "([], target)" branch] assms(1) by (simp add: aliases_ok_def)
  show ?thesis using aliases_okD [OF ok assms(2,5)] aliases_okD [OF ok assms(3,6)] assms(4) by auto
qed


definition sample_branch :: branch_env where
  "sample_branch =
    [(''xs'', 0, ListValue [safe (Some (Str ''a''))] False None),
     (''ys'', 0, ListValue [safe (Some (Str ''a''))] False None)]"


section \<open>Where a value promises too much\<close>

text \<open>A key that only the right branch put into a map is lost by the join: the joined map counts as
safe while the object of that branch holds text from outside, and a builder that the map is
appended to still ends in a text that counts as constant.\<close>

lemma join_loses_entries_of_right_branch:
  fixes k s :: string
  defines "joined \<equiv> mergeValue (MapValue [] False) (MapValue [(k, Unknown)] False)"
  defines "taken \<equiv> JavaMap [(k, Tainted s)]"
  shows "denotes (MapValue [(k, Unknown)] False) taken" "\<not> untainted taken" "isSafe joined"
    "\<not> denotes joined taken"
    "snd (collectionCall (fst (collectionCall (ListValue [safe (Some (Str []))] False (Some StringBuilder))
      ''append'' [joined])) ''toString'' []) = safe None"
  by (simp_all add: joined_def taken_def jm_keys_def jm_inv_def collectionCall_def builder_call_def
      builder_edits_def safe_def Let_def)

text \<open>A character literal is kept as a text, so a sum with it is a concatenation, where Java adds the
character's code: the sum of the character a and 1 is 98 there.\<close>

lemma character_sum_is_text:
  "binaryValues [safe (literal [CHR 0x27, CHR ''a'', CHR 0x27]), safe (literal ''1'')] [''+''] =
    safe (Some (Str ''a1''))"
  by code_simp

end
