(* ===== verification/Spec2Isabelle.thy ===== *)
theory Spec2Isabelle
  imports FindingGroupProps FindingClusters FindingPairs CoverageLedger ScanOutcome ScanProgress ExecutionPlan
    ProfessionalRunGroup RuntimeSession ProcessCapacity WriterCodec WriterQueue StrictJsonBytes PluginActivation
    RulesOfEngagement DastCoverage AuthorizationDiff DiffScanPlan PromptBudget IssueMerge
    SupervisorOutcome JavaValueSoundness
begin

text \<open>
  Vlun Workbench runs profiles of security scanners over a repository, groups what they find, keeps a ledger of
  what was covered, and answers with an outcome and a gate. This development models the decisions of that pipeline
  as functions and state machines over the source's own data. File names are relative to \<open>src/\<close>;
  \<open>execution/\<close> abbreviates \<open>api/modules/scans/execution/\<close>.

  Layers, from the bottom up:

  \<^item> Preludes. \<open>JsPrelude\<close>: stable sort, \<open>Set\<close> and \<open>Map\<close> in insertion order, results (a sum of error and value),
    folds that stop at an error; its locales state the laws of a comparator and of a map and are interpreted on the
    model's own. \<open>JsText\<close>: strings, digits, number texts, code unit order. \<open>JsValue\<close>: JSON values and their printing.
    \<open>StableJson\<close>: the canonical text by which plans are hashed. \<open>StepMachine\<close>: runs of a machine of events; the locales
    \<open>machine\<close> (an invariant of the start and of every event holds of every run) and \<open>draining_machine\<close> are interpreted
    by the components with a state of their own.
  \<^item> Findings. \<open>FindingIdentity\<close> is \<open>findings/finding-dedupe-identity.ts\<close> and \<open>finding-dedupe-families.ts\<close>: the projection of a
    raw finding. \<open>FindingGrouping\<close>, \<open>FindingPairs\<close>, \<open>FindingClusters\<close>, \<open>FindingGroupResult\<close> are
    \<open>finding-grouping-engine.ts\<close>: blocks, decisions on pairs within a budget, complete-link merging, representatives and
    the snapshot. \<open>FindingGroupProps\<close>: a partition, complete link, maximality, independence of order, and that the
    text of a secret influences nothing. \<open>FindingGroupSamples\<close> holds concrete findings.
  \<^item> Execution. \<open>ScanContracts\<close>: the schemas under \<open>shared/schemas\<close> of capabilities, reason codes, profiles and step results.
    \<open>ExecutionPlan\<close> is \<open>execution/scan-execution-plan-builder.ts\<close>; \<open>StepResults\<close> are the results of steps that do not run and
    the normalised form; \<open>StepOrchestrator\<close> is the loop of \<open>execution/profile-step-orchestrator.ts\<close> with its
    \<open>try/finally\<close>, one step of the scanners being a parameter; \<open>ScanProgress\<close> the events and the progress they project to;
    \<open>CoverageLedger\<close> is \<open>scans/coverage/coverage-ledger.ts\<close>; \<open>ScanOutcome\<close> the gate, the coverage of runtime and source
    analysis and the finalisation. The last section of this file composes plan, run and finalisation.
  \<^item> Around a run. \<open>ProfessionalRunGroup\<close> is \<open>execution/professional-run-group.ts\<close>; \<open>RuntimeSession\<close> the shared target of
    \<open>execution/shared-runtime-target.ts\<close>; \<open>ProcessCapacity\<close> is \<open>processes/web-process-capacity.ts\<close>; \<open>WriterCodec\<close> and
    \<open>WriterQueue\<close> are \<open>db/writer/codec.ts\<close> and \<open>queue.ts\<close>. The last three are machines: the state is a record of the
    object's fields together with a history of what was promised, granted or settled, an event is a call or the end of
    an awaited operation.
  \<^item> Supervision. \<open>ScanSupervisor\<close> is \<open>execution/scan-process-supervisor.ts\<close> with the guarded updates of \<open>scans/repositories.ts\<close>: every
    asynchronous function is a point of control that an event moves on, so all interleavings at the awaits are runs.
    \<open>LeaseOwnership\<close> is its specification, a relation of steps on pending entries, owned processes and leases over
    \<open>ProcessCapacity\<close>; \<open>SupervisorRefinement\<close> shows that every event refines it (locale \<open>refining_machine\<close>) and that owned
    processes are exclusive and leases come back; \<open>SupervisorOutcome\<close> that final statuses stay and handled scans are settled.
  \<^item> Documents and plugins. \<open>StrictJson\<close>, \<open>StrictJsonText\<close>, \<open>StrictJsonBytes\<close> are
    \<open>api-schema-fuzz/strict-json-document.ts\<close> on UTF-16 code units and UTF-8 bytes, with a reference printer for the round
    trip. \<open>PathPatterns\<close>, \<open>PluginRegistry\<close>, \<open>PluginActivation\<close> are \<open>project-capabilities/\<close>: globs, the registry's checks and
    order, the least fixed point of active plugins, the capability plan and the execution summary.
  \<^item> Dynamic tests. \<open>DastScope\<close> is \<open>shared/schemas/http-target.schema.ts\<close>; \<open>DastTarget\<close> is
    \<open>dast/target-validator.ts\<close> with address classes on 32-bit words; \<open>RulesOfEngagement\<close> is \<open>dast/rules-of-engagement.ts\<close>;
    \<open>DastCoverage\<close> the request budget, the inventory of routes and the evaluation of the coverage.

  \<^item> Scopes and diffs. \<open>TargetScope\<close> is \<open>scans/target-scope.ts\<close> over trees of directory entries: which files a scan copies
    and which it digests. \<open>GitDiff\<close> is the resolution of a diff under \<open>execution/diff/\<close>: Git's records, paths, links and
    limits; \<open>DiffScanPlan\<close> turns a resolved diff into counts, tools and identities.
  \<^item> Authorization boundaries. \<open>AuthorizationDiff\<close> is \<open>security-intelligence/authorization-boundary-diff.ts\<close>: the changes between
    two snapshots, renames included, and the schema that every diff has to satisfy.
  \<^item> Handoff. \<open>PromptBudget\<close> packs warning groups into prompts of bounded length, compressing a group that is too long alone;
    \<open>IssueMerge\<close> merges the tasks and priorities that were answered, so that no issue is lost. Both are under \<open>scans/handoff/\<close>.
  \<^item> Java taint precision. \<open>JavaConstantValues\<close> is \<open>scans/tools/java-constant-values.ts\<close>, with the literals of
    \<open>java-source-analysis.ts\<close> and \<open>java-standard-values.ts\<close>: the values by which a reported sink is shown to receive only
    constants. \<open>JavaFolding\<close>: the two-stack reduction evaluates the one grouping of an expression, and folds of integers
    are Java's 32-bit arithmetic; its locale \<open>sound_operator\<close> is interpreted for the range of numbers and, in
    \<open>JavaValueMeaning\<close>, for what values promise of objects. \<open>JavaValueSoundness\<close>: calls on collections and joins of
    branches keep the promise, and where a join does not.

  Parameters. SHA-256, URL parsing, the collation of \<open>localeCompare\<close>, name resolution, the scanners, the detectors of
  plugins, Git and its trees, and the provider of runtime targets are arguments of the definitions; where a theorem needs a law of one of
  them (a collation is a total order that tells keys apart) it is a named hypothesis, and its witness gives an instance.

  Bounds. The JSON reader has fuel \<open>2 * length + 1\<close>, because every second call consumes a unit; \<open>parsing_ends\<close>
  shows that it never runs out. The visit of the plugins has fuel one more than the number of plugins, because
  the path of visited plugins has no repetition. The chase of committed links has fuel 32, the source's own limit of steps. The loop of activation ends when a pass adds nothing; a measure shows it.
  Numbers that the source keeps in the safe range are integers or rationals.

  Theorems that start with the word defect state what the code does where it departs from what it means to do.

  Not modelled: processes, containers and their leases (effects of the operating system), the command lines of
  external scanners and the parsers of their reports, crawlers and browsers, the source graph built on a compiler, the
  texts of reports and of prompts, the routes of the server, the command line and the user interface. They are input
  and output around the decisions above; the manifest lists each with its reason.
\<close>

section \<open>From the preflight to the exit code\<close>

text \<open>C4. A blocked check fails a strict scan: if a profile is strict and some check of a step that is neither advisory nor an
  inventory is blocked for a reason, and no check of the step says not applicable, then a run of the steps under the
  compiled plan that returns is finalised as failed: the scan is not ok and the gate does not pass, whatever the
  scanners report.\<close>

theorem strict_blocked_check_fails_scan:
  assumes "buildScanExecutionPlan h is_uuid rq = Inr plan" and "pr_strictness (rq_profile rq) = Some Strict"
    and "distinct (map step_id (rq_steps rq))" and "step \<in> set (rq_steps rq)" and "\<not> advisory_step step"
    and "c \<in> set (checks_of (rq_preflight rq) (step_id step))" and "ck_status c = CheckBlocked"
    and "ck_reasonCode c = Some reason" and "reason \<noteq> []"
    and "list_all (\<lambda>c. ck_status c \<noteq> CheckNotApplicable) (checks_of (rq_preflight rq) (step_id step))"
    and "op_plannedSteps p = cn_steps plan" and "op_enforced p"
    and "executeProfileSteps env p (applyExecutionPlanToSteps (rq_steps rq) (cn_steps plan)) r = (Inr s, es)"
    and "finalizeProfileScan h i = Inr z" and "fi_profileFailingToolFailed i = os_profileFailingToolFailed s"
  shows "fz_profileOutcome z = OutcomeFailed \<and> \<not> fz_ok z \<and> ge_gateDecision (fz_gate z) \<noteq> GatePass"
proof -
  let ?planned = "plan_step_of Strict (rq_preflight rq) step"
  have steps: "cn_steps plan = map (plan_step_of Strict (rq_preflight rq)) (rq_steps rq)"
    using build_plan_cases(3) [OF assms(1)] assms(2) by simp
  have none: "\<not> list_ex (\<lambda>c. ck_status c = CheckNotApplicable) (checks_of (rq_preflight rq) (step_id step))"
    using assms(10) by (auto simp: list_all_iff list_ex_iff)
  note applied = applied_steps [OF assms(4,3) steps]
  have "pl_required ?planned" using strict_required [OF assms(5)] none by simp
  then obtain a where a: "a \<in> set (applyExecutionPlanToSteps (rq_steps rq) (cn_steps plan))"
    "step_id a = step_id step" "failure_fails_profile a" using applied(1) by blast
  have "run_all_steps env p (applyExecutionPlanToSteps (rq_steps rq) (cn_steps plan)) (initial_state p r) = (None, s)"
    by (rule executeProfileSteps_ok(1) [OF assms(13)])
  then have "os_profileFailingToolFailed s"
  proof (rule run_all_steps_blocked [OF a(1)])
    show "planned_of p (step_id a) = Some ?planned"
      unfolding planned_of_def a(2) assms(11) by (rule applied(2))
    show "pl_applicability ?planned \<noteq> NotApplicable" using none by (simp add: planned_not_applicable)
    show "pl_readiness ?planned = ReadinessBlocked" by (rule planned_blocked [OF assms(6,7)])
    show "pl_reasonCodes ?planned \<noteq> []" using planned_reason [OF assms(6,8,9), of Strict] by force
  qed (rule assms(12) a(3))+
  then have outcome: "fz_profileOutcome z = OutcomeFailed"
    using finalize_cases(2) [OF assms(14)] assms(15) by (simp add: decide_outcome_def)
  moreover have "\<not> fz_ok z" using finalize_cases(4) [OF assms(14)] outcome by simp
  moreover have "ge_gateDecision (fz_gate z) \<noteq> GatePass"
    unfolding finalize_cases(3) [OF assms(14)] gate_pass_char using outcome by simp
  ultimately show ?thesis by simp
qed

lemma strict_blocked_check_fails_scan_witness:
  "\<exists>plan s es z. buildScanExecutionPlan sample_host (\<lambda>s. True)
       (sample_request [sample_check CheckBlocked (Some ''tool_unavailable'')]) = Inr plan
     \<and> executeProfileSteps sample_env (sample_params (cn_steps plan))
         (applyExecutionPlanToSteps [sample_step ''osv''] (cn_steps plan)) () = (Inr s, es)
     \<and> finalizeProfileScan sample_host ((sample_finalize GatePolicy [])
         \<lparr>fi_profileFailingToolFailed := os_profileFailingToolFailed s\<rparr>) = Inr z
     \<and> fz_profileOutcome z = OutcomeFailed \<and> \<not> fz_ok z"
proof -
  let ?c = "sample_check CheckBlocked (Some ''tool_unavailable'')" and ?st = "sample_step ''osv''"
  let ?rq = "sample_request [?c]"
  obtain plan where plan: "buildScanExecutionPlan sample_host (\<lambda>s. True) ?rq = Inr plan"
    using sample_plans by blast
  have rq: "rq_steps ?rq = [?st]" "pr_strictness (rq_profile ?rq) = Some Strict" "step_id ?st = ''osv''"
    "\<not> advisory_step ?st" "checks_of (rq_preflight ?rq) ''osv'' = [?c]"
    by (simp_all add: sample_request_def sample_step_def step_id_def advisory_step_def checks_of_def
        sample_preflight_def sample_check_def)
  let ?p = "sample_params (cn_steps plan)" and ?steps = "applyExecutionPlanToSteps [?st] (cn_steps plan)"
  have planned: "cn_steps plan = [plan_step_of Strict (rq_preflight ?rq) ?st]"
    using build_plan_cases(3) [OF plan] by (simp add: rq)
  have "list_all (\<lambda>step. planned_of ?p (step_id step) \<noteq> None) ?steps"
    by (simp add: planned applyExecutionPlanToSteps_def planned_of_def sample_params_def jm_of_list_def jm_get_def
        step_id_def split: option.split)
  then obtain s es where run: "executeProfileSteps sample_env ?p ?steps () = (Inr s, es)"
    using sample_env_returns by blast
  obtain z where z: "finalizeProfileScan sample_host ((sample_finalize GatePolicy [])
      \<lparr>fi_profileFailingToolFailed := os_profileFailingToolFailed s\<rparr>) = Inr z" using sample_finalize_total by blast
  have c: "ck_status ?c = CheckBlocked" "ck_reasonCode ?c = Some ''tool_unavailable''" by (simp_all add: sample_check_def)
  have run': "executeProfileSteps sample_env ?p (applyExecutionPlanToSteps (rq_steps ?rq) (cn_steps plan)) () = (Inr s, es)"
    unfolding rq by (rule run)
  have params: "op_plannedSteps ?p = cn_steps plan" "op_enforced ?p" by (simp_all add: sample_params_def)
  have "fz_profileOutcome z = OutcomeFailed \<and> \<not> fz_ok z \<and> ge_gateDecision (fz_gate z) \<noteq> GatePass"
    by (rule strict_blocked_check_fails_scan [OF plan rq(2) _ _ rq(4) _ c _ _ params run' z]) (simp_all add: rq c)
  then show ?thesis using plan run z by blast
qed

end
